(* ===== verification/Prelude.thy ===== *)
theory Prelude
  imports Main "HOL-Library.AList"
begin

text \<open>
  Shared vocabulary of the development.

  \<^item> Go errors as values: the sentinel errors of
    \<^verbatim>\<open>arhat.dev/pkg/wellknownerrors\<close> and of \<^verbatim>\<open>storageutil\<close>, errors made with
    \<^verbatim>\<open>errors.New\<close>, and wrapping with \<^verbatim>\<open>fmt.Errorf("...: %w", err)\<close>, with
    \<^verbatim>\<open>errors.Is\<close> as a recursive function over the wrapping.
  \<^item> Effects: a Go function that may fail or panic and that changes the outside
    world is an action, a function from the world to an outcome and the next
    world. \<^verbatim>\<open>if err != nil { return err }\<close> is sequencing, \<^verbatim>\<open>_ = f()\<close> is
    \<open>ignore\<close>, an inspected error is \<open>attempt\<close>, and \<^verbatim>\<open>defer\<close> comes in the two
    shapes the program uses.
  \<^item> Go maps: association lists with distinct keys. The list order is the order in
    which \<^verbatim>\<open>range\<close> visits the entries; results that must not depend on it are
    stated through the lookup function.
\<close>

section \<open>Collections of proof rules\<close>

named_theorems act_eval \<open>evaluation of actions once the outcome of their first part is known\<close>
named_theorems frame_intros \<open>composition rules for world relations kept by actions\<close>

section \<open>Errors\<close>

datatype goerr =
    ErrNotFound
  | ErrAlreadyExists
  | ErrNotSupported
  | ErrInvalidOperation
  | ErrMountpointInUse
  | ErrMountpointInProcess
  | CtxErr
  | ErrNew string
  | ErrWrap string goerr
  | ErrorMsg string int
  | ErrExt string
  | ErrMulti "goerr list"

text \<open>\<^verbatim>\<open>errors.Is(err, target)\<close>: equality anywhere along the chain of wrapped errors.\<close>

fun errors_Is :: "goerr \<Rightarrow> goerr \<Rightarrow> bool" where
  "errors_Is (ErrWrap m e) t = (ErrWrap m e = t \<or> errors_Is e t)"
| "errors_Is (ErrMulti es) t = (ErrMulti es = t \<or> list_ex (\<lambda>e. errors_Is e t) es)"
| "errors_Is e t = (e = t)"

text \<open>\<^verbatim>\<open>strings.Join\<close>, and \<^verbatim>\<open>err.Error()\<close>. Every \<^verbatim>\<open>ErrorMsg\<close> the program makes has kind
  \<^verbatim>\<open>ERR_COMMON\<close>.\<close>

fun joinStr :: "string \<Rightarrow> string list \<Rightarrow> string" where
  "joinStr sep [] = []"
| "joinStr sep [x] = x"
| "joinStr sep (x # y # zs) = x @ sep @ joinStr sep (y # zs)"

fun err_Error :: "goerr \<Rightarrow> string" where
  "err_Error ErrNotFound = ''not found''"
| "err_Error ErrAlreadyExists = ''already exists''"
| "err_Error ErrNotSupported = ''not supported''"
| "err_Error ErrInvalidOperation = ''invalid operation''"
| "err_Error ErrMountpointInUse = ''already in use''"
| "err_Error ErrMountpointInProcess = ''already in process''"
| "err_Error CtxErr = ''context canceled''"
| "err_Error (ErrNew m) = m"
| "err_Error (ErrWrap m e) = m @ '': '' @ err_Error e"
| "err_Error (ErrorMsg m code) = ''ERR_COMMON/'' @ m"
| "err_Error (ErrExt m) = m"
| "err_Error (ErrMulti es) = joinStr ''; '' (map err_Error es)"

lemma errors_Is_refl [simp]: "errors_Is e e"
  by (cases e) simp_all

lemma errors_Is_wrap [simp]: "errors_Is e t \<Longrightarrow> errors_Is (ErrWrap m e) t"
  by simp

section \<open>Outcomes and actions\<close>

datatype 'a outcome = Ok 'a | Err goerr | Panic string

type_synonym ('w, 'a) act = "'w \<Rightarrow> 'a outcome \<times> 'w"

definition ret :: "'a \<Rightarrow> ('w, 'a) act" where
  "ret a w = (Ok a, w)"

definition throw :: "goerr \<Rightarrow> ('w, 'a) act" where
  "throw e w = (Err e, w)"

definition panic :: "string \<Rightarrow> ('w, 'a) act" where
  "panic s w = (Panic s, w)"

definition andThen :: "('w, 'a) act \<Rightarrow> ('a \<Rightarrow> ('w, 'b) act) \<Rightarrow> ('w, 'b) act" where
  "andThen m f w =
     (case m w of (Ok a, w') \<Rightarrow> f a w' | (Err e, w') \<Rightarrow> (Err e, w') | (Panic s, w') \<Rightarrow> (Panic s, w'))"

text \<open>The caller looks at the error instead of returning it.\<close>

definition attempt :: "('w, 'a) act \<Rightarrow> ('w, goerr + 'a) act" where
  "attempt m w =
     (case m w of (Ok a, w') \<Rightarrow> (Ok (Inr a), w') | (Err e, w') \<Rightarrow> (Ok (Inl e), w')
      | (Panic s, w') \<Rightarrow> (Panic s, w'))"

definition ignore :: "('w, 'a) act \<Rightarrow> ('w, unit) act" where
  "ignore m = andThen (attempt m) (\<lambda>_. ret ())"

text \<open>\<^verbatim>\<open>if err != nil { return fmt.Errorf("msg: %w", err) }\<close>\<close>

definition wrapErr :: "string \<Rightarrow> ('w, 'a) act \<Rightarrow> ('w, 'a) act" where
  "wrapErr msg m w = (case m w of (Err e, w') \<Rightarrow> (Err (ErrWrap msg e), w') | r \<Rightarrow> r)"

text \<open>
  \<^verbatim>\<open>defer func() { if err != nil { d } }()\<close> with \<open>err\<close> the named result: \<open>d\<close> runs
  after the body, only when the body returned an error, and cannot change the result.
  A panic of the body leaves \<open>err\<close> nil in every place the program uses this shape,
  so \<open>d\<close> does not act then; a panic of \<open>d\<close> itself replaces the result.
\<close>

definition deferErr :: "('w, 'a) act \<Rightarrow> (goerr \<Rightarrow> ('w, unit) act) \<Rightarrow> ('w, 'a) act" where
  "deferErr m d w =
     (case m w of
        (Err e, w') \<Rightarrow> (case d e w' of (Panic s, w'') \<Rightarrow> (Panic s, w'') | (_, w'') \<Rightarrow> (Err e, w''))
      | r \<Rightarrow> r)"

text \<open>\<^verbatim>\<open>defer d()\<close>: \<open>d\<close> runs on every exit, panics included.\<close>

definition deferAlways :: "('w, 'a) act \<Rightarrow> ('w, unit) act \<Rightarrow> ('w, 'a) act" where
  "deferAlways m d w =
     (case m w of (r, w') \<Rightarrow> (case d w' of (Panic s, w'') \<Rightarrow> (Panic s, w'') | (_, w'') \<Rightarrow> (r, w'')))"

text \<open>\<^verbatim>\<open>for _, x := range xs\<close> whose body may return early with an error.\<close>

fun forEach :: "'a list \<Rightarrow> ('a \<Rightarrow> ('w, 'b) act) \<Rightarrow> ('w, 'b list) act" where
  "forEach [] f = ret []"
| "forEach (x # xs) f = andThen (f x) (\<lambda>y. andThen (forEach xs f) (\<lambda>ys. ret (y # ys)))"

lemma ret_eval [simp, act_eval]: "ret a w = (Ok a, w)"
  by (simp add: ret_def)

lemma throw_eval [simp, act_eval]: "throw e w = (Err e, w)"
  by (simp add: throw_def)

lemma panic_eval [simp, act_eval]: "panic s w = (Panic s, w)"
  by (simp add: panic_def)

lemma andThen_Ok [act_eval]: "m w = (Ok a, w') \<Longrightarrow> andThen m f w = f a w'"
  by (simp add: andThen_def)

lemma andThen_Err [act_eval]: "m w = (Err e, w') \<Longrightarrow> andThen m f w = (Err e, w')"
  by (simp add: andThen_def)

lemma andThen_Panic [act_eval]: "m w = (Panic s, w') \<Longrightarrow> andThen m f w = (Panic s, w')"
  by (simp add: andThen_def)

lemma andThen_ret [simp]: "andThen (ret a) f = f a"
  by (rule ext) (simp add: andThen_def)

lemma andThen_throw [simp]: "andThen (throw e) f = throw e"
  by (rule ext) (simp add: andThen_def)

lemma andThen_panic [simp]: "andThen (panic s) f = panic s"
  by (rule ext) (simp add: andThen_def)

lemma andThen_ret_right [simp]: "andThen m ret = m"
  by (rule ext) (simp add: andThen_def split: outcome.splits prod.splits)

lemma andThen_assoc: "andThen (andThen m f) g = andThen m (\<lambda>a. andThen (f a) g)"
  by (rule ext) (simp add: andThen_def split: outcome.splits prod.splits)

lemma attempt_Ok [act_eval]: "m w = (Ok a, w') \<Longrightarrow> attempt m w = (Ok (Inr a), w')"
  by (simp add: attempt_def)

lemma attempt_Err [act_eval]: "m w = (Err e, w') \<Longrightarrow> attempt m w = (Ok (Inl e), w')"
  by (simp add: attempt_def)

lemma attempt_Panic [act_eval]: "m w = (Panic s, w') \<Longrightarrow> attempt m w = (Panic s, w')"
  by (simp add: attempt_def)

lemma attempt_never_Err: "fst (attempt m w) \<noteq> Err e"
  by (simp add: attempt_def split: outcome.splits prod.splits)

lemma ignore_Ok [act_eval]: "m w = (Ok a, w') \<Longrightarrow> ignore m w = (Ok (), w')"
  by (simp add: ignore_def act_eval)

lemma ignore_Err [act_eval]: "m w = (Err e, w') \<Longrightarrow> ignore m w = (Ok (), w')"
  by (simp add: ignore_def act_eval)

lemma ignore_Panic [act_eval]: "m w = (Panic s, w') \<Longrightarrow> ignore m w = (Panic s, w')"
  by (simp add: ignore_def act_eval)

lemma snd_ignore [simp]: "snd (ignore m w) = snd (m w)"
  by (simp add: ignore_def andThen_def attempt_def split: outcome.splits prod.splits)

lemma wrapErr_Ok [act_eval]: "m w = (Ok a, w') \<Longrightarrow> wrapErr msg m w = (Ok a, w')"
  by (simp add: wrapErr_def)

lemma wrapErr_Err [act_eval]: "m w = (Err e, w') \<Longrightarrow> wrapErr msg m w = (Err (ErrWrap msg e), w')"
  by (simp add: wrapErr_def)

lemma wrapErr_Panic [act_eval]: "m w = (Panic s, w') \<Longrightarrow> wrapErr msg m w = (Panic s, w')"
  by (simp add: wrapErr_def)

lemma wrapErr_OkD: "wrapErr msg m w = (Ok a, w') \<Longrightarrow> m w = (Ok a, w')"
  by (simp add: wrapErr_def split: outcome.splits prod.splits)

lemma deferErr_Ok [act_eval]: "m w = (Ok a, w') \<Longrightarrow> deferErr m d w = (Ok a, w')"
  by (simp add: deferErr_def)

lemma deferErr_Panic [act_eval]: "m w = (Panic s, w') \<Longrightarrow> deferErr m d w = (Panic s, w')"
  by (simp add: deferErr_def)

lemma deferErr_OkD: "deferErr m d w = (Ok a, w') \<Longrightarrow> m w = (Ok a, w')"
  by (simp add: deferErr_def split: outcome.splits prod.splits)

lemma deferErr_ErrE:
  assumes "deferErr m d w = (Err e, w'')"
  obtains w' where "m w = (Err e, w')" and "snd (d e w') = w''" and "\<And>s. fst (d e w') \<noteq> Panic s"
  using assms by (fastforce simp: deferErr_def split: outcome.splits prod.splits)

lemma andThen_OkE:
  assumes "andThen m f w = (Ok b, w'')"
  obtains a w' where "m w = (Ok a, w')" and "f a w' = (Ok b, w'')"
  using assms by (auto simp: andThen_def split: outcome.splits prod.splits)

lemma andThen_ErrE:
  assumes "andThen m f w = (Err e, w'')"
  obtains (first) "m w = (Err e, w'')" | (second) a w' where "m w = (Ok a, w')" and "f a w' = (Err e, w'')"
  using assms by (auto simp: andThen_def split: outcome.splits prod.splits)

lemma forEach_Ok_length: "forEach xs f w = (Ok ys, w') \<Longrightarrow> length ys = length xs"
  by (induction xs arbitrary: w ys) (auto elim!: andThen_OkE)

section \<open>Relations between worlds kept by an action\<close>

text \<open>
  \<open>keeps R m\<close>: every run of \<open>m\<close>, whatever its outcome, relates its start and end
  worlds by \<open>R\<close>. For a reflexive and transitive \<open>R\<close> it composes along the whole
  program, which is how frame properties of the handlers are proved.
\<close>

definition keeps :: "('w \<Rightarrow> 'w \<Rightarrow> bool) \<Rightarrow> ('w, 'a) act \<Rightarrow> bool" where
  "keeps R m \<longleftrightarrow> (\<forall>w. R w (snd (m w)))"

lemma keepsD: "keeps R m \<Longrightarrow> m w = (r, w') \<Longrightarrow> R w w'"
  by (metis keeps_def snd_conv)

locale world_rel =
  fixes R :: "'w \<Rightarrow> 'w \<Rightarrow> bool"
  assumes rel_refl: "R w w"
    and rel_trans: "R u v \<Longrightarrow> R v w \<Longrightarrow> R u w"
begin

lemma keeps_ret: "keeps R (ret a)"
  by (simp add: keeps_def rel_refl)

text \<open>The simplifier turns \<open>ret\<close>, \<open>throw\<close> and \<open>panic\<close> into a pairing with the world.\<close>

lemma keeps_Pair: "keeps R (Pair r)"
  by (simp add: keeps_def rel_refl)

lemma keeps_throw: "keeps R (throw e)"
  by (simp add: keeps_def rel_refl)

lemma keeps_panic: "keeps R (panic s)"
  by (simp add: keeps_def rel_refl)

lemma keeps_andThen: "keeps R m \<Longrightarrow> (\<And>a. keeps R (f a)) \<Longrightarrow> keeps R (andThen m f)"
  by (auto simp: keeps_def andThen_def split: outcome.splits prod.splits)
     (metis rel_trans snd_conv)+

lemma keeps_attempt: "keeps R m \<Longrightarrow> keeps R (attempt m)"
  by (auto simp: keeps_def attempt_def split: outcome.splits prod.splits) (metis snd_conv)+

lemma keeps_ignore: "keeps R m \<Longrightarrow> keeps R (ignore m)"
  by (simp add: keeps_def)

lemma keeps_wrapErr: "keeps R m \<Longrightarrow> keeps R (wrapErr s m)"
  by (auto simp: keeps_def wrapErr_def split: outcome.splits prod.splits) (metis snd_conv)+

lemma keeps_deferErr: "keeps R m \<Longrightarrow> (\<And>e. keeps R (d e)) \<Longrightarrow> keeps R (deferErr m d)"
  by (auto simp: keeps_def deferErr_def split: outcome.splits prod.splits)
     (metis rel_trans snd_conv)+

lemma keeps_deferAlways: "keeps R m \<Longrightarrow> keeps R d \<Longrightarrow> keeps R (deferAlways m d)"
  by (auto simp: keeps_def deferAlways_def split: outcome.splits prod.splits)
     (metis rel_trans snd_conv)+

lemma keeps_forEach: "(\<And>x. x \<in> set xs \<Longrightarrow> keeps R (f x)) \<Longrightarrow> keeps R (forEach xs f)"
  by (induction xs) (auto intro!: keeps_ret keeps_andThen)

lemmas keeps_rules =
  keeps_ret keeps_Pair keeps_throw keeps_panic keeps_andThen keeps_attempt keeps_ignore keeps_wrapErr
  keeps_deferErr keeps_deferAlways keeps_forEach

end

text \<open>An invariant of the world is a relation of this kind.\<close>

definition if_then_inv :: "('w \<Rightarrow> bool) \<Rightarrow> 'w \<Rightarrow> 'w \<Rightarrow> bool" where
  "if_then_inv I w w' \<longleftrightarrow> (I w \<longrightarrow> I w')"

interpretation inv: world_rel "if_then_inv I" for I
  by unfold_locales (simp_all add: if_then_inv_def)

section \<open>Lists\<close>

lemma distinct_singleton: "set xs = {x} \<Longrightarrow> distinct xs \<Longrightarrow> xs = [x]"
  by (cases xs rule: remdups_adj.cases) auto

section \<open>Go maps\<close>

type_synonym ('k, 'v) gomap = "('k \<times> 'v) list"
type_synonym labels = "(string, string) gomap"

definition gm_wf :: "('k, 'v) gomap \<Rightarrow> bool" where
  "gm_wf m \<longleftrightarrow> distinct (map fst m)"

definition gm_put :: "'k \<Rightarrow> 'v \<Rightarrow> ('k, 'v) gomap \<Rightarrow> ('k, 'v) gomap" where
  "gm_put k v m = AList.update k v m"

definition gm_del :: "'k \<Rightarrow> ('k, 'v) gomap \<Rightarrow> ('k, 'v) gomap" where
  "gm_del k m = AList.delete k m"

text \<open>\<^verbatim>\<open>m[k]\<close> on a map of strings: the zero value for an absent key.\<close>

definition gm_str :: "('k, string) gomap \<Rightarrow> 'k \<Rightarrow> string" where
  "gm_str m k = (case map_of m k of None \<Rightarrow> '''' | Some v \<Rightarrow> v)"

text \<open>\<^verbatim>\<open>for k, v := range src { dst[k] = v }\<close>\<close>

fun gm_copy :: "('k, 'v) gomap \<Rightarrow> ('k, 'v) gomap \<Rightarrow> ('k, 'v) gomap" where
  "gm_copy [] dst = dst"
| "gm_copy ((k, v) # src) dst = gm_copy src (gm_put k v dst)"

text \<open>The contract of a finite map, with the two loops over maps proved against it.\<close>

locale finite_map =
  fixes look :: "'m \<Rightarrow> 'k \<Rightarrow> 'v option"
    and put :: "'k \<Rightarrow> 'v \<Rightarrow> 'm \<Rightarrow> 'm"
    and del :: "'k \<Rightarrow> 'm \<Rightarrow> 'm"
    and wf :: "'m \<Rightarrow> bool"
  assumes look_put: "look (put k v m) = (look m)(k \<mapsto> v)"
    and look_del: "look (del k m) = (look m)(k := None)"
    and wf_put: "wf m \<Longrightarrow> wf (put k v m)"
    and wf_del: "wf m \<Longrightarrow> wf (del k m)"
begin

lemma look_put_all:
  "distinct (map fst src) \<Longrightarrow>
   look (fold (\<lambda>(k, v). put k v) src dst) = look dst ++ map_of src"
proof (induction src arbitrary: dst)
  case Nil
  then show ?case by simp
next
  case (Cons p src)
  obtain k v where p: "p = (k, v)" by (cases p)
  with Cons have nk: "map_of src k = None" and d: "distinct (map fst src)"
    by (auto simp: map_of_eq_None_iff)
  have "look (fold (\<lambda>(k, v). put k v) (p # src) dst) = (look dst)(k \<mapsto> v) ++ map_of src"
    using Cons.IH [OF d, of "put k v dst"] by (simp add: p look_put fun_upd_def)
  also have "\<dots> = look dst ++ map_of (p # src)"
    using nk by (auto simp: p map_add_def fun_eq_iff split: option.splits)
  finally show ?case .
qed

lemma wf_put_all: "wf dst \<Longrightarrow> wf (fold (\<lambda>(k, v). put k v) src dst)"
  by (induction src arbitrary: dst) (auto intro: wf_put)

end

interpretation gm: finite_map map_of gm_put gm_del gm_wf
  by unfold_locales
     (simp_all add: gm_put_def gm_del_def gm_wf_def update_conv' delete_conv' distinct_update
        distinct_delete)

lemma gm_copy_fold: "gm_copy src dst = fold (\<lambda>(k, v). gm_put k v) src dst"
  by (induction src dst rule: gm_copy.induct) simp_all

lemma map_of_gm_copy: "gm_wf src \<Longrightarrow> map_of (gm_copy src dst) = map_of dst ++ map_of src"
  by (simp add: gm_copy_fold gm.look_put_all gm_wf_def)

lemma gm_wf_copy: "gm_wf dst \<Longrightarrow> gm_wf (gm_copy src dst)"
  by (simp add: gm_copy_fold gm.wf_put_all)

lemma gm_wf_Nil [simp]: "gm_wf []"
  by (simp add: gm_wf_def)

lemma gm_card: "gm_wf m \<Longrightarrow> length m = card (dom (map_of m))"
  using distinct_card [of "map fst m"] by (simp add: gm_wf_def dom_map_of_conv_image_fst)

lemma dom_gm_put [simp]: "dom (map_of (gm_put k v m)) = insert k (dom (map_of m))"
  by (simp add: gm_put_def update_conv')

lemmas gm_simps = gm.look_put gm.look_del map_of_gm_copy

end
