(* ===== verification/GoStd.thy ===== *)
theory GoStd
  imports Prelude
begin

text \<open>
  The functions of Go's standard library that the program calls on strings and
  paths: \<^verbatim>\<open>strings.Split\<close>, \<^verbatim>\<open>strings.SplitN\<close>, \<^verbatim>\<open>strings.LastIndex\<close>,
  \<^verbatim>\<open>strings.Contains\<close>, \<^verbatim>\<open>strings.TrimRight\<close>, \<^verbatim>\<open>strings.TrimSuffix\<close>,
  \<^verbatim>\<open>strconv.FormatInt\<close> and the lexical part of \<^verbatim>\<open>path/filepath\<close> on a Unix
  system (\<^verbatim>\<open>Clean\<close>, \<^verbatim>\<open>Join\<close>, \<^verbatim>\<open>Base\<close>, \<^verbatim>\<open>Dir\<close>). A string is a list of bytes.
\<close>

section \<open>Splitting and joining\<close>

fun split_on :: "char \<Rightarrow> string \<Rightarrow> string list" where
  "split_on c [] = [[]]"
| "split_on c (x # xs) =
     (if x = c then [] # split_on c xs
      else (case split_on c xs of [] \<Rightarrow> [[x]] | y # ys \<Rightarrow> (x # y) # ys))"

fun join_with :: "char \<Rightarrow> string list \<Rightarrow> string" where
  "join_with c [] = []"
| "join_with c [x] = x"
| "join_with c (x # y # zs) = x @ c # join_with c (y # zs)"

lemma split_on_nonempty [simp]: "split_on c xs \<noteq> []"
  by (cases xs) (auto split: list.splits)

lemma split_on_free: "c \<notin> set xs \<Longrightarrow> split_on c xs = [xs]"
  by (induction xs) auto

lemma split_on_elems_free: "e \<in> set (split_on c xs) \<Longrightarrow> c \<notin> set e"
  by (induction xs arbitrary: e) (auto split: if_splits list.splits)

lemma split_on_append_sep:
  "c \<notin> set x \<Longrightarrow> split_on c (x @ c # ys) = x # split_on c ys"
  by (induction x) auto

lemma split_join:
  "es \<noteq> [] \<Longrightarrow> (\<forall>e\<in>set es. c \<notin> set e) \<Longrightarrow> split_on c (join_with c es) = es"
  by (induction c es rule: join_with.induct) (auto simp: split_on_free split_on_append_sep)

lemma join_split: "join_with c (split_on c xs) = xs"
proof (induction xs)
  case Nil
  then show ?case by simp
next
  case (Cons x xs)
  obtain y ys where s: "split_on c xs = y # ys"
    by (cases "split_on c xs") auto
  with Cons show ?case by (cases ys) auto
qed

lemma join_with_append:
  "xs \<noteq> [] \<Longrightarrow> ys \<noteq> [] \<Longrightarrow> join_with c (xs @ ys) = join_with c xs @ c # join_with c ys"
  by (induction c xs rule: join_with.induct) (auto simp: neq_Nil_conv)

lemma split_on_join_append:
  "split_on c (xs @ c # ys) = split_on c xs @ split_on c ys"
  by (induction xs) (auto split: list.splits)

section \<open>Searching\<close>

fun has_prefix :: "string \<Rightarrow> string \<Rightarrow> bool" where
  "has_prefix s [] = True"
| "has_prefix [] (p # ps) = False"
| "has_prefix (x # xs) (p # ps) = (x = p \<and> has_prefix xs ps)"

fun contains_str :: "string \<Rightarrow> string \<Rightarrow> bool" where
  "contains_str [] p = has_prefix [] p"
| "contains_str (x # xs) p = (has_prefix (x # xs) p \<or> contains_str xs p)"

text \<open>\<^verbatim>\<open>strings.LastIndex\<close>; \<open>None\<close> is Go's \<open>-1\<close>.\<close>

fun last_index :: "string \<Rightarrow> string \<Rightarrow> nat option" where
  "last_index [] p = (if has_prefix [] p then Some 0 else None)"
| "last_index (x # xs) p =
     (case last_index xs p of Some i \<Rightarrow> Some (Suc i)
      | None \<Rightarrow> if has_prefix (x # xs) p then Some 0 else None)"

text \<open>\<^verbatim>\<open>strings.SplitN(s, sep, 2)\<close> for a one byte separator.\<close>

definition split_first :: "char \<Rightarrow> string \<Rightarrow> string list" where
  "split_first c s =
     (if c \<in> set s
      then [takeWhile (\<lambda>x. x \<noteq> c) s, tl (dropWhile (\<lambda>x. x \<noteq> c) s)] else [s])"

definition trim_right :: "char \<Rightarrow> string \<Rightarrow> string" where
  "trim_right c s = rev (dropWhile (\<lambda>x. x = c) (rev s))"

definition trim_suffix1 :: "char \<Rightarrow> string \<Rightarrow> string" where
  "trim_suffix1 c s = (if s \<noteq> [] \<and> last s = c then butlast s else s)"

lemma has_prefix_iff: "has_prefix s p \<longleftrightarrow> (\<exists>t. s = p @ t)"
  by (induction s p rule: has_prefix.induct) auto

lemma last_index_Some:
  "last_index s p = Some i \<Longrightarrow> \<exists>t. s = take i s @ p @ t \<and> i + length p \<le> length s"
proof (induction s arbitrary: i)
  case Nil
  then show ?case by (auto simp: has_prefix_iff split: if_splits)
next
  case (Cons x xs)
  show ?case
  proof (cases "last_index xs p")
    case None
    with Cons.prems have "has_prefix (x # xs) p" and "i = 0"
      by (auto split: if_splits)
    then obtain t where "x # xs = p @ t" and "i = 0" by (auto simp: has_prefix_iff)
    moreover from this have "length (x # xs) = length p + length t" by simp
    ultimately show ?thesis by auto
  next
    case (Some j)
    with Cons.prems have i: "i = Suc j" by simp
    from Cons.IH [OF Some] obtain t where "xs = take j xs @ p @ t" and "j + length p \<le> length xs"
      by blast
    with i show ?thesis by auto
  qed
qed

lemma last_index_None: "last_index s p = None \<longleftrightarrow> \<not> contains_str s p"
  by (induction s) (auto split: option.splits)

lemma split_first_of_join: "c \<notin> set k \<Longrightarrow> split_first c (k @ c # v) = [k, v]"
  by (simp add: split_first_def takeWhile_append dropWhile_append)

lemma split_first_join:
  assumes "c \<in> set s" and "split_first c s = [k, v]"
  shows "s = k @ c # v \<and> c \<notin> set k"
proof -
  obtain k' v' where "s = k' @ c # v'" and "c \<notin> set k'"
    using split_list_first [OF assms(1)] by blast
  with assms(2) show ?thesis by (simp add: split_first_of_join)
qed

section \<open>Integers\<close>

definition digit :: "nat \<Rightarrow> char" where
  "digit n = char_of (48 + n)"

fun format_nat :: "nat \<Rightarrow> string" where
  "format_nat n = (if n < 10 then [digit n] else format_nat (n div 10) @ [digit (n mod 10)])"

declare format_nat.simps [simp del]

definition FormatInt :: "int \<Rightarrow> string" where
  "FormatInt i = (if i < 0 then CHR ''-'' # format_nat (nat (- i)) else format_nat (nat i))"

text \<open>The verb \<^verbatim>\<open>%q\<close> on printable text: double quotes around it, quotes and backslashes escaped.\<close>

definition goQuote :: "string \<Rightarrow> string" where
  "goQuote s =
     CHR 0x22 # concat (map (\<lambda>c. if c = CHR 0x22 \<or> c = CHR 0x5C then [CHR 0x5C, c] else [c]) s) @ [CHR 0x22]"

lemma format_nat_nonempty [simp]: "format_nat n \<noteq> []"
  by (subst format_nat.simps) simp

lemma FormatInt_nonempty [simp]: "FormatInt i \<noteq> []"
  by (simp add: FormatInt_def)

fun parse_nat :: "nat \<Rightarrow> string \<Rightarrow> nat" where
  "parse_nat acc [] = acc"
| "parse_nat acc (c # cs) = parse_nat (10 * acc + (of_char c - 48)) cs"

lemma parse_nat_append: "parse_nat a (xs @ ys) = parse_nat (parse_nat a xs) ys"
  by (induction xs arbitrary: a) auto

lemma of_char_digit: "n < 10 \<Longrightarrow> (of_char (digit n) :: nat) = 48 + n"
  by (simp add: digit_def)

lemma parse_format: "parse_nat 0 (format_nat n) = n"
proof (induction n rule: format_nat.induct)
  case (1 n)
  show ?case
  proof (cases "n < 10")
    case True
    then show ?thesis by (subst format_nat.simps) (simp add: of_char_digit)
  next
    case False
    with "1.IH" show ?thesis
      by (subst format_nat.simps) (simp add: parse_nat_append of_char_digit)
  qed
qed

lemma format_nat_inj: "format_nat a = format_nat b \<Longrightarrow> a = b"
  using parse_format by metis

section \<open>Paths\<close>

abbreviation slash :: char where
  "slash \<equiv> CHR ''/''"

text \<open>
  \<^verbatim>\<open>filepath.Clean\<close> reads the path element by element: empty and \<^verbatim>\<open>.\<close> elements are
  dropped, \<^verbatim>\<open>..\<close> removes the element written last unless that is itself a \<^verbatim>\<open>..\<close>
  that had to be kept, and at the root it is dropped. The output written so far is a
  stack of elements.
\<close>

definition clean_step :: "bool \<Rightarrow> string list \<Rightarrow> string \<Rightarrow> string list" where
  "clean_step rooted st e =
     (if e = [] \<or> e = ''.'' then st
      else if e = ''..'' then
        (case st of
           [] \<Rightarrow> (if rooted then [] else [''..''])
         | t # ts \<Rightarrow> (if t = ''..'' then ''..'' # st else ts))
      else e # st)"

definition clean_elems :: "bool \<Rightarrow> string list \<Rightarrow> string list" where
  "clean_elems rooted es = rev (foldl (clean_step rooted) [] es)"

definition path_Clean :: "string \<Rightarrow> string" where
  "path_Clean p =
     (case p of [] \<Rightarrow> ''.''
      | c # cs \<Rightarrow>
        (let rooted = (c = slash); body = join_with slash (clean_elems rooted (split_on slash p))
         in if rooted then slash # body else if body = [] then ''.'' else body))"

definition path_Join :: "string list \<Rightarrow> string" where
  "path_Join es =
     (case dropWhile (\<lambda>e. e = []) es of [] \<Rightarrow> [] | e # es' \<Rightarrow> path_Clean (join_with slash (e # es')))"

definition path_Base :: "string \<Rightarrow> string" where
  "path_Base p =
     (if p = [] then ''.''
      else let q = trim_right slash p in if q = [] then ''/'' else last (split_on slash q))"

definition path_Dir :: "string \<Rightarrow> string" where
  "path_Dir p = path_Clean (rev (dropWhile (\<lambda>c. c \<noteq> slash) (rev p)))"

text \<open>An element that \<^verbatim>\<open>Clean\<close> copies: no separator, not empty, not a dot element.\<close>

definition plain_elem :: "string \<Rightarrow> bool" where
  "plain_elem e \<longleftrightarrow> e \<noteq> [] \<and> e \<noteq> ''.'' \<and> e \<noteq> ''..'' \<and> slash \<notin> set e"

text \<open>What \<^verbatim>\<open>Clean\<close> produces: plain elements, after a block of \<^verbatim>\<open>..\<close> on a relative path.\<close>

definition clean_stack :: "bool \<Rightarrow> string list \<Rightarrow> bool" where
  "clean_stack rooted st \<longleftrightarrow>
     (\<exists>ps n. st = ps @ replicate n ''..'' \<and> (\<forall>e\<in>set ps. plain_elem e) \<and> (rooted \<longrightarrow> n = 0))"

lemma clean_stack_Nil: "clean_stack rooted []"
  unfolding clean_stack_def by (rule exI [of _ "[]"], rule exI [of _ 0]) simp

lemma clean_step_stack:
  assumes "clean_stack rooted st" and "slash \<notin> set e"
  shows "clean_stack rooted (clean_step rooted st e)"
proof -
  from assms(1) obtain ps n where st: "st = ps @ replicate n ''..''"
    and ps: "\<forall>e\<in>set ps. plain_elem e" and r: "rooted \<longrightarrow> n = 0"
    unfolding clean_stack_def by blast
  consider "e = [] \<or> e = ''.''" | "e = ''..''" | "plain_elem e"
    using assms(2) by (auto simp: plain_elem_def)
  then show ?thesis
  proof cases
    case 1
    with assms(1) show ?thesis by (auto simp: clean_step_def)
  next
    case 2
    show ?thesis
    proof (cases ps)
      case Nil
      have "clean_step rooted st e = (if rooted then [] else replicate (Suc n) ''..'')"
        using 2 st Nil r by (cases n) (auto simp: clean_step_def)
      then show ?thesis
        by (auto simp: clean_stack_def intro!: exI [of _ "[]"] exI [of _ "Suc n"])
    next
      case (Cons p qs)
      with ps have "p \<noteq> ''..''" by (auto simp: plain_elem_def)
      with 2 st Cons have "clean_step rooted st e = qs @ replicate n ''..''"
        by (auto simp: clean_step_def)
      with Cons ps r show ?thesis by (auto simp: clean_stack_def)
    qed
  next
    case 3
    then have "clean_step rooted st e = (e # ps) @ replicate n ''..''"
      using st by (auto simp: clean_step_def plain_elem_def)
    with 3 ps r show ?thesis unfolding clean_stack_def by (metis set_ConsD)
  qed
qed

lemma clean_foldl_stack:
  "clean_stack rooted st \<Longrightarrow> (\<forall>e\<in>set es. slash \<notin> set e) \<Longrightarrow>
   clean_stack rooted (foldl (clean_step rooted) st es)"
  by (induction es arbitrary: st) (auto simp: clean_step_stack)

lemma foldl_plain:
  "(\<forall>e\<in>set es. plain_elem e) \<Longrightarrow> foldl (clean_step rooted) st es = rev es @ st"
  by (induction es arbitrary: st) (auto simp: clean_step_def plain_elem_def)

lemma foldl_dotdot:
  "foldl (clean_step False) (replicate k ''..'') (replicate n ''..'') = replicate (k + n) ''..''"
proof (induction n arbitrary: k)
  case 0
  then show ?case by simp
next
  case (Suc n)
  have "clean_step False (replicate k ''..'') ''..'' = replicate (Suc k) ''..''"
    by (cases k) (simp_all add: clean_step_def)
  with Suc [of "Suc k"] show ?case by simp
qed

lemma clean_elems_fixed:
  assumes "clean_stack rooted st"
  shows "clean_elems rooted (rev st) = rev st"
proof -
  from assms obtain ps n where st: "st = ps @ replicate n ''..''"
    and ps: "\<forall>e\<in>set ps. plain_elem e" and r: "rooted \<longrightarrow> n = 0"
    unfolding clean_stack_def by blast
  have "foldl (clean_step rooted) [] (replicate n ''..'') = replicate n ''..''"
    using foldl_dotdot [of 0 n] r by (cases rooted) auto
  then have "foldl (clean_step rooted) [] (rev st) = st"
    using ps by (simp add: st foldl_plain)
  then show ?thesis by (simp add: clean_elems_def)
qed

lemma clean_stack_elems:
  "clean_stack rooted st \<Longrightarrow> e \<in> set st \<Longrightarrow> e \<noteq> [] \<and> slash \<notin> set e"
  unfolding clean_stack_def plain_elem_def by fastforce

lemma clean_elems_split:
  obtains st where "clean_elems rooted (split_on slash p) = rev st" and "clean_stack rooted st"
proof -
  have "\<forall>e\<in>set (split_on slash p). slash \<notin> set e"
    by (simp add: split_on_elems_free)
  then have "clean_stack rooted (foldl (clean_step rooted) [] (split_on slash p))"
    by (rule clean_foldl_stack [OF clean_stack_Nil])
  then show thesis
    by (rule that [rotated]) (simp add: clean_elems_def)
qed

lemma join_with_hd:
  "es \<noteq> [] \<Longrightarrow> (\<forall>e\<in>set es. e \<noteq> [] \<and> c \<notin> set e) \<Longrightarrow> join_with c es \<noteq> [] \<and> hd (join_with c es) \<noteq> c"
  by (induction c es rule: join_with.induct) (auto simp: neq_Nil_conv)

lemma path_Clean_rooted:
  "path_Clean (slash # p) = slash # join_with slash (clean_elems True (split_on slash p))"
proof -
  have "clean_step True [] [] = []" by (simp add: clean_step_def)
  then have "clean_elems True (split_on slash (slash # p)) = clean_elems True (split_on slash p)"
    by (simp add: clean_elems_def)
  then show ?thesis by (simp add: path_Clean_def Let_def)
qed

lemma path_Clean_fixed_rooted:
  assumes "clean_stack True st"
  shows "path_Clean (slash # join_with slash (rev st)) = slash # join_with slash (rev st)"
proof (cases "st = []")
  case True
  then show ?thesis by (simp add: path_Clean_rooted clean_elems_def clean_step_def)
next
  case False
  then have "split_on slash (join_with slash (rev st)) = rev st"
    using clean_stack_elems [OF assms] by (intro split_join) auto
  then show ?thesis by (simp add: path_Clean_rooted clean_elems_fixed [OF assms])
qed

lemma path_Clean_fixed_relative:
  assumes "clean_stack False st" and "st \<noteq> []"
  shows "path_Clean (join_with slash (rev st)) = join_with slash (rev st)"
proof -
  let ?b = "join_with slash (rev st)"
  have h: "?b \<noteq> [] \<and> hd ?b \<noteq> slash"
    using assms clean_stack_elems [OF assms(1)] by (intro join_with_hd) auto
  have "split_on slash ?b = rev st"
    using assms clean_stack_elems [OF assms(1)] by (intro split_join) auto
  with h show ?thesis
    by (cases ?b) (auto simp: path_Clean_def Let_def clean_elems_fixed [OF assms(1)])
qed

lemma path_Clean_idem: "path_Clean (path_Clean p) = path_Clean p"
proof (cases p)
  case Nil
  then show ?thesis by (simp add: path_Clean_def clean_elems_def clean_step_def)
next
  case (Cons c cs)
  show ?thesis
  proof (cases "c = slash")
    case True
    obtain st where "clean_elems True (split_on slash cs) = rev st" and "clean_stack True st"
      by (rule clean_elems_split)
    then have "path_Clean p = slash # join_with slash (rev st)" and "clean_stack True st"
      using Cons True by (simp_all add: path_Clean_rooted)
    then show ?thesis by (metis path_Clean_fixed_rooted)
  next
    case False
    obtain st where e: "clean_elems False (split_on slash p) = rev st" and st: "clean_stack False st"
      by (rule clean_elems_split)
    have j: "join_with slash (rev st) = [] \<longleftrightarrow> st = []"
      using join_with_hd [of "rev st" slash] clean_stack_elems [OF st] by auto
    show ?thesis
    proof (cases "st = []")
      case True
      with e Cons False show ?thesis
        by (simp add: path_Clean_def Let_def) (simp add: clean_elems_def clean_step_def)
    next
      case False2: False
      have "path_Clean p = join_with slash (rev st)"
        using e Cons False j False2 by (simp add: path_Clean_def Let_def)
      then show ?thesis by (simp add: path_Clean_fixed_relative [OF st False2])
    qed
  qed
qed

text \<open>Joining plain elements below a cleaned absolute directory only appends them.\<close>

lemma clean_elems_append_plain:
  "(\<forall>e\<in>set qs. plain_elem e) \<Longrightarrow> clean_elems r (es @ qs) = clean_elems r es @ qs"
  by (simp add: clean_elems_def foldl_plain)

lemma path_Clean_append_plain:
  assumes "qs \<noteq> []" and "\<forall>e\<in>set qs. plain_elem e"
  shows "path_Clean (slash # d @ slash # join_with slash qs) =
    (let b = path_Clean (slash # d) in (if b = ''/'' then [] else b) @ slash # join_with slash qs)"
proof -
  obtain st where e: "clean_elems True (split_on slash d) = rev st" and st: "clean_stack True st"
    by (rule clean_elems_split)
  have q: "split_on slash (join_with slash qs) = qs"
    using assms by (intro split_join) (auto simp: plain_elem_def)
  have "path_Clean (slash # d @ slash # join_with slash qs) =
      slash # join_with slash (rev st @ qs)"
    by (simp add: path_Clean_rooted split_on_join_append q clean_elems_append_plain assms e)
  moreover have "path_Clean (slash # d) = slash # join_with slash (rev st)"
    by (simp add: path_Clean_rooted e)
  moreover have "join_with slash (rev st) = [] \<longleftrightarrow> st = []"
    using join_with_hd [of "rev st" slash] clean_stack_elems [OF st] by auto
  ultimately show ?thesis
    using assms(1) by (cases "st = []") (auto simp: Let_def join_with_append)
qed

lemma path_Clean_trailing: "path_Clean (slash # p @ [slash]) = path_Clean (slash # p)"
  unfolding path_Clean_rooted split_on_join_append [of slash p "[]"]
  by (simp add: clean_elems_def clean_step_def)

end
