(* ===== verification/Protos.thy ===== *)
theory Protos
  imports GoStd "HOL-Library.Word"
begin

text \<open>
  The messages of \<^verbatim>\<open>arhat.dev/aranya-proto/aranyagopb/runtimepb\<close> that the runtime
  reads and writes, as records with the fields of the Go structs. A pointer field is
  an \<open>option\<close>, a protobuf enum is an integer (unknown values can arrive on the
  wire), a \<^verbatim>\<open>oneof\<close> is a datatype with a constructor for the unset case.
\<close>

section \<open>Commands\<close>

datatype containerAction =
    ActionUnset
  | ActionExec "string list"
  | ActionHttp
  | ActionSocket

record containerMountSpec =
  ms_MountPath :: string
  ms_SubPath :: string
  ms_ReadOnly :: bool
  ms_Options :: "string list"
  ms_FileMode :: "32 word"
  ms_Remote :: bool

record sELinuxOptions =
  se_Type :: string
  se_Level :: string
  se_Role :: string
  se_User :: string

record containerSecuritySpec =
  sec_Privileged :: bool
  sec_AllowNewPrivileges :: bool
  sec_NonRoot :: bool
  sec_ReadOnlyRootfs :: bool
  sec_User :: int
  sec_Group :: int
  sec_CapsAdd :: "string list"
  sec_CapsDrop :: "string list"
  sec_SelinuxOptions :: "sELinuxOptions option"

record containerProbeSpec =
  pr_InitialDelay :: int
  pr_ProbeTimeout :: int
  pr_ProbeInterval :: int
  pr_SuccessThreshold :: int
  pr_FailureThreshold :: int
  pr_Method :: "containerAction option"

record containerSpec =
  cs_Name :: string
  cs_Image :: string
  cs_WorkingDir :: string
  cs_Stdin :: bool
  cs_Tty :: bool
  cs_Command :: "string list"
  cs_Args :: "string list"
  cs_Envs :: labels
  cs_Mounts :: "(string, containerMountSpec) gomap"
  cs_LivenessCheck :: "containerProbeSpec option"
  cs_Security :: "containerSecuritySpec option"
  cs_HookPostStart :: "containerAction option"

record podNetworkSpec =
  net_Nameservers :: "string list"
  net_DnsSearches :: "string list"
  net_DnsOptions :: "string list"
  net_AbbotRequestBytes :: string

text \<open>A volume's data is a map from file names to contents; \<open>None\<close> is a nil map.\<close>

record podVolumeSpec =
  vol_HostPaths :: labels
  vol_VolumeData :: "(string, (string, string) gomap option) gomap"

record podEnsureCmd =
  pe_PodUid :: string
  pe_Namespace :: string
  pe_Name :: string
  pe_RestartPolicy :: int
  pe_HostIpc :: bool
  pe_HostNetwork :: bool
  pe_HostPid :: bool
  pe_SharePid :: bool
  pe_Wait :: bool
  pe_Hostname :: string
  pe_Containers :: "containerSpec list"
  pe_Network :: "podNetworkSpec option"
  pe_Volumes :: "podVolumeSpec option"
  pe_Sysctls :: labels
  pe_Labels :: labels

record podDeleteCmd =
  pd_PodUid :: string
  pd_Containers :: "string list"

record podListCmd =
  pl_All :: bool
  pl_Names :: "string list"

record imageAuthConfig =
  ia_Username :: string
  ia_Password :: string
  ia_Auth :: string
  ia_ServerAddress :: string
  ia_IdentityToken :: string
  ia_RegistryToken :: string
  ia_Email :: string

record imagePullSpec =
  ip_AuthConfig :: "imageAuthConfig option"
  ip_PullPolicy :: int

text \<open>The values of the map are pointers, and an entry that was sent without a value has a nil one.\<close>

record imageEnsureCmd =
  ie_Images :: "(string, imagePullSpec option) gomap"

section \<open>Messages\<close>

record containerStatus =
  st_ContainerId :: string
  st_ImageId :: string
  st_CreatedAt :: string
  st_StartedAt :: string
  st_FinishedAt :: string
  st_ExitCode :: int
  st_RestartCount :: int
  st_Message :: string
  st_Reason :: string

record podStatusMsg =
  ps_Uid :: string
  ps_Network :: string
  ps_Containers :: "(string, containerStatus) gomap"

definition NewPodStatusMsg :: "string \<Rightarrow> string \<Rightarrow> (string, containerStatus) gomap \<Rightarrow> podStatusMsg" where
  "NewPodStatusMsg podUID network containerStatus =
     \<lparr>ps_Uid = podUID, ps_Network = network, ps_Containers = containerStatus\<rparr>"

record imageStatusMsg =
  is_Sha256 :: string
  is_Size :: "64 word"
  is_Refs :: "string list"

section \<open>Enumerations\<close>

definition RESTART_ALWAYS :: int where "RESTART_ALWAYS = 0"
definition RESTART_ON_FAILURE :: int where "RESTART_ON_FAILURE = 1"
definition RESTART_NEVER :: int where "RESTART_NEVER = 2"

definition IMAGE_PULL_ALWAYS :: int where "IMAGE_PULL_ALWAYS = 0"
definition IMAGE_PULL_IF_NOT_PRESENT :: int where "IMAGE_PULL_IF_NOT_PRESENT = 1"
definition IMAGE_PULL_NEVER :: int where "IMAGE_PULL_NEVER = 2"

section \<open>An example command\<close>

text \<open>A pod with one container, used by the closed instances of the theorems.\<close>

definition exampleSpec :: containerSpec where
  "exampleSpec =
     \<lparr>cs_Name = ''web'', cs_Image = ''nginx'', cs_WorkingDir = [], cs_Stdin = False, cs_Tty = False,
      cs_Command = [], cs_Args = [], cs_Envs = [(''A'', ''1'')], cs_Mounts = [], cs_LivenessCheck = None,
      cs_Security = None, cs_HookPostStart = None\<rparr>"

definition exampleNet :: podNetworkSpec where
  "exampleNet = \<lparr>net_Nameservers = [], net_DnsSearches = [], net_DnsOptions = [], net_AbbotRequestBytes = []\<rparr>"

definition exampleCmd :: podEnsureCmd where
  "exampleCmd =
     \<lparr>pe_PodUid = ''u1'', pe_Namespace = ''ns'', pe_Name = ''pod'', pe_RestartPolicy = 0, pe_HostIpc = False,
      pe_HostNetwork = True, pe_HostPid = False, pe_SharePid = True, pe_Wait = False, pe_Hostname = [],
      pe_Containers = [exampleSpec], pe_Network = Some exampleNet, pe_Volumes = None, pe_Sysctls = [],
      pe_Labels = [(''app'', ''x'')]\<rparr>"

lemma example_labels_wf [simp]: "gm_wf (pe_Labels exampleCmd)"
  by (simp add: exampleCmd_def gm_wf_def)

end
