(* ===== verification/Labels.thy ===== *)
theory Labels
  imports Protos
begin

text \<open>
  The label conventions of \<^verbatim>\<open>ext.arhat.dev/runtimeutil/containerutil\<close>
  (\<^verbatim>\<open>constant.go\<close>, \<^verbatim>\<open>labels.go\<close>, \<^verbatim>\<open>names.go\<close>, \<^verbatim>\<open>image.go\<close>) and the label filters of
  \<^verbatim>\<open>pkg/runtime/util.go\<close>. Pods and containers are found again only through these
  labels, so the central facts say exactly which lookups match what was created.
\<close>

section \<open>Constants\<close>

definition LabelRole :: string where "LabelRole = ''arhat.dev/role''"
definition LabelRoleValueAbbot :: string where "LabelRoleValueAbbot = ''Abbot''"
definition ContainerLabelPodNamespace :: string where
  "ContainerLabelPodNamespace = ''ctr.arhat.dev/pod-namespace''"
definition ContainerLabelPodName :: string where
  "ContainerLabelPodName = ''ctr.arhat.dev/pod-name''"
definition ContainerLabelPodUID :: string where
  "ContainerLabelPodUID = ''ctr.arhat.dev/pod-uid''"
definition ContainerLabelHostNetwork :: string where
  "ContainerLabelHostNetwork = ''config.ctr.arhat.dev/host-network''"
definition ContainerLabelPodContainer :: string where
  "ContainerLabelPodContainer = ''ctr.arhat.dev/pod-container''"
definition ContainerLabelPodContainerRole :: string where
  "ContainerLabelPodContainerRole = ''ctr.arhat.dev/pod-container-role''"
definition ContainerRoleInfra :: string where "ContainerRoleInfra = ''infra''"
definition ContainerRoleWork :: string where "ContainerRoleWork = ''work''"
definition ContainerNamePause :: string where "ContainerNamePause = ''_pause''"
definition ContainerNameAbbot :: string where "ContainerNameAbbot = ''abbot''"

lemmas label_consts =
  LabelRole_def LabelRoleValueAbbot_def ContainerLabelPodNamespace_def ContainerLabelPodName_def
  ContainerLabelPodUID_def ContainerLabelHostNetwork_def ContainerLabelPodContainer_def
  ContainerLabelPodContainerRole_def ContainerRoleInfra_def ContainerRoleWork_def
  ContainerNamePause_def ContainerNameAbbot_def

section \<open>Label predicates and constructors\<close>

definition AbbotMatchLabels :: labels where
  "AbbotMatchLabels =
     [(ContainerLabelPodContainerRole, ContainerRoleWork),
      (ContainerLabelPodContainer, ContainerNameAbbot),
      (LabelRole, LabelRoleValueAbbot),
      (ContainerLabelHostNetwork, ''true'')]"

text \<open>A nil map is the empty list; its lookups behave like those of an empty map.\<close>

definition IsPauseContainer :: "labels \<Rightarrow> bool" where
  "IsPauseContainer labels =
     (if labels = [] then False
      else gm_str labels ContainerLabelPodContainer = ContainerNamePause)"

definition IsHostNetwork :: "labels \<Rightarrow> bool" where
  "IsHostNetwork labels =
     (if labels = [] then False else map_of labels ContainerLabelHostNetwork \<noteq> None)"

definition IsAbbotPod :: "labels \<Rightarrow> bool" where
  "IsAbbotPod labels =
     (if labels = [] then False
      else if \<not> IsHostNetwork labels then False
      else if gm_str labels LabelRole \<noteq> LabelRoleValueAbbot then False
      else True)"

definition ContainerLabels :: "podEnsureCmd \<Rightarrow> string \<Rightarrow> labels" where
  "ContainerLabels options container =
     (let defaults =
        [(ContainerLabelPodUID, pe_PodUid options),
         (ContainerLabelPodNamespace, pe_Namespace options),
         (ContainerLabelPodName, pe_Name options),
         (ContainerLabelPodContainer, container),
         (ContainerLabelPodContainerRole,
            if container = ContainerNamePause then ContainerRoleInfra else ContainerRoleWork)];
        result = gm_copy defaults (gm_copy (pe_Labels options) [])
      in if pe_HostNetwork options then gm_put ContainerLabelHostNetwork ''true'' result
         else result)"

section \<open>Names and namespaces\<close>

definition GetContainerName :: "string \<Rightarrow> string \<Rightarrow> string \<Rightarrow> string" where
  "GetContainerName namespace name container = namespace @ ''.'' @ name @ ''.'' @ container"

definition SharedNamespaces :: "string \<Rightarrow> podEnsureCmd \<Rightarrow> labels" where
  "SharedNamespaces pauseCtrID options =
     (let containerNS = ''container:'' @ pauseCtrID;
          ns0 = [(''net'', containerNS), (''user'', containerNS), (''ipc'', containerNS), (''uts'', containerNS)];
          ns1 = (if pe_HostNetwork options then gm_put ''net'' ''host'' ns0 else ns0);
          ns2 = (if pe_HostIpc options then gm_put ''ipc'' ''host'' ns1 else ns1)
      in if pe_HostPid options then gm_put ''pid'' ''host'' ns2
         else if pe_SharePid options then gm_put ''pid'' containerNS ns2
         else ns2)"

section \<open>Images and environments\<close>

definition GenerateImageName :: "string \<Rightarrow> string \<Rightarrow> string \<Rightarrow> string" where
  "GenerateImageName defaultDomain defaultNamespace name =
     (let defaultDomain = trim_right slash defaultDomain in
      if slash \<notin> set name then
        (if defaultNamespace \<noteq> [] then defaultDomain @ ''/'' @ defaultNamespace @ ''/'' @ name
         else defaultDomain @ ''/'' @ name)
      else
        (let prefix = takeWhile (\<lambda>c. c \<noteq> slash) name in
         if contains_str prefix ''.'' then name else defaultDomain @ ''/'' @ name))"

fun GetEnv_loop :: "string list \<Rightarrow> labels \<Rightarrow> labels" where
  "GetEnv_loop [] result = result"
| "GetEnv_loop (kv # env) result =
     (let parts = split_first (CHR ''='') kv in
      if length parts = 2 then GetEnv_loop env (gm_put (parts ! 0) (parts ! 1) result)
      else GetEnv_loop env (gm_put (parts ! 0) [] result))"

definition GetEnv :: "string list \<Rightarrow> labels" where
  "GetEnv env = GetEnv_loop env []"

section \<open>Label filters\<close>

text \<open>
  The loop leaves at the first mismatch; a filter key missing from the labels reads
  as the empty string.
\<close>

fun filterLabels_loop :: "labels \<Rightarrow> labels \<Rightarrow> bool" where
  "filterLabels_loop [] labels = True"
| "filterLabels_loop ((k, v) # filters) labels =
     (if gm_str labels k \<noteq> v then False else filterLabels_loop filters labels)"

definition filterLabels :: "labels \<Rightarrow> labels \<Rightarrow> bool" where
  "filterLabels filters labels =
     (if length labels \<ge> length filters then filterLabels_loop filters labels else False)"

section \<open>Properties of the label set of a container\<close>

lemma filterLabels_loop_iff:
  "filterLabels_loop filters labels \<longleftrightarrow> (\<forall>(k, v) \<in> set filters. gm_str labels k = v)"
  by (induction filters labels rule: filterLabels_loop.induct) auto

lemma filterLabels_iff:
  "filterLabels filters labels \<longleftrightarrow>
   length filters \<le> length labels \<and> (\<forall>(k, v) \<in> set filters. gm_str labels k = v)"
  by (simp add: filterLabels_def filterLabels_loop_iff)

lemma filterLabels_present:
  assumes "filterLabels filters labels" and "(k, v) \<in> set filters" and "v \<noteq> []"
  shows "map_of labels k = Some v"
proof -
  from assms(1,2) have "gm_str labels k = v" by (auto simp: filterLabels_iff)
  with assms(3) show ?thesis by (auto simp: gm_str_def split: option.splits)
qed

definition label_defaults :: "podEnsureCmd \<Rightarrow> string \<Rightarrow> labels" where
  "label_defaults options container =
     [(ContainerLabelPodUID, pe_PodUid options),
      (ContainerLabelPodNamespace, pe_Namespace options),
      (ContainerLabelPodName, pe_Name options),
      (ContainerLabelPodContainer, container),
      (ContainerLabelPodContainerRole,
         if container = ContainerNamePause then ContainerRoleInfra else ContainerRoleWork)]"

lemma ContainerLabels_alt:
  "ContainerLabels options container =
     (let result = gm_copy (label_defaults options container) (gm_copy (pe_Labels options) [])
      in if pe_HostNetwork options then gm_put ContainerLabelHostNetwork ''true'' result else result)"
  by (simp add: ContainerLabels_def label_defaults_def)

lemma gm_wf_defaults: "gm_wf (label_defaults options container)"
  by (simp add: label_defaults_def gm_wf_def label_consts)

lemma gm_wf_ContainerLabels: "gm_wf (ContainerLabels options container)"
  by (simp add: ContainerLabels_alt Let_def gm_wf_copy gm.wf_put)

text \<open>Who wins for each key: the host-network mark, then the reserved keys, then the user's labels.\<close>

lemma map_of_ContainerLabels:
  assumes "gm_wf (pe_Labels options)"
  shows "map_of (ContainerLabels options container) k =
    (if k = ContainerLabelHostNetwork \<and> pe_HostNetwork options then Some ''true''
     else case map_of (label_defaults options container) k of
        Some v \<Rightarrow> Some v | None \<Rightarrow> map_of (pe_Labels options) k)"
proof -
  have "map_of (gm_copy (label_defaults options container) (gm_copy (pe_Labels options) [])) =
      map_of (pe_Labels options) ++ map_of (label_defaults options container)"
    using assms by (simp add: map_of_gm_copy gm_wf_defaults)
  then show ?thesis
    by (auto simp: ContainerLabels_alt Let_def gm.look_put map_add_def split: option.splits)
qed

lemma ContainerLabels_reserved:
  assumes "gm_wf (pe_Labels options)"
  shows "map_of (ContainerLabels options c) ContainerLabelPodUID = Some (pe_PodUid options)"
    and "map_of (ContainerLabels options c) ContainerLabelPodNamespace = Some (pe_Namespace options)"
    and "map_of (ContainerLabels options c) ContainerLabelPodName = Some (pe_Name options)"
    and "map_of (ContainerLabels options c) ContainerLabelPodContainer = Some c"
    and "map_of (ContainerLabels options c) ContainerLabelPodContainerRole =
           Some (if c = ContainerNamePause then ContainerRoleInfra else ContainerRoleWork)"
  unfolding map_of_ContainerLabels [OF assms]
  by (simp_all add: label_defaults_def label_consts)

lemma ContainerLabels_host_network:
  assumes "gm_wf (pe_Labels options)"
  shows "map_of (ContainerLabels options c) ContainerLabelHostNetwork =
    (if pe_HostNetwork options then Some ''true'' else map_of (pe_Labels options) ContainerLabelHostNetwork)"
  unfolding map_of_ContainerLabels [OF assms]
  by (simp add: label_defaults_def label_consts)

lemma ContainerLabels_user:
  assumes "gm_wf (pe_Labels options)" and "map_of (label_defaults options c) k = None"
    and "k \<noteq> ContainerLabelHostNetwork"
  shows "map_of (ContainerLabels options c) k = map_of (pe_Labels options) k"
  unfolding map_of_ContainerLabels [OF assms(1)] using assms(2,3) by simp

lemma ContainerLabels_length: "5 \<le> length (ContainerLabels options c)"
proof -
  let ?L = "ContainerLabels options c"
  let ?D = "map_of (label_defaults options c)"
  have "dom ?D \<subseteq> dom (map_of ?L)"
  proof -
    have "dom ?D \<subseteq> dom (map_of (gm_copy (label_defaults options c) (gm_copy (pe_Labels options) [])))"
      by (simp add: map_of_gm_copy gm_wf_defaults)
    then show ?thesis by (auto simp: ContainerLabels_alt Let_def gm.look_put split: if_splits)
  qed
  then have "card (dom ?D) \<le> card (dom (map_of ?L))"
    by (intro card_mono) (simp_all add: finite_dom_map_of)
  moreover have "card (dom ?D) = 5"
    using gm_card [OF gm_wf_defaults [of options c]] by (simp add: label_defaults_def)
  ultimately show ?thesis using gm_card [OF gm_wf_ContainerLabels [of options c]] by simp
qed

lemma ContainerLabels_nonempty: "ContainerLabels options c \<noteq> []"
  using ContainerLabels_length [of options c] by auto

lemma gm_str_of_Some: "map_of m k = Some v \<Longrightarrow> gm_str m k = v"
  by (simp add: gm_str_def)

lemma IsPauseContainer_ContainerLabels:
  "gm_wf (pe_Labels options) \<Longrightarrow>
   IsPauseContainer (ContainerLabels options c) \<longleftrightarrow> c = ContainerNamePause"
  by (simp add: IsPauseContainer_def ContainerLabels_nonempty gm_str_of_Some ContainerLabels_reserved)

lemma IsHostNetwork_ContainerLabels:
  "gm_wf (pe_Labels options) \<Longrightarrow>
   IsHostNetwork (ContainerLabels options c) \<longleftrightarrow>
   pe_HostNetwork options \<or> map_of (pe_Labels options) ContainerLabelHostNetwork \<noteq> None"
  by (simp add: IsHostNetwork_def ContainerLabels_nonempty ContainerLabels_host_network)

lemma IsAbbotPod_IsHostNetwork: "IsAbbotPod labels \<Longrightarrow> IsHostNetwork labels"
  by (simp add: IsAbbotPod_def split: if_splits)

lemma gm_str_ContainerLabels:
  assumes "gm_wf (pe_Labels options)"
  shows "gm_str (ContainerLabels options c) ContainerLabelPodUID = pe_PodUid options"
    and "gm_str (ContainerLabels options c) ContainerLabelPodName = pe_Name options"
    and "gm_str (ContainerLabels options c) ContainerLabelPodContainer = c"
    and "gm_str (ContainerLabels options c) ContainerLabelPodContainerRole =
           (if c = ContainerNamePause then ContainerRoleInfra else ContainerRoleWork)"
  by (simp_all add: gm_str_of_Some ContainerLabels_reserved [OF assms])

lemma filter_uid_name_ContainerLabels:
  assumes "gm_wf (pe_Labels options)"
  shows "filterLabels [(ContainerLabelPodUID, u), (ContainerLabelPodContainer, n)] (ContainerLabels options c)
    \<longleftrightarrow> u = pe_PodUid options \<and> n = c"
  using ContainerLabels_length [of options c]
  by (auto simp: filterLabels_iff gm_str_ContainerLabels [OF assms])

lemma ContainerLabels_role_label:
  assumes "gm_wf (pe_Labels options)"
  shows "gm_str (ContainerLabels options c) LabelRole = gm_str (pe_Labels options) LabelRole"
proof -
  have "map_of (ContainerLabels options c) LabelRole = map_of (pe_Labels options) LabelRole"
    by (rule ContainerLabels_user [OF assms]) (simp_all add: label_defaults_def label_consts)
  then show ?thesis by (simp add: gm_str_def)
qed

lemma GetEnv_loop_snoc:
  "GetEnv_loop (env @ [kv]) acc =
     (let parts = split_first (CHR ''='') kv in
      gm_put (parts ! 0) (if length parts = 2 then parts ! 1 else []) (GetEnv_loop env acc))"
  by (induction env arbitrary: acc) (simp_all add: Let_def)

lemma gm_wf_GetEnv_loop: "gm_wf acc \<Longrightarrow> gm_wf (GetEnv_loop env acc)"
  by (induction env arbitrary: acc) (auto simp: Let_def intro: gm.wf_put)

lemma gm_wf_GetEnv: "gm_wf (GetEnv env)"
  by (simp add: GetEnv_def gm_wf_GetEnv_loop)

lemma GetEnv_loop_pairs:
  "(\<forall>(k, v)\<in>set kvs. CHR ''='' \<notin> set k) \<Longrightarrow>
   GetEnv_loop (map (\<lambda>(k, v). k @ ''='' @ v) kvs) acc = gm_copy kvs acc"
proof (induction kvs arbitrary: acc)
  case Nil
  then show ?case by simp
next
  case (Cons p kvs)
  obtain k v where p: "p = (k, v)" by (cases p)
  with Cons.prems have "split_first (CHR ''='') (k @ ''='' @ v) = [k, v]"
    by (simp add: split_first_of_join)
  with Cons p show ?case by (simp add: Let_def)
qed

section \<open>Properties\<close>

text \<open>Round trip between creating and finding: the filter that \<^verbatim>\<open>findContainer\<close> uses for a
  pod UID and a container name matches the labels made by \<^verbatim>\<open>ContainerLabels\<close> exactly when UID and name are the
  ones the container was created with, whatever labels the user gave.\<close>

theorem find_filter_matches_created:
  assumes "gm_wf (pe_Labels options)"
  shows "filterLabels [(ContainerLabelPodUID, u), (ContainerLabelPodContainer, n)] (ContainerLabels options c)
    \<longleftrightarrow> u = pe_PodUid options \<and> n = c"
  by (rule filter_uid_name_ContainerLabels [OF assms])

text \<open>Witness: the example pod's container is found by its own UID and name only.\<close>

theorem find_filter_matches_created_witness:
  "filterLabels [(ContainerLabelPodUID, ''u1''), (ContainerLabelPodContainer, ''web'')] (ContainerLabels exampleCmd ''web'')
   \<and> \<not> filterLabels [(ContainerLabelPodUID, ''u1''), (ContainerLabelPodContainer, ''db'')] (ContainerLabels exampleCmd ''web'')"
  using find_filter_matches_created [of exampleCmd "''u1''" "''web''" "''web''"]
    find_filter_matches_created [of exampleCmd "''u1''" "''db''" "''web''"]
  by (simp add: exampleCmd_def gm_wf_def)

text \<open>Reserved keys win over user labels: in the labels of a container every reserved key
  has the value of the pod command, every other key except the host network mark has the user's value, and the
  host network mark is \<^verbatim>\<open>true\<close> for a host network pod and otherwise whatever the user set.\<close>

theorem container_labels_priority:
  assumes "gm_wf (pe_Labels options)"
  shows "map_of (ContainerLabels options c) k =
    (if k = ContainerLabelHostNetwork
     then (if pe_HostNetwork options then Some ''true'' else map_of (pe_Labels options) k)
     else case map_of [(ContainerLabelPodUID, pe_PodUid options),
                       (ContainerLabelPodNamespace, pe_Namespace options),
                       (ContainerLabelPodName, pe_Name options),
                       (ContainerLabelPodContainer, c),
                       (ContainerLabelPodContainerRole,
                          if c = ContainerNamePause then ContainerRoleInfra else ContainerRoleWork)] k of
            Some v \<Rightarrow> Some v | None \<Rightarrow> map_of (pe_Labels options) k)"
  using ContainerLabels_host_network [OF assms, of c] map_of_ContainerLabels [OF assms, of c k]
  unfolding label_defaults_def by auto

text \<open>Witness: a user label that tries to set the pod UID is overridden.\<close>

theorem container_labels_priority_witness:
  "map_of (ContainerLabels (exampleCmd\<lparr>pe_Labels := [(ContainerLabelPodUID, ''evil''), (''app'', ''x'')]\<rparr>) ''web'')
     ContainerLabelPodUID = Some ''u1''"
  using container_labels_priority
    [of "exampleCmd\<lparr>pe_Labels := [(ContainerLabelPodUID, ''evil''), (''app'', ''x'')]\<rparr>" "''web''" ContainerLabelPodUID]
  by (simp add: gm_wf_def label_consts) (simp add: exampleCmd_def)

text \<open>A container is recognised as abbot exactly when it is named \<^verbatim>\<open>abbot\<close>, its pod has
  the abbot role label, and its pod is marked host network with the value \<^verbatim>\<open>true\<close>; the mark may come from the pod
  command or from a user label.\<close>

theorem abbot_filter_matches:
  assumes "gm_wf (pe_Labels options)"
  shows "filterLabels AbbotMatchLabels (ContainerLabels options c) \<longleftrightarrow>
    c = ContainerNameAbbot \<and> gm_str (pe_Labels options) LabelRole = LabelRoleValueAbbot
    \<and> (pe_HostNetwork options \<or> map_of (pe_Labels options) ContainerLabelHostNetwork = Some ''true'')"
proof -
  have hn: "gm_str (ContainerLabels options c) ContainerLabelHostNetwork = ''true'' \<longleftrightarrow>
      pe_HostNetwork options \<or> map_of (pe_Labels options) ContainerLabelHostNetwork = Some ''true''"
    using ContainerLabels_host_network [OF assms, of c] by (auto simp: gm_str_def split: option.splits)
  have "4 \<le> length (ContainerLabels options c)" using ContainerLabels_length [of options c] by simp
  then show ?thesis
    using hn gm_str_ContainerLabels(3,4) [OF assms, of c] ContainerLabels_role_label [OF assms, of c]
    by (auto simp: filterLabels_iff AbbotMatchLabels_def)
       (simp_all add: label_consts)
qed

text \<open>Witness: the abbot container of a host network pod with the abbot role.\<close>

theorem abbot_filter_matches_witness:
  "filterLabels AbbotMatchLabels (ContainerLabels (exampleCmd\<lparr>pe_Labels := [(LabelRole, ''Abbot'')]\<rparr>) ''abbot'')"
  using abbot_filter_matches [of "exampleCmd\<lparr>pe_Labels := [(LabelRole, ''Abbot'')]\<rparr>" "''abbot''"]
  by (simp add: gm_wf_def label_consts gm_str_def) (simp add: exampleCmd_def)

text \<open>The namespaces of a work container: network and IPC are the host's when the pod
  asks for it and the pause container's otherwise, UTS is always the pause container's, and the process namespace is
  the host's, the pause container's, or private (no entry).\<close>

theorem shared_namespaces_modes:
  "gm_str (SharedNamespaces i options) ''net'' = (if pe_HostNetwork options then ''host'' else ''container:'' @ i)
   \<and> gm_str (SharedNamespaces i options) ''ipc'' = (if pe_HostIpc options then ''host'' else ''container:'' @ i)
   \<and> gm_str (SharedNamespaces i options) ''uts'' = ''container:'' @ i
   \<and> map_of (SharedNamespaces i options) ''pid'' =
       (if pe_HostPid options then Some ''host''
        else if pe_SharePid options then Some (''container:'' @ i) else None)"
  by (simp add: SharedNamespaces_def Let_def gm_str_def gm_put_def)

text \<open>The environment of an image, given as \<^verbatim>\<open>key=value\<close> strings, is read back as the map
  of its pairs (keys contain no equals sign; a value may).\<close>

theorem get_env_roundtrip:
  assumes "\<forall>(k, v)\<in>set kvs. CHR ''='' \<notin> set k" and "gm_wf kvs"
  shows "map_of (GetEnv (map (\<lambda>(k, v). k @ ''='' @ v) kvs)) = map_of kvs"
  unfolding GetEnv_def GetEnv_loop_pairs [OF assms(1)] by (simp add: map_of_gm_copy [OF assms(2)])

text \<open>Witness: a value with an equals sign survives.\<close>

theorem get_env_roundtrip_witness:
  "map_of (GetEnv [''PATH=/bin'', ''OPT=a=b'']) ''OPT'' = Some ''a=b''"
  using get_env_roundtrip [of "[(''PATH'', ''/bin''), (''OPT'', ''a=b'')]"] by (simp add: gm_wf_def)

end
