(* ===== verification/BaseRuntime.thy ===== *)
theory BaseRuntime
  imports Protos
begin

text \<open>
  \<^verbatim>\<open>containerutil.BaseRuntime\<close> (\<^verbatim>\<open>base_runtime.go\<close>): the identity of the runtime, its
  timeouts and the layout of a pod's directories under the data directory. The
  facts shown here place every volume directory of a pod strictly below the pod's
  own directory, and keep the directories of different pods and volumes apart.
\<close>

record baseRuntime =
  br_dataDir :: string
  br_podActionTimeout :: int
  br_imageActionTimeout :: int
  br_name :: string
  br_version :: string
  br_os :: string
  br_osImage :: string
  br_arch :: string
  br_kernelVersion :: string

definition NewBaseRuntime ::
  "string \<Rightarrow> int \<Rightarrow> int \<Rightarrow> string \<Rightarrow> string \<Rightarrow> string \<Rightarrow> string \<Rightarrow> string \<Rightarrow> string \<Rightarrow> baseRuntime" where
  "NewBaseRuntime dataDir imageActionTimeout podActionTimeout name version os osImage arch kernelVersion =
     \<lparr>br_dataDir = dataDir, br_podActionTimeout = podActionTimeout,
      br_imageActionTimeout = imageActionTimeout, br_name = name, br_version = version,
      br_os = os, br_osImage = osImage, br_arch = arch, br_kernelVersion = kernelVersion\<rparr>"

definition PodDir :: "baseRuntime \<Rightarrow> string \<Rightarrow> string" where
  "PodDir r podUID = path_Join [br_dataDir r, ''pods'', podUID]"

definition podVolumeDir :: "baseRuntime \<Rightarrow> string \<Rightarrow> string \<Rightarrow> string \<Rightarrow> string" where
  "podVolumeDir r podUID typ volumeName = path_Join [PodDir r podUID, ''volumes'', typ, volumeName]"

definition PodRemoteVolumeDir :: "baseRuntime \<Rightarrow> string \<Rightarrow> string \<Rightarrow> string" where
  "PodRemoteVolumeDir r podUID volumeName = podVolumeDir r podUID ''remote'' volumeName"

definition PodBindVolumeDir :: "baseRuntime \<Rightarrow> string \<Rightarrow> string \<Rightarrow> string" where
  "PodBindVolumeDir r podUID volumeName = podVolumeDir r podUID ''bind'' volumeName"

definition PodTmpfsVolumeDir :: "baseRuntime \<Rightarrow> string \<Rightarrow> string \<Rightarrow> string" where
  "PodTmpfsVolumeDir r podUID volumeName = podVolumeDir r podUID ''tmpfs'' volumeName"

definition PodResolvConfFile :: "baseRuntime \<Rightarrow> string \<Rightarrow> string" where
  "PodResolvConfFile r podUID = path_Join [PodDir r podUID, ''volumes'', ''bind'', ''_net'', ''resolv.conf'']"

section \<open>Where the directories lie\<close>

text \<open>An absolute data directory is cleaned once; plain elements are then only appended.\<close>

definition clean_base :: "string \<Rightarrow> string" where
  "clean_base d = (let b = path_Clean d in if b = ''/'' then [] else b)"

lemma path_Join_abs:
  assumes "qs \<noteq> []" and "\<forall>e\<in>set qs. plain_elem e"
  shows "path_Join ((slash # d) # qs) = clean_base (slash # d) @ slash # join_with slash qs"
proof -
  obtain q qs' where q: "qs = q # qs'" using assms(1) by (cases qs) auto
  have "path_Join ((slash # d) # qs) = path_Clean (slash # d @ slash # join_with slash qs)"
    by (simp add: path_Join_def q)
  then show ?thesis by (simp add: path_Clean_append_plain assms clean_base_def Let_def)
qed

lemma path_Join_pod_append:
  assumes "\<forall>e\<in>set ps. plain_elem e" and "ps \<noteq> []" and "\<forall>e\<in>set qs. plain_elem e" and "qs \<noteq> []"
  shows "path_Join (path_Join ((slash # d) # ps) # qs) =
    clean_base (slash # d) @ slash # join_with slash (ps @ qs)"
proof -
  have c: "clean_base (slash # d) @ slash # join_with slash ps = path_Clean (slash # d @ slash # join_with slash ps)"
    by (simp add: path_Clean_append_plain assms clean_base_def Let_def)
  have root: "path_Clean (slash # x) = slash # join_with slash (clean_elems True (split_on slash x))" for x
    by (rule path_Clean_rooted)
  let ?p = "path_Join ((slash # d) # ps)"
  have p: "?p = path_Clean (slash # d @ slash # join_with slash ps)"
    using path_Join_abs [OF assms(2,1), of d] c by simp
  then obtain x where x: "?p = slash # x" by (simp add: root)
  have fixed: "path_Clean ?p = ?p"
    unfolding p by (rule path_Clean_idem)
  have "join_with slash ps \<noteq> []"
    using join_with_hd [of ps slash] assms(1,2) by (auto simp: plain_elem_def)
  then have "?p \<noteq> ''/''"
    using path_Join_abs [OF assms(2,1), of d] by (cases "clean_base (slash # d)") simp_all
  with fixed have "clean_base ?p = ?p"
    unfolding clean_base_def Let_def by simp
  then have "path_Join (?p # qs) = ?p @ slash # join_with slash qs"
    using path_Join_abs [OF assms(4,3), of x] by (simp add: x)
  then show ?thesis using path_Join_abs [OF assms(2,1), of d] assms(2,4)
    by (simp add: join_with_append)
qed

lemma plain_consts [simp]:
  "plain_elem ''pods''" "plain_elem ''volumes''" "plain_elem ''remote''" "plain_elem ''bind''"
  "plain_elem ''tmpfs''" "plain_elem ''_net''" "plain_elem ''resolv.conf''"
  by (simp_all add: plain_elem_def)

lemma PodDir_eq:
  "br_dataDir r = slash # d \<Longrightarrow> plain_elem uid \<Longrightarrow>
   PodDir r uid = clean_base (slash # d) @ slash # join_with slash [''pods'', uid]"
  unfolding PodDir_def by (simp only: path_Join_abs) (simp add: path_Join_abs)

text \<open>For the empty UID the directory is the parent of all pod directories.\<close>

lemma PodDir_empty:
  assumes "br_dataDir r = slash # d"
  shows "PodDir r [] = clean_base (slash # d) @ ''/pods''"
proof -
  have "PodDir r [] = path_Clean (slash # (d @ ''/pods'') @ [slash])"
    by (simp add: PodDir_def path_Join_def assms)
  also have "\<dots> = path_Join [slash # d, ''pods'']"
    unfolding path_Clean_trailing by (simp add: path_Join_def)
  also have "\<dots> = clean_base (slash # d) @ ''/pods''"
    using path_Join_abs [of "[''pods'']" d] by simp
  finally show ?thesis .
qed

lemma podVolumeDir_eq:
  "br_dataDir r = slash # d \<Longrightarrow> plain_elem uid \<Longrightarrow> plain_elem typ \<Longrightarrow> plain_elem vol \<Longrightarrow>
   podVolumeDir r uid typ vol =
     clean_base (slash # d) @ slash # join_with slash [''pods'', uid, ''volumes'', typ, vol]"
  using path_Join_pod_append [of "[''pods'', uid]" "[''volumes'', typ, vol]" d]
  by (simp add: podVolumeDir_def PodDir_def)

lemma PodResolvConfFile_eq:
  "br_dataDir r = slash # d \<Longrightarrow> plain_elem uid \<Longrightarrow>
   PodResolvConfFile r uid =
     clean_base (slash # d) @ slash # join_with slash [''pods'', uid, ''volumes'', ''bind'', ''_net'', ''resolv.conf'']"
  using path_Join_pod_append [of "[''pods'', uid]" "[''volumes'', ''bind'', ''_net'', ''resolv.conf'']" d]
  by (simp add: PodResolvConfFile_def PodDir_def)

text \<open>A plain file name inside a volume directory.\<close>

lemma podVolumeDir_file:
  assumes "br_dataDir r = slash # d" "plain_elem uid" "plain_elem typ" "plain_elem vol" "plain_elem f"
  shows "path_Join [podVolumeDir r uid typ vol, f] = podVolumeDir r uid typ vol @ slash # f"
proof -
  let ?ps = "[''pods'', uid, ''volumes'', typ, vol]"
  have "podVolumeDir r uid typ vol = path_Join ((slash # d) # ?ps)"
    using assms podVolumeDir_eq [OF assms(1-4)] path_Join_abs [of ?ps d] by simp
  then have "path_Join [podVolumeDir r uid typ vol, f] = clean_base (slash # d) @ slash # join_with slash (?ps @ [f])"
    using assms path_Join_pod_append [of ?ps "[f]" d] by simp
  then show ?thesis using podVolumeDir_eq [OF assms(1-4)] by simp
qed

lemma podVolumeDir_below:
  "br_dataDir r = slash # d \<Longrightarrow> plain_elem uid \<Longrightarrow> plain_elem typ \<Longrightarrow> plain_elem vol \<Longrightarrow>
   podVolumeDir r uid typ vol = PodDir r uid @ ''/volumes/'' @ typ @ slash # vol"
  by (simp add: PodDir_eq podVolumeDir_eq)

lemma join_inj:
  assumes "join_with slash xs = join_with slash ys" and "xs \<noteq> []" and "ys \<noteq> []"
    and "\<forall>e\<in>set xs. plain_elem e" and "\<forall>e\<in>set ys. plain_elem e"
  shows "xs = ys"
proof -
  have "split_on slash (join_with slash xs) = xs" and "split_on slash (join_with slash ys) = ys"
    using assms(2-5) by (intro split_join; auto simp: plain_elem_def)+
  with assms(1) show ?thesis by metis
qed

section \<open>Properties\<close>

text \<open>The volume directory of a pod with a plain UID, volume type and volume name
  lies strictly below the directory of that pod, which lies below the data directory's
  \<^verbatim>\<open>pods\<close>, so removing the pod's directory removes its volumes and nothing of the data directory outside it.\<close>

theorem volume_dir_below_pod_dir:
  assumes "br_dataDir r = CHR ''/'' # d" and "plain_elem uid" and "plain_elem typ" and "plain_elem vol"
  shows "podVolumeDir r uid typ vol = PodDir r uid @ ''/volumes/'' @ typ @ ''/'' @ vol
    \<and> PodDir r uid = clean_base (CHR ''/'' # d) @ ''/pods/'' @ uid"
  using assms by (simp add: PodDir_eq podVolumeDir_eq)

text \<open>Witness of the placement at the default data directory.\<close>

theorem volume_dir_below_pod_dir_witness:
  "podVolumeDir (NewBaseRuntime ''/var/lib/arhat/podman/data'' 0 0 '''' '''' '''' '''' '''' '''') ''u1'' ''remote'' ''v'' =
   ''/var/lib/arhat/podman/data/pods/u1/volumes/remote/v''"
proof -
  have "podVolumeDir (NewBaseRuntime ''/var/lib/arhat/podman/data'' 0 0 '''' '''' '''' '''' '''' '''') ''u1'' ''remote'' ''v'' =
    clean_base ''/var/lib/arhat/podman/data'' @ ''/pods/u1/volumes/remote/v''"
    using volume_dir_below_pod_dir
      [of "NewBaseRuntime ''/var/lib/arhat/podman/data'' 0 0 '''' '''' '''' '''' '''' ''''"
        "''var/lib/arhat/podman/data''" "''u1''" "''remote''" "''v''"]
    by (simp add: NewBaseRuntime_def plain_elem_def)
  also have "clean_base ''/var/lib/arhat/podman/data'' = ''/var/lib/arhat/podman/data''"
    by (simp add: clean_base_def path_Clean_def Let_def clean_elems_def clean_step_def)
  finally show ?thesis by simp
qed

text \<open>The remote, bind and tmpfs directories of (pod, volume) pairs never collide:
  equal paths come from the same kind, the same pod UID and the same volume name.\<close>

theorem volume_dirs_injective:
  assumes "br_dataDir r = CHR ''/'' # d" and "plain_elem u" and "plain_elem u'" and "plain_elem v" and "plain_elem v'"
    and "t \<in> {''remote'', ''bind'', ''tmpfs''}" and "t' \<in> {''remote'', ''bind'', ''tmpfs''}"
    and "podVolumeDir r u t v = podVolumeDir r u' t' v'"
  shows "u = u' \<and> t = t' \<and> v = v'"
proof -
  have t: "plain_elem t" "plain_elem t'" using assms(6,7) by (auto simp: plain_elem_def)
  then have "join_with slash [''pods'', u, ''volumes'', t, v] = join_with slash [''pods'', u', ''volumes'', t', v']"
    using assms by (simp add: podVolumeDir_eq)
  then have "[''pods'', u, ''volumes'', t, v] = [''pods'', u', ''volumes'', t', v']"
    using assms t by (intro join_inj) simp_all
  then show ?thesis by simp
qed

text \<open>Witness: two volumes of one pod have different directories.\<close>

theorem volume_dirs_injective_witness:
  "podVolumeDir (NewBaseRuntime ''/d'' 0 0 '''' '''' '''' '''' '''' '''') ''u'' ''remote'' ''v'' \<noteq>
   podVolumeDir (NewBaseRuntime ''/d'' 0 0 '''' '''' '''' '''' '''' '''') ''u'' ''remote'' ''w''"
  using volume_dirs_injective
    [of "NewBaseRuntime ''/d'' 0 0 '''' '''' '''' '''' '''' ''''" "''d''" "''u''" "''u''" "''v''" "''w''"
      "''remote''" "''remote''"]
  by (auto simp: NewBaseRuntime_def plain_elem_def)

end
