(* ===== verification/Network.thy ===== *)
theory Network
  imports Protos
begin

text \<open>
  \<^verbatim>\<open>ext.arhat.dev/runtimeutil/networkutil\<close> (\<^verbatim>\<open>client.go\<close>): the client that asks the
  abbot container to set up, query, restore and delete pod networks, and the
  \<^verbatim>\<open>resolv.conf\<close> it renders. The function that runs abbot is a field of the client;
  here it is an argument: it gets the environment, the standard input (\<open>None\<close> for
  a nil reader) and whether standard output is collected, and returns what was
  written to the two output buffers.
\<close>

section \<open>Requests to abbot\<close>

type_synonym 'w abbotExec = "labels \<Rightarrow> string option \<Rightarrow> bool \<Rightarrow> ('w, string \<times> string) act"

definition abbotEnv :: "int \<Rightarrow> string \<Rightarrow> labels" where
  "abbotEnv pid containerID =
     [(''ABBOT_REQ_CONTAINER_ID'', containerID), (''ABBOT_REQ_CONTAINER_PID'', FormatInt pid)]"

text \<open>
  A non-empty standard error is a failure, with its text as the message. The source passes
  the text to \<^verbatim>\<open>fmt.Errorf\<close> as the format, so a percent sign in it would be rewritten; the
  model keeps the text.
\<close>

definition checkStderr :: "string \<Rightarrow> 'a \<Rightarrow> ('w, 'a) act" where
  "checkStderr errStr a = (if length errStr \<noteq> 0 then throw (ErrNew errStr) else ret a)"

definition network_Do :: "'w abbotExec \<Rightarrow> string \<Rightarrow> int \<Rightarrow> string \<Rightarrow> ('w, string) act" where
  "network_Do execAbbot abbotReqData pid containerID =
     andThen (execAbbot (abbotEnv pid containerID) (Some abbotReqData) True)
       (\<lambda>(buf, errBuf). checkStderr errBuf buf)"

definition network_Restore :: "'w abbotExec \<Rightarrow> int \<Rightarrow> string \<Rightarrow> ('w, unit) act" where
  "network_Restore execAbbot pid containerID =
     andThen (execAbbot (abbotEnv pid containerID @ [(''ABBOT_REQ_ACTION'', ''container:restore'')]) None False)
       (\<lambda>(_, errBuf). checkStderr errBuf ())"

definition network_Query :: "'w abbotExec \<Rightarrow> int \<Rightarrow> string \<Rightarrow> ('w, string) act" where
  "network_Query execAbbot pid containerID =
     andThen (execAbbot (abbotEnv pid containerID @ [(''ABBOT_REQ_ACTION'', ''container:query'')]) None True)
       (\<lambda>(buf, errBuf). checkStderr errBuf buf)"

definition network_Delete :: "'w abbotExec \<Rightarrow> int \<Rightarrow> string \<Rightarrow> ('w, unit) act" where
  "network_Delete execAbbot pid containerID =
     andThen (execAbbot (abbotEnv pid containerID @ [(''ABBOT_REQ_ACTION'', ''container:delete'')]) None False)
       (\<lambda>(_, errBuf). checkStderr errBuf ())"

lemma network_Delete_Ok_iff:
  "network_Delete ex pid cid w = (Ok (), w') \<longleftrightarrow>
   (\<exists>out. ex (abbotEnv pid cid @ [(''ABBOT_REQ_ACTION'', ''container:delete'')]) None False w = (Ok (out, []), w'))"
  by (auto simp: network_Delete_def andThen_def checkStderr_def split: outcome.splits prod.splits)

section \<open>The generated resolv.conf\<close>

abbreviation newline :: char where
  "newline \<equiv> CHR 0x0A"

definition resolvHeader :: string where
  "resolvHeader = ''# resolv.conf generated by ext.arhat.dev/runtimeutil''"

text \<open>
  The text the template produces: the trim markers of the template glue \<^verbatim>\<open>search\<close>
  and \<^verbatim>\<open>options\<close> to their space separated words, and the last line is empty when
  there are no options.
\<close>

definition renderResolvConf :: "string list \<Rightarrow> string list \<Rightarrow> string list \<Rightarrow> string" where
  "renderResolvConf servers searches options =
     resolvHeader @ [newline]
     @ concat (map (\<lambda>s. ''nameserver '' @ s @ [newline]) servers)
     @ ''search'' @ concat (map (\<lambda>s. '' '' @ s) searches) @ [newline]
     @ (if length options > 0 then ''options'' @ concat (map (\<lambda>s. '' '' @ s) options) else [])
     @ [newline]"

definition CreateResolvConf :: "string list \<Rightarrow> string list \<Rightarrow> string list \<Rightarrow> string" where
  "CreateResolvConf nameservers searches options =
     (let nameservers = (if length nameservers = 0 then [''::1'', ''127.0.0.1''] else nameservers);
          searches = (if length searches = 0 then [''.''] else searches)
      in renderResolvConf nameservers searches options)"

lemma split_nameserver_lines:
  "(\<forall>s\<in>set servers. newline \<notin> set s) \<Longrightarrow>
   split_on newline (concat (map (\<lambda>s. ''nameserver '' @ s @ [newline]) servers) @ rest) =
   map (\<lambda>s. ''nameserver '' @ s) servers @ split_on newline rest"
proof (induction servers)
  case Nil
  then show ?case by simp
next
  case (Cons s servers)
  have "newline \<notin> set (''nameserver '' @ s)" using Cons.prems by auto
  from split_on_append_sep [OF this] Cons show ?case by simp
qed

lemma newline_free_words:
  "(\<forall>s\<in>set ss. newline \<notin> set s) \<Longrightarrow> newline \<notin> set (concat (map (\<lambda>s. '' '' @ s) ss))"
  by auto

lemma split_renderResolvConf:
  assumes "\<forall>s\<in>set servers \<union> set searches \<union> set options. newline \<notin> set s"
  shows "split_on newline (renderResolvConf servers searches options) =
    resolvHeader # map (\<lambda>s. ''nameserver '' @ s) servers
    @ [''search'' @ concat (map (\<lambda>s. '' '' @ s) searches),
       if options = [] then [] else ''options'' @ concat (map (\<lambda>s. '' '' @ s) options), []]"
proof -
  let ?opt = "if length options > 0 then ''options'' @ concat (map (\<lambda>s. '' '' @ s) options) else []"
  let ?sea = "''search'' @ concat (map (\<lambda>s. '' '' @ s) searches)"
  have o: "newline \<notin> set ?opt" and s: "newline \<notin> set ?sea"
    using assms newline_free_words [of options] newline_free_words [of searches] by auto
  have h: "newline \<notin> set resolvHeader" by (simp add: resolvHeader_def)
  have eq: "renderResolvConf servers searches options = resolvHeader @ newline #
      (concat (map (\<lambda>s. ''nameserver '' @ s @ [newline]) servers) @ (?sea @ newline # (?opt @ newline # [])))"
    by (simp add: renderResolvConf_def)
  have "split_on newline (renderResolvConf servers searches options) =
      resolvHeader # map (\<lambda>s. ''nameserver '' @ s) servers @ [?sea, ?opt, []]"
    unfolding eq split_on_append_sep [OF h]
    using assms by (subst split_nameserver_lines)
      (simp_all only: split_on_append_sep [OF s] split_on_append_sep [OF o] split_on.simps, auto)
  then show ?thesis by auto
qed

section \<open>Properties\<close>

text \<open>An abbot request succeeds exactly when the abbot command ran without error and
  wrote nothing to its standard error; any text on standard error becomes the error of the request, and
  a failed run is passed on unchanged.\<close>

theorem abbot_request_outcome:
  "network_Query ex pid cid w =
     (case ex (abbotEnv pid cid @ [(''ABBOT_REQ_ACTION'', ''container:query'')]) None True w of
        (Ok (out, errs), w') \<Rightarrow> (if errs = [] then (Ok out, w') else (Err (ErrNew errs), w'))
      | (Err e, w') \<Rightarrow> (Err e, w')
      | (Panic s, w') \<Rightarrow> (Panic s, w'))"
  by (auto simp: network_Query_def andThen_def checkStderr_def split: outcome.splits prod.splits)

text \<open>The generated \<^verbatim>\<open>resolv.conf\<close>, read back line by line, has the header, one
  \<^verbatim>\<open>nameserver\<close> line per server in order, one \<^verbatim>\<open>search\<close> line and the options line; with no servers or no
  search domains the documented defaults are used.\<close>

theorem resolv_conf_lines:
  assumes "\<forall>s\<in>set ns \<union> set ss \<union> set os. CHR 0x0A \<notin> set s"
  shows "split_on (CHR 0x0A) (CreateResolvConf ns ss os) =
    resolvHeader # map (\<lambda>s. ''nameserver '' @ s) (if ns = [] then [''::1'', ''127.0.0.1''] else ns)
    @ [''search'' @ concat (map (\<lambda>s. '' '' @ s) (if ss = [] then [''.''] else ss)),
       if os = [] then [] else ''options'' @ concat (map (\<lambda>s. '' '' @ s) os), []]"
proof -
  let ?ns = "if ns = [] then [''::1'', ''127.0.0.1''] else ns"
  let ?ss = "if ss = [] then [''.''] else ss"
  have "CreateResolvConf ns ss os = renderResolvConf ?ns ?ss os"
    by (simp add: CreateResolvConf_def Let_def)
  moreover have "\<forall>s\<in>set ?ns \<union> set ?ss \<union> set os. newline \<notin> set s"
    using assms by (auto split: if_splits)
  ultimately show ?thesis using split_renderResolvConf [of ?ns ?ss os] by simp
qed

text \<open>Witness: one server, default search domain, two options.\<close>

theorem resolv_conf_lines_witness:
  "split_on (CHR 0x0A) (CreateResolvConf [''10.0.0.2''] [] [''ndots:5'', ''rotate'']) =
    [resolvHeader, ''nameserver 10.0.0.2'', ''search .'', ''options ndots:5 rotate'', []]"
  using resolv_conf_lines [of "[''10.0.0.2'']" "[]" "[''ndots:5'', ''rotate'']"] by simp

end
