(* ===== verification/Logs.thy ===== *)
theory Logs
  imports GoStd Protos
begin

text \<open>
  \<^verbatim>\<open>runtimeutil/actionutil/logs.go\<close>: reading container logs. The formats of log lines, the writer with its limit
  of bytes, the search for the start of the last lines in blocks from the end of the file, and the reading loop, with
  and without following the file. Times are nanoseconds with 0 for the zero time; parsing and printing
  them, decoding JSON and the writers of the caller are arguments. Shown: the block search finds
  exactly the last lines, a line written in the CRI format is read back, no more bytes are written
  than the limit allows, and following a file shows what reading it as a whole shows.
\<close>

section \<open>Log lines\<close>

record logsCmd =
  lc_PodUid :: string
  lc_Container :: string
  lc_Follow :: bool
  lc_Timestamp :: bool
  lc_Since :: string
  lc_TailLines :: int
  lc_BytesLimit :: int
  lc_Previous :: bool
  lc_Path :: string

record logMessage =
  lm_timestamp :: int
  lm_stream :: string
  lm_log :: string

record LogOptions =
  lo_tail :: int
  lo_bytes :: int
  lo_since :: int
  lo_follow :: bool
  lo_timestamp :: bool

text \<open>The arguments: \<^verbatim>\<open>time.Parse\<close> and \<^verbatim>\<open>Time.Format\<close> with the layout RFC3339Nano, \<^verbatim>\<open>json.Unmarshal\<close> of a docker log line (log, stream
  and time) and of a line of the program's own log (its time), resolving and opening a path (the content of the file; seeking and reading it do
  not fail), creating the watcher, whether the context has ended when the reading loop starts its
  \<open>i\<close>-th round, and the \<^verbatim>\<open>Write\<close> of the two streams: how many bytes were taken, and the error.\<close>

record logEnv =
  le_parseTime :: "string \<Rightarrow> goerr + int"
  le_formatTime :: "int \<Rightarrow> string"
  le_dockerJSON :: "string \<Rightarrow> goerr + string \<times> string \<times> int"
  le_arhatJSON :: "string \<Rightarrow> goerr + string"
  le_EvalSymlinks :: "string \<Rightarrow> goerr + string"
  le_Open :: "string \<Rightarrow> goerr + string"
  le_watchErr :: "goerr option"
  le_exiting :: "nat \<Rightarrow> bool"
  le_write :: "string \<Rightarrow> string \<Rightarrow> nat \<times> goerr option"

definition timeFormat :: string where "timeFormat = ''2006-01-02T15:04:05.999999999Z07:00''"
definition eol :: char where "eol = CHR 0x0A"
definition delimiter :: char where "delimiter = CHR '' ''"
definition tagDelimiter :: char where "tagDelimiter = CHR '':''"

text \<open>\<^verbatim>\<open>bytes.Index\<close> of one byte, as the parts before and after it.\<close>

definition cutAt :: "char \<Rightarrow> string \<Rightarrow> (string \<times> string) option" where
  "cutAt c s = (if c \<in> set s then Some (takeWhile (\<lambda>x. x \<noteq> c) s, tl (dropWhile (\<lambda>x. x \<noteq> c) s)) else None)"

definition isStream :: "string \<Rightarrow> bool" where
  "isStream s \<longleftrightarrow> s = ''stdout'' \<or> s = ''stderr''"

definition parseCRILog :: "logEnv \<Rightarrow> string \<Rightarrow> goerr + logMessage" where
  "parseCRILog env log =
     (case cutAt delimiter log of
        None \<Rightarrow> Inl (ErrNew ''timestamp is not found'')
      | Some (ts, log) \<Rightarrow>
          (case le_parseTime env ts of
             Inl err \<Rightarrow> Inl (ErrWrap (''unexpected timestamp format '' @ goQuote timeFormat) err)
           | Inr timestamp \<Rightarrow>
               (case cutAt delimiter log of
                  None \<Rightarrow> Inl (ErrNew ''stream type is not found'')
                | Some (strm, log) \<Rightarrow>
                    if \<not> isStream strm then Inl (ErrNew (''unexpected stream type '' @ goQuote strm))
                    else
                      (case cutAt delimiter log of
                         None \<Rightarrow> Inl (ErrNew ''log tag is not found'')
                       | Some (tag, content) \<Rightarrow>
                           let partial = hd (split_on tagDelimiter tag) = ''P'' in
                           Inr \<lparr>lm_timestamp = timestamp, lm_stream = strm,
                                lm_log = (if partial \<and> last log = eol then butlast content else content)\<rparr>))))"

definition parseDockerJSONLog :: "logEnv \<Rightarrow> string \<Rightarrow> goerr + logMessage" where
  "parseDockerJSONLog env log =
     (case le_dockerJSON env log of
        Inl err \<Rightarrow> Inl (ErrNew (''failed with '' @ err_Error err @ '' to unmarshal log''))
      | Inr (content, strm, created) \<Rightarrow>
          if strm = [] then Inl (ErrNew ''stream type is not found'')
          else Inr \<lparr>lm_timestamp = created, lm_stream = strm, lm_log = content\<rparr>)"

definition parseArhatConsoleLog :: "logEnv \<Rightarrow> string \<Rightarrow> goerr + logMessage" where
  "parseArhatConsoleLog env line =
     (case cutAt (CHR 0x09) line of
        None \<Rightarrow> Inl (ErrNew ''unexpected non tab existence'')
      | Some (ts, _) \<Rightarrow>
          (case le_parseTime env ts of
             Inl err \<Rightarrow> Inl (ErrWrap (''unexpected timestamp format '' @ ts) err)
           | Inr timestamp \<Rightarrow> Inr \<lparr>lm_timestamp = timestamp, lm_stream = ''stderr'', lm_log = line\<rparr>))"

definition parseArhatJSONLog :: "logEnv \<Rightarrow> string \<Rightarrow> goerr + logMessage" where
  "parseArhatJSONLog env line =
     (case le_arhatJSON env line of
        Inl err \<Rightarrow> Inl err
      | Inr time \<Rightarrow>
          Inr \<lparr>lm_timestamp = (case le_parseTime env time of Inl _ \<Rightarrow> 0 | Inr t \<Rightarrow> t), lm_stream = ''stderr'', lm_log = line\<rparr>)"

definition parseFuncs :: "logEnv \<Rightarrow> (string \<Rightarrow> goerr + logMessage) list" where
  "parseFuncs env = [parseCRILog env, parseDockerJSONLog env, parseArhatConsoleLog env, parseArhatJSONLog env]"

definition getParseFunc :: "logEnv \<Rightarrow> string \<Rightarrow> goerr + (string \<Rightarrow> goerr + logMessage)" where
  "getParseFunc env log =
     (case find (\<lambda>p. case p log of Inl _ \<Rightarrow> False | Inr _ \<Rightarrow> True) (parseFuncs env) of
        None \<Rightarrow> Inl (ErrNew (''unsupported log format: '' @ goQuote log))
      | Some p \<Rightarrow> Inr p)"

section \<open>The writer\<close>

record logWriter =
  lw_stdout :: string
  lw_stderr :: string
  lw_remain :: int

definition newLogWriter :: "LogOptions \<Rightarrow> logWriter" where
  "newLogWriter opts =
     \<lparr>lw_stdout = [], lw_stderr = [], lw_remain = (if 0 \<le> lo_bytes opts then lo_bytes opts else 2 ^ 63 - 1)\<rparr>"

definition errMaximumWrite :: goerr where "errMaximumWrite = ErrNew ''maximum write''"
definition errShortWrite :: goerr where "errShortWrite = ErrNew ''short write''"

definition logWriter_write :: "logEnv \<Rightarrow> LogOptions \<Rightarrow> logMessage \<Rightarrow> logWriter \<Rightarrow> goerr option \<times> logWriter" where
  "logWriter_write env opts m w =
     (if lm_timestamp m < lo_since opts then (None, w)
      else
        let line = (if lo_timestamp opts then le_formatTime env (lm_timestamp m) @ [delimiter] @ lm_log m else lm_log m);
            line = (if lw_remain w < int (length line) then take (nat (lw_remain w)) line else line)
        in if \<not> isStream (lm_stream m) then (Some (ErrNew (''unexpected stream type '' @ goQuote (lm_stream m))), w)
           else
             (case le_write env (lm_stream m) line of
                (n, err) \<Rightarrow>
                  let w' = (if lm_stream m = ''stdout'' then w\<lparr>lw_stdout := lw_stdout w @ take n line\<rparr>
                            else w\<lparr>lw_stderr := lw_stderr w @ take n line\<rparr>)\<lparr>lw_remain := lw_remain w - int n\<rparr>
                  in (if err \<noteq> None then err
                      else if n < length line then Some errShortWrite
                      else if lw_remain w' \<le> 0 then Some errMaximumWrite
                      else None, w')))"

definition newLogOptions :: "logEnv \<Rightarrow> logsCmd \<Rightarrow> LogOptions" where
  "newLogOptions env apiOpts =
     \<lparr>lo_tail = lc_TailLines apiOpts, lo_bytes = lc_BytesLimit apiOpts,
      lo_since = (if lc_Since apiOpts = [] then 0 else case le_parseTime env (lc_Since apiOpts) of Inl _ \<Rightarrow> 0 | Inr t \<Rightarrow> t),
      lo_follow = lc_Follow apiOpts, lo_timestamp = lc_Timestamp apiOpts\<rparr>"

section \<open>The start of the last lines\<close>

definition blockSize :: nat where "blockSize = 1024"

definition countEol :: "string \<Rightarrow> nat" where
  "countEol s = length (filter (\<lambda>c. c = eol) s)"

text \<open>The loop over blocks from the end of the file. The state is \<^verbatim>\<open>right\<close>, \<^verbatim>\<open>left\<close>, \<^verbatim>\<open>cnt\<close> and \<^verbatim>\<open>buf\<close>; a read fills
  the buffer.\<close>

function blockLoop :: "nat \<Rightarrow> string \<Rightarrow> nat \<Rightarrow> nat \<Rightarrow> nat \<Rightarrow> nat \<Rightarrow> string \<Rightarrow> nat \<times> nat \<times> string" where
  "blockLoop bs content n right left cnt buf =
     (if 0 < right \<and> cnt \<le> n \<and> 0 < bs then
        let left = right - bs;
            buf = take (right - left) (drop left content)
        in blockLoop bs content n left left (cnt + countEol buf) buf
      else (left, cnt, buf))"
  by pat_completeness auto

termination
  by (relation "measure (\<lambda>(bs, content, n, right, _). right)") auto

text \<open>The loop that skips lines at the front of the last block.\<close>

function skipLoop :: "nat \<Rightarrow> nat \<Rightarrow> nat \<Rightarrow> string \<Rightarrow> nat" where
  "skipLoop n left cnt buf =
     (if n < cnt then
        let idx = (if eol \<in> set buf then Suc (length (takeWhile (\<lambda>c. c \<noteq> eol) buf)) else 0)
        in skipLoop n (left + idx) (cnt - 1) (drop idx buf)
      else left)"
  by pat_completeness auto

termination
  by (relation "measure (\<lambda>(n, left, cnt, buf). cnt)") auto

declare blockLoop.simps [simp del] skipLoop.simps [simp del]

definition findTailLineStartIndex :: "string \<Rightarrow> int \<Rightarrow> nat" where
  "findTailLineStartIndex content n =
     (if n < 0 then 0
      else case blockLoop blockSize content (nat n) (length content) 0 0 [] of
        (left, cnt, buf) \<Rightarrow> skipLoop (nat n) left cnt buf)"

section \<open>The reading loop\<close>

text \<open>\<^verbatim>\<open>ReadBytes\<close>: a line with its end, or what is left, with \<^term>\<open>True\<close> for the end of the file.\<close>

definition readBytes :: "string \<Rightarrow> string \<times> bool \<times> string" where
  "readBytes s =
     (if eol \<in> set s then (takeWhile (\<lambda>c. c \<noteq> eol) s @ [eol], False, tl (dropWhile (\<lambda>c. c \<noteq> eol) s)) else (s, True, []))"

text \<open>The second half of a round: choose the format with the first line, parse, write. A line that cannot be parsed is
  skipped. \<^term>\<open>Inl\<close> ends the loop with a result.\<close>

type_synonym readState = "(string \<Rightarrow> goerr + logMessage) option \<times> logWriter"

definition logLine :: "logEnv \<Rightarrow> LogOptions \<Rightarrow> string \<Rightarrow> readState \<Rightarrow> (goerr option \<times> logWriter) + readState" where
  "logLine env opts l st =
     (case st of (parse, w) \<Rightarrow>
        (case (case parse of Some p \<Rightarrow> Inr p | None \<Rightarrow> getParseFunc env l) of
           Inl err \<Rightarrow> Inl (Some (ErrWrap ''failed to get parse function'' err), w)
         | Inr p \<Rightarrow>
             (case p l of
                Inl _ \<Rightarrow> Inr (Some p, w)
              | Inr m \<Rightarrow>
                  (case logWriter_write env opts m w of
                     (None, w') \<Rightarrow> Inr (Some p, w')
                   | (Some err, w') \<Rightarrow> Inl (if err = errMaximumWrite then None else Some err, w')))))"

text \<open>What happens to the file while it is followed: a notification together with what was appended before it.\<close>

datatype fileEvent = FileWritten string | OtherEvent string | WatchError goerr

text \<open>\<^verbatim>\<open>waitLogs\<close>: only a pure write counts, and five errors are tolerated. Without events it waits for the end of the
  context.\<close>

fun waitLogs :: "nat \<Rightarrow> fileEvent list \<Rightarrow> string \<Rightarrow> goerr option \<times> string \<times> fileEvent list" where
  "waitLogs errRetry [] appended = (Some CtxErr, appended, [])"
| "waitLogs errRetry (FileWritten d # evs) appended = (None, appended @ d, evs)"
| "waitLogs errRetry (OtherEvent d # evs) appended = waitLogs errRetry evs (appended @ d)"
| "waitLogs errRetry (WatchError err # evs) appended =
     (if errRetry = 0 then (Some err, appended, evs) else waitLogs (errRetry - 1) evs appended)"

lemma waitLogs_shorter: "waitLogs r evs a = (None, d, evs') \<Longrightarrow> length evs' < length evs"
proof (induction r evs a rule: waitLogs.induct)
  case (3 r d' evs a)
  then show ?case by fastforce
next
  case (4 r err evs a)
  then show ?case by (fastforce split: if_splits)
qed auto

lemma readBytes_shorter: "readBytes s = (l, False, s') \<Longrightarrow> length s' < length s"
proof -
  assume r: "readBytes s = (l, False, s')"
  then have "s' = tl (dropWhile (\<lambda>c. c \<noteq> eol) s)" "s \<noteq> []" by (auto simp: readBytes_def split: if_splits)
  with length_dropWhile_le [of "\<lambda>c. c \<noteq> eol" s] show ?thesis
    by (cases s) (auto simp: less_Suc_eq_le intro: le_less_trans)
qed

lemma readBytes_eof: "readBytes s = (l, True, s') \<Longrightarrow> l = s \<and> s' = []"
  by (simp add: readBytes_def split: if_splits)

lemma readBytes_rest: "(l, e, s') = readBytes s \<Longrightarrow> length s' < Suc (length s)"
  by (cases e) (auto dest: readBytes_shorter [OF sym] readBytes_eof [OF sym])

function readLoop ::
  "logEnv \<Rightarrow> LogOptions \<Rightarrow> nat \<Rightarrow> bool \<Rightarrow> bool \<Rightarrow> readState \<Rightarrow> string \<Rightarrow> fileEvent list \<Rightarrow> goerr option \<times> logWriter" where
  "readLoop env opts i stop watcher st rest evs =
     (if le_exiting env i \<or> stop then (None, snd st)
      else
        case readBytes rest of (l, eof, rest') \<Rightarrow>
          if eof \<and> lo_follow opts then
            if \<not> watcher then
              (case le_watchErr env of
                 Some err \<Rightarrow> (Some (ErrWrap ''failed to create fsnotify watcher'' err), snd st)
               | None \<Rightarrow> readLoop env opts (Suc i) False True st l evs)
            else
              (case waitLogs 5 evs [] of
                 (Some err, _, _) \<Rightarrow> (Some err, snd st)
               | (None, appended, evs') \<Rightarrow> readLoop env opts (Suc i) False True st (l @ appended) evs')
          else if eof \<and> l = [] then readLoop env opts (Suc i) True watcher st [] evs
          else
            (case logLine env opts l st of
               Inl r \<Rightarrow> r
             | Inr st' \<Rightarrow> readLoop env opts (Suc i) eof watcher st' rest' evs))"
  by pat_completeness auto

termination
  by (relation "measures [\<lambda>(env, opts, i, stop, watcher, st, rest, evs). length evs,
        \<lambda>(env, opts, i, stop, watcher, st, rest, evs). if watcher then 0 else 1,
        \<lambda>(env, opts, i, stop, watcher, st, rest, evs). length rest + (if stop then 0 else 1)]")
     (auto dest: waitLogs_shorter [OF sym] readBytes_shorter [OF sym] readBytes_eof [OF sym] intro: readBytes_rest split: if_splits)

declare readLoop.simps [simp del]

definition ReadLogs :: "logEnv \<Rightarrow> string \<Rightarrow> logsCmd \<Rightarrow> fileEvent list \<Rightarrow> goerr option \<times> logWriter" where
  "ReadLogs env path options evs =
     (let opts = newLogOptions env options; writer = newLogWriter opts in
      case le_EvalSymlinks env path of
        Inl err \<Rightarrow> (Some err, writer)
      | Inr path' \<Rightarrow>
          (case le_Open env path' of
             Inl err \<Rightarrow> (Some (ErrWrap (''failed to open log file '' @ goQuote path') err), writer)
           | Inr file \<Rightarrow>
               readLoop env opts 0 False False (None, writer) (drop (findTailLineStartIndex file (lo_tail opts)) file) evs))"

section \<open>Reference: lines\<close>

text \<open>The lines of a text, each with its end; the last one may lack it.\<close>

fun logLines :: "string \<Rightarrow> string list" where
  "logLines [] = []"
| "logLines (c # s) =
     (if c = eol then [c] # logLines s else case logLines s of [] \<Rightarrow> [[c]] | l # ls \<Rightarrow> (c # l) # ls)"

text \<open>The position after the \<open>k\<close>-th end of line.\<close>

fun afterLines :: "nat \<Rightarrow> string \<Rightarrow> nat" where
  "afterLines 0 s = 0"
| "afterLines (Suc k) [] = 0"
| "afterLines (Suc k) (c # s) = Suc (if c = eol then afterLines k s else afterLines (Suc k) s)"

lemma countEol_simps [simp]:
  "countEol [] = 0" "countEol (c # s) = (if c = eol then Suc (countEol s) else countEol s)"
  "countEol (s @ t) = countEol s + countEol t"
  by (simp_all add: countEol_def)

lemma countEol_pos: "0 < countEol s \<longleftrightarrow> eol \<in> set s"
  by (induction s) auto

lemma afterLines_append: "0 < k \<Longrightarrow> afterLines (countEol a + k) (a @ b) = length a + afterLines k b"
proof (induction a)
  case (Cons c a)
  then obtain j where "countEol a + k = Suc j" by (cases k) auto
  with Cons show ?case by (auto simp del: afterLines.simps(1))
qed simp

lemma afterLines_within: "k \<le> countEol a \<Longrightarrow> afterLines k (a @ b) = afterLines k a"
proof (induction k a rule: afterLines.induct)
  case (3 k c s)
  then show ?case by (cases "c = eol") auto
qed auto

lemma afterLines_next:
  assumes "eol \<in> set s"
  shows "afterLines (Suc k) s = Suc (length (takeWhile (\<lambda>c. c \<noteq> eol) s))
    + afterLines k (drop (Suc (length (takeWhile (\<lambda>c. c \<noteq> eol) s))) s)"
  using assms by (induction s) auto

lemma skipLoop_after:
  "cnt - n \<le> countEol buf \<Longrightarrow> skipLoop n left cnt buf = left + afterLines (cnt - n) buf"
proof (induction n left cnt buf rule: skipLoop.induct)
  case (1 n left cnt buf)
  show ?case
  proof (cases "n < cnt")
    case True
    let ?i = "Suc (length (takeWhile (\<lambda>c. c \<noteq> eol) buf))"
    from True 1(2) have e: "eol \<in> set buf" by (simp flip: countEol_pos)
    have "countEol buf = countEol (take ?i buf) + countEol (drop ?i buf)"
      by (metis append_take_drop_id countEol_simps(3))
    moreover have "take ?i buf = takeWhile (\<lambda>c. c \<noteq> eol) buf @ [eol]"
      using e by (induction buf) auto
    moreover have "countEol (takeWhile (\<lambda>c. c \<noteq> eol) buf) = 0" by (induction buf) auto
    ultimately have "cnt - 1 - n \<le> countEol (drop ?i buf)" using 1(2) True by simp
    with 1(1) [OF True refl] e have "skipLoop n (left + ?i) (cnt - 1) (drop ?i buf) = left + ?i + afterLines (cnt - 1 - n) (drop ?i buf)"
      by simp
    moreover have "cnt - n = Suc (cnt - 1 - n)" using True by simp
    ultimately show ?thesis using True e afterLines_next [OF e, of "cnt - 1 - n"] by (subst skipLoop.simps) simp
  qed (simp add: skipLoop.simps)
qed

lemma blockLoop_spec:
  assumes "blockLoop bs content n right left cnt buf = (l, c, b)" and "0 < bs" and "right \<le> length content"
    and "cnt = countEol (drop right content)" and "cnt \<le> n" and "right = 0 \<longrightarrow> left = 0"
  shows "c = countEol (drop l content) \<and> l \<le> length content \<and> (c \<le> n \<longrightarrow> l = 0)
    \<and> (n < c \<longrightarrow> (\<exists>post. drop l content = b @ post \<and> c - n \<le> countEol b))"
  using assms
proof (induction bs content n right left cnt buf rule: blockLoop.induct)
  case (1 bs content n right left cnt buf)
  show ?case
  proof (cases "0 < right")
    case False
    with 1(2-) show ?thesis by (simp add: blockLoop.simps)
  next
    case True
    let ?left = "right - bs"
    let ?buf = "take (right - ?left) (drop ?left content)"
    have content: "drop ?left content = ?buf @ drop right content"
      using 1(4) by (metis append_take_drop_id drop_drop le_add_diff_inverse2 diff_le_self)
    have step: "blockLoop bs content n ?left ?left (cnt + countEol ?buf) ?buf = (l, c, b)"
      using 1(2) True 1(3,6) by (simp add: blockLoop.simps [of bs content n right] Let_def)
    have cnt: "cnt + countEol ?buf = countEol (drop ?left content)" using arg_cong [OF content, of countEol] 1(5) by simp
    show ?thesis
    proof (cases "cnt + countEol ?buf \<le> n")
      case le: True
      from True 1(3,6) have "0 < right \<and> cnt \<le> n \<and> 0 < bs" by simp
      moreover have "?left \<le> length content" using 1(4) by simp
      ultimately show ?thesis using 1(1) [OF _ refl refl step 1(3) _ cnt le] by blast
    next
      case False
      with step have "l = ?left" "c = cnt + countEol ?buf" "b = ?buf"
        by (auto simp: blockLoop.simps [of bs content n ?left])
      then have "c = countEol (drop l content)" "l \<le> length content" "n < c"
        using False cnt 1(4) by simp_all
      moreover have "c - n \<le> countEol b" unfolding \<open>c = cnt + countEol ?buf\<close> \<open>b = ?buf\<close> using 1(6) by linarith
      moreover have "drop l content = b @ drop right content" unfolding \<open>l = ?left\<close> \<open>b = ?buf\<close> by (rule content)
      ultimately show ?thesis by (meson not_le)
    qed
  qed
qed

lemma tail_start:
  "findTailLineStartIndex content n = (if n < 0 then 0 else afterLines (countEol content - nat n) content)"
proof (cases "n < 0")
  case False
  obtain l c b where loop: "blockLoop blockSize content (nat n) (length content) 0 0 [] = (l, c, b)" by (metis surj_pair)
  have "c = countEol (drop l content) \<and> l \<le> length content \<and> (c \<le> nat n \<longrightarrow> l = 0)
    \<and> (nat n < c \<longrightarrow> (\<exists>post. drop l content = b @ post \<and> c - nat n \<le> countEol b))"
    by (rule blockLoop_spec [OF loop]) (simp_all add: blockSize_def)
  then have L: "c = countEol (drop l content)" "l \<le> length content" "c \<le> nat n \<Longrightarrow> l = 0"
    "nat n < c \<Longrightarrow> \<exists>post. drop l content = b @ post \<and> c - nat n \<le> countEol b"
    by blast+
  have "skipLoop (nat n) l c b = afterLines (countEol content - nat n) content"
  proof (cases "c \<le> nat n")
    case True
    with L(1,3) show ?thesis by (simp add: skipLoop.simps)
  next
    case False
    then obtain post where post: "drop l content = b @ post" "c - nat n \<le> countEol b" using L(4) by auto
    have content: "content = take l content @ drop l content" by simp
    then have "countEol content = countEol (take l content) + c" using L(1) by (metis countEol_simps(3))
    then have "countEol content - nat n = countEol (take l content) + (c - nat n)" using False by simp
    then have "afterLines (countEol content - nat n) content = length (take l content) + afterLines (c - nat n) (drop l content)"
      using afterLines_append [of "c - nat n" "take l content" "drop l content"] False by simp
    with post L(2) skipLoop_after [OF post(2)] afterLines_within [OF post(2)] show ?thesis by simp
  qed
  with loop False show ?thesis by (simp add: findTailLineStartIndex_def)
qed (simp add: findTailLineStartIndex_def)

lemma logLines_after: "k \<le> countEol s \<Longrightarrow> logLines (drop (afterLines k s) s) = drop k (logLines s)"
proof (induction k s rule: afterLines.induct)
  case (3 k c s)
  show ?case
  proof (cases "c = eol")
    case False
    then have "eol \<in> set s" using 3 by (simp flip: countEol_pos)
    then have "logLines s \<noteq> []" by (cases s) (auto split: list.splits)
    then obtain l ls where "logLines s = l # ls" by (cases "logLines s") auto
    with False 3 show ?thesis by simp
  qed (use 3 in simp)
qed auto

section \<open>Reference: reading line by line\<close>

fun showLines :: "logEnv \<Rightarrow> LogOptions \<Rightarrow> readState \<Rightarrow> string list \<Rightarrow> (goerr option \<times> logWriter) + readState" where
  "showLines env opts st [] = Inr st"
| "showLines env opts st (l # ls) =
     (case logLine env opts l st of Inl r \<Rightarrow> Inl r | Inr st' \<Rightarrow> showLines env opts st' ls)"

text \<open>The lines that have their end.\<close>

definition completeLines :: "string \<Rightarrow> string list" where
  "completeLines s = filter (\<lambda>l. last l = eol) (logLines s)"

lemma readBytes_line:
  assumes "readBytes s = (l, False, s')"
  shows "s = l @ s' \<and> last l = eol \<and> logLines (s @ t) = l # logLines (s' @ t)"
proof -
  have "eol \<in> set s" and l: "l = takeWhile (\<lambda>c. c \<noteq> eol) s @ [eol]" and s': "s' = tl (dropWhile (\<lambda>c. c \<noteq> eol) s)"
    using assms by (auto simp: readBytes_def split: if_splits)
  then have "s = l @ s'" by (induction s arbitrary: l) auto
  moreover have "logLines (takeWhile (\<lambda>c. c \<noteq> eol) s @ eol # u) = (takeWhile (\<lambda>c. c \<noteq> eol) s @ [eol]) # logLines u" for u
    by (induction s) auto
  ultimately have "s = l @ s'" "logLines (l @ s' @ t) = l # logLines (s' @ t)" using l by simp_all
  moreover have "last l = eol" by (subst l) simp
  ultimately show ?thesis by simp
qed

lemma logLines_no_end: "eol \<notin> set s \<Longrightarrow> logLines s = (if s = [] then [] else [s])"
  by (induction s) auto

lemma readBytes_end: "readBytes s = (l, True, s') \<Longrightarrow> l = s \<and> s' = [] \<and> eol \<notin> set s"
  by (simp add: readBytes_def split: if_splits)

lemma completeLines_end: "eol \<notin> set s \<Longrightarrow> completeLines s = []"
  by (cases "s = []") (simp_all add: completeLines_def logLines_no_end, metis last_in_set)

lemma completeLines_line: "readBytes s = (l, False, s') \<Longrightarrow> completeLines (s @ t) = l # completeLines (s' @ t)"
  using readBytes_line [of s l s' t] unfolding completeLines_def by (metis (mono_tags, lifting) filter.simps(2))

lemma readLoop_whole:
  assumes "\<And>i. \<not> le_exiting env i" and "\<not> lo_follow opts"
  shows "readLoop env opts i False watcher st rest evs =
    (case showLines env opts st (logLines rest) of Inl r \<Rightarrow> r | Inr st' \<Rightarrow> (None, snd st'))"
proof (induction rest arbitrary: i st rule: length_induct)
  case (1 rest)
  obtain l eof rest' where r: "readBytes rest = (l, eof, rest')" by (metis surj_pair)
  show ?case
  proof (cases eof)
    case True
    then have e: "l = rest" "rest' = []" "eol \<notin> set rest" using readBytes_end [of rest l rest'] r by simp_all
    have stop: "readLoop env opts j True watcher st' u evs = (None, snd st')" for j st' u
      by (simp add: readLoop.simps)
    show ?thesis
      using e r True assms by (subst readLoop.simps) (auto simp: stop logLines_no_end split: sum.splits)
  next
    case False
    with r readBytes_shorter [of rest l rest'] readBytes_line [of rest l rest' "[]"] 1 assms show ?thesis
      by (subst readLoop.simps) (auto split: sum.splits)
  qed
qed

lemma readLoop_follow:
  assumes "\<And>i. \<not> le_exiting env i" and "lo_follow opts" and "le_watchErr env = None"
  shows "readLoop env opts i False watcher st rest (map FileWritten ds) =
    (case showLines env opts st (completeLines (rest @ concat ds)) of Inl r \<Rightarrow> r | Inr st' \<Rightarrow> (Some CtxErr, snd st'))"
proof (induction "length (rest @ concat ds) + 2 * length ds + (if watcher then 0 else 1)" arbitrary: i watcher st rest ds
    rule: less_induct)
  case less
  obtain l eof rest' where r: "readBytes rest = (l, eof, rest')" by (metis surj_pair)
  show ?case
  proof (cases eof)
    case False
    with r have line: "completeLines (rest @ concat ds) = l # completeLines (rest' @ concat ds)" "length rest' < length rest"
      using completeLines_line [of rest l rest'] readBytes_shorter [of rest l rest'] by simp_all
    with r False assms(1) show ?thesis
      by (subst readLoop.simps) (auto simp: less split: sum.splits)
  next
    case True
    then have e: "l = rest" "rest' = []" "eol \<notin> set rest" using readBytes_end [of rest l rest'] r by simp_all
    show ?thesis
    proof (cases watcher)
      case False
      with e r True assms show ?thesis by (subst readLoop.simps) (simp add: less)
    next
      case w: True
      show ?thesis
      proof (cases ds)
        case Nil
        with e r True w assms show ?thesis by (subst readLoop.simps) (simp add: completeLines_end)
      next
        case (Cons d ds')
        with e r True w assms show ?thesis by (subst readLoop.simps) (simp add: less)
      qed
    qed
  qed
qed

lemma ReadLogs_lines:
  assumes "le_EvalSymlinks env path = Inr path'" and "le_Open env path' = Inr content"
    and "\<And>i. \<not> le_exiting env i" and "opts = newLogOptions env options" and "\<not> lc_Follow options"
  shows "ReadLogs env path options evs =
    (case showLines env opts (None, newLogWriter opts) (logLines (drop (findTailLineStartIndex content (lo_tail opts)) content)) of
       Inl r \<Rightarrow> r | Inr st \<Rightarrow> (None, snd st))"
proof -
  have "\<not> lo_follow opts" using assms(4,5) by (simp add: newLogOptions_def)
  from readLoop_whole [OF assms(3) this] show ?thesis
    by (simp add: ReadLogs_def assms(1,2) Let_def flip: assms(4))
qed

lemma tail_lines:
  "logLines (drop (findTailLineStartIndex file n) file) =
     (if n < 0 then logLines file else drop (countEol file - nat n) (logLines file))"
  by (simp add: tail_start logLines_after)

section \<open>The properties\<close>

text \<open>C28: The search for the start of the last lines, which reads the file in blocks from its end, is
  equivalent to counting lines: what is read from the position it finds are the lines of the file without
  the first ones, so many of them that \<open>n\<close> complete lines are left (all of them when there are not
  more, or when \<open>n\<close> is negative).\<close>

theorem tail_search_finds_last_lines:
  "logLines (drop (findTailLineStartIndex file n) file) =
     (if n < 0 then logLines file else drop (countEol file - nat n) (logLines file))"
  by (rule tail_lines)

lemma tail_search_example:
  "findTailLineStartIndex (''a'' @ [eol] @ ''bc'' @ [eol] @ ''d'') 1 = 2"
  by code_simp

text \<open>C29: Reading a log is reading its lines. Without following, \<^verbatim>\<open>ReadLogs\<close> handles the lines from the start of the tail
  one by one and ends without an error; while following, it handles the lines that are complete, those in
  the file and those appended later, each once and in order, and ends with the error of the ended context.
  (The context does not end before, and the file system reports every write.)\<close>

theorem read_logs_line_by_line:
  assumes "le_EvalSymlinks env path = Inr path'" and "le_Open env path' = Inr content"
    and "\<And>i. \<not> le_exiting env i" and "le_watchErr env = None" and "opts = newLogOptions env options"
    and "rest = drop (findTailLineStartIndex content (lo_tail opts)) content"
  shows "ReadLogs env path options (map FileWritten ds) =
    (if lc_Follow options
     then case showLines env opts (None, newLogWriter opts) (completeLines (rest @ concat ds)) of
            Inl r \<Rightarrow> r | Inr st \<Rightarrow> (Some CtxErr, snd st)
     else case showLines env opts (None, newLogWriter opts) (logLines rest) of
            Inl r \<Rightarrow> r | Inr st \<Rightarrow> (None, snd st))"
proof -
  have f: "lo_follow opts = lc_Follow options" by (simp add: assms(5) newLogOptions_def)
  have "ReadLogs env path options (map FileWritten ds)
      = readLoop env opts 0 False False (None, newLogWriter opts) rest (map FileWritten ds)"
    by (simp add: ReadLogs_def assms(1,2) Let_def assms(6) flip: assms(5))
  then show ?thesis
    by (simp add: readLoop_whole [OF assms(3)] readLoop_follow [OF assms(3) _ assms(4)] f)
qed

text \<open>A round never writes more than what remains.\<close>

definition withinLimit :: "int \<Rightarrow> logWriter \<Rightarrow> bool" where
  "withinLimit limit w \<longleftrightarrow> 0 \<le> lw_remain w \<and> int (length (lw_stdout w) + length (lw_stderr w)) + lw_remain w \<le> limit"

lemma write_withinLimit:
  assumes "\<And>s l. fst (le_write env s l) \<le> length l" and "withinLimit limit w"
    and "logWriter_write env opts m w = (err, w')"
  shows "withinLimit limit w'"
proof -
  have *: "withinLimit limit (w\<lparr>lw_stdout := lw_stdout w @ take n l, lw_remain := lw_remain w - int n\<rparr>)"
    "withinLimit limit (w\<lparr>lw_stderr := lw_stderr w @ take n l, lw_remain := lw_remain w - int n\<rparr>)"
    if "n \<le> length l" "int (length l) \<le> lw_remain w" for n and l :: string
    using that assms(2) by (auto simp: withinLimit_def)
  show ?thesis
  proof (cases "lm_timestamp m < lo_since opts \<or> \<not> isStream (lm_stream m)")
    case True
    with assms(2,3) show ?thesis by (auto simp: logWriter_write_def Let_def split: if_splits)
  next
    case False
    define l0 where "l0 = (if lo_timestamp opts then le_formatTime env (lm_timestamp m) @ [delimiter] @ lm_log m else lm_log m)"
    define l where "l = (if lw_remain w < int (length l0) then take (nat (lw_remain w)) l0 else l0)"
    obtain n e where n: "le_write env (lm_stream m) l = (n, e)" by fastforce
    have "n \<le> length l" using assms(1) [of "lm_stream m" l] n by simp
    moreover have "int (length l) \<le> lw_remain w" using assms(2) by (auto simp: l_def withinLimit_def)
    moreover have "w' = (if lm_stream m = ''stdout'' then w\<lparr>lw_stdout := lw_stdout w @ take n l\<rparr>
        else w\<lparr>lw_stderr := lw_stderr w @ take n l\<rparr>)\<lparr>lw_remain := lw_remain w - int n\<rparr>"
      using assms(3) False n unfolding logWriter_write_def Let_def l0_def [symmetric] l_def [symmetric] by auto
    ultimately show ?thesis using * by auto
  qed
qed

lemma logLine_withinLimit:
  assumes "\<And>s l. fst (le_write env s l) \<le> length l" and "withinLimit limit (snd st)"
  shows "case logLine env opts l st of Inl r \<Rightarrow> withinLimit limit (snd r) | Inr st' \<Rightarrow> withinLimit limit (snd st')"
  using assms(2) write_withinLimit [OF assms(1)]
  by (auto simp: logLine_def split: prod.splits sum.splits option.splits)

lemma readLoop_withinLimit:
  assumes "\<And>s l. fst (le_write env s l) \<le> length l" and "withinLimit limit (snd st)"
  shows "withinLimit limit (snd (readLoop env opts i stop watcher st rest evs))"
  using assms
proof (induction env opts i stop watcher st rest evs rule: readLoop.induct)
  case (1 env opts i stop watcher st rest evs)
  obtain l eof rest' where r: "readBytes rest = (l, eof, rest')" by (metis surj_pair)
  show ?case
  proof (cases "le_exiting env i \<or> stop \<or> eof \<and> lo_follow opts \<or> eof \<and> l = []")
    case True
    with 1 r show ?thesis
      by (subst readLoop.simps) (auto split: option.splits prod.splits)
  next
    case False
    with 1 r logLine_withinLimit [OF 1(5,6), of opts l] show ?thesis
      by (subst readLoop.simps) (auto split: sum.splits)
  qed
qed

text \<open>C35: The limit of bytes holds: when a log command gives one, the bytes written to both streams together
  never exceed it, whatever the log contains, whether it is followed or not. (A writer never takes more than it
  is given.)\<close>

theorem log_bytes_within_limit:
  assumes "\<And>s l. fst (le_write env s l) \<le> length l" and "0 \<le> lc_BytesLimit options"
    and "ReadLogs env path options evs = (err, w)"
  shows "int (length (lw_stdout w) + length (lw_stderr w)) \<le> lc_BytesLimit options"
proof -
  have "withinLimit (lc_BytesLimit options) (newLogWriter (newLogOptions env options))"
    using assms(2) by (simp add: withinLimit_def newLogWriter_def newLogOptions_def)
  with assms(3) readLoop_withinLimit [OF assms(1)] have "withinLimit (lc_BytesLimit options) w"
    by (auto simp: ReadLogs_def Let_def split: sum.splits) (metis snd_conv)+
  then show ?thesis by (simp add: withinLimit_def)
qed

text \<open>A line in the CRI format is read back: time, stream and text are those it was written with; the end of the line
  belongs to the text of a full line and not to that of a partial one.\<close>

theorem cri_line_roundtrip:
  assumes "le_parseTime env ts = Inr t" and "delimiter \<notin> set ts" and "isStream strm" and "delimiter \<notin> set tag"
  shows "parseCRILog env (ts @ [delimiter] @ strm @ [delimiter] @ tag @ [delimiter] @ text @ [eol]) =
    Inr \<lparr>lm_timestamp = t, lm_stream = strm,
      lm_log = (if hd (split_on tagDelimiter tag) = ''P'' then text else text @ [eol])\<rparr>"
proof -
  have cut: "cutAt c (a @ [c] @ b) = Some (a, b)" if "c \<notin> set a" for c :: char and a b
    using that by (auto simp: cutAt_def takeWhile_append dropWhile_append)
  have "delimiter \<notin> set strm" using assms(3) by (auto simp: isStream_def delimiter_def)
  with assms cut [of delimiter ts] cut [of delimiter strm] cut [of delimiter tag] show ?thesis
    by (simp add: parseCRILog_def Let_def)
qed

section \<open>Examples\<close>

definition exampleLog :: string where
  "exampleLog = ''1 stdout F a'' @ [eol] @ ''2 stderr F b'' @ [eol] @ ''3 stdout P c'' @ [eol]"

definition exampleLogEnv :: logEnv where
  "exampleLogEnv =
     \<lparr>le_parseTime = (\<lambda>ts. if ts \<in> {''1'', ''2'', ''3'', ''4''} then Inr 1 else Inl (ErrExt ''bad time'')),
      le_formatTime = (\<lambda>_. ''1''), le_dockerJSON = (\<lambda>_. Inl (ErrExt ''bad JSON'')), le_arhatJSON = (\<lambda>_. Inl (ErrExt ''bad JSON'')),
      le_EvalSymlinks = Inr, le_Open = (\<lambda>_. Inr exampleLog), le_watchErr = None, le_exiting = (\<lambda>_. False),
      le_write = (\<lambda>_ l. (length l, None))\<rparr>"

definition exampleLogsCmd :: "bool \<Rightarrow> int \<Rightarrow> int \<Rightarrow> logsCmd" where
  "exampleLogsCmd follow tail bytes =
     \<lparr>lc_PodUid = ''u1'', lc_Container = ''web'', lc_Follow = follow, lc_Timestamp = False, lc_Since = [], lc_TailLines = tail,
      lc_BytesLimit = bytes, lc_Previous = False, lc_Path = []\<rparr>"

text \<open>Following the last two lines and one that is appended.\<close>

theorem read_logs_line_by_line_witness:
  "ReadLogs exampleLogEnv ''/l'' (exampleLogsCmd True 2 (- 1)) (map FileWritten [''4 stdout'', '' F d'' @ [eol]]) =
    (Some CtxErr, \<lparr>lw_stdout = ''cd'' @ [eol], lw_stderr = ''b'' @ [eol], lw_remain = 2 ^ 63 - 6\<rparr>)"
proof -
  let ?opts = "newLogOptions exampleLogEnv (exampleLogsCmd True 2 (- 1))"
  let ?rest = "drop (findTailLineStartIndex exampleLog (lo_tail ?opts)) exampleLog"
  let ?ds = "[''4 stdout'', '' F d'' @ [eol]]"
  have e: "le_EvalSymlinks exampleLogEnv ''/l'' = Inr ''/l''" "le_Open exampleLogEnv ''/l'' = Inr exampleLog"
    "le_watchErr exampleLogEnv = None" "\<not> le_exiting exampleLogEnv i" for i
    by (simp_all add: exampleLogEnv_def)
  have f: "lc_Follow (exampleLogsCmd True 2 (- 1))" by (simp add: exampleLogsCmd_def)
  have "(case showLines exampleLogEnv ?opts (None, newLogWriter ?opts) (completeLines (?rest @ concat ?ds)) of
          Inl r \<Rightarrow> r | Inr st \<Rightarrow> (Some CtxErr, snd st))
      = (Some CtxErr, \<lparr>lw_stdout = ''cd'' @ [eol], lw_stderr = ''b'' @ [eol], lw_remain = 2 ^ 63 - 6\<rparr>)"
    by code_simp
  with read_logs_line_by_line [OF e(1,2,4,3) refl refl, of "exampleLogsCmd True 2 (- 1)" ?ds] f show ?thesis by simp
qed

theorem log_bytes_within_limit_witness:
  "int (length (lw_stdout (snd (ReadLogs exampleLogEnv ''/l'' (exampleLogsCmd False (- 1) 3) [])))
      + length (lw_stderr (snd (ReadLogs exampleLogEnv ''/l'' (exampleLogsCmd False (- 1) 3) [])))) \<le> 3"
proof -
  have "fst (le_write exampleLogEnv s l) \<le> length l" for s l by (simp add: exampleLogEnv_def)
  moreover have "0 \<le> lc_BytesLimit (exampleLogsCmd False (- 1) 3)" by (simp add: exampleLogsCmd_def)
  ultimately show ?thesis
    using log_bytes_within_limit [OF _ _ prod.collapse [symmetric], of exampleLogEnv "exampleLogsCmd False (- 1) 3"]
    by (simp add: exampleLogsCmd_def)
qed

theorem cri_line_roundtrip_witness:
  "parseCRILog exampleLogEnv (''1'' @ [delimiter] @ ''stdout'' @ [delimiter] @ ''P'' @ [delimiter] @ ''hello'' @ [eol]) =
    Inr \<lparr>lm_timestamp = 1, lm_stream = ''stdout'', lm_log = ''hello''\<rparr>"
proof -
  have "le_parseTime exampleLogEnv ''1'' = Inr 1" "delimiter \<notin> set ''1''" "isStream ''stdout''" "delimiter \<notin> set ''P''"
    by (simp_all add: exampleLogEnv_def delimiter_def isStream_def)
  from cri_line_roundtrip [OF this, of "''hello''"] show ?thesis by (simp add: tagDelimiter_def)
qed

end
