(* ===== verification/Engine.thy ===== *)
theory Engine
  imports Labels BaseRuntime Network Logs
begin

text \<open>
  The interface of the runtime to the code it drives: libpod
  (\<^verbatim>\<open>github.com/containers/podman/v2/libpod\<close>), the image library, the operating
  system and the storage client. All of them are one record of operations over an
  arbitrary world type; every operation of the program takes this record as an
  argument. What the program relies on is stated as the locale \<open>libpod_api\<close>.
\<close>

section \<open>Handles and values\<close>

record ctr =
  ctr_ID :: string
  ctr_Name :: string
  ctr_Labels :: labels
  ctr_Pod :: string
  ctr_Command :: "string list"
  ctr_LogPath :: string

record pod =
  pod_ID :: string
  pod_Name :: string
  pod_Labels :: labels

datatype containerState =
    ContainerStateUnknown
  | ContainerStateConfigured
  | ContainerStateCreated
  | ContainerStateRunning
  | ContainerStateStopped
  | ContainerStatePaused
  | ContainerStateExited
  | ContainerStateRemoving
  | ContainerStateOther int

record mount =
  mnt_Type :: string
  mnt_Source :: string
  mnt_Destination :: string
  mnt_Options :: "string list"

record healthConfig =
  hc_Test :: "string list"
  hc_Interval :: int
  hc_Timeout :: int
  hc_StartPeriod :: int
  hc_Retries :: int

text \<open>The fields of \<^verbatim>\<open>libpodspec.CreateConfig\<close> that the program sets.\<close>

record createConfig =
  cc_Pod :: string
  cc_Tty :: bool
  cc_Env :: labels
  cc_Entrypoint :: "string list"
  cc_Command :: "string list"
  cc_HealthCheck :: "healthConfig option"
  cc_Image :: string
  cc_ImageID :: string
  cc_WorkDir :: string
  cc_Labels :: labels
  cc_Name :: string
  cc_Systemd :: bool
  cc_Init :: bool
  cc_Mounts :: "mount list"
  cc_RestartPolicy :: string
  cc_NetMode :: string
  cc_IpcMode :: string
  cc_UtsMode :: string
  cc_Hostname :: string
  cc_PidMode :: string
  cc_UsernsMode :: string
  cc_User :: string
  cc_HostIDMapping :: bool
  cc_Privileged :: bool
  cc_CapAdd :: "string list"
  cc_CapDrop :: "string list"
  cc_ReadOnlyRootfs :: bool
  cc_NoNewPrivs :: bool
  cc_SecurityOpts :: "string list"
  cc_SeccompProfilePath :: string
  cc_Sysctl :: labels

record imageConfig =
  ic_User :: string
  ic_Env :: "string list"
  ic_Entrypoint :: "string list"
  ic_Cmd :: "string list"
  ic_WorkingDir :: string

record image =
  img_ID :: string
  img_Tag :: string
  img_Config :: "imageConfig option"

datatype pullType = PullImageAlways | PullImageMissing | PullImageNever

record execConfig =
  ec_Command :: "string list"
  ec_Terminal :: bool
  ec_AttachStdin :: bool
  ec_AttachStdout :: bool
  ec_AttachStderr :: bool
  ec_Environment :: labels

text \<open>What \<^verbatim>\<open>Container.Exec\<close> returns and wrote: exit code, error, output, error output.\<close>

record execResult =
  er_ExitCode :: int
  er_Err :: "goerr option"
  er_Stdout :: string
  er_Stderr :: string

record inspectData =
  in_ID :: string
  in_Image :: string
  in_Created :: int
  in_StartedAt :: int
  in_FinishedAt :: int
  in_ExitCode :: int
  in_RestartCount :: int
  in_Error :: string
  in_Restarting :: bool
  in_Dead :: bool
  in_OOMKilled :: bool
  in_Running :: bool
  in_Paused :: bool

text \<open>An address with its prefix length, as in Go's \<^verbatim>\<open>net.IPNet\<close>.\<close>

record ipNet =
  ip_Addr :: string
  ip_Prefix :: nat
  ip_Loopback :: bool

section \<open>The operations\<close>

record 'w engine =
  lp_AllContainers :: "('w, ctr list) act"
  lp_AllPods :: "('w, pod list) act"
  lp_LookupPod :: "string \<Rightarrow> ('w, pod) act"
  lp_NewPod :: "string \<Rightarrow> labels \<Rightarrow> ('w, pod) act"
  lp_RemovePod :: "pod \<Rightarrow> bool \<Rightarrow> bool \<Rightarrow> ('w, unit) act"
  lp_RemoveContainer :: "ctr \<Rightarrow> bool \<Rightarrow> bool \<Rightarrow> ('w, unit) act"
  lp_MakeContainerConfig :: "createConfig \<Rightarrow> pod \<Rightarrow> ('w, createConfig \<times> string list) act"
  lp_NewContainer :: "createConfig \<Rightarrow> string list \<Rightarrow> ('w, ctr) act"
  lp_PodContainers :: "pod \<Rightarrow> ('w, ctr list) act"
  lp_PodStart :: "pod \<Rightarrow> ('w, (string \<times> goerr) list \<times> goerr option) act"
  lp_Start :: "ctr \<Rightarrow> bool \<Rightarrow> ('w, unit) act"
  lp_Stop :: "ctr \<Rightarrow> ('w, unit) act"
  lp_Unpause :: "ctr \<Rightarrow> ('w, unit) act"
  lp_Sync :: "ctr \<Rightarrow> ('w, unit) act"
  lp_State :: "ctr \<Rightarrow> ('w, containerState) act"
  lp_ExitCode :: "ctr \<Rightarrow> ('w, int \<times> bool) act"
  lp_Wait :: "ctr \<Rightarrow> ('w, int) act"
  lp_PID :: "ctr \<Rightarrow> ('w, int) act"
  lp_Inspect :: "ctr \<Rightarrow> ('w, inspectData) act"
  lp_IPs :: "ctr \<Rightarrow> ('w, ipNet list) act"
  lp_Exec :: "ctr \<Rightarrow> execConfig \<Rightarrow> string option \<Rightarrow> ('w, execResult) act"
  lp_Attach :: "ctr \<Rightarrow> bool \<Rightarrow> bool \<Rightarrow> bool \<Rightarrow> ('w, goerr option) act"
  act_logEnv :: "('w, logEnv \<times> fileEvent list) act"
  net_Forward :: "string \<Rightarrow> string \<Rightarrow> ('w, unit) act"
  im_NewFromLocal :: "string \<Rightarrow> ('w, image) act"
  im_New :: "string \<Rightarrow> (string \<times> string) option \<Rightarrow> pullType \<Rightarrow> ('w, image) act"
  im_Inspect :: "image \<Rightarrow> ('w, imageConfig option option) act"
  im_RepoDigests :: "image \<Rightarrow> ('w, string list) act"
  os_MkdirAll :: "string \<Rightarrow> ('w, unit) act"
  os_WriteFile :: "string \<Rightarrow> string \<Rightarrow> 32 word \<Rightarrow> ('w, unit) act"
  os_ReadDir :: "string \<Rightarrow> ('w, string list) act"
  os_RemoveAllOneFilesystem :: "string \<Rightarrow> ('w, unit) act"
  sc_Mount :: "string \<Rightarrow> string \<Rightarrow> ('w, unit) act"
  sc_Unmount :: "string \<Rightarrow> ('w, unit) act"
  ctx_Done :: "('w, bool) act"
  time_Format :: "int \<Rightarrow> string"

text \<open>
  \<^verbatim>\<open>Runtime.GetContainers\<close> and \<^verbatim>\<open>Runtime.Pods\<close>: all entries of the state, those kept
  for which the filter holds.
\<close>

definition GetContainers :: "'w engine \<Rightarrow> (ctr \<Rightarrow> bool) \<Rightarrow> ('w, ctr list) act" where
  "GetContainers lp f = andThen (lp_AllContainers lp) (\<lambda>ctrs. ret (filter f ctrs))"

definition Pods :: "'w engine \<Rightarrow> (pod \<Rightarrow> bool) \<Rightarrow> ('w, pod list) act" where
  "Pods lp f = andThen (lp_AllPods lp) (\<lambda>pods. ret (filter f pods))"

text \<open>\<^verbatim>\<open>pid, _ := ctr.PID()\<close>: libpod returns \<open>-1\<close> with an error.\<close>

definition pidOf :: "'w engine \<Rightarrow> ctr \<Rightarrow> ('w, int) act" where
  "pidOf lp c = andThen (attempt (lp_PID lp c)) (\<lambda>r. case r of Inl _ \<Rightarrow> ret (-1) | Inr pid \<Rightarrow> ret pid)"

section \<open>The runtime object\<close>

record libpodRuntime =
  rt_base :: baseRuntime
  rt_pauseImage :: string
  rt_pauseCommand :: "string list"
  rt_abbotSubCmd :: string
  rt_ctxCancelled :: bool

section \<open>The contract of libpod\<close>

text \<open>
  The state the laws speak about is which containers and pods libpod has registered.
  Listing is read-only and complete; creating and removing change the registered sets
  in the documented way; removing a pod, even when it fails half way, touches no other
  pod; every other call leaves the registered sets alone.
\<close>

definition same_regs :: "('w \<Rightarrow> ctr set) \<Rightarrow> ('w \<Rightarrow> pod set) \<Rightarrow> 'w \<Rightarrow> 'w \<Rightarrow> bool" where
  "same_regs ctrs pods w w' \<longleftrightarrow> ctrs w' = ctrs w \<and> pods w' = pods w"

text \<open>Nothing is added, and only pods with an id in \<open>P\<close> and their containers may go.\<close>

definition pod_frame :: "('w \<Rightarrow> ctr set) \<Rightarrow> ('w \<Rightarrow> pod set) \<Rightarrow> string set \<Rightarrow> 'w \<Rightarrow> 'w \<Rightarrow> bool" where
  "pod_frame ctrs pods P w w' \<longleftrightarrow>
     pods w' \<subseteq> pods w \<and> ctrs w' \<subseteq> ctrs w \<and> (\<forall>q\<in>pods w. pod_ID q \<notin> P \<longrightarrow> q \<in> pods w')
     \<and> (\<forall>c\<in>ctrs w. ctr_Pod c \<notin> P \<longrightarrow> c \<in> ctrs w')"

locale libpod_api =
  fixes lp :: "'w engine" and ctrs :: "'w \<Rightarrow> ctr set" and pods :: "'w \<Rightarrow> pod set"
  assumes all_ctrs: "lp_AllContainers lp w = (Ok cs, w') \<Longrightarrow> set cs = ctrs w \<and> distinct cs"
    and all_pods: "lp_AllPods lp w = (Ok ps, w') \<Longrightarrow> set ps = pods w \<and> distinct ps"
    and pod_ctrs: "lp_PodContainers lp p w = (Ok cs, w') \<Longrightarrow> set cs = {c \<in> ctrs w. ctr_Pod c = pod_ID p}"
    and lookup_pod: "lp_LookupPod lp n w = (Ok p, w') \<Longrightarrow> p \<in> pods w"
    and new_pod: "lp_NewPod lp n ls w = (Ok p, w') \<Longrightarrow>
        pods w' = insert p (pods w) \<and> ctrs w' = ctrs w \<and> pod_Name p = n \<and> pod_Labels p = ls
        \<and> (\<forall>q\<in>pods w. pod_ID q \<noteq> pod_ID p) \<and> (\<forall>c\<in>ctrs w. ctr_Pod c \<noteq> pod_ID p)"
    and new_pod_err: "lp_NewPod lp n ls w = (Err e, w') \<Longrightarrow> same_regs ctrs pods w w'"
    and remove_pod: "lp_RemovePod lp p True True w = (Ok (), w') \<Longrightarrow>
        pods w' = {q \<in> pods w. pod_ID q \<noteq> pod_ID p} \<and> ctrs w' = {c \<in> ctrs w. ctr_Pod c \<noteq> pod_ID p}"
    and remove_pod_frame: "lp_RemovePod lp p a b w = (res, w') \<Longrightarrow>
        pod_frame ctrs pods {pod_ID p} w w'"
    and make_config: "lp_MakeContainerConfig lp cc p w = (Ok (cc', opts), w') \<Longrightarrow>
        cc_Pod cc' = cc_Pod cc \<and> cc_Labels cc' = cc_Labels cc \<and> cc_Name cc' = cc_Name cc"
    and new_ctr: "lp_NewContainer lp cc opts w = (Ok c, w') \<Longrightarrow>
        ctrs w' = insert c (ctrs w) \<and> pods w' = pods w \<and> ctr_Labels c = cc_Labels cc
        \<and> ctr_Pod c = cc_Pod cc \<and> ctr_Name c = cc_Name cc \<and> (\<forall>d\<in>ctrs w. ctr_ID d \<noteq> ctr_ID c)"
    and new_ctr_err: "lp_NewContainer lp cc opts w = (Err e, w') \<Longrightarrow> same_regs ctrs pods w w'"
    and quiet:
      "keeps (same_regs ctrs pods) (lp_AllContainers lp)" "keeps (same_regs ctrs pods) (lp_AllPods lp)"
      "keeps (same_regs ctrs pods) (lp_PodContainers lp p)" "keeps (same_regs ctrs pods) (lp_LookupPod lp n)"
      "keeps (same_regs ctrs pods) (lp_MakeContainerConfig lp cc p)"
      "keeps (same_regs ctrs pods) (lp_PodStart lp p)" "keeps (same_regs ctrs pods) (lp_Start lp c b)"
      "keeps (same_regs ctrs pods) (lp_Stop lp c)" "keeps (same_regs ctrs pods) (lp_Unpause lp c)"
      "keeps (same_regs ctrs pods) (lp_Sync lp c)" "keeps (same_regs ctrs pods) (lp_State lp c)"
      "keeps (same_regs ctrs pods) (lp_ExitCode lp c)" "keeps (same_regs ctrs pods) (lp_Wait lp c)"
      "keeps (same_regs ctrs pods) (lp_PID lp c)" "keeps (same_regs ctrs pods) (lp_Inspect lp c)"
      "keeps (same_regs ctrs pods) (lp_IPs lp c)" "keeps (same_regs ctrs pods) (lp_Exec lp c ec i)"
      "keeps (same_regs ctrs pods) (im_NewFromLocal lp n)" "keeps (same_regs ctrs pods) (im_New lp n au pt)"
      "keeps (same_regs ctrs pods) (im_Inspect lp im)" "keeps (same_regs ctrs pods) (im_RepoDigests lp im)"
      "keeps (same_regs ctrs pods) (os_MkdirAll lp n)" "keeps (same_regs ctrs pods) (os_WriteFile lp n dt md)"
      "keeps (same_regs ctrs pods) (os_ReadDir lp n)"
      "keeps (same_regs ctrs pods) (os_RemoveAllOneFilesystem lp n)"
      "keeps (same_regs ctrs pods) (sc_Mount lp n m)" "keeps (same_regs ctrs pods) (sc_Unmount lp n)"
      "keeps (same_regs ctrs pods) (ctx_Done lp)"
      "keeps (same_regs ctrs pods) (lp_Attach lp c b1 b2 b3)" "keeps (same_regs ctrs pods) (act_logEnv lp)"
      "keeps (same_regs ctrs pods) (net_Forward lp n m)"

text \<open>libpod refuses a container whose name is taken.\<close>

locale libpod_unique_names = libpod_api +
  assumes name_taken: "d \<in> ctrs w \<Longrightarrow> ctr_Name d = cc_Name cc \<Longrightarrow> lp_NewContainer lp cc opts w \<noteq> (Ok c, w')"

interpretation sr: world_rel "same_regs ctrs pods" for ctrs pods
  by unfold_locales (simp_all add: same_regs_def)

interpretation pf: world_rel "pod_frame ctrs pods P" for ctrs pods P
  by unfold_locales (auto simp: pod_frame_def)

lemma pod_frame_mono: "pod_frame ctrs pods P w w' \<Longrightarrow> P \<subseteq> Q \<Longrightarrow> pod_frame ctrs pods Q w w'"
  by (auto simp: pod_frame_def)

lemma keeps_frame_mono: "keeps (pod_frame ctrs pods P) m \<Longrightarrow> P \<subseteq> Q \<Longrightarrow> keeps (pod_frame ctrs pods Q) m"
  unfolding keeps_def by (metis pod_frame_mono)

lemma same_regs_frame: "same_regs ctrs pods w w' \<Longrightarrow> pod_frame ctrs pods P w w'"
  by (simp add: same_regs_def pod_frame_def)

lemma keeps_same_frame: "keeps (same_regs ctrs pods) m \<Longrightarrow> keeps (pod_frame ctrs pods P) m"
  by (simp add: keeps_def same_regs_frame)

context libpod_api
begin

lemmas quiet_rules = quiet sr.keeps_rules

lemma keeps_GetContainers: "keeps (same_regs ctrs pods) (GetContainers lp f)"
  unfolding GetContainers_def by (intro quiet_rules)

lemma keeps_Pods: "keeps (same_regs ctrs pods) (Pods lp f)"
  unfolding Pods_def by (intro quiet_rules)

lemma keeps_pidOf: "keeps (same_regs ctrs pods) (pidOf lp c)"
  unfolding pidOf_def by (intro quiet_rules) (auto split: sum.splits intro: quiet_rules)

lemma GetContainers_Ok:
  assumes "GetContainers lp f w = (Ok cs, w')"
  shows "set cs = {c \<in> ctrs w. f c} \<and> distinct cs"
proof -
  from assms obtain a where "lp_AllContainers lp w = (Ok a, w')" and "cs = filter f a"
    by (auto simp: GetContainers_def elim!: andThen_OkE)
  with all_ctrs [of w a w'] show ?thesis by auto
qed

lemma Pods_Ok:
  assumes "Pods lp f w = (Ok ps, w')"
  shows "set ps = {p \<in> pods w. f p} \<and> distinct ps"
proof -
  from assms obtain a where "lp_AllPods lp w = (Ok a, w')" and "ps = filter f a"
    by (auto simp: Pods_def elim!: andThen_OkE)
  with all_pods [of w a w'] show ?thesis by auto
qed

end

end
