(* ===== verification/Store.thy ===== *)
theory Store
  imports Engine
begin

text \<open>
  A container engine with podman's bookkeeping: registered pods and containers with
  fresh ids and unique names, the container states with the transitions libpod allows,
  a set of local images, directories, files and mounts, and abbot's canned answer.
  The calls named by its argument fail. It satisfies the contract \<open>libpod_api\<close>, so
  every theorem stated under the contract applies to it, and the closed instances
  evaluate on it.
\<close>

record ctrInfo =
  ci_ctr :: ctr
  ci_state :: containerState
  ci_exit :: "int \<times> bool"

record store =
  sto_ctrs :: "ctrInfo list"
  sto_pods :: "pod list"
  sto_next :: nat
  sto_images :: "(string \<times> image) list"
  sto_dirs :: "string list"
  sto_files :: "(string \<times> string) list"
  sto_mounts :: "(string \<times> string) list"
  sto_abbot :: execResult

definition emptyStore :: store where
  "emptyStore =
     \<lparr>sto_ctrs = [], sto_pods = [], sto_next = 1, sto_images = [], sto_dirs = [], sto_files = [],
      sto_mounts = [], sto_abbot = \<lparr>er_ExitCode = 0, er_Err = None, er_Stdout = [], er_Stderr = []\<rparr>\<rparr>"

definition sto_ctr_set :: "store \<Rightarrow> ctr set" where
  "sto_ctr_set w = ci_ctr ` set (sto_ctrs w)"

definition sto_pod_set :: "store \<Rightarrow> pod set" where
  "sto_pod_set w = set (sto_pods w)"

definition mayFail :: "string list \<Rightarrow> string \<Rightarrow> (store, 'a) act \<Rightarrow> (store, 'a) act" where
  "mayFail fails name m = (if name \<in> set fails then throw (ErrExt name) else m)"

definition reading :: "(store \<Rightarrow> 'a) \<Rightarrow> (store, 'a) act" where
  "reading f w = (Ok (f w), w)"

definition infoOf :: "store \<Rightarrow> ctr \<Rightarrow> ctrInfo option" where
  "infoOf w c = find (\<lambda>i. ci_ctr i = c) (sto_ctrs w)"

definition setState :: "ctr \<Rightarrow> containerState \<Rightarrow> store \<Rightarrow> store" where
  "setState c st w =
     w\<lparr>sto_ctrs := map (\<lambda>i. if ci_ctr i = c then i\<lparr>ci_state := st\<rparr> else i) (sto_ctrs w)\<rparr>"

text \<open>A state change that is refused outside the given states, as libpod does.\<close>

definition transition :: "containerState list \<Rightarrow> containerState \<Rightarrow> ctr \<Rightarrow> (store, unit) act" where
  "transition from to c w =
     (case infoOf w c of
        None \<Rightarrow> (Err (ErrExt ''no such container''), w)
      | Some i \<Rightarrow> if ci_state i \<in> set from then (Ok (), setState c to w)
                 else (Err (ErrExt ''invalid container state''), w))"

definition withInfo :: "(ctrInfo \<Rightarrow> 'a) \<Rightarrow> ctr \<Rightarrow> (store, 'a) act" where
  "withInfo f c w =
     (case infoOf w c of None \<Rightarrow> (Err (ErrExt ''no such container''), w) | Some i \<Rightarrow> (Ok (f i), w))"

definition sto_NewPod :: "string \<Rightarrow> labels \<Rightarrow> (store, pod) act" where
  "sto_NewPod name ls w =
     (let p = \<lparr>pod_ID = ''p'' @ format_nat (sto_next w), pod_Name = name, pod_Labels = ls\<rparr> in
      if list_ex (\<lambda>q. pod_Name q = name \<or> pod_ID q = pod_ID p) (sto_pods w)
         \<or> list_ex (\<lambda>i. ctr_Pod (ci_ctr i) = pod_ID p) (sto_ctrs w)
      then (Err (ErrExt ''pod already exists''), w)
      else (Ok p, w\<lparr>sto_pods := sto_pods w @ [p], sto_next := Suc (sto_next w)\<rparr>))"

definition sto_NewContainer :: "createConfig \<Rightarrow> string list \<Rightarrow> (store, ctr) act" where
  "sto_NewContainer cc opts w =
     (let c = \<lparr>ctr_ID = ''c'' @ format_nat (sto_next w), ctr_Name = cc_Name cc, ctr_Labels = cc_Labels cc,
               ctr_Pod = cc_Pod cc, ctr_Command = cc_Command cc,
               ctr_LogPath = ''/log/'' @ cc_Name cc\<rparr> in
      if list_ex (\<lambda>i. ctr_Name (ci_ctr i) = cc_Name cc \<or> ctr_ID (ci_ctr i) = ctr_ID c) (sto_ctrs w)
      then (Err (ErrExt ''container already exists''), w)
      else (Ok c, w\<lparr>sto_ctrs := sto_ctrs w @ [\<lparr>ci_ctr = c, ci_state = ContainerStateConfigured, ci_exit = (0, False)\<rparr>],
                    sto_next := Suc (sto_next w)\<rparr>))"

definition sto_RemovePod :: "pod \<Rightarrow> bool \<Rightarrow> bool \<Rightarrow> (store, unit) act" where
  "sto_RemovePod p removeCtrs force w =
     (if \<not> removeCtrs \<and> list_ex (\<lambda>i. ctr_Pod (ci_ctr i) = pod_ID p) (sto_ctrs w)
      then (Err (ErrExt ''pod contains containers''), w)
      else (Ok (), w\<lparr>sto_pods := filter (\<lambda>q. pod_ID q \<noteq> pod_ID p) (sto_pods w),
                     sto_ctrs := filter (\<lambda>i. ctr_Pod (ci_ctr i) \<noteq> pod_ID p) (sto_ctrs w)\<rparr>))"

definition sto_RemoveContainer :: "ctr \<Rightarrow> bool \<Rightarrow> bool \<Rightarrow> (store, unit) act" where
  "sto_RemoveContainer c force vol w =
     (Ok (), w\<lparr>sto_ctrs := filter (\<lambda>i. ctr_ID (ci_ctr i) \<noteq> ctr_ID c) (sto_ctrs w)\<rparr>)"

definition sto_Inspect :: "ctrInfo \<Rightarrow> inspectData" where
  "sto_Inspect i =
     \<lparr>in_ID = ctr_ID (ci_ctr i), in_Image = [], in_Created = 0, in_StartedAt = 0, in_FinishedAt = 0,
      in_ExitCode = fst (ci_exit i), in_RestartCount = 0, in_Error = [], in_Restarting = False,
      in_Dead = False, in_OOMKilled = False, in_Running = (ci_state i = ContainerStateRunning),
      in_Paused = (ci_state i = ContainerStatePaused)\<rparr>"

definition lookupImage :: "string \<Rightarrow> (store, image) act" where
  "lookupImage n w =
     (case map_of (sto_images w) n of None \<Rightarrow> (Err (ErrExt ''no such image''), w) | Some im \<Rightarrow> (Ok im, w))"

abbreviation startable :: "containerState list" where
  "startable \<equiv> [ContainerStateConfigured, ContainerStateCreated, ContainerStateStopped, ContainerStateExited]"

text \<open>The engine on which the calls with the given names fail.\<close>

definition store_engine :: "string list \<Rightarrow> store engine" where
  "store_engine fails =
     \<lparr>lp_AllContainers = mayFail fails ''AllContainers'' (reading (\<lambda>w. remdups (map ci_ctr (sto_ctrs w)))),
      lp_AllPods = mayFail fails ''AllPods'' (reading (\<lambda>w. remdups (sto_pods w))),
      lp_LookupPod = (\<lambda>n w. case find (\<lambda>p. pod_Name p = n) (sto_pods w) of
          None \<Rightarrow> (Err (ErrExt ''no such pod''), w) | Some p \<Rightarrow> (Ok p, w)),
      lp_NewPod = (\<lambda>n ls. mayFail fails ''NewPod'' (sto_NewPod n ls)),
      lp_RemovePod = (\<lambda>p a b. mayFail fails ''RemovePod'' (sto_RemovePod p a b)),
      lp_RemoveContainer = sto_RemoveContainer,
      lp_MakeContainerConfig = (\<lambda>cc p. mayFail fails ''MakeContainerConfig'' (ret (cc, []))),
      lp_NewContainer = (\<lambda>cc opts. mayFail fails (''NewContainer:'' @ cc_Name cc) (sto_NewContainer cc opts)),
      lp_PodContainers = (\<lambda>p. reading (\<lambda>w. filter (\<lambda>c. ctr_Pod c = pod_ID p) (map ci_ctr (sto_ctrs w)))),
      lp_PodStart = (\<lambda>p w. (Ok ([], None), w\<lparr>sto_ctrs := map (\<lambda>i. if ctr_Pod (ci_ctr i) = pod_ID p
          then i\<lparr>ci_state := ContainerStateRunning\<rparr> else i) (sto_ctrs w)\<rparr>)),
      lp_Start = (\<lambda>c b. mayFail fails (''Start:'' @ ctr_Name c) (transition startable ContainerStateRunning c)),
      lp_Stop = transition [ContainerStateRunning, ContainerStatePaused] ContainerStateStopped,
      lp_Unpause = transition [ContainerStatePaused] ContainerStateRunning,
      lp_Sync = (\<lambda>c. ret ()),
      lp_State = withInfo ci_state,
      lp_ExitCode = withInfo ci_exit,
      lp_Wait = withInfo (\<lambda>i. fst (ci_exit i)),
      lp_PID = withInfo (\<lambda>i. 1),
      lp_Inspect = withInfo sto_Inspect,
      lp_IPs = (\<lambda>c. ret [\<lparr>ip_Addr = ''10.0.0.5'', ip_Prefix = 24, ip_Loopback = False\<rparr>]),
      lp_Exec = (\<lambda>c ec i. reading sto_abbot),
      lp_Attach = (\<lambda>c i so se. ret None),
      act_logEnv = ret (exampleLogEnv, []),
      net_Forward = (\<lambda>p a. if list_ex (\<lambda>x. x = slash) a then throw (ErrExt ''bad address'') else ret ()),
      im_NewFromLocal = lookupImage,
      im_New = (\<lambda>n au pt. lookupImage n),
      im_Inspect = (\<lambda>im. ret None),
      im_RepoDigests = (\<lambda>im. ret [''repo@sha256:'' @ img_ID im]),
      os_MkdirAll = (\<lambda>d w. (Ok (), w\<lparr>sto_dirs := d # sto_dirs w\<rparr>)),
      os_WriteFile = (\<lambda>f d m w. (Ok (), w\<lparr>sto_files := (f, d) # sto_files w\<rparr>)),
      os_ReadDir = (\<lambda>d. ret []),
      os_RemoveAllOneFilesystem = (\<lambda>d. mayFail fails ''RemoveAll'' (\<lambda>w. (Ok (), w\<lparr>sto_dirs := filter (\<lambda>x. \<not> has_prefix x d) (sto_dirs w),
          sto_files := filter (\<lambda>(f, _). \<not> has_prefix f d) (sto_files w)\<rparr>))),
      sc_Mount = (\<lambda>rp mp w. (Ok (), w\<lparr>sto_mounts := (rp, mp) # sto_mounts w\<rparr>)),
      sc_Unmount = (\<lambda>mp w. (Ok (), w\<lparr>sto_mounts := filter (\<lambda>(_, m). m \<noteq> mp) (sto_mounts w)\<rparr>)),
      ctx_Done = ret False,
      time_Format = FormatInt\<rparr>"

abbreviation goodEngine :: "store engine" where
  "goodEngine \<equiv> store_engine []"

section \<open>The contract holds\<close>

abbreviation sto_same :: "store \<Rightarrow> store \<Rightarrow> bool" where
  "sto_same \<equiv> same_regs sto_ctr_set sto_pod_set"

lemma ci_ctr_state [simp]: "ci_ctr (i\<lparr>ci_state := st\<rparr>) = ci_ctr i"
  by (cases i) simp

lemma ci_ctr_update_if [simp]:
  "ci_ctr ` (\<lambda>i. if P i then i\<lparr>ci_state := st\<rparr> else i) ` A = ci_ctr ` A"
  unfolding image_image by (rule image_cong) auto

lemma sto_same_refl [simp]: "sto_same w w"
  by (simp add: same_regs_def)

lemma keeps_reading: "keeps sto_same (reading f)"
  by (simp add: keeps_def reading_def)

lemma keeps_mayFail: "keeps sto_same m \<Longrightarrow> keeps sto_same (mayFail fails n m)"
  by (auto simp: keeps_def mayFail_def)

lemma keeps_withInfo: "keeps sto_same (withInfo f c)"
  by (auto simp: keeps_def withInfo_def split: option.splits)

lemma keeps_transition: "keeps sto_same (transition from to c)"
  unfolding keeps_def transition_def setState_def
  by (simp add: same_regs_def sto_ctr_set_def sto_pod_set_def del: if_image_distrib split: option.split)

lemma keeps_lookupImage: "keeps sto_same (lookupImage n)"
  by (auto simp: keeps_def lookupImage_def split: option.splits)

lemmas sto_quiet = keeps_reading keeps_mayFail keeps_withInfo keeps_transition keeps_lookupImage sr.keeps_rules

lemma keeps_store_local:
  "keeps sto_same (lp_LookupPod (store_engine fails) n)" "keeps sto_same (lp_PodStart (store_engine fails) p)"
  "keeps sto_same (os_MkdirAll (store_engine fails) d)" "keeps sto_same (os_WriteFile (store_engine fails) d x m)"
  "keeps sto_same (os_RemoveAllOneFilesystem (store_engine fails) d)"
  "keeps sto_same (sc_Mount (store_engine fails) d e)" "keeps sto_same (sc_Unmount (store_engine fails) d)"
  "keeps sto_same (net_Forward (store_engine fails) d e)"
  by (simp_all add: store_engine_def keeps_def same_regs_def sto_ctr_set_def sto_pod_set_def mayFail_def
      del: if_image_distrib split: option.split)

interpretation sto: libpod_api "store_engine fails" sto_ctr_set sto_pod_set for fails
proof (unfold_locales, goal_cases)
  case (1 w cs w')
  then show ?case
    by (auto simp: store_engine_def mayFail_def reading_def sto_ctr_set_def split: if_splits)
next
  case (2 w ps w')
  then show ?case
    by (auto simp: store_engine_def mayFail_def reading_def sto_pod_set_def split: if_splits)
next
  case (3 p w cs w')
  then show ?case by (auto simp: store_engine_def reading_def sto_ctr_set_def)
next
  case (4 n w p w')
  then show ?case
    by (auto simp: store_engine_def sto_pod_set_def find_Some_iff split: option.splits)
next
  case (5 n ls w p w')
  then show ?case
    by (auto simp: store_engine_def mayFail_def sto_NewPod_def Let_def sto_pod_set_def sto_ctr_set_def
        list_ex_iff split: if_splits)
next
  case (6 n ls w e w')
  then show ?case
    by (auto simp: store_engine_def mayFail_def sto_NewPod_def Let_def split: if_splits)
next
  case (7 p w w')
  then show ?case
    by (auto simp: store_engine_def mayFail_def sto_RemovePod_def sto_pod_set_def sto_ctr_set_def
        split: if_splits)
next
  case (8 p a b w res w')
  then show ?case
    by (auto simp: pod_frame_def store_engine_def mayFail_def sto_RemovePod_def sto_pod_set_def sto_ctr_set_def
        split: if_splits)
next
  case (9 cc p w cc' opts w')
  then show ?case by (auto simp: store_engine_def mayFail_def split: if_splits)
next
  case (10 cc opts w c w')
  then show ?case
    by (auto simp: store_engine_def mayFail_def sto_NewContainer_def Let_def sto_pod_set_def sto_ctr_set_def
        list_ex_iff split: if_splits)
next
  case (11 cc opts w e w')
  then show ?case
    by (auto simp: store_engine_def mayFail_def sto_NewContainer_def Let_def split: if_splits)
qed (rule keeps_store_local | simp add: store_engine_def; intro sto_quiet; auto intro: sto_quiet)+

interpretation stu: libpod_unique_names "store_engine fails" sto_ctr_set sto_pod_set for fails
  by unfold_locales
     (auto simp: store_engine_def mayFail_def sto_NewContainer_def Let_def sto_ctr_set_def list_ex_iff
      split: if_splits)

end
