(* ===== verification/Volumes.thy ===== *)
theory Volumes
  imports Store
begin

text \<open>
  Pod volume data: \<^verbatim>\<open>storageutil/volume.go\<close> (where a mount comes from, and the clean up
  of a pod's data) and \<^verbatim>\<open>ContainerMountSpec.Ensure\<close> of \<^verbatim>\<open>runtimepb/helper.go\<close> (writing
  configuration data into files).
\<close>

section \<open>Clean up\<close>

text \<open>
  The inner loop of \<^verbatim>\<open>CleanupPodData\<close>: \<^verbatim>\<open>err\<close> is overwritten by every unmount, and
  keeps its old value when there is nothing to unmount.
\<close>

fun unmount_loop ::
  "(string \<Rightarrow> ('w, unit) act) \<Rightarrow> string \<Rightarrow> string list \<Rightarrow> goerr option \<Rightarrow> ('w, goerr option) act" where
  "unmount_loop unmount remoteVolumeDir [] err = ret err"
| "unmount_loop unmount remoteVolumeDir (dir # dirs) err =
     andThen (attempt (unmount (path_Join [remoteVolumeDir, dir])))
       (\<lambda>r. unmount_loop unmount remoteVolumeDir dirs (case r of Inl e \<Rightarrow> Some e | Inr _ \<Rightarrow> None))"

text \<open>\<^verbatim>\<open>dirs, _ := ioutil.ReadDir(dir)\<close>: no entries when reading fails.\<close>

definition readDirIgnoringError :: "'w engine \<Rightarrow> string \<Rightarrow> ('w, string list) act" where
  "readDirIgnoringError lp dir =
     andThen (attempt (os_ReadDir lp dir)) (\<lambda>r. ret (case r of Inl _ \<Rightarrow> [] | Inr names \<Rightarrow> names))"

definition removeAllErr :: "'w engine \<Rightarrow> string \<Rightarrow> ('w, goerr option) act" where
  "removeAllErr lp dir =
     andThen (attempt (os_RemoveAllOneFilesystem lp dir))
       (\<lambda>r. ret (case r of Inl e \<Rightarrow> Some e | Inr _ \<Rightarrow> None))"

text \<open>The retry loop; the first argument counts the iterations that are left of the five.\<close>

fun cleanup_loop ::
  "'w engine \<Rightarrow> nat \<Rightarrow> string \<Rightarrow> string \<Rightarrow> string \<Rightarrow> (string \<Rightarrow> ('w, unit) act) \<Rightarrow> goerr option \<Rightarrow> ('w, goerr option) act" where
  "cleanup_loop lp 0 podDir remoteVolumeDir tmpfsVolumeDir unmount err = ret err"
| "cleanup_loop lp (Suc n) podDir remoteVolumeDir tmpfsVolumeDir unmount err =
     (if err = None then ret None
      else
        andThen (readDirIgnoringError lp remoteVolumeDir) (\<lambda>dirs.
        andThen (unmount_loop unmount remoteVolumeDir dirs err) (\<lambda>err.
        andThen (if err = None then ignore (readDirIgnoringError lp tmpfsVolumeDir) else ret ()) (\<lambda>_.
        andThen (if err = None then removeAllErr lp podDir else ret err) (\<lambda>err.
        cleanup_loop lp n podDir remoteVolumeDir tmpfsVolumeDir unmount err)))))"

definition CleanupPodData ::
  "'w engine \<Rightarrow> string \<Rightarrow> string \<Rightarrow> string \<Rightarrow> (string \<Rightarrow> ('w, unit) act) \<Rightarrow> ('w, unit) act" where
  "CleanupPodData lp podDir remoteVolumeDir tmpfsVolumeDir unmount =
     andThen (removeAllErr lp podDir) (\<lambda>err.
     andThen (cleanup_loop lp 5 podDir remoteVolumeDir tmpfsVolumeDir unmount err) (\<lambda>err.
     case err of None \<Rightarrow> ret () | Some e \<Rightarrow> throw e))"

section \<open>Mount sources\<close>

definition os_IsExist :: "goerr \<Rightarrow> bool" where
  "os_IsExist e \<longleftrightarrow> e = ErrExt ''file exists''"

definition mkdirAllowExist :: "'w engine \<Rightarrow> string \<Rightarrow> ('w, unit) act" where
  "mkdirAllowExist lp dir =
     andThen (attempt (os_MkdirAll lp dir))
       (\<lambda>r. case r of Inl err \<Rightarrow> if \<not> os_IsExist err then throw err else ret () | Inr _ \<Rightarrow> ret ())"

definition ResolveHostPathMountSource ::
  "'w engine \<Rightarrow> string \<Rightarrow> string \<Rightarrow> string \<Rightarrow> bool \<Rightarrow> (string \<Rightarrow> string \<Rightarrow> string) \<Rightarrow> (string \<Rightarrow> string \<Rightarrow> string) \<Rightarrow>
   ('w, string) act" where
  "ResolveHostPathMountSource lp path podUID volName remote getRemoteVolumeDir getTmpfsVolumeDir =
     (if path \<noteq> [] then
        (if \<not> remote then ret path
         else let mountSource = getRemoteVolumeDir podUID volName in
              andThen (mkdirAllowExist lp mountSource) (\<lambda>_. ret mountSource))
      else if path = [] \<and> \<not> remote then
        (let mountSource = getTmpfsVolumeDir podUID volName in
         andThen (mkdirAllowExist lp mountSource) (\<lambda>_. ret mountSource))
      else throw (ErrNew ''unsupported options''))"

section \<open>Configuration data as files\<close>

text \<open>Octal \<^verbatim>\<open>0777\<close> is 511 and \<^verbatim>\<open>0644\<close> is 420.\<close>

definition ensureFileMode :: "containerMountSpec \<Rightarrow> 32 word" where
  "ensureFileMode v = (let m = ms_FileMode v in if m > 0 \<and> m \<le> 511 then m else 420)"

definition mountSpec_Ensure ::
  "'w engine \<Rightarrow> containerMountSpec \<Rightarrow> string \<Rightarrow> (string, string) gomap \<Rightarrow> ('w, string) act" where
  "mountSpec_Ensure lp v dir dataMap =
     (let fileMode = ensureFileMode v in
      if ms_SubPath v \<noteq> [] then
        (case map_of dataMap (ms_SubPath v) of
           None \<Rightarrow> throw (ErrNew ''volume data not found'')
         | Some content \<Rightarrow>
             (let dataFilePath = path_Join [dir, ms_SubPath v] in
              andThen (os_WriteFile lp dataFilePath content fileMode) (\<lambda>_. ret dataFilePath)))
      else
        andThen (forEach dataMap (\<lambda>(fileName, content).
                   os_WriteFile lp (path_Join [dir, fileName]) content fileMode)) (\<lambda>_. ret dir))"

section \<open>Where sources lie\<close>

lemma ResolveHostPathMountSource_Ok:
  assumes "ResolveHostPathMountSource lp path u v remote f g w = (Ok src, w')"
  shows "src = (if path = [] then g u v else if remote then f u v else path) \<and> \<not> (path = [] \<and> remote)"
  using assms by (auto simp: ResolveHostPathMountSource_def Let_def elim!: andThen_OkE split: if_splits)

lemma mountSpec_Ensure_Ok:
  assumes "mountSpec_Ensure lp v dir dm w = (Ok src, w')"
  shows "src = (if ms_SubPath v = [] then dir else path_Join [dir, ms_SubPath v])"
  using assms by (auto simp: mountSpec_Ensure_def Let_def elim!: andThen_OkE split: if_splits option.splits)

section \<open>Facts about the clean up\<close>

lemma removeAllErr_None:
  "removeAllErr lp d w = (Ok None, w') \<longleftrightarrow> os_RemoveAllOneFilesystem lp d w = (Ok (), w')"
  by (auto simp: removeAllErr_def andThen_def attempt_def split: outcome.splits prod.splits sum.splits)

lemma removeAllErr_Some:
  "removeAllErr lp d w = (Ok (Some e), w') \<longleftrightarrow> os_RemoveAllOneFilesystem lp d w = (Err e, w')"
  by (auto simp: removeAllErr_def andThen_def attempt_def split: outcome.splits prod.splits sum.splits)

lemma cleanup_loop_None [simp]:
  "cleanup_loop lp n pd rd td um None w = (Ok None, w)"
  by (cases n) simp_all

text \<open>Success of the loop ends with a successful removal of the pod's directory.\<close>

lemma cleanup_loop_removed:
  assumes "cleanup_loop lp n pd rd td um (Some e) w = (Ok None, w')"
  shows "\<exists>v. os_RemoveAllOneFilesystem lp pd v = (Ok (), w')"
  using assms
proof (induction n arbitrary: e w)
  case 0
  then show ?case by simp
next
  case (Suc n)
  from Suc.prems obtain err v r v' where
    r: "(if err = None then removeAllErr lp pd else ret err) v = (Ok r, v')"
    and l: "cleanup_loop lp n pd rd td um r v' = (Ok None, w')"
    by (auto elim!: andThen_OkE)
  show ?case
  proof (cases r)
    case None
    with r l show ?thesis by (auto simp: removeAllErr_None split: if_splits)
  next
    case (Some e')
    with l show ?thesis using Suc.IH by simp
  qed
qed

text \<open>
  With no remote volume directories the error of the first removal is never cleared,
  so the removal is not tried again.
\<close>

lemma cleanup_loop_no_remotes:
  assumes "\<And>w. readDirIgnoringError lp rd w = (Ok [], w)"
  shows "cleanup_loop lp n pd rd td um (Some e) w = (Ok (Some e), w)"
  using assms by (induction n) (simp_all add: andThen_def)

lemma CleanupPodData_no_remotes:
  assumes "\<And>w. readDirIgnoringError lp rd w = (Ok [], w)"
    and "os_RemoveAllOneFilesystem lp pd w = (Err e, w')"
  shows "CleanupPodData lp pd rd td um w = (Err e, w')"
  using assms(2) cleanup_loop_no_remotes [OF assms(1), of 5 pd td um e w']
  by (simp add: CleanupPodData_def andThen_def removeAllErr_Some [THEN iffD2])

lemma CleanupPodData_removed:
  assumes "CleanupPodData lp pd rd td um w = (Ok (), w')"
  shows "\<exists>v. os_RemoveAllOneFilesystem lp pd v = (Ok (), w')"
proof -
  from assms obtain r v where r: "removeAllErr lp pd w = (Ok r, v)"
    and c: "cleanup_loop lp 5 pd rd td um r v = (Ok None, w')"
    by (auto simp: CleanupPodData_def elim!: andThen_OkE split: option.splits)
  show ?thesis
  proof (cases r)
    case None
    with r c show ?thesis by (auto simp: removeAllErr_None)
  next
    case (Some e)
    with c show ?thesis by (metis cleanup_loop_removed)
  qed
qed

context libpod_api
begin

lemma keeps_readDir: "keeps (same_regs ctrs pods) (readDirIgnoringError lp d)"
  unfolding readDirIgnoringError_def by (intro quiet_rules)

lemma keeps_removeAllErr: "keeps (same_regs ctrs pods) (removeAllErr lp d)"
  unfolding removeAllErr_def by (intro quiet_rules)

lemma keeps_unmount_loop: "keeps (same_regs ctrs pods) (unmount_loop (sc_Unmount lp) rd ds err)"
  by (induction ds arbitrary: err) (auto intro!: quiet_rules)

lemma keeps_cleanup_loop:
  "keeps (same_regs ctrs pods) (cleanup_loop lp n pd rd td (sc_Unmount lp) err)"
  by (induction n arbitrary: err)
     (auto intro!: quiet_rules keeps_readDir keeps_removeAllErr keeps_unmount_loop)

lemma keeps_CleanupPodData: "keeps (same_regs ctrs pods) (CleanupPodData lp pd rd td (sc_Unmount lp))"
  unfolding CleanupPodData_def
  by (intro quiet_rules keeps_removeAllErr keeps_cleanup_loop) (auto split: option.splits intro: quiet_rules)

lemma keeps_mkdirAllowExist: "keeps (same_regs ctrs pods) (mkdirAllowExist lp d)"
  unfolding mkdirAllowExist_def by (intro quiet_rules) (auto split: sum.splits intro: quiet_rules)

lemma keeps_ResolveHostPathMountSource:
  "keeps (same_regs ctrs pods) (ResolveHostPathMountSource lp path u v rem f g)"
  unfolding ResolveHostPathMountSource_def Let_def
  by (auto intro!: quiet_rules keeps_mkdirAllowExist)

lemma keeps_mountSpec_Ensure: "keeps (same_regs ctrs pods) (mountSpec_Ensure lp v dir dm)"
  unfolding mountSpec_Ensure_def Let_def
  by (auto split: option.splits intro!: quiet_rules)

end

section \<open>Properties\<close>

text \<open>When \<^verbatim>\<open>CleanupPodData\<close> reports success, its last effect was a successful removal of the
  pod's directory: the end state is the one that removal produced.\<close>

theorem cleanup_success_means_removed:
  assumes "CleanupPodData lp podDir remoteDir tmpfsDir unmount w = (Ok (), w')"
  shows "\<exists>v. os_RemoveAllOneFilesystem lp podDir v = (Ok (), w')"
  by (rule CleanupPodData_removed [OF assms])

text \<open>Witness: on the example engine.\<close>

theorem cleanup_success_means_removed_witness:
  "\<exists>v. os_RemoveAllOneFilesystem goodEngine ''/d/pods/u'' v = (Ok (), emptyStore)"
proof -
  have "CleanupPodData goodEngine ''/d/pods/u'' ''/r'' ''/t'' (sc_Unmount goodEngine)
      (emptyStore\<lparr>sto_dirs := [''/d/pods/u/volumes'']\<rparr>) = (Ok (), emptyStore)"
    by code_simp
  then show ?thesis by (rule cleanup_success_means_removed)
qed

text \<open>A pod with no remote volume directory gets one attempt only: when the first removal fails,
  \<^verbatim>\<open>CleanupPodData\<close> returns that error without trying the removal again, although it has a loop of five retries.\<close>

theorem cleanup_never_retries_without_remotes:
  assumes "\<And>w. os_ReadDir lp remoteDir w = (Ok [], w)"
    and "os_RemoveAllOneFilesystem lp podDir w = (Err e, w')"
  shows "CleanupPodData lp podDir remoteDir tmpfsDir unmount w = (Err e, w')"
  by (rule CleanupPodData_no_remotes [OF _ assms(2)])
     (simp add: readDirIgnoringError_def andThen_def attempt_def assms(1))

text \<open>Witness: a removal that fails.\<close>

theorem cleanup_never_retries_without_remotes_witness:
  "CleanupPodData (store_engine [''RemoveAll'']) ''/d/pods/u'' ''/r'' ''/t'' (sc_Unmount (store_engine [''RemoveAll'']))
     emptyStore = (Err (ErrExt ''RemoveAll''), emptyStore)"
  by (rule cleanup_never_retries_without_remotes)
     (simp_all add: store_engine_def mayFail_def)

text \<open>Files written for a configuration volume never get a mode outside the permission bits:
  the mode is between 1 and \<^verbatim>\<open>0777\<close>, and it is the requested one whenever the request is in that range.\<close>

theorem ensure_file_mode_bounds:
  "0 < ensureFileMode v \<and> ensureFileMode v \<le> 0x1FF
   \<and> (ensureFileMode v = ms_FileMode v \<or> ms_FileMode v = 0 \<or> ms_FileMode v > 0x1FF)"
  by (auto simp: ensureFileMode_def Let_def word_gt_0 not_le)

end
