(* ===== verification/Containers.thy ===== *)
theory Containers
  imports Volumes
begin

text \<open>
  \<^verbatim>\<open>pkg/runtime/container.go\<close>, the parts of \<^verbatim>\<open>runtime.go\<close> and \<^verbatim>\<open>translate.go\<close> it calls,
  and \<^verbatim>\<open>getImageConfig\<close> of \<^verbatim>\<open>image.go\<close>: looking containers and pods up by label,
  running commands in containers (abbot included), and deleting containers and pods.
\<close>

section \<open>Lookups\<close>

definition containerLabelFilterFunc :: "labels \<Rightarrow> ctr \<Rightarrow> bool" where
  "containerLabelFilterFunc filters c = filterLabels filters (ctr_Labels c)"

definition podLabelFilterFunc :: "labels \<Rightarrow> pod \<Rightarrow> bool" where
  "podLabelFilterFunc filters p = filterLabels filters (pod_Labels p)"

definition listContainersByLabels :: "'w engine \<Rightarrow> labels \<Rightarrow> ('w, ctr list) act" where
  "listContainersByLabels lp labels = GetContainers lp (containerLabelFilterFunc labels)"

definition listPauseContainers :: "'w engine \<Rightarrow> ('w, ctr list) act" where
  "listPauseContainers lp =
     listContainersByLabels lp [(ContainerLabelPodContainerRole, ContainerRoleInfra)]"

definition findContainerByLabels :: "'w engine \<Rightarrow> labels \<Rightarrow> ('w, ctr) act" where
  "findContainerByLabels lp labels =
     andThen (listContainersByLabels lp labels)
       (\<lambda>containers. if length containers = 0 then throw ErrNotFound else ret (containers ! 0))"

definition findAbbotContainer :: "'w engine \<Rightarrow> ('w, ctr) act" where
  "findAbbotContainer lp = findContainerByLabels lp AbbotMatchLabels"

definition findContainer :: "'w engine \<Rightarrow> string \<Rightarrow> string \<Rightarrow> ('w, ctr) act" where
  "findContainer lp podUID container =
     findContainerByLabels lp
       [(ContainerLabelPodUID, podUID), (ContainerLabelPodContainer, container)]"

definition findPod :: "'w engine \<Rightarrow> string \<Rightarrow> ('w, pod) act" where
  "findPod lp podUID =
     andThen (Pods lp (podLabelFilterFunc [(ContainerLabelPodUID, podUID)])) (\<lambda>pods.
       case pods of
         [] \<Rightarrow> throw ErrNotFound
       | [p] \<Rightarrow> ret p
       | _ \<Rightarrow> throw (ErrNew ''unexpected multiple pods for single pod uid''))"

section \<open>Images\<close>

definition emptyImageConfig :: imageConfig where
  "emptyImageConfig = \<lparr>ic_User = [], ic_Env = [], ic_Entrypoint = [], ic_Cmd = [], ic_WorkingDir = []\<rparr>"

text \<open>Inspecting may give no data at all, and data without a configuration.\<close>

definition getImageConfig :: "'w engine \<Rightarrow> image \<Rightarrow> ('w, imageConfig) act" where
  "getImageConfig lp im =
     andThen (wrapErr ''failed to inspect image'' (im_Inspect lp im)) (\<lambda>imageData.
       let config = (case imageData of None \<Rightarrow> img_Config im | Some c \<Rightarrow> c)
       in ret (case config of None \<Rightarrow> emptyImageConfig | Some c \<Rightarrow> c))"

section \<open>Running commands\<close>

text \<open>
  \<^verbatim>\<open>execInContainer\<close> starts a goroutine that runs the command and, when that fails,
  sends one message on the error channel unless the context ends first; the channel
  is then closed. The model runs the goroutine to its end and returns what a receiver
  reads from the channel (\<open>None\<close> for a closed one) with the collected outputs.
\<close>

definition execInContainer ::
  "'w engine \<Rightarrow> ctr \<Rightarrow> string option \<Rightarrow> bool \<Rightarrow> bool \<Rightarrow> string list \<Rightarrow> bool \<Rightarrow> labels \<Rightarrow>
   ('w, goerr option \<times> string \<times> string) act" where
  "execInContainer lp c stdin hasStdout hasStderr command tty env =
     (let execConfig = \<lparr>ec_Command = command, ec_Terminal = tty, ec_AttachStdin = (stdin \<noteq> None),
            ec_AttachStdout = hasStdout, ec_AttachStderr = hasStderr, ec_Environment = env\<rparr>
      in andThen (lp_Exec lp c execConfig stdin) (\<lambda>res.
         case er_Err res of
           None \<Rightarrow> ret (None, er_Stdout res, er_Stderr res)
         | Some err \<Rightarrow>
             andThen (ctx_Done lp) (\<lambda>isDone.
               ret (if isDone then None else Some (ErrorMsg (err_Error err) (er_ExitCode res)),
                    er_Stdout res, er_Stderr res))))"

text \<open>
  The \<^verbatim>\<open>select\<close> between the end of the context and the error channel. The environment's
  \<open>ctx_Done\<close> says whether the branch of the ended context is the one taken.
\<close>

definition selectErrCh :: "'w engine \<Rightarrow> goerr option \<Rightarrow> ('w, unit) act" where
  "selectErrCh lp msg =
     andThen (ctx_Done lp) (\<lambda>isDone.
       if isDone then throw CtxErr else (case msg of None \<Rightarrow> ret () | Some err \<Rightarrow> throw err))"

definition doHookAction :: "'w engine \<Rightarrow> ctr \<Rightarrow> containerAction \<Rightarrow> ('w, unit) act" where
  "doHookAction lp c hook =
     (case hook of
        ActionExec cmd \<Rightarrow>
          if length cmd > 0 then
            andThen (execInContainer lp c None True True cmd False []) (\<lambda>(msg, _, _). selectErrCh lp msg)
          else ret ()
      | ActionHttp \<Rightarrow> ret ()
      | ActionSocket \<Rightarrow> ret ()
      | ActionUnset \<Rightarrow> ret ())"

text \<open>
  The function the network client runs abbot with. The environment and the standard
  input it is given are not used.
\<close>

definition handleAbbotExec :: "'w engine \<Rightarrow> libpodRuntime \<Rightarrow> 'w abbotExec" where
  "handleAbbotExec lp r env stdin hasStdout =
     andThen (findAbbotContainer lp) (\<lambda>c.
     andThen (wrapErr ''failed to get abbot contaienr status'' (lp_State lp c)) (\<lambda>status.
     andThen (if status \<noteq> ContainerStateRunning then
                andThen (wrapErr ''failed to start abbot container'' (lp_Start lp c True)) (\<lambda>_.
                andThen (wrapErr ''failed to get abbot container status'' (lp_State lp c)) (\<lambda>_. ret ()))
              else ret ()) (\<lambda>_.
     let cmd = ctr_Command c @ [rt_abbotSubCmd r] in
     andThen (execInContainer lp c None hasStdout True cmd False []) (\<lambda>(msg, out, errOut).
     andThen (selectErrCh lp msg) (\<lambda>_. ret (out, errOut))))))"

section \<open>Deleting\<close>

text \<open>The loop that refuses to remove abbot while a cluster network pod exists.\<close>

definition denyAbbotDeletion :: "'w engine \<Rightarrow> ('w, unit) act" where
  "denyAbbotDeletion lp =
     andThen (listPauseContainers lp) (\<lambda>containers.
       if list_ex (\<lambda>c. \<not> IsHostNetwork (ctr_Labels c)) containers
       then throw (ErrWrap ''unable to delete abbot container'' ErrInvalidOperation)
       else ret ())"

text \<open>The container is a pointer; \<open>None\<close> is nil, whose labels cannot be read.\<close>

definition deleteContainer :: "'w engine \<Rightarrow> ctr option \<Rightarrow> ('w, unit) act" where
  "deleteContainer lp ctrPtr =
     (case ctrPtr of
        None \<Rightarrow> panic ''nil pointer dereference''
      | Some c \<Rightarrow>
        (let labels = ctr_Labels c in
         andThen (if IsAbbotPod labels then denyAbbotDeletion lp else ret ()) (\<lambda>_.
         if map_of labels ContainerLabelPodUID \<noteq> None then ret ()
         else case map_of labels ContainerLabelPodContainer of
                None \<Rightarrow> ret ()
              | Some name \<Rightarrow>
                  if name = ContainerNamePause
                  then throw (ErrWrap ''pause container should not be delete as normal container'' ErrInvalidOperation)
                  else andThen (ignore (lp_Stop lp c)) (\<lambda>_. lp_RemoveContainer lp c True True))))"

definition deletePod :: "'w engine \<Rightarrow> libpodRuntime \<Rightarrow> pod \<Rightarrow> ('w, unit) act" where
  "deletePod lp r p =
     andThen
       (case map_of (pod_Labels p) ContainerLabelPodUID of
          None \<Rightarrow> ret ()
        | Some podUID \<Rightarrow>
            andThen (findContainer lp podUID ContainerNamePause) (\<lambda>pauseCtr.
            andThen (ignore (lp_Sync lp pauseCtr)) (\<lambda>_.
            let labels = ctr_Labels pauseCtr in
            andThen (if \<not> IsHostNetwork labels then
                       andThen (pidOf lp pauseCtr) (\<lambda>pid.
                         network_Delete (handleAbbotExec lp r) pid (ctr_ID pauseCtr))
                     else ret ()) (\<lambda>_.
            if IsAbbotPod labels then denyAbbotDeletion lp else ret ()))))
       (\<lambda>_. lp_RemovePod lp p True True)"

section \<open>Remounting after a storage failure\<close>

text \<open>
  The callback that runs when the mount process of a remote volume exits. It gives up
  only when the lookup of the pause container says not found; other lookup errors and
  a found container both lead to a new mount, whose error is only logged.
\<close>

definition handleStorageFailure :: "'w engine \<Rightarrow> string \<Rightarrow> string \<Rightarrow> string \<Rightarrow> ('w, unit) act" where
  "handleStorageFailure lp podUID remotePath mountPoint =
     andThen (attempt (findContainer lp podUID ContainerNamePause)) (\<lambda>e.
       case e of
         Inl err \<Rightarrow> if errors_Is err ErrNotFound then ret ()
                    else ignore (sc_Mount lp remotePath mountPoint)
       | Inr _ \<Rightarrow> ignore (sc_Mount lp remotePath mountPoint))"

section \<open>Starting a pod\<close>

definition multierr_Combine :: "goerr list \<Rightarrow> goerr" where
  "multierr_Combine es = (case es of [e] \<Rightarrow> e | _ \<Rightarrow> ErrMulti es)"

text \<open>The map from containers to hooks is visited in list order.\<close>

definition startPod :: "'w engine \<Rightarrow> pod \<Rightarrow> (ctr \<times> containerAction option) list \<Rightarrow> ('w, unit) act" where
  "startPod lp p containers =
     andThen (lp_PodStart lp p) (\<lambda>(errMap, err).
       case err of
         Some e \<Rightarrow>
           (let errList = map snd errMap in
            if length errList \<noteq> 0 then throw (multierr_Combine errList) else throw e)
       | None \<Rightarrow>
           andThen (forEach containers (\<lambda>(c, postStartHook).
                      case postStartHook of None \<Rightarrow> ret () | Some h \<Rightarrow> ignore (doHookAction lp c h)))
             (\<lambda>_. ret ()))"

section \<open>Facts shared by the clients\<close>

lemma findContainerByLabels_Ok:
  assumes "findContainerByLabels lp ls w = (Ok c, w')"
  shows "\<exists>cs. listContainersByLabels lp ls w = (Ok cs, w') \<and> c \<in> set cs"
  using assms by (auto simp: findContainerByLabels_def elim!: andThen_OkE split: if_splits)

lemma findContainerByLabels_match:
  assumes "findContainerByLabels lp ls w = (Ok c, w')"
  shows "filterLabels ls (ctr_Labels c)"
proof -
  obtain cs where "listContainersByLabels lp ls w = (Ok cs, w')" and "c \<in> set cs"
    using findContainerByLabels_Ok [OF assms] by blast
  then show ?thesis
    by (auto simp: listContainersByLabels_def GetContainers_def containerLabelFilterFunc_def
        elim!: andThen_OkE)
qed

lemma findContainer_match:
  assumes "findContainer lp u n w = (Ok c, w')"
  shows "gm_str (ctr_Labels c) ContainerLabelPodUID = u \<and> gm_str (ctr_Labels c) ContainerLabelPodContainer = n"
  using findContainerByLabels_match [OF assms [unfolded findContainer_def]]
  by (simp add: filterLabels_iff)

lemma findContainer_uid_label:
  assumes "findContainer lp u n w = (Ok c, w')" and "u \<noteq> []"
  shows "map_of (ctr_Labels c) ContainerLabelPodUID = Some u"
  using findContainer_match [OF assms(1)] assms(2)
  by (auto simp: gm_str_def split: option.splits)

lemma findContainer_name_label:
  assumes "findContainer lp u n w = (Ok c, w')" and "n \<noteq> []"
  shows "map_of (ctr_Labels c) ContainerLabelPodContainer = Some n"
  using findContainer_match [OF assms(1)] assms(2)
  by (auto simp: gm_str_def split: option.splits)

lemma findPod_match:
  assumes "findPod lp u w = (Ok p, w')"
  shows "filterLabels [(ContainerLabelPodUID, u)] (pod_Labels p)"
proof -
  from assms obtain ps where "Pods lp (podLabelFilterFunc [(ContainerLabelPodUID, u)]) w = (Ok ps, w')"
    and "ps = [p]"
    by (auto simp: findPod_def elim!: andThen_OkE split: list.splits)
  then show ?thesis
    by (auto simp: Pods_def podLabelFilterFunc_def filter_eq_Cons_iff elim!: andThen_OkE)
qed

context libpod_api
begin

lemma keeps_listContainersByLabels: "keeps (same_regs ctrs pods) (listContainersByLabels lp ls)"
  unfolding listContainersByLabels_def by (rule keeps_GetContainers)

lemma keeps_findContainerByLabels: "keeps (same_regs ctrs pods) (findContainerByLabels lp ls)"
  unfolding findContainerByLabels_def
  by (intro quiet_rules keeps_listContainersByLabels) (auto intro: quiet_rules)

lemma keeps_findContainer: "keeps (same_regs ctrs pods) (findContainer lp u n)"
  unfolding findContainer_def by (rule keeps_findContainerByLabels)

lemma keeps_findAbbotContainer: "keeps (same_regs ctrs pods) (findAbbotContainer lp)"
  unfolding findAbbotContainer_def by (rule keeps_findContainerByLabels)

lemma keeps_findPod: "keeps (same_regs ctrs pods) (findPod lp u)"
  unfolding findPod_def by (intro quiet_rules keeps_Pods) (auto split: list.splits intro: quiet_rules)

lemma keeps_getImageConfig: "keeps (same_regs ctrs pods) (getImageConfig lp im)"
  unfolding getImageConfig_def Let_def by (intro quiet_rules)

lemma keeps_execInContainer: "keeps (same_regs ctrs pods) (execInContainer lp c i so se cmd tty env)"
  unfolding execInContainer_def Let_def
  by (intro quiet_rules) (auto split: option.splits intro!: quiet_rules)

lemma keeps_selectErrCh: "keeps (same_regs ctrs pods) (selectErrCh lp msg)"
  unfolding selectErrCh_def by (intro quiet_rules) (auto split: option.splits intro: quiet_rules)

lemma keeps_doHookAction: "keeps (same_regs ctrs pods) (doHookAction lp c h)"
  unfolding doHookAction_def
  by (auto split: containerAction.splits intro!: quiet_rules keeps_execInContainer keeps_selectErrCh)

lemma keeps_handleAbbotExec: "keeps (same_regs ctrs pods) (handleAbbotExec lp r env i so)"
  unfolding handleAbbotExec_def Let_def
  by (auto intro!: quiet_rules keeps_findAbbotContainer keeps_execInContainer keeps_selectErrCh)

lemma keeps_checkStderr: "keeps (same_regs ctrs pods) (checkStderr s a)"
  by (auto simp: checkStderr_def intro: quiet_rules)

lemma keeps_network:
  "keeps (same_regs ctrs pods) (network_Do (handleAbbotExec lp r) req pid cid)"
  "keeps (same_regs ctrs pods) (network_Restore (handleAbbotExec lp r) pid cid)"
  "keeps (same_regs ctrs pods) (network_Query (handleAbbotExec lp r) pid cid)"
  "keeps (same_regs ctrs pods) (network_Delete (handleAbbotExec lp r) pid cid)"
  unfolding network_Do_def network_Restore_def network_Query_def network_Delete_def
  by (auto split: prod.splits intro!: quiet_rules keeps_handleAbbotExec keeps_checkStderr)

lemma keeps_denyAbbotDeletion: "keeps (same_regs ctrs pods) (denyAbbotDeletion lp)"
  unfolding denyAbbotDeletion_def listPauseContainers_def
  by (intro quiet_rules keeps_listContainersByLabels) (auto intro: quiet_rules)

lemma findContainer_registered:
  assumes "findContainer lp u n w = (Ok c, w')"
  shows "c \<in> ctrs w"
proof -
  obtain cs where "GetContainers lp (containerLabelFilterFunc
      [(ContainerLabelPodUID, u), (ContainerLabelPodContainer, n)]) w = (Ok cs, w')" and "c \<in> set cs"
    using findContainerByLabels_Ok [OF assms [unfolded findContainer_def]]
    unfolding listContainersByLabels_def by blast
  then show ?thesis using GetContainers_Ok by blast
qed

text \<open>Not found means that no registered container carries the pod UID and the name.\<close>

lemma findContainer_NotFound:
  assumes "findContainer lp u n w = (Err ErrNotFound, w')"
    and "\<And>w e w'. lp_AllContainers lp w = (Err e, w') \<Longrightarrow> e \<noteq> ErrNotFound"
  shows "\<forall>c\<in>ctrs w. \<not> filterLabels [(ContainerLabelPodUID, u), (ContainerLabelPodContainer, n)] (ctr_Labels c)"
proof -
  let ?f = "containerLabelFilterFunc [(ContainerLabelPodUID, u), (ContainerLabelPodContainer, n)]"
  from assms(1) show ?thesis
    unfolding findContainer_def findContainerByLabels_def listContainersByLabels_def
  proof (cases rule: andThen_ErrE)
    case first
    then show ?thesis using assms(2) by (auto simp: GetContainers_def elim!: andThen_ErrE)
  next
    case (second cs w1)
    then have "cs = []" by (auto split: if_splits)
    with GetContainers_Ok [OF second(1)] show ?thesis by (auto simp: containerLabelFilterFunc_def)
  qed
qed

text \<open>A found pod is the only registered pod that the filter for its UID accepts.\<close>

lemma findPod_only:
  assumes "findPod lp u w = (Ok p, w')"
  shows "{q \<in> pods w. filterLabels [(ContainerLabelPodUID, u)] (pod_Labels q)} = {p}"
proof -
  from assms obtain ps where "Pods lp (podLabelFilterFunc [(ContainerLabelPodUID, u)]) w = (Ok ps, w')"
    and "ps = [p]"
    by (auto simp: findPod_def elim!: andThen_OkE split: list.splits)
  with Pods_Ok show ?thesis by (force simp: podLabelFilterFunc_def)
qed

text \<open>The part of \<open>deletePod\<close> before the removal only reads.\<close>

lemma deletePod_split:
  assumes "deletePod lp r p w = (res, w')"
  obtains (removed) v where "same_regs ctrs pods w v" "lp_RemovePod lp p True True v = (res, w')"
    | (kept) "same_regs ctrs pods w w'" "res \<noteq> Ok ()"
proof -
  let ?pre = "case map_of (pod_Labels p) ContainerLabelPodUID of
          None \<Rightarrow> ret ()
        | Some podUID \<Rightarrow>
            andThen (findContainer lp podUID ContainerNamePause) (\<lambda>pauseCtr.
            andThen (ignore (lp_Sync lp pauseCtr)) (\<lambda>_.
            let labels = ctr_Labels pauseCtr in
            andThen (if \<not> IsHostNetwork labels then
                       andThen (pidOf lp pauseCtr) (\<lambda>pid.
                         network_Delete (handleAbbotExec lp r) pid (ctr_ID pauseCtr))
                     else ret ()) (\<lambda>_.
            if IsAbbotPod labels then denyAbbotDeletion lp else ret ())))"
  have "keeps (same_regs ctrs pods) ?pre"
    by (auto simp: Let_def split: option.splits
        intro!: quiet_rules keeps_findContainer keeps_pidOf keeps_network keeps_denyAbbotDeletion)
  moreover have "deletePod lp r p = andThen ?pre (\<lambda>_. lp_RemovePod lp p True True)"
    by (simp add: deletePod_def)
  ultimately show thesis
    using assms removed kept by (auto simp: andThen_def split: outcome.splits prod.splits dest: keepsD)
qed

lemma deletePod_Ok:
  assumes "deletePod lp r p w = (Ok (), w')"
  shows "pods w' = {q \<in> pods w. pod_ID q \<noteq> pod_ID p} \<and> ctrs w' = {c \<in> ctrs w. ctr_Pod c \<noteq> pod_ID p}"
  using assms by (cases rule: deletePod_split) (auto simp: same_regs_def dest: remove_pod)

lemma deletePod_frame: "keeps (pod_frame ctrs pods {pod_ID p}) (deletePod lp r p)"
  unfolding keeps_def
proof
  fix w
  obtain res w' where d: "deletePod lp r p w = (res, w')" by fastforce
  then have "pod_frame ctrs pods {pod_ID p} w w'"
  proof (cases rule: deletePod_split)
    case (removed v)
    show ?thesis by (rule pf.rel_trans [OF same_regs_frame [OF removed(1)] remove_pod_frame [OF removed(2)]])
  next
    case kept
    then show ?thesis by (simp add: same_regs_frame)
  qed
  with d show "pod_frame ctrs pods {pod_ID p} w (snd (deletePod lp r p w))" by simp
qed

end

section \<open>An example world\<close>

text \<open>
  A host network pod \<^verbatim>\<open>ns.pod\<close> with its pause container and one work container, and a second
  pod \<^verbatim>\<open>ns.other\<close> with a pause container, as libpod would hold them.
\<close>

definition exampleRuntime :: libpodRuntime where
  "exampleRuntime =
     \<lparr>rt_base = NewBaseRuntime ''/data'' 0 0 ''podman'' [] ''linux'' [] ''amd64'' [],
      rt_pauseImage = ''pause'', rt_pauseCommand = [''/pause''], rt_abbotSubCmd = [], rt_ctxCancelled = True\<rparr>"

definition mkCtr :: "string \<Rightarrow> string \<Rightarrow> string \<Rightarrow> string \<Rightarrow> string \<Rightarrow> labels \<Rightarrow> ctr" where
  "mkCtr cid name podid uid short extra =
     \<lparr>ctr_ID = cid, ctr_Name = name,
      ctr_Labels = [(ContainerLabelPodUID, uid), (ContainerLabelPodContainer, short),
        (ContainerLabelPodContainerRole, if short = ContainerNamePause then ContainerRoleInfra else ContainerRoleWork)] @ extra,
      ctr_Pod = podid, ctr_Command = [], ctr_LogPath = ''/log''\<rparr>"

definition mkPod :: "string \<Rightarrow> string \<Rightarrow> string \<Rightarrow> pod" where
  "mkPod pid name uid = \<lparr>pod_ID = pid, pod_Name = name, pod_Labels = [(ContainerLabelPodUID, uid)]\<rparr>"

definition examplePause :: ctr where
  "examplePause = mkCtr ''c1'' ''ns.pod._pause'' ''p1'' ''u1'' ContainerNamePause [(ContainerLabelHostNetwork, ''true'')]"

definition exampleWeb :: ctr where
  "exampleWeb = mkCtr ''c2'' ''ns.pod.web'' ''p1'' ''u1'' ''web'' [(ContainerLabelHostNetwork, ''true'')]"

definition otherPause :: ctr where
  "otherPause = mkCtr ''c3'' ''ns.other._pause'' ''p2'' ''u2'' ContainerNamePause []"

definition examplePod :: pod where
  "examplePod = mkPod ''p1'' ''ns.pod'' ''u1''"

definition otherPod :: pod where
  "otherPod = mkPod ''p2'' ''ns.other'' ''u2''"

definition withCtrs :: "ctr list \<Rightarrow> pod list \<Rightarrow> store" where
  "withCtrs cs ps =
     emptyStore\<lparr>sto_ctrs := map (\<lambda>c. \<lparr>ci_ctr = c, ci_state = ContainerStateRunning, ci_exit = (0, False)\<rparr>) cs,
                sto_pods := ps, sto_next := 10, sto_images := [(''pause'', \<lparr>img_ID = ''i1'', img_Tag = ''pause'', img_Config = None\<rparr>),
                  (''nginx'', \<lparr>img_ID = ''i2'', img_Tag = ''nginx'', img_Config = None\<rparr>)]\<rparr>"

definition exampleWorld :: store where
  "exampleWorld = withCtrs [examplePause, exampleWeb, otherPause] [examplePod, otherPod]"

section \<open>Branches of deletion\<close>

lemma deleteContainer_labelled:
  assumes "map_of (ctr_Labels c) ContainerLabelPodUID = Some u"
  shows "deleteContainer lp (Some c) = (if IsAbbotPod (ctr_Labels c) then denyAbbotDeletion lp else ret ())"
proof -
  have "andThen m (\<lambda>_. ret ()) = m" for m :: "('a, unit) act"
    by (rule ext) (simp add: andThen_def split: outcome.splits prod.splits)
  with assms show ?thesis by (simp add: deleteContainer_def Let_def)
qed

text \<open>What a successful deletion of a labelled pod went through.\<close>

lemma deletePod_labelled_OkE:
  assumes "deletePod lp r p w = (Ok (), w')" and "map_of (pod_Labels p) ContainerLabelPodUID = Some u"
  obtains c w1 w2 w3 w4 where
    "findContainer lp u ContainerNamePause w = (Ok c, w1)"
    "ignore (lp_Sync lp c) w1 = (Ok (), w2)"
    "(if \<not> IsHostNetwork (ctr_Labels c)
      then andThen (pidOf lp c) (\<lambda>pid. network_Delete (handleAbbotExec lp r) pid (ctr_ID c)) else ret ()) w2 = (Ok (), w3)"
    "(if IsAbbotPod (ctr_Labels c) then denyAbbotDeletion lp else ret ()) w3 = (Ok (), w4)"
    "lp_RemovePod lp p True True w4 = (Ok (), w')"
  using assms by (auto simp: deletePod_def Let_def elim!: andThen_OkE)

context libpod_api
begin

lemma denyAbbotDeletion_Ok:
  assumes "denyAbbotDeletion lp w = (Ok (), w')" and "d \<in> ctrs w"
    and "filterLabels [(ContainerLabelPodContainerRole, ContainerRoleInfra)] (ctr_Labels d)"
  shows "IsHostNetwork (ctr_Labels d)"
proof -
  from assms(1) obtain cs where "listPauseContainers lp w = (Ok cs, w')"
    and all: "\<forall>c\<in>set cs. IsHostNetwork (ctr_Labels c)"
    by (auto simp: denyAbbotDeletion_def list_ex_iff elim!: andThen_OkE split: if_splits)
  then have "d \<in> set cs"
    using GetContainers_Ok assms(2,3)
    unfolding listPauseContainers_def listContainersByLabels_def containerLabelFilterFunc_def by blast
  with all show ?thesis by blast
qed

lemma deletePod_abbot:
  assumes d: "deletePod lp r p w = (Ok (), w')" and l: "map_of (pod_Labels p) ContainerLabelPodUID = Some u"
    and a: "\<And>c. c \<in> ctrs w \<Longrightarrow>
          filterLabels [(ContainerLabelPodUID, u), (ContainerLabelPodContainer, ContainerNamePause)] (ctr_Labels c)
          \<Longrightarrow> IsAbbotPod (ctr_Labels c)"
    and c: "d \<in> ctrs w" "filterLabels [(ContainerLabelPodContainerRole, ContainerRoleInfra)] (ctr_Labels d)"
  shows "IsHostNetwork (ctr_Labels d)"
  using d l
proof (rule deletePod_labelled_OkE)
  fix c w1 w2 w3 w4
  assume f: "findContainer lp u ContainerNamePause w = (Ok c, w1)"
    and s: "ignore (lp_Sync lp c) w1 = (Ok (), w2)"
    and n: "(if \<not> IsHostNetwork (ctr_Labels c)
      then andThen (pidOf lp c) (\<lambda>pid. network_Delete (handleAbbotExec lp r) pid (ctr_ID c)) else ret ()) w2 = (Ok (), w3)"
    and dn: "(if IsAbbotPod (ctr_Labels c) then denyAbbotDeletion lp else ret ()) w3 = (Ok (), w4)"
  have ab: "IsAbbotPod (ctr_Labels c)"
    using a [OF findContainer_registered [OF f]] findContainerByLabels_match [OF f [unfolded findContainer_def]] by blast
  then have "w3 = w2" using n by (simp add: IsAbbotPod_IsHostNetwork)
  moreover have "same_regs ctrs pods w w1" using keeps_findContainer f by (rule keepsD)
  moreover have "same_regs ctrs pods w1 w2" using sr.keeps_ignore [OF quiet(10)] s by (rule keepsD)
  ultimately have "d \<in> ctrs w3" using c(1) by (simp add: same_regs_def)
  with dn ab c(2) denyAbbotDeletion_Ok show ?thesis by simp
qed

text \<open>The only registered container with a pod UID and a name is the one found.\<close>

lemma findContainer_single:
  assumes "lp_AllContainers lp w = (Ok cs, w')"
    and "{c \<in> ctrs w. filterLabels [(ContainerLabelPodUID, u), (ContainerLabelPodContainer, n)] (ctr_Labels c)} = {c}"
  shows "findContainer lp u n w = (Ok c, w')"
proof -
  let ?f = "containerLabelFilterFunc [(ContainerLabelPodUID, u), (ContainerLabelPodContainer, n)]"
  have g: "GetContainers lp ?f w = (Ok (filter ?f cs), w')"
    using assms(1) by (simp add: GetContainers_def act_eval)
  have "set (filter ?f cs) = {c}" and "distinct (filter ?f cs)"
    using GetContainers_Ok [OF g] assms(2) by (simp_all add: containerLabelFilterFunc_def)
  then have "filter ?f cs = [c]"
    by (rule distinct_singleton)
  with g show ?thesis
    by (simp add: findContainer_def findContainerByLabels_def listContainersByLabels_def act_eval)
qed

lemma findContainer_none:
  assumes "\<forall>c\<in>ctrs w. \<not> filterLabels [(ContainerLabelPodUID, u), (ContainerLabelPodContainer, n)] (ctr_Labels c)"
  shows "findContainer lp u n w \<noteq> (Ok c, w')"
proof
  assume f: "findContainer lp u n w = (Ok c, w')"
  show False
    using assms findContainer_registered [OF f] findContainerByLabels_match [OF f [unfolded findContainer_def]] by blast
qed

lemma deletePod_without_pause:
  assumes "map_of (pod_Labels p) ContainerLabelPodUID = Some u"
    and "\<forall>c\<in>ctrs w. \<not> filterLabels [(ContainerLabelPodUID, u), (ContainerLabelPodContainer, ContainerNamePause)] (ctr_Labels c)"
  shows "fst (deletePod lp r p w) \<noteq> Ok () \<and> same_regs ctrs pods w (snd (deletePod lp r p w))"
proof -
  obtain x w1 where f: "findContainer lp u ContainerNamePause w = (x, w1)" by fastforce
  with findContainer_none [OF assms(2)] have x: "x \<noteq> Ok c" for c by blast
  have "same_regs ctrs pods w w1" using keeps_findContainer f by (rule keepsD)
  with f x assms(1) show ?thesis by (cases x) (auto simp: deletePod_def andThen_def)
qed

end

section \<open>Properties\<close>

text \<open>A successful \<^verbatim>\<open>deletePod\<close> removes the pod and all its containers from libpod and
  nothing else.\<close>

theorem delete_pod_removes_exactly:
  assumes "libpod_api lp ctrs pods" and "deletePod lp r p w = (Ok (), w')"
  shows "pods w' = {q \<in> pods w. pod_ID q \<noteq> pod_ID p} \<and> ctrs w' = {c \<in> ctrs w. ctr_Pod c \<noteq> pod_ID p}"
  by (rule libpod_api.deletePod_Ok [OF assms])

text \<open>Witness: deleting the example pod leaves the other pod and its container.\<close>

theorem delete_pod_removes_exactly_witness:
  "sto_pod_set (snd (deletePod goodEngine exampleRuntime examplePod exampleWorld)) = {otherPod}
   \<and> sto_ctr_set (snd (deletePod goodEngine exampleRuntime examplePod exampleWorld)) = {otherPause}"
proof -
  let ?w = "withCtrs [otherPause] [otherPod]"
  have "deletePod goodEngine exampleRuntime examplePod exampleWorld = (Ok (), ?w)" by code_simp
  with delete_pod_removes_exactly [OF sto.libpod_api_axioms this]
  show ?thesis
    by (auto simp: exampleWorld_def withCtrs_def sto_pod_set_def sto_ctr_set_def examplePod_def otherPod_def mkPod_def
        examplePause_def exampleWeb_def otherPause_def mkCtr_def)
qed

text \<open>C33: abbot is protected: when the pod of abbot is deleted successfully, every registered
  infrastructure container belongs to a host network pod, so no cluster network pod loses abbot.\<close>

theorem abbot_pod_deletion_guard:
  assumes "libpod_api lp ctrs pods"
    and "deletePod lp r p w = (Ok (), w')" and "map_of (pod_Labels p) ContainerLabelPodUID = Some u"
    and "\<And>c. c \<in> ctrs w \<Longrightarrow>
          filterLabels [(ContainerLabelPodUID, u), (ContainerLabelPodContainer, ContainerNamePause)] (ctr_Labels c)
          \<Longrightarrow> IsAbbotPod (ctr_Labels c)"
  shows "\<forall>d\<in>ctrs w. gm_str (ctr_Labels d) ContainerLabelPodContainerRole = ContainerRoleInfra
           \<longrightarrow> IsHostNetwork (ctr_Labels d)"
proof (intro ballI impI)
  fix d
  assume d: "d \<in> ctrs w" "gm_str (ctr_Labels d) ContainerLabelPodContainerRole = ContainerRoleInfra"
  then have "ctr_Labels d \<noteq> []" by (auto simp: gm_str_def label_consts)
  with d(2) have "filterLabels [(ContainerLabelPodContainerRole, ContainerRoleInfra)] (ctr_Labels d)"
    by (cases "ctr_Labels d") (simp_all add: filterLabels_iff)
  with libpod_api.deletePod_abbot [OF assms(1,2,3)] assms(4) d(1) show "IsHostNetwork (ctr_Labels d)" by blast
qed

text \<open>Witness: an abbot pod alone on the host network is deleted.\<close>

definition abbotPause :: ctr where
  "abbotPause = mkCtr ''c9'' ''ns.abbot._pause'' ''p9'' ''u9'' ContainerNamePause
     [(ContainerLabelHostNetwork, ''true''), (LabelRole, LabelRoleValueAbbot)]"

theorem abbot_pod_deletion_guard_witness:
  "IsHostNetwork (ctr_Labels examplePause)"
proof -
  let ?w = "withCtrs [abbotPause, examplePause] [mkPod ''p9'' ''ns.abbot'' ''u9'', examplePod]"
  have "deletePod goodEngine exampleRuntime (mkPod ''p9'' ''ns.abbot'' ''u9'') ?w = (Ok (), withCtrs [examplePause] [examplePod])"
    by code_simp
  moreover have "map_of (pod_Labels (mkPod ''p9'' ''ns.abbot'' ''u9'')) ContainerLabelPodUID = Some ''u9''"
    by code_simp
  moreover have "IsAbbotPod (ctr_Labels c)"
    if "c \<in> sto_ctr_set ?w"
      and "filterLabels [(ContainerLabelPodUID, ''u9''), (ContainerLabelPodContainer, ContainerNamePause)] (ctr_Labels c)" for c
  proof -
    have "IsAbbotPod (ctr_Labels abbotPause)" by code_simp
    moreover have "\<not> filterLabels [(ContainerLabelPodUID, ''u9''), (ContainerLabelPodContainer, ContainerNamePause)] (ctr_Labels examplePause)"
      by code_simp
    ultimately show ?thesis using that by (auto simp: sto_ctr_set_def withCtrs_def)
  qed
  ultimately have all: "\<forall>d\<in>sto_ctr_set ?w. gm_str (ctr_Labels d) ContainerLabelPodContainerRole = ContainerRoleInfra
      \<longrightarrow> IsHostNetwork (ctr_Labels d)"
    by (rule abbot_pod_deletion_guard [OF sto.libpod_api_axioms])
  have "examplePause \<in> sto_ctr_set ?w" by (simp add: sto_ctr_set_def withCtrs_def)
  moreover have "gm_str (ctr_Labels examplePause) ContainerLabelPodContainerRole = ContainerRoleInfra" by code_simp
  ultimately show ?thesis using all by blast
qed

text \<open>A labelled pod without a pause container cannot be deleted: \<^verbatim>\<open>deletePod\<close> fails on
  it and leaves everything registered. The clean up paths of \<^verbatim>\<open>EnsurePod\<close> and \<^verbatim>\<open>createPauseContainer\<close> call
  \<^verbatim>\<open>deletePod\<close> exactly for such pods.\<close>

theorem delete_pod_needs_pause:
  assumes "libpod_api lp ctrs pods" and "map_of (pod_Labels p) ContainerLabelPodUID = Some u"
    and "\<forall>c\<in>ctrs w. \<not> filterLabels [(ContainerLabelPodUID, u), (ContainerLabelPodContainer, ContainerNamePause)] (ctr_Labels c)"
  shows "fst (deletePod lp r p w) \<noteq> Ok () \<and> ctrs (snd (deletePod lp r p w)) = ctrs w
    \<and> pods (snd (deletePod lp r p w)) = pods w"
  using libpod_api.deletePod_without_pause [OF assms] by (simp add: same_regs_def)

text \<open>Witness: the example pod with only its work container stays.\<close>

theorem delete_pod_needs_pause_witness:
  "sto_pod_set (snd (deletePod goodEngine exampleRuntime examplePod (withCtrs [exampleWeb] [examplePod]))) = {examplePod}"
proof -
  have "\<forall>c\<in>sto_ctr_set (withCtrs [exampleWeb] [examplePod]).
      \<not> filterLabels [(ContainerLabelPodUID, ''u1''), (ContainerLabelPodContainer, ContainerNamePause)] (ctr_Labels c)"
    by code_simp
  moreover have "map_of (pod_Labels examplePod) ContainerLabelPodUID = Some ''u1''" by code_simp
  moreover have "sto_pod_set (withCtrs [exampleWeb] [examplePod]) = {examplePod}"
    by (simp add: withCtrs_def sto_pod_set_def)
  ultimately show ?thesis
    using delete_pod_needs_pause [OF sto.libpod_api_axioms, of examplePod "''u1''"] by blast
qed

text \<open>\<^verbatim>\<open>deleteContainer\<close> does nothing to a container that carries a pod UID label, that is,
  to every container this runtime creates: it reports success (the guard for abbot aside) without stopping or removing
  it.\<close>

theorem delete_container_skips_managed:
  assumes "map_of (ctr_Labels c) ContainerLabelPodUID = Some u" and "\<not> IsAbbotPod (ctr_Labels c)"
  shows "deleteContainer lp (Some c) w = (Ok (), w)"
  using assms by (simp add: deleteContainer_labelled)

text \<open>Witness: the web container of the example pod.\<close>

theorem delete_container_skips_managed_witness:
  "deleteContainer goodEngine (Some exampleWeb) exampleWorld = (Ok (), exampleWorld)"
proof -
  have "map_of (ctr_Labels exampleWeb) ContainerLabelPodUID = Some ''u1''" by code_simp
  moreover have "\<not> IsAbbotPod (ctr_Labels exampleWeb)" by code_simp
  ultimately show ?thesis by (rule delete_container_skips_managed)
qed

text \<open>Abbot cannot tell the requests of the runtime apart: deleting and restoring a
  network, for any process and container, run the same command with the same input, and so do setting up (for any
  request data) and querying.\<close>

theorem abbot_requests_coincide:
  "network_Delete (handleAbbotExec lp r) pid cid = network_Restore (handleAbbotExec lp r) pid' cid'
   \<and> network_Do (handleAbbotExec lp r) req pid cid = network_Query (handleAbbotExec lp r) pid' cid'"
  unfolding network_Delete_def network_Restore_def network_Do_def network_Query_def handleAbbotExec_def
  by blast

text \<open>\<^verbatim>\<open>findPod\<close> is exact: a pod it returns is registered, carries the UID, and is the
  only registered pod the UID filter accepts.\<close>

theorem find_pod_unique:
  assumes "libpod_api lp ctrs pods" and "findPod lp u w = (Ok p, w')"
  shows "{q \<in> pods w. filterLabels [(ContainerLabelPodUID, u)] (pod_Labels q)} = {p}"
  by (rule libpod_api.findPod_only [OF assms])

text \<open>Witness: the example pod is found among two.\<close>

theorem find_pod_unique_witness:
  "{q \<in> sto_pod_set exampleWorld. filterLabels [(ContainerLabelPodUID, ''u1'')] (pod_Labels q)} = {examplePod}"
proof -
  have "findPod goodEngine ''u1'' exampleWorld = (Ok examplePod, exampleWorld)" by code_simp
  then show ?thesis by (rule find_pod_unique [OF sto.libpod_api_axioms])
qed

text \<open>A hook whose command ran is a success whatever its exit code: only an error of
  \<^verbatim>\<open>Exec\<close> itself is reported.\<close>

theorem hook_ignores_exit_code:
  assumes "cmd \<noteq> []"
    and "lp_Exec lp c \<lparr>ec_Command = cmd, ec_Terminal = False, ec_AttachStdin = False, ec_AttachStdout = True,
           ec_AttachStderr = True, ec_Environment = []\<rparr> None w = (Ok res, v)"
    and "er_Err res = None" and "ctx_Done lp v = (Ok False, v')"
  shows "doHookAction lp c (ActionExec cmd) w = (Ok (), v')"
  using assms by (simp add: doHookAction_def execInContainer_def selectErrCh_def act_eval Let_def)

text \<open>Witness: a post start hook that exits with code 3.\<close>

theorem hook_ignores_exit_code_witness:
  "doHookAction goodEngine exampleWeb (ActionExec [''/bin/false''])
     (exampleWorld\<lparr>sto_abbot := \<lparr>er_ExitCode = 3, er_Err = None, er_Stdout = [], er_Stderr = []\<rparr>\<rparr>) =
   (Ok (), exampleWorld\<lparr>sto_abbot := \<lparr>er_ExitCode = 3, er_Err = None, er_Stdout = [], er_Stderr = []\<rparr>\<rparr>)"
  by (rule hook_ignores_exit_code
      [where res = "\<lparr>er_ExitCode = 3, er_Err = None, er_Stdout = [], er_Stderr = []\<rparr>" and
        v = "exampleWorld\<lparr>sto_abbot := \<lparr>er_ExitCode = 3, er_Err = None, er_Stdout = [], er_Stderr = []\<rparr>\<rparr>"])
     (simp_all add: store_engine_def reading_def)

text \<open>After the pod is gone a failed remote volume is not mounted again: when no registered
  container is the pause container of the pod, the storage failure callback changes nothing that \<^verbatim>\<open>Mount\<close> could have
  changed: it ends in the world that the lookup left.\<close>

theorem no_remount_after_pod_gone:
  assumes "lp_AllContainers lp w = (Ok cs, w')"
    and "\<forall>c\<in>set cs. \<not> filterLabels [(ContainerLabelPodUID, u), (ContainerLabelPodContainer, ContainerNamePause)] (ctr_Labels c)"
  shows "handleStorageFailure lp u remotePath mountPoint w = (Ok (), w')"
proof -
  have "filter (containerLabelFilterFunc [(ContainerLabelPodUID, u), (ContainerLabelPodContainer, ContainerNamePause)]) cs = []"
    using assms(2) by (simp add: filter_empty_conv containerLabelFilterFunc_def)
  with assms(1) have "findContainer lp u ContainerNamePause w = (Err ErrNotFound, w')"
    by (simp add: findContainer_def findContainerByLabels_def listContainersByLabels_def GetContainers_def andThen_def)
  then show ?thesis by (simp add: handleStorageFailure_def act_eval)
qed

text \<open>Witness: the pod \<^verbatim>\<open>u7\<close> is not registered in the example world.\<close>

theorem no_remount_after_pod_gone_witness:
  "handleStorageFailure goodEngine ''u7'' ''/remote'' ''/mnt'' exampleWorld = (Ok (), exampleWorld)"
  by (rule no_remount_after_pod_gone [where cs = "[examplePause, exampleWeb, otherPause]"]) code_simp+

end
