(* ===== verification/Create.thy ===== *)
theory Create
  imports Containers
begin

text \<open>
  Creating the pause container and the work containers of a pod:
  \<^verbatim>\<open>createPauseContainer\<close> and \<^verbatim>\<open>createContainer\<close> of \<^verbatim>\<open>pkg/runtime/container.go\<close>, with
  \<^verbatim>\<open>translateRestartPolicy\<close>. The long \<^verbatim>\<open>createContainer\<close> is cut at its own paragraphs: host
  name, mounts, \<^verbatim>\<open>resolv.conf\<close>, health check, user, working directory, command line,
  environment, init system, SELinux options, and the assembled configuration.
\<close>

section \<open>Restart policies\<close>

definition translateRestartPolicy :: "int \<Rightarrow> string" where
  "translateRestartPolicy policy =
     (if policy = RESTART_ALWAYS then ''always''
      else if policy = RESTART_ON_FAILURE then ''on-failure''
      else if policy = RESTART_NEVER then ''no''
      else ''always'')"

section \<open>The pause container\<close>

definition podName :: "podEnsureCmd \<Rightarrow> string" where
  "podName options = pe_Namespace options @ ''.'' @ pe_Name options"

definition podLabels :: "podEnsureCmd \<Rightarrow> labels" where
  "podLabels options =
     gm_del ContainerLabelPodContainerRole
       (gm_del ContainerLabelPodContainer (ContainerLabels options ContainerNamePause))"

definition pauseConfig :: "libpodRuntime \<Rightarrow> podEnsureCmd \<Rightarrow> pod \<Rightarrow> image \<Rightarrow> imageConfig \<Rightarrow> createConfig" where
  "pauseConfig r options p im imageConfig =
     \<lparr>cc_Pod = pod_ID p,
      cc_Tty = False,
      cc_Env = GetEnv (ic_Env imageConfig),
      cc_Entrypoint = rt_pauseCommand r,
      cc_Command = [],
      cc_HealthCheck = None,
      cc_Image = rt_pauseImage r,
      cc_ImageID = img_ID im,
      cc_WorkDir = (if ic_WorkingDir imageConfig \<noteq> [] then ic_WorkingDir imageConfig else ''/''),
      cc_Labels = ContainerLabels options ContainerNamePause,
      cc_Name = GetContainerName (pe_Namespace options) (pe_Name options) ContainerNamePause,
      cc_Systemd = False,
      cc_Init = False,
      cc_Mounts = [],
      cc_RestartPolicy = translateRestartPolicy RESTART_ALWAYS,
      cc_NetMode = (if pe_HostNetwork options then ''host'' else ''none''),
      cc_IpcMode = (if pe_HostIpc options then ''host'' else ''shareable''),
      cc_UtsMode = [],
      cc_Hostname = pe_Name options,
      cc_PidMode = (if pe_HostPid options then ''host'' else []),
      cc_UsernsMode = ''host'',
      cc_User = [],
      cc_HostIDMapping = False,
      cc_Privileged = False,
      cc_CapAdd = [],
      cc_CapDrop = [],
      cc_ReadOnlyRootfs = False,
      cc_NoNewPrivs = False,
      cc_SecurityOpts = [],
      cc_SeccompProfilePath = ''unconfined'',
      cc_Sysctl = []\<rparr>"

text \<open>From the started pause container to the result; a nil network spec cannot be read.\<close>

definition startPauseContainer ::
  "'w engine \<Rightarrow> libpodRuntime \<Rightarrow> podEnsureCmd \<Rightarrow> pod \<Rightarrow> ctr \<Rightarrow> ('w, pod \<times> ctr \<times> string) act" where
  "startPauseContainer lp r options p pauseCtr =
     andThen (lp_Start lp pauseCtr True) (\<lambda>_.
     andThen (lp_ExitCode lp pauseCtr) (\<lambda>(code, exited).
     if exited then throw (ErrNew (''pause container exited with code '' @ FormatInt code))
     else if \<not> pe_HostNetwork options then
       andThen (pidOf lp pauseCtr) (\<lambda>pid.
         case pe_Network options of
           None \<Rightarrow> panic ''nil pointer dereference''
         | Some net \<Rightarrow>
             andThen (network_Do (handleAbbotExec lp r) (net_AbbotRequestBytes net) pid (ctr_ID pauseCtr))
               (\<lambda>abbotRespBytes. ret (p, pauseCtr, abbotRespBytes)))
     else ret (p, pauseCtr, [])))"

definition createPauseContainer ::
  "'w engine \<Rightarrow> libpodRuntime \<Rightarrow> podEnsureCmd \<Rightarrow> ('w, pod \<times> ctr \<times> string) act" where
  "createPauseContainer lp r options =
     andThen (attempt (lp_LookupPod lp (podName options))) (\<lambda>prevPod.
     andThen (case prevPod of Inl _ \<Rightarrow> ret () | Inr prev \<Rightarrow> deletePod lp r prev) (\<lambda>_.
     andThen (if \<not> pe_HostNetwork options
              then wrapErr ''abbot container required but not found'' (andThen (findAbbotContainer lp) (\<lambda>_. ret ()))
              else ret ()) (\<lambda>_.
     andThen (im_NewFromLocal lp (rt_pauseImage r)) (\<lambda>im.
     andThen (getImageConfig lp im) (\<lambda>imageConfig.
     andThen (lp_NewPod lp (podName options) (podLabels options)) (\<lambda>p.
     deferErr
       (andThen (lp_MakeContainerConfig lp (pauseConfig r options p im imageConfig) p) (\<lambda>(runtimeSpec, opts).
        andThen (lp_NewContainer lp runtimeSpec opts) (\<lambda>pauseCtr.
        deferErr (startPauseContainer lp r options p pauseCtr)
          (\<lambda>_. ignore (deletePod lp r p)))))
       (\<lambda>_. ignore (deletePod lp r p))))))))"

section \<open>A work container\<close>

definition resolveHostname :: "podEnsureCmd \<Rightarrow> string" where
  "resolveHostname options =
     (if pe_HostNetwork options then []
      else if pe_Hostname options \<noteq> [] then pe_Hostname options
      else pe_Name options)"

text \<open>
  One turn of the loop over \<^verbatim>\<open>spec.Mounts\<close>: the source is resolved from the host path,
  mounted when remote, and replaced by the written files when the volume carries data.
\<close>

definition ensureMount ::
  "'w engine \<Rightarrow> libpodRuntime \<Rightarrow> podEnsureCmd \<Rightarrow> string \<times> containerMountSpec \<Rightarrow> ('w, mount) act" where
  "ensureMount lp r options entry =
     (let volName = fst entry; volMountSpec = snd entry;
          hostPaths = (case pe_Volumes options of None \<Rightarrow> [] | Some v \<Rightarrow> vol_HostPaths v);
          volumeData = (case pe_Volumes options of None \<Rightarrow> [] | Some v \<Rightarrow> vol_VolumeData v);
          podUid = pe_PodUid options
      in
      andThen
        (case map_of hostPaths volName of
           None \<Rightarrow> ret []
         | Some hostPath \<Rightarrow>
             andThen (ResolveHostPathMountSource lp hostPath podUid volName (ms_Remote volMountSpec)
                        (PodRemoteVolumeDir (rt_base r)) (PodTmpfsVolumeDir (rt_base r))) (\<lambda>source.
             andThen (if ms_Remote volMountSpec then sc_Mount lp hostPath source else ret ()) (\<lambda>_.
             ret source))) (\<lambda>source.
      andThen
        (case map_of volumeData volName of
           Some (Some dataMap) \<Rightarrow>
             (let dir = PodBindVolumeDir (rt_base r) podUid volName in
              andThen (os_MkdirAll lp dir) (\<lambda>_. mountSpec_Ensure lp volMountSpec dir dataMap))
         | _ \<Rightarrow> ret source) (\<lambda>source.
      ret \<lparr>mnt_Type = ''bind'', mnt_Source = source,
           mnt_Destination = path_Join [ms_MountPath volMountSpec, ms_SubPath volMountSpec],
           mnt_Options = ms_Options volMountSpec @ (if ms_ReadOnly volMountSpec then [''ro''] else [])\<rparr>)))"

text \<open>The \<^verbatim>\<open>resolv.conf\<close> mount; file mode \<^verbatim>\<open>0440\<close> is 288.\<close>

definition ensureResolvConf :: "'w engine \<Rightarrow> libpodRuntime \<Rightarrow> podEnsureCmd \<Rightarrow> ('w, mount list) act" where
  "ensureResolvConf lp r options =
     (case pe_Network options of
        None \<Rightarrow> panic ''nil pointer dereference''
      | Some netOpts \<Rightarrow>
          if length (net_Nameservers netOpts) \<noteq> 0 then
            (let resolvConfFile = PodResolvConfFile (rt_base r) (pe_PodUid options) in
             andThen (os_MkdirAll lp (path_Dir resolvConfFile)) (\<lambda>_.
             andThen (os_WriteFile lp resolvConfFile
                        (CreateResolvConf (net_Nameservers netOpts) (net_DnsSearches netOpts) (net_DnsOptions netOpts))
                        288) (\<lambda>_.
             ret [\<lparr>mnt_Type = ''bind'', mnt_Source = resolvConfFile,
                    mnt_Destination = ''/etc/resolv.conf'', mnt_Options = []\<rparr>])))
          else ret [])"

definition resolveHealthCheck :: "containerSpec \<Rightarrow> healthConfig option" where
  "resolveHealthCheck spec =
     (case cs_LivenessCheck spec of
        None \<Rightarrow> None
      | Some probe \<Rightarrow>
          (case pr_Method probe of
             Some (ActionExec cmd) \<Rightarrow>
               Some \<lparr>hc_Test = ''CMD'' # cmd, hc_Interval = pr_ProbeInterval probe,
                     hc_Timeout = pr_ProbeTimeout probe, hc_StartPeriod = pr_InitialDelay probe,
                     hc_Retries = pr_FailureThreshold probe\<rparr>
           | _ \<Rightarrow> None))"

text \<open>User and group ids of \<open>-1\<close> mean unset; an empty result falls back to the image's user.\<close>

definition resolveUser :: "containerSpec \<Rightarrow> imageConfig \<Rightarrow> string" where
  "resolveUser spec imageConfig =
     (let userAndGroup =
        (case cs_Security spec of
           None \<Rightarrow> []
         | Some sec \<Rightarrow>
             (if sec_User sec \<noteq> -1 then FormatInt (sec_User sec) else [])
             @ (if sec_Group sec \<noteq> -1 then '':'' @ FormatInt (sec_Group sec) else []))
      in if userAndGroup = [] then ic_User imageConfig else userAndGroup)"

definition resolveWorkDir :: "containerSpec \<Rightarrow> imageConfig \<Rightarrow> string" where
  "resolveWorkDir spec imageConfig =
     (if cs_WorkingDir spec = [] then
        (if ic_WorkingDir imageConfig \<noteq> [] then ic_WorkingDir imageConfig else ''/'')
      else cs_WorkingDir spec)"

definition useDefaultEntrypoint :: "containerSpec \<Rightarrow> bool" where
  "useDefaultEntrypoint spec \<longleftrightarrow> length (cs_Command spec) = 0"

definition resolveEntrypoint :: "containerSpec \<Rightarrow> imageConfig \<Rightarrow> string list" where
  "resolveEntrypoint spec imageConfig =
     (if useDefaultEntrypoint spec then
        (if length (ic_Entrypoint imageConfig) > 0 then ic_Entrypoint imageConfig else [''/bin/sh'', ''-c''])
      else cs_Command spec)"

definition resolveCommand :: "containerSpec \<Rightarrow> imageConfig \<Rightarrow> string list" where
  "resolveCommand spec imageConfig =
     resolveEntrypoint spec imageConfig
     @ (if length (cs_Args spec) > 0 then cs_Args spec
        else if useDefaultEntrypoint spec then ic_Cmd imageConfig
        else [])"

definition resolveEnv :: "containerSpec \<Rightarrow> imageConfig \<Rightarrow> labels" where
  "resolveEnv spec imageConfig = gm_copy (cs_Envs spec) (GetEnv (ic_Env imageConfig))"

text \<open>The two flags \<^verbatim>\<open>useInit\<close> and \<^verbatim>\<open>useSystemd\<close>; the entry point is never empty here.\<close>

definition initSystem :: "string list \<Rightarrow> bool \<times> bool" where
  "initSystem entrypoint =
     (if entrypoint ! 0 = ''/sbin/init'' \<or> entrypoint ! 0 = ''/usr/sbin/init'' then (True, False)
      else if path_Base (entrypoint ! 0) = ''systemd'' then (False, True)
      else (False, False))"

definition securityOpts :: "containerSpec \<Rightarrow> string list" where
  "securityOpts spec =
     (case (case cs_Security spec of None \<Rightarrow> None | Some sec \<Rightarrow> sec_SelinuxOptions sec) of
        None \<Rightarrow> []
      | Some opts \<Rightarrow>
          (if se_User opts \<noteq> [] then [''user:'' @ se_User opts] else [])
          @ (if se_Type opts \<noteq> [] then [''type:'' @ se_Type opts] else [])
          @ (if se_Level opts \<noteq> [] then [''level:'' @ se_Level opts] else [])
          @ (if se_Role opts \<noteq> [] then [''role:'' @ se_Role opts] else []))"

definition workConfig ::
  "podEnsureCmd \<Rightarrow> pod \<Rightarrow> containerSpec \<Rightarrow> labels \<Rightarrow> mount list \<Rightarrow> image \<Rightarrow> imageConfig \<Rightarrow> createConfig" where
  "workConfig options p spec ns mounts im imageConfig =
     (let entrypoint = resolveEntrypoint spec imageConfig; sec = cs_Security spec in
     \<lparr>cc_Pod = pod_ID p,
      cc_Tty = cs_Tty spec,
      cc_Env = resolveEnv spec imageConfig,
      cc_Entrypoint = entrypoint,
      cc_Command = resolveCommand spec imageConfig,
      cc_HealthCheck = resolveHealthCheck spec,
      cc_Image = cs_Image spec,
      cc_ImageID = img_ID im,
      cc_WorkDir = resolveWorkDir spec imageConfig,
      cc_Labels = ContainerLabels options (cs_Name spec),
      cc_Name = GetContainerName (pe_Namespace options) (pe_Name options) (cs_Name spec),
      cc_Systemd = snd (initSystem entrypoint),
      cc_Init = fst (initSystem entrypoint),
      cc_Mounts = mounts,
      cc_RestartPolicy = translateRestartPolicy (pe_RestartPolicy options),
      cc_NetMode = gm_str ns ''net'',
      cc_IpcMode = gm_str ns ''ipc'',
      cc_UtsMode = gm_str ns ''uts'',
      cc_Hostname = resolveHostname options,
      cc_PidMode = gm_str ns ''pid'',
      cc_UsernsMode = ''host'',
      cc_User = resolveUser spec imageConfig,
      cc_HostIDMapping = True,
      cc_Privileged = (case sec of None \<Rightarrow> False | Some s \<Rightarrow> sec_Privileged s),
      cc_CapAdd = (case sec of None \<Rightarrow> [] | Some s \<Rightarrow> sec_CapsAdd s),
      cc_CapDrop = (case sec of None \<Rightarrow> [] | Some s \<Rightarrow> sec_CapsDrop s),
      cc_ReadOnlyRootfs = (case sec of None \<Rightarrow> False | Some s \<Rightarrow> sec_ReadOnlyRootfs s),
      cc_NoNewPrivs = \<not> (case sec of None \<Rightarrow> False | Some s \<Rightarrow> sec_AllowNewPrivileges s),
      cc_SecurityOpts = securityOpts spec,
      cc_SeccompProfilePath = ''unconfined'',
      cc_Sysctl = pe_Sysctls options\<rparr>)"

text \<open>The end of \<^verbatim>\<open>createContainer\<close>: the configuration becomes a specification with options, and the container is created.\<close>

definition newWorkContainer :: "'w engine \<Rightarrow> createConfig \<Rightarrow> pod \<Rightarrow> containerSpec \<Rightarrow> ('w, ctr) act" where
  "newWorkContainer lp config p spec =
     andThen (lp_MakeContainerConfig lp config p) (\<lambda>(runtimeSpec, opts).
     lp_NewContainer lp runtimeSpec (if cs_Stdin spec then opts @ [''WithStdin''] else opts))"

definition createContainer ::
  "'w engine \<Rightarrow> libpodRuntime \<Rightarrow> podEnsureCmd \<Rightarrow> pod \<Rightarrow> containerSpec \<Rightarrow> labels \<Rightarrow> ('w, ctr) act" where
  "createContainer lp r options p spec ns =
     andThen (forEach (cs_Mounts spec) (ensureMount lp r options)) (\<lambda>mounts.
     andThen (ensureResolvConf lp r options) (\<lambda>resolvMounts.
     andThen (im_NewFromLocal lp (cs_Image spec)) (\<lambda>im.
     andThen (getImageConfig lp im) (\<lambda>imageConfig.
     newWorkContainer lp (workConfig options p spec ns (mounts @ resolvMounts) im imageConfig) p spec))))"

section \<open>Facts about the assembled configuration\<close>

lemma resolveEntrypoint_nonempty: "resolveEntrypoint spec imageConfig \<noteq> []"
  by (auto simp: resolveEntrypoint_def useDefaultEntrypoint_def)

lemma resolveWorkDir_nonempty: "resolveWorkDir spec imageConfig \<noteq> []"
  by (auto simp: resolveWorkDir_def)

lemma map_of_podLabels:
  "map_of (podLabels options) =
   (map_of (ContainerLabels options ContainerNamePause))
     (ContainerLabelPodContainer := None, ContainerLabelPodContainerRole := None)"
  by (simp add: podLabels_def gm.look_del)

lemma podLabels_uid:
  "gm_wf (pe_Labels options) \<Longrightarrow> map_of (podLabels options) ContainerLabelPodUID = Some (pe_PodUid options)"
  unfolding map_of_podLabels using ContainerLabels_reserved(1) [of options ContainerNamePause]
  by (simp add: label_consts)

lemma workConfig_labels [simp]:
  "cc_Labels (workConfig options p spec ns ms im ic) = ContainerLabels options (cs_Name spec)"
  "cc_Pod (workConfig options p spec ns ms im ic) = pod_ID p"
  "cc_Name (workConfig options p spec ns ms im ic) =
     GetContainerName (pe_Namespace options) (pe_Name options) (cs_Name spec)"
  by (simp_all add: workConfig_def Let_def)

lemma pauseConfig_labels [simp]:
  "cc_Labels (pauseConfig r options p im ic) = ContainerLabels options ContainerNamePause"
  "cc_Pod (pauseConfig r options p im ic) = pod_ID p"
  "cc_Name (pauseConfig r options p im ic) =
     GetContainerName (pe_Namespace options) (pe_Name options) ContainerNamePause"
  by (simp_all add: pauseConfig_def)

context libpod_api
begin

lemma keeps_ensureMount: "keeps (same_regs ctrs pods) (ensureMount lp r options entry)"
  unfolding ensureMount_def Let_def
  by (auto split: option.splits
      intro!: quiet_rules keeps_ResolveHostPathMountSource keeps_mountSpec_Ensure)

lemma keeps_ensureResolvConf: "keeps (same_regs ctrs pods) (ensureResolvConf lp r options)"
  unfolding ensureResolvConf_def Let_def by (auto split: option.splits intro!: quiet_rules)

text \<open>Everything before the last call of \<open>createContainer\<close> leaves the registered sets alone.\<close>

lemma createContainer_OkE:
  assumes "createContainer lp r options p spec ns w = (Ok c, w')"
  obtains cc opts v where "same_regs ctrs pods w v" "lp_NewContainer lp cc opts v = (Ok c, w')"
    "cc_Labels cc = ContainerLabels options (cs_Name spec)" "cc_Pod cc = pod_ID p"
    "cc_Name cc = GetContainerName (pe_Namespace options) (pe_Name options) (cs_Name spec)"
proof -
  from assms obtain ms w1 rs w2 im w3 ic w4 cc opts w5 where
    m: "forEach (cs_Mounts spec) (ensureMount lp r options) w = (Ok ms, w1)"
    and rc: "ensureResolvConf lp r options w1 = (Ok rs, w2)"
    and i: "im_NewFromLocal lp (cs_Image spec) w2 = (Ok im, w3)"
    and g: "getImageConfig lp im w3 = (Ok ic, w4)"
    and mk: "lp_MakeContainerConfig lp (workConfig options p spec ns (ms @ rs) im ic) p w4 = (Ok (cc, opts), w5)"
    and nc: "lp_NewContainer lp cc (if cs_Stdin spec then opts @ [''WithStdin''] else opts) w5 = (Ok c, w')"
    by (auto simp: createContainer_def newWorkContainer_def elim!: andThen_OkE)
  have "keeps (same_regs ctrs pods) (forEach (cs_Mounts spec) (ensureMount lp r options))"
    by (intro sr.keeps_forEach keeps_ensureMount)
  then have "same_regs ctrs pods w w1" using m by (rule keepsD)
  moreover have "same_regs ctrs pods w1 w2" using keeps_ensureResolvConf rc by (rule keepsD)
  moreover have "same_regs ctrs pods w2 w3" by (rule keepsD [OF quiet(18) i])
  moreover have "same_regs ctrs pods w3 w4" using keeps_getImageConfig g by (rule keepsD)
  moreover have "same_regs ctrs pods w4 w5" by (rule keepsD [OF quiet(5) mk])
  ultimately have "same_regs ctrs pods w w5" by (simp add: same_regs_def)
  then show thesis using nc make_config [OF mk] that by simp
qed

text \<open>
  A created container carries the labels of its pod and name, belongs to the pod, and
  is the only change to what is registered.
\<close>

lemma createContainer_Ok:
  assumes "createContainer lp r options p spec ns w = (Ok c, w')"
  shows "ctrs w' = insert c (ctrs w) \<and> pods w' = pods w
    \<and> ctr_Labels c = ContainerLabels options (cs_Name spec) \<and> ctr_Pod c = pod_ID p
    \<and> ctr_Name c = GetContainerName (pe_Namespace options) (pe_Name options) (cs_Name spec)
    \<and> (\<forall>d\<in>ctrs w. ctr_ID d \<noteq> ctr_ID c)"
  using assms by (rule createContainer_OkE) (use new_ctr in \<open>simp add: same_regs_def\<close>)

end

text \<open>The source of a mount, by the kind of its volume.\<close>

lemma ensureMount_source:
  assumes "ensureMount lp r options (vol, spec) w = (Ok m, w')" and "pe_Volumes options = Some vols"
  shows "case map_of (vol_VolumeData vols) vol of
      Some (Some dm) \<Rightarrow>
        mnt_Source m = (let dir = PodBindVolumeDir (rt_base r) (pe_PodUid options) vol in
                        if ms_SubPath spec = [] then dir else path_Join [dir, ms_SubPath spec])
    | _ \<Rightarrow>
        (case map_of (vol_HostPaths vols) vol of
           None \<Rightarrow> mnt_Source m = []
         | Some hp \<Rightarrow>
             mnt_Source m = (if hp = [] then PodTmpfsVolumeDir (rt_base r) (pe_PodUid options) vol
                             else if ms_Remote spec then PodRemoteVolumeDir (rt_base r) (pe_PodUid options) vol
                             else hp))"
  using assms
  by (auto simp: ensureMount_def Let_def elim!: andThen_OkE dest!: ResolveHostPathMountSource_Ok mountSpec_Ensure_Ok
      split: option.splits)

context libpod_unique_names
begin

lemma createContainer_name_taken:
  assumes "d \<in> ctrs w" and "ctr_Name d = GetContainerName (pe_Namespace options) (pe_Name options) (cs_Name spec)"
  shows "createContainer lp r options p spec ns w \<noteq> (Ok c, w')"
proof
  assume "createContainer lp r options p spec ns w = (Ok c, w')"
  then show False
    by (rule createContainer_OkE) (use name_taken assms in \<open>simp add: same_regs_def\<close>)
qed

end

section \<open>Properties\<close>

text \<open>C37: round trip between creating and finding a container: right after a successful
  \<^verbatim>\<open>createContainer\<close> for a name the pod did not have, looking the container up by pod UID and name returns the created
  one.\<close>

theorem created_container_is_found:
  assumes "libpod_api lp ctrs pods" and "gm_wf (pe_Labels options)"
    and "createContainer lp r options p spec ns w = (Ok c, w')"
    and "\<forall>d\<in>ctrs w. \<not> filterLabels [(ContainerLabelPodUID, pe_PodUid options),
           (ContainerLabelPodContainer, cs_Name spec)] (ctr_Labels d)"
    and "lp_AllContainers lp w' = (Ok cs, w'')"
  shows "findContainer lp (pe_PodUid options) (cs_Name spec) w' = (Ok c, w'')"
proof -
  have "ctrs w' = insert c (ctrs w)" and "ctr_Labels c = ContainerLabels options (cs_Name spec)"
    using libpod_api.createContainer_Ok [OF assms(1,3)] by auto
  then have "{d \<in> ctrs w'. filterLabels [(ContainerLabelPodUID, pe_PodUid options),
      (ContainerLabelPodContainer, cs_Name spec)] (ctr_Labels d)} = {c}"
    using assms(4) by (auto simp: filter_uid_name_ContainerLabels [OF assms(2)])
  with assms(5) show ?thesis by (rule libpod_api.findContainer_single [OF assms(1)])
qed

text \<open>Witness: the web container created into an otherwise empty pod.\<close>

definition createdWeb :: "ctr \<times> store" where
  "createdWeb =
     (case createContainer goodEngine exampleRuntime exampleCmd examplePod exampleSpec
             (SharedNamespaces ''c1'' exampleCmd) (withCtrs [examplePause] [examplePod]) of
        (Ok c, w) \<Rightarrow> (c, w) | (_, w) \<Rightarrow> (examplePause, w))"

theorem created_container_is_found_witness:
  "findContainer goodEngine ''u1'' ''web'' (snd createdWeb) = (Ok (fst createdWeb), snd createdWeb)"
proof -
  have "createContainer goodEngine exampleRuntime exampleCmd examplePod exampleSpec
      (SharedNamespaces ''c1'' exampleCmd) (withCtrs [examplePause] [examplePod]) = (Ok (fst createdWeb), snd createdWeb)"
    by code_simp
  moreover have "\<forall>d\<in>sto_ctr_set (withCtrs [examplePause] [examplePod]).
      \<not> filterLabels [(ContainerLabelPodUID, pe_PodUid exampleCmd), (ContainerLabelPodContainer, cs_Name exampleSpec)] (ctr_Labels d)"
    by code_simp
  moreover have "lp_AllContainers goodEngine (snd createdWeb) = (Ok [examplePause, fst createdWeb], snd createdWeb)"
    by code_simp
  ultimately have "findContainer goodEngine (pe_PodUid exampleCmd) (cs_Name exampleSpec) (snd createdWeb)
      = (Ok (fst createdWeb), snd createdWeb)"
    by (rule created_container_is_found [OF sto.libpod_api_axioms example_labels_wf])
  then show ?thesis by (simp add: exampleCmd_def exampleSpec_def)
qed

text \<open>The environment of a work container: a variable of the pod spec wins over the image's;
  variables only the image has are kept.\<close>

theorem container_env_override:
  assumes "gm_wf (cs_Envs spec)"
  shows "map_of (cc_Env (workConfig options p spec ns ms im ic)) k =
    (case map_of (cs_Envs spec) k of Some v \<Rightarrow> Some v | None \<Rightarrow> map_of (GetEnv (ic_Env ic)) k)"
  using assms by (simp add: workConfig_def Let_def resolveEnv_def map_of_gm_copy map_add_def)

text \<open>Witness: \<^verbatim>\<open>A\<close> from the spec, \<^verbatim>\<open>PATH\<close> from the image.\<close>

theorem container_env_override_witness:
  "map_of (cc_Env (workConfig exampleCmd examplePod exampleSpec [] [] \<lparr>img_ID = [], img_Tag = [], img_Config = None\<rparr>
     (emptyImageConfig\<lparr>ic_Env := [''A=0'', ''PATH=/bin'']\<rparr>))) ''A'' = Some ''1''"
  using container_env_override [of exampleSpec exampleCmd examplePod "[]" "[]" "\<lparr>img_ID = [], img_Tag = [], img_Config = None\<rparr>"
    "emptyImageConfig\<lparr>ic_Env := [''A=0'', ''PATH=/bin'']\<rparr>" "''A''"]
  by (simp add: exampleSpec_def gm_wf_def)

text \<open>The process a work container runs is well defined: the working directory and the entry
  point are never empty, the command line starts with the entry point, an explicit command without arguments runs
  alone (the image's default arguments are not added), and arguments of the spec replace the image's.\<close>

theorem container_command_line:
  "let cc = workConfig options p spec ns ms im ic in
     cc_WorkDir cc \<noteq> [] \<and> cc_Entrypoint cc \<noteq> []
     \<and> (\<exists>args. cc_Command cc = cc_Entrypoint cc @ args
          \<and> args = (if cs_Args spec \<noteq> [] then cs_Args spec else if cs_Command spec = [] then ic_Cmd ic else []))"
  by (auto simp: Let_def workConfig_def resolveEntrypoint_nonempty resolveWorkDir_nonempty resolveCommand_def
      useDefaultEntrypoint_def)

text \<open>A pod command without a network section makes \<^verbatim>\<open>createContainer\<close> panic, for host network
  pods too: after the mounts, the name servers of the missing section are read.\<close>

theorem create_container_nil_network:
  assumes "pe_Network options = None" and "forEach (cs_Mounts spec) (ensureMount lp r options) w = (Ok ms, w')"
  shows "createContainer lp r options p spec ns w = (Panic ''nil pointer dereference'', w')"
  using assms by (simp add: createContainer_def newWorkContainer_def ensureResolvConf_def act_eval)

text \<open>Witness: the example command with its network section removed.\<close>

theorem create_container_nil_network_witness:
  "createContainer goodEngine exampleRuntime (exampleCmd\<lparr>pe_Network := None\<rparr>) examplePod exampleSpec [] exampleWorld
   = (Panic ''nil pointer dereference'', exampleWorld)"
  by (rule create_container_nil_network [where ms = "[]"]) (simp_all add: exampleSpec_def)

text \<open>Where a volume mount comes from: the source is the host path the pod command gives for
  a local volume, or lies in the volume directories of the pod itself; a volume that the command neither maps to a host
  path nor gives data for is still mounted, with an empty source.\<close>

theorem mount_source_confined:
  assumes "br_dataDir (rt_base r) = CHR ''/'' # d" and "plain_elem (pe_PodUid options)" and "plain_elem vol"
    and "ms_SubPath spec = [] \<or> plain_elem (ms_SubPath spec)"
    and "pe_Volumes options = Some vols"
    and "ensureMount lp r options (vol, spec) w = (Ok m, w')"
  shows "(map_of (vol_HostPaths vols) vol = Some (mnt_Source m) \<and> mnt_Source m \<noteq> [] \<and> \<not> ms_Remote spec)
    \<or> (\<exists>rest. mnt_Source m = PodDir (rt_base r) (pe_PodUid options) @ ''/volumes/'' @ rest)
    \<or> (mnt_Source m = [] \<and> map_of (vol_HostPaths vols) vol = None \<and> (\<forall>dm. map_of (vol_VolumeData vols) vol \<noteq> Some (Some dm)))"
proof -
  let ?B = "rt_base r" and ?u = "pe_PodUid options"
  note below = podVolumeDir_below [OF assms(1,2) _ assms(3)]
  have fil: "path_Join [PodBindVolumeDir ?B ?u vol, f] = PodDir ?B ?u @ ''/volumes/'' @ ''bind/'' @ vol @ CHR ''/'' # f"
    if "plain_elem f" for f
    using podVolumeDir_file [OF assms(1,2) _ assms(3) that, of "''bind''"] below [of "''bind''"]
    by (simp add: PodBindVolumeDir_def)
  have dirs: "PodRemoteVolumeDir ?B ?u vol = PodDir ?B ?u @ ''/volumes/'' @ ''remote/'' @ vol"
    "PodTmpfsVolumeDir ?B ?u vol = PodDir ?B ?u @ ''/volumes/'' @ ''tmpfs/'' @ vol"
    "PodBindVolumeDir ?B ?u vol = PodDir ?B ?u @ ''/volumes/'' @ ''bind/'' @ vol"
    using below by (simp_all add: PodRemoteVolumeDir_def PodTmpfsVolumeDir_def PodBindVolumeDir_def)
  show ?thesis
    using ensureMount_source [OF assms(6,5)] assms(4) fil dirs
    by (auto simp: Let_def split: option.splits if_splits)
qed

text \<open>Witness: one file of a configuration volume, mounted through its sub path.\<close>

definition exampleMountSpec :: containerMountSpec where
  "exampleMountSpec = \<lparr>ms_MountPath = ''/etc/app'', ms_SubPath = ''a.conf'', ms_ReadOnly = True, ms_Options = [],
     ms_FileMode = 0, ms_Remote = False\<rparr>"

definition exampleVols :: podVolumeSpec where
  "exampleVols = \<lparr>vol_HostPaths = [], vol_VolumeData = [(''cfg'', Some [(''a.conf'', ''x=1'')])]\<rparr>"

theorem mount_source_confined_witness:
  "\<exists>rest. ''/data/pods/u1/volumes/bind/cfg/a.conf'' = PodDir (rt_base exampleRuntime) ''u1'' @ ''/volumes/'' @ rest"
proof -
  let ?o = "exampleCmd\<lparr>pe_Volumes := Some exampleVols\<rparr>"
  let ?m = "\<lparr>mnt_Type = ''bind'', mnt_Source = ''/data/pods/u1/volumes/bind/cfg/a.conf'',
       mnt_Destination = ''/etc/app/a.conf'', mnt_Options = [''ro'']\<rparr>"
  have "ensureMount goodEngine exampleRuntime ?o (''cfg'', exampleMountSpec) emptyStore =
      (Ok ?m, emptyStore\<lparr>sto_dirs := [''/data/pods/u1/volumes/bind/cfg''],
                         sto_files := [(''/data/pods/u1/volumes/bind/cfg/a.conf'', ''x=1'')]\<rparr>)"
    by code_simp
  then have "(map_of (vol_HostPaths exampleVols) ''cfg'' = Some (mnt_Source ?m) \<and> mnt_Source ?m \<noteq> [] \<and> \<not> ms_Remote exampleMountSpec)
    \<or> (\<exists>rest. mnt_Source ?m = PodDir (rt_base exampleRuntime) (pe_PodUid ?o) @ ''/volumes/'' @ rest)
    \<or> (mnt_Source ?m = [] \<and> map_of (vol_HostPaths exampleVols) ''cfg'' = None
        \<and> (\<forall>dm. map_of (vol_VolumeData exampleVols) ''cfg'' \<noteq> Some (Some dm)))"
    by (rule mount_source_confined [where d = "''data''", rotated 5])
       (simp_all add: exampleRuntime_def NewBaseRuntime_def exampleCmd_def plain_elem_def exampleMountSpec_def)
  then show ?thesis by (simp add: exampleVols_def exampleCmd_def)
qed

end
