(* ===== verification/Status.thy ===== *)
theory Status
  imports Create
begin

text \<open>
  \<^verbatim>\<open>translatePodStatus\<close> and \<^verbatim>\<open>translateContainerStatus\<close> of \<^verbatim>\<open>pkg/runtime/translate.go\<close>: the
  status message of a pod is built from the containers that carry the pod's UID.
\<close>

definition statusReason :: "inspectData \<Rightarrow> string" where
  "statusReason info =
     (if in_Restarting info then ''Restarting''
      else if in_Dead info then ''Dead''
      else if in_OOMKilled info then ''OutOfMemoryKilled''
      else if in_Running info then ''Running''
      else if in_Paused info then ''Paused''
      else [])"

definition translateContainerStatus :: "'w engine \<Rightarrow> ctr \<Rightarrow> ('w, containerStatus) act" where
  "translateContainerStatus lp c =
     andThen (lp_Inspect lp c) (\<lambda>info.
       ret \<lparr>st_ContainerId = in_ID info, st_ImageId = in_Image info,
            st_CreatedAt = time_Format lp (in_Created info),
            st_StartedAt = time_Format lp (in_StartedAt info),
            st_FinishedAt = time_Format lp (in_FinishedAt info),
            st_ExitCode = in_ExitCode info, st_RestartCount = in_RestartCount info,
            st_Message = in_Error info, st_Reason = statusReason info\<rparr>)"

fun translate_loop ::
  "'w engine \<Rightarrow> string \<Rightarrow> ctr list \<Rightarrow> (string, containerStatus) gomap \<Rightarrow> ('w, (string, containerStatus) gomap) act" where
  "translate_loop lp podUID [] ctrStatus = ret ctrStatus"
| "translate_loop lp podUID (c # containers) ctrStatus =
     (let labels = ctr_Labels c;
          ctrPodUID = gm_str labels ContainerLabelPodUID;
          name = gm_str labels ContainerLabelPodContainer
      in if name = [] \<or> ctrPodUID \<noteq> podUID then translate_loop lp podUID containers ctrStatus
         else andThen (translateContainerStatus lp c) (\<lambda>status.
              translate_loop lp podUID containers (gm_put name status ctrStatus)))"

definition translatePodStatus :: "'w engine \<Rightarrow> string \<Rightarrow> ctr \<Rightarrow> ctr list \<Rightarrow> ('w, podStatusMsg) act" where
  "translatePodStatus lp abbotRespBytes pauseCtr containers =
     (let podUID = gm_str (ctr_Labels pauseCtr) ContainerLabelPodUID in
      andThen (translate_loop lp podUID containers []) (\<lambda>ctrStatus.
        ret (NewPodStatusMsg podUID abbotRespBytes ctrStatus)))"

text \<open>The names that a status message reports: those of the pod's own named containers.\<close>

definition reported :: "string \<Rightarrow> ctr list \<Rightarrow> string set" where
  "reported podUID containers =
     {gm_str (ctr_Labels c) ContainerLabelPodContainer | c. c \<in> set containers
        \<and> gm_str (ctr_Labels c) ContainerLabelPodUID = podUID
        \<and> gm_str (ctr_Labels c) ContainerLabelPodContainer \<noteq> []}"

lemma translate_loop_dom:
  "translate_loop lp u cs acc w = (Ok m, w') \<Longrightarrow> dom (map_of m) = dom (map_of acc) \<union> reported u cs"
proof (induction cs arbitrary: acc w)
  case Nil
  then show ?case by (simp add: reported_def)
next
  case (Cons c cs)
  let ?n = "gm_str (ctr_Labels c) ContainerLabelPodContainer"
  show ?case
  proof (cases "?n = [] \<or> gm_str (ctr_Labels c) ContainerLabelPodUID \<noteq> u")
    case True
    with Cons.prems have "dom (map_of m) = dom (map_of acc) \<union> reported u cs"
      by (intro Cons.IH) (auto simp: Let_def)
    with True show ?thesis by (auto simp: reported_def)
  next
    case False
    with Cons.prems obtain st v where "translate_loop lp u cs (gm_put ?n st acc) v = (Ok m, w')"
      by (auto simp: Let_def elim!: andThen_OkE)
    then have "dom (map_of m) = insert ?n (dom (map_of acc)) \<union> reported u cs"
      using Cons.IH [of "gm_put ?n st acc" v] by simp
    with False show ?thesis by (auto simp: reported_def)
  qed
qed

lemma translatePodStatus_Ok:
  assumes "translatePodStatus lp b pc cs w = (Ok m, w')"
  shows "ps_Uid m = gm_str (ctr_Labels pc) ContainerLabelPodUID \<and> ps_Network m = b
    \<and> dom (map_of (ps_Containers m)) = reported (ps_Uid m) cs"
proof -
  let ?u = "gm_str (ctr_Labels pc) ContainerLabelPodUID"
  from assms obtain a where a: "translate_loop lp ?u cs [] w = (Ok a, w')" and m: "m = NewPodStatusMsg ?u b a"
    by (auto simp: translatePodStatus_def Let_def elim!: andThen_OkE)
  from translate_loop_dom [OF a] m show ?thesis by (simp add: NewPodStatusMsg_def)
qed

context libpod_api
begin

lemma keeps_translateContainerStatus: "keeps (same_regs ctrs pods) (translateContainerStatus lp c)"
  unfolding translateContainerStatus_def by (intro quiet_rules)

lemma keeps_translate_loop: "keeps (same_regs ctrs pods) (translate_loop lp u cs acc)"
  by (induction cs arbitrary: acc)
     (auto simp: Let_def intro!: quiet_rules keeps_translateContainerStatus)

lemma keeps_translatePodStatus: "keeps (same_regs ctrs pods) (translatePodStatus lp b pc cs)"
  unfolding translatePodStatus_def Let_def by (intro quiet_rules keeps_translate_loop)

end

end
