(* ===== verification/PodOps.thy ===== *)
theory PodOps
  imports Status
begin

text \<open>
  \<^verbatim>\<open>pkg/runtime/pod.go\<close>: \<^verbatim>\<open>EnsurePod\<close>, \<^verbatim>\<open>DeletePod\<close> and \<^verbatim>\<open>ListPods\<close>, the operations the
  extension handler calls. Deferred functions run in the reverse order of their
  \<^verbatim>\<open>defer\<close> statements, so the nesting of \<open>deferErr\<close> follows the source.
\<close>

section \<open>EnsurePod\<close>

definition cleanupPodData :: "'w engine \<Rightarrow> libpodRuntime \<Rightarrow> string \<Rightarrow> ('w, unit) act" where
  "cleanupPodData lp r podUid =
     CleanupPodData lp (PodDir (rt_base r) podUid) (PodRemoteVolumeDir (rt_base r) podUid [])
       (PodTmpfsVolumeDir (rt_base r) podUid []) (sc_Unmount lp)"

text \<open>Bringing the pause container up, by its state; an unlisted state prints as \<^verbatim>\<open>bad state\<close>.\<close>

definition resumePause :: "'w engine \<Rightarrow> ctr \<Rightarrow> containerState \<Rightarrow> ('w, unit) act" where
  "resumePause lp pauseCtr state =
     (if state \<in> {ContainerStateConfigured, ContainerStateCreated, ContainerStateStopped, ContainerStateExited}
      then wrapErr ''failed to start pause container'' (lp_Start lp pauseCtr False)
      else if state = ContainerStatePaused
      then wrapErr ''failed to unpause pause container'' (lp_Unpause lp pauseCtr)
      else if state = ContainerStateUnknown then throw (ErrNew ''pause container state unknow'')
      else if state = ContainerStateRemoving then throw (ErrNew ''pause container is to be removed'')
      else if state = ContainerStateRunning then ret ()
      else throw (ErrNew ''invalid container state bad state''))"

text \<open>
  Start, post start hook, and the wait for the exit when the pod is to be waited for; libpod
  returns the exit code \<open>-1\<close> with an error.
\<close>

definition startContainer ::
  "'w engine \<Rightarrow> podEnsureCmd \<Rightarrow> ctr \<times> containerAction option \<Rightarrow> ('w, unit) act" where
  "startContainer lp options entry =
     andThen (wrapErr ''failed to start container'' (lp_Start lp (fst entry) False)) (\<lambda>_.
     andThen (case snd entry of
                None \<Rightarrow> ret ()
              | Some h \<Rightarrow> wrapErr ''failed to execute post start hooks'' (doHookAction lp (fst entry) h)) (\<lambda>_.
     if \<not> pe_Wait options then ret ()
     else andThen (wrapErr ''container exited with error code -1'' (lp_Wait lp (fst entry))) (\<lambda>_. ret ())))"

definition checkExited :: "'w engine \<Rightarrow> podEnsureCmd \<Rightarrow> ctr \<Rightarrow> ('w, unit) act" where
  "checkExited lp options c =
     (if pe_Wait options then ret ()
      else andThen (wrapErr (''failed to check whether container '' @ goQuote (ctr_Name c) @ '' exited'') (lp_ExitCode lp c))
        (\<lambda>(code, exited).
           if exited
           then throw (ErrNew (''container '' @ goQuote (ctr_Name c) @ '' exited with code '' @ FormatInt code @ '': %!w(<nil>)''))
           else ret ()))"

definition ensureContainers ::
  "'w engine \<Rightarrow> libpodRuntime \<Rightarrow> podEnsureCmd \<Rightarrow> pod \<Rightarrow> ctr \<Rightarrow> string \<Rightarrow> ('w, podStatusMsg) act" where
  "ensureContainers lp r options p pauseCtr abbotRespBytes =
     andThen (ignore (lp_Sync lp pauseCtr)) (\<lambda>_.
     andThen (wrapErr ''failed to get pause container state'' (lp_State lp pauseCtr)) (\<lambda>state.
     andThen (resumePause lp pauseCtr state) (\<lambda>_.
     andThen (forEach (pe_Containers options) (\<lambda>spec.
        wrapErr ''failed to create container''
          (createContainer lp r options p spec (SharedNamespaces (ctr_ID pauseCtr) options)))) (\<lambda>ctrList.
     andThen (forEach (zip ctrList (map cs_HookPostStart (pe_Containers options))) (startContainer lp options)) (\<lambda>_.
     andThen (forEach ctrList (checkExited lp options)) (\<lambda>_.
     translatePodStatus lp abbotRespBytes pauseCtr ctrList))))))"

text \<open>The pod, its pause container and abbot's answer: found, or created.\<close>

definition ensureSandbox ::
  "'w engine \<Rightarrow> libpodRuntime \<Rightarrow> podEnsureCmd \<Rightarrow> ('w, pod \<times> ctr \<times> string) act" where
  "ensureSandbox lp r options =
     andThen (attempt (findPod lp (pe_PodUid options))) (\<lambda>found.
       case found of
         Inl err \<Rightarrow>
           if \<not> errors_Is err ErrNotFound then throw (ErrWrap ''failed to look up pod'' err)
           else wrapErr ''failed to create pod for containers'' (createPauseContainer lp r options)
       | Inr p \<Rightarrow>
           andThen (attempt (findContainer lp (pe_PodUid options) ContainerNamePause)) (\<lambda>res.
             case res of
               Inl err \<Rightarrow> andThen (ignore (deletePod lp r p)) (\<lambda>_. throw err)
             | Inr pauseCtr \<Rightarrow> ret (p, pauseCtr, [])))"

definition EnsurePod :: "'w engine \<Rightarrow> libpodRuntime \<Rightarrow> podEnsureCmd \<Rightarrow> ('w, podStatusMsg) act" where
  "EnsurePod lp r options =
     deferErr
       (andThen (ensureSandbox lp r options) (\<lambda>(p, pauseCtr, abbotRespBytes).
          deferErr (ensureContainers lp r options p pauseCtr abbotRespBytes)
            (\<lambda>_. ignore (deletePod lp r p))))
       (\<lambda>_. ignore (cleanupPodData lp r (pe_PodUid options)))"

section \<open>DeletePod\<close>

definition deleteNamedContainer :: "'w engine \<Rightarrow> string \<Rightarrow> string \<Rightarrow> ('w, unit) act" where
  "deleteNamedContainer lp podUid ctrName =
     andThen (attempt (findContainer lp podUid ctrName)) (\<lambda>res.
       case res of
         Inl err \<Rightarrow>
           if \<not> errors_Is err ErrNotFound then throw (ErrWrap ''failed to do container find'' err)
           else wrapErr (''failed to delete container '' @ goQuote ctrName) (deleteContainer lp None)
       | Inr c \<Rightarrow> wrapErr (''failed to delete container '' @ goQuote ctrName) (deleteContainer lp (Some c)))"

definition deletePodContainers ::
  "'w engine \<Rightarrow> podDeleteCmd \<Rightarrow> pod \<Rightarrow> ('w, podStatusMsg) act" where
  "deletePodContainers lp options p =
     andThen (attempt (lp_PodContainers lp p)) (\<lambda>res.
       let cs = (case res of Inl _ \<Rightarrow> [] | Inr cs \<Rightarrow> cs) in
       case find (\<lambda>c. IsPauseContainer (ctr_Labels c)) cs of
         None \<Rightarrow> throw (ErrNew ''no pause container in pod'')
       | Some pauseCtr \<Rightarrow>
           andThen (forEach (pd_Containers options) (deleteNamedContainer lp (pd_PodUid options))) (\<lambda>_.
             translatePodStatus lp [] pauseCtr cs))"

definition DeletePod :: "'w engine \<Rightarrow> libpodRuntime \<Rightarrow> podDeleteCmd \<Rightarrow> ('w, podStatusMsg) act" where
  "DeletePod lp r options =
     deferAlways
       (andThen (wrapErr ''failed to find pod'' (findPod lp (pd_PodUid options))) (\<lambda>p.
          if length (pd_Containers options) = 0
          then andThen (deletePod lp r p) (\<lambda>_. ret (NewPodStatusMsg (pd_PodUid options) [] []))
          else deletePodContainers lp options p))
       (ignore (cleanupPodData lp r (pd_PodUid options)))"

section \<open>ListPods\<close>

definition listFilters :: "podListCmd \<Rightarrow> labels" where
  "listFilters options =
     (if \<not> pl_All options \<and> length (pl_Names options) > 0
      then [(ContainerLabelPodName, pl_Names options ! 0)] else [])"

text \<open>The address of the pod, asked of abbot; an error is only logged.\<close>

definition listNetwork :: "'w engine \<Rightarrow> libpodRuntime \<Rightarrow> ctr \<Rightarrow> ('w, string) act" where
  "listNetwork lp r pauseCtr =
     (if IsHostNetwork (ctr_Labels pauseCtr) then
        andThen (pidOf lp pauseCtr) (\<lambda>pid.
        andThen (attempt (network_Query (handleAbbotExec lp r) pid (ctr_ID pauseCtr)))
          (\<lambda>q. ret (case q of Inl _ \<Rightarrow> [] | Inr resp \<Rightarrow> resp)))
      else ret [])"

text \<open>One turn of the loop: no entry for a pod that is removed, one status for the others.\<close>

definition listPod :: "'w engine \<Rightarrow> libpodRuntime \<Rightarrow> pod \<Rightarrow> ('w, podStatusMsg list) act" where
  "listPod lp r p =
     (case map_of (pod_Labels p) ContainerLabelPodUID of
        None \<Rightarrow> andThen (ignore (deletePod lp r p)) (\<lambda>_. ret [])
      | Some podUID \<Rightarrow>
          andThen (attempt (findContainer lp podUID ContainerNamePause)) (\<lambda>res.
            case res of
              Inl err \<Rightarrow> andThen (lp_RemovePod lp p True True) (\<lambda>_. ret [])
            | Inr pauseCtr \<Rightarrow>
                andThen (ignore (lp_Sync lp pauseCtr)) (\<lambda>_.
                andThen (listNetwork lp r pauseCtr) (\<lambda>abbotRespBytes.
                andThen (wrapErr ''failed to find all containers in pod'' (lp_PodContainers lp p)) (\<lambda>ctrList.
                andThen (wrapErr ''failed to translate pod status''
                           (translatePodStatus lp abbotRespBytes pauseCtr ctrList)) (\<lambda>status.
                ret [status]))))))"

definition ListPods :: "'w engine \<Rightarrow> libpodRuntime \<Rightarrow> podListCmd \<Rightarrow> ('w, podStatusMsg list) act" where
  "ListPods lp r options =
     andThen (Pods lp (podLabelFilterFunc (listFilters options))) (\<lambda>ps.
     andThen (forEach ps (listPod lp r)) (\<lambda>results. ret (concat results)))"

section \<open>Facts about EnsurePod\<close>

lemma podLabels_match:
  assumes "gm_wf (pe_Labels options)"
  shows "filterLabels [(ContainerLabelPodUID, pe_PodUid options)] (podLabels options)"
proof -
  from podLabels_uid [OF assms] have "podLabels options \<noteq> []" by auto
  then have "1 \<le> length (podLabels options)" by (cases "podLabels options") simp_all
  with podLabels_uid [OF assms] show ?thesis by (simp add: filterLabels_iff gm_str_of_Some)
qed

lemma reported_created:
  assumes "gm_wf (pe_Labels options)"
    and "map ctr_Labels cs = map (\<lambda>s. ContainerLabels options (cs_Name s)) specs"
  shows "reported (pe_PodUid options) cs = cs_Name ` set specs - {[]}"
proof -
  have "ctr_Labels ` set cs = (\<lambda>s. ContainerLabels options (cs_Name s)) ` set specs"
    using arg_cong [OF assms(2), of set] by (simp add: image_image)
  moreover have "reported (pe_PodUid options) cs =
      {n. \<exists>l\<in>ctr_Labels ` set cs. n = gm_str l ContainerLabelPodContainer
        \<and> gm_str l ContainerLabelPodUID = pe_PodUid options \<and> gm_str l ContainerLabelPodContainer \<noteq> []}"
    by (auto simp: reported_def)
  ultimately have "reported (pe_PodUid options) cs =
      {n. \<exists>s\<in>set specs. n = gm_str (ContainerLabels options (cs_Name s)) ContainerLabelPodContainer
        \<and> gm_str (ContainerLabels options (cs_Name s)) ContainerLabelPodUID = pe_PodUid options
        \<and> gm_str (ContainerLabels options (cs_Name s)) ContainerLabelPodContainer \<noteq> []}"
    by simp
  then show ?thesis unfolding gm_str_ContainerLabels [OF assms(1)] by auto
qed

context libpod_api
begin

lemma createAll_Ok:
  assumes "forEach specs (\<lambda>spec. wrapErr msg (createContainer lp r options p spec ns)) w = (Ok cs, w')"
  shows "map ctr_Labels cs = map (\<lambda>s. ContainerLabels options (cs_Name s)) specs
    \<and> (\<forall>c\<in>set cs. ctr_Pod c = pod_ID p) \<and> ctrs w' = ctrs w \<union> set cs \<and> pods w' = pods w"
  using assms
proof (induction specs arbitrary: w cs)
  case Nil
  then show ?case by simp
next
  case (Cons s specs)
  from Cons.prems obtain c v cs' where c: "createContainer lp r options p s ns w = (Ok c, v)"
    and rest: "forEach specs (\<lambda>spec. wrapErr msg (createContainer lp r options p spec ns)) v = (Ok cs', w')"
    and cs: "cs = c # cs'"
    by (auto elim!: andThen_OkE dest: wrapErr_OkD)
  from createContainer_Ok [OF c] Cons.IH [OF rest] cs show ?case by auto
qed

lemma keeps_resumePause: "keeps (same_regs ctrs pods) (resumePause lp c st)"
  unfolding resumePause_def by (auto intro!: quiet_rules)

lemma keeps_startContainer: "keeps (same_regs ctrs pods) (startContainer lp options entry)"
  unfolding startContainer_def
  by (auto split: option.splits intro!: quiet_rules keeps_doHookAction)

lemma keeps_checkExited: "keeps (same_regs ctrs pods) (checkExited lp options c)"
  unfolding checkExited_def by (auto split: prod.splits intro!: quiet_rules)

lemma ensureContainers_Ok:
  assumes "ensureContainers lp r options p pc b w = (Ok m, w')" and wf: "gm_wf (pe_Labels options)"
    and uid: "gm_str (ctr_Labels pc) ContainerLabelPodUID = pe_PodUid options"
  shows "ps_Uid m = pe_PodUid options \<and> ps_Network m = b
    \<and> dom (map_of (ps_Containers m)) = cs_Name ` set (pe_Containers options) - {[]}
    \<and> pods w' = pods w \<and> ctrs w \<subseteq> ctrs w'
    \<and> (\<forall>s\<in>set (pe_Containers options). \<exists>c\<in>ctrs w'. ctr_Pod c = pod_ID p
          \<and> ctr_Labels c = ContainerLabels options (cs_Name s))"
proof -
  let ?ns = "SharedNamespaces (ctr_ID pc) options"
  from assms(1) obtain w1 st w2 w3 cs w4 w5 w6 x y where
    s1: "ignore (lp_Sync lp pc) w = (Ok (), w1)" and s2: "wrapErr ''failed to get pause container state'' (lp_State lp pc) w1 = (Ok st, w2)"
    and s3: "resumePause lp pc st w2 = (Ok (), w3)"
    and s4: "forEach (pe_Containers options) (\<lambda>spec. wrapErr ''failed to create container'' (createContainer lp r options p spec ?ns)) w3 = (Ok cs, w4)"
    and s5: "forEach (zip cs (map cs_HookPostStart (pe_Containers options))) (startContainer lp options) w4 = (Ok x, w5)"
    and s6: "forEach cs (checkExited lp options) w5 = (Ok y, w6)"
    and s7: "translatePodStatus lp b pc cs w6 = (Ok m, w')"
    by (auto simp: ensureContainers_def elim!: andThen_OkE)
  have "same_regs ctrs pods w w1" using sr.keeps_ignore [OF quiet(10)] s1 by (rule keepsD)
  moreover have "same_regs ctrs pods w1 w2" using sr.keeps_wrapErr [OF quiet(11)] s2 by (rule keepsD)
  moreover have "same_regs ctrs pods w2 w3" using keeps_resumePause s3 by (rule keepsD)
  ultimately have a: "ctrs w3 = ctrs w" "pods w3 = pods w" by (simp_all add: same_regs_def)
  have "same_regs ctrs pods w4 w5" using sr.keeps_forEach [OF keeps_startContainer] s5 by (rule keepsD)
  moreover have "same_regs ctrs pods w5 w6" using sr.keeps_forEach [OF keeps_checkExited] s6 by (rule keepsD)
  moreover have "same_regs ctrs pods w6 w'" using keeps_translatePodStatus s7 by (rule keepsD)
  ultimately have b: "ctrs w' = ctrs w4" "pods w' = pods w4" by (simp_all add: same_regs_def)
  note created = createAll_Ok [OF s4]
  have "reported (pe_PodUid options) cs = cs_Name ` set (pe_Containers options) - {[]}"
    using reported_created [OF wf] created by blast
  then have st: "ps_Uid m = pe_PodUid options \<and> ps_Network m = b
      \<and> dom (map_of (ps_Containers m)) = cs_Name ` set (pe_Containers options) - {[]}"
    using translatePodStatus_Ok [OF s7] uid by simp
  have "\<exists>c\<in>ctrs w'. ctr_Pod c = pod_ID p \<and> ctr_Labels c = ContainerLabels options (cs_Name s)"
    if s: "s \<in> set (pe_Containers options)" for s
  proof -
    have "ContainerLabels options (cs_Name s) \<in> set (map ctr_Labels cs)" using created s by simp
    then obtain c where "c \<in> set cs" and "ctr_Labels c = ContainerLabels options (cs_Name s)" by auto
    with created b show ?thesis by auto
  qed
  moreover have "pods w' = pods w" and "ctrs w \<subseteq> ctrs w'" using created a b by auto
  ultimately show ?thesis using st by simp
qed

lemma startPauseContainer_Ok:
  assumes "startPauseContainer lp r options p pc w = (Ok (q, c, b), w')"
  shows "q = p \<and> c = pc"
  using assms by (auto simp: startPauseContainer_def elim!: andThen_OkE split: if_splits option.splits)

lemma keeps_startPauseContainer: "keeps (same_regs ctrs pods) (startPauseContainer lp r options p pc)"
  unfolding startPauseContainer_def
  by (auto split: prod.splits option.splits intro!: quiet_rules keeps_pidOf keeps_network)

text \<open>The end of \<open>createPauseContainer\<close>, once the pod exists.\<close>

lemma pauseIntoPod_Ok:
  assumes "deferErr
       (andThen (lp_MakeContainerConfig lp (pauseConfig r options q im ic) q) (\<lambda>(runtimeSpec, opts).
        andThen (lp_NewContainer lp runtimeSpec opts) (\<lambda>pauseCtr.
        deferErr (startPauseContainer lp r options q pauseCtr) (\<lambda>_. d))))
       (\<lambda>_. d') w = (Ok (p, pc, b), w')"
  shows "p = q \<and> pods w' = pods w \<and> ctrs w' = insert pc (ctrs w)
    \<and> ctr_Pod pc = pod_ID p \<and> ctr_Labels pc = ContainerLabels options ContainerNamePause"
proof -
  from deferErr_OkD [OF assms] obtain cc opts w1 c w2 where
    mk: "lp_MakeContainerConfig lp (pauseConfig r options q im ic) q w = (Ok (cc, opts), w1)"
    and nc: "lp_NewContainer lp cc opts w1 = (Ok c, w2)"
    and st: "startPauseContainer lp r options q c w2 = (Ok (p, pc, b), w')"
    by (auto elim!: andThen_OkE dest!: deferErr_OkD)
  have "same_regs ctrs pods w w1" by (rule keepsD [OF quiet(5) mk])
  moreover have "same_regs ctrs pods w2 w'" using keeps_startPauseContainer st by (rule keepsD)
  ultimately show ?thesis
    using new_ctr [OF nc] make_config [OF mk] startPauseContainer_Ok [OF st] by (simp add: same_regs_def)
qed

lemma createPauseContainer_Ok:
  assumes "createPauseContainer lp r options w = (Ok (p, pc, b), w')"
  shows "p \<in> pods w' \<and> pc \<in> ctrs w' \<and> pod_Name p = podName options \<and> pod_Labels p = podLabels options
    \<and> ctr_Pod pc = pod_ID p \<and> ctr_Labels pc = ContainerLabels options ContainerNamePause"
proof -
  from assms obtain im ic w1 q w2 where
    np: "lp_NewPod lp (podName options) (podLabels options) w1 = (Ok q, w2)"
    and rest: "deferErr
       (andThen (lp_MakeContainerConfig lp (pauseConfig r options q im ic) q) (\<lambda>(runtimeSpec, opts).
        andThen (lp_NewContainer lp runtimeSpec opts) (\<lambda>pauseCtr.
        deferErr (startPauseContainer lp r options q pauseCtr) (\<lambda>_. ignore (deletePod lp r q)))))
       (\<lambda>_. ignore (deletePod lp r q)) w2 = (Ok (p, pc, b), w')"
    unfolding createPauseContainer_def by (elim andThen_OkE) blast
  from new_pod [OF np] pauseIntoPod_Ok [OF rest] show ?thesis by auto
qed

lemma ensureSandbox_Ok:
  assumes "ensureSandbox lp r options w = (Ok (p, pc, b), w')" and wf: "gm_wf (pe_Labels options)"
  shows "p \<in> pods w' \<and> filterLabels [(ContainerLabelPodUID, pe_PodUid options)] (pod_Labels p)
    \<and> pc \<in> ctrs w' \<and> gm_str (ctr_Labels pc) ContainerLabelPodUID = pe_PodUid options"
proof -
  from assms(1) obtain f w1 where f: "attempt (findPod lp (pe_PodUid options)) w = (Ok f, w1)"
    and k: "(case f of
         Inl err \<Rightarrow>
           if \<not> errors_Is err ErrNotFound then throw (ErrWrap ''failed to look up pod'' err)
           else wrapErr ''failed to create pod for containers'' (createPauseContainer lp r options)
       | Inr p \<Rightarrow>
           andThen (attempt (findContainer lp (pe_PodUid options) ContainerNamePause)) (\<lambda>res.
             case res of
               Inl err \<Rightarrow> andThen (ignore (deletePod lp r p)) (\<lambda>_. throw err)
             | Inr pauseCtr \<Rightarrow> ret (p, pauseCtr, []))) w1 = (Ok (p, pc, b), w')"
    unfolding ensureSandbox_def by (elim andThen_OkE) blast
  show ?thesis
  proof (cases f)
    case (Inl e)
    with k have "createPauseContainer lp r options w1 = (Ok (p, pc, b), w')"
      by (auto split: if_splits dest: wrapErr_OkD)
    from createPauseContainer_Ok [OF this] podLabels_match [OF wf] show ?thesis
      by (simp add: gm_str_ContainerLabels [OF wf])
  next
    case (Inr q)
    with f have fp: "findPod lp (pe_PodUid options) w = (Ok q, w1)"
      by (auto simp: attempt_def split: outcome.splits prod.splits)
    from Inr k have q: "p = q" and fc: "findContainer lp (pe_PodUid options) ContainerNamePause w1 = (Ok pc, w')"
      by (auto simp: attempt_def elim!: andThen_OkE split: outcome.splits prod.splits sum.splits)
    have "same_regs ctrs pods w w1" using keeps_findPod fp by (rule keepsD)
    moreover have "same_regs ctrs pods w1 w'" using keeps_findContainer fc by (rule keepsD)
    moreover have "p \<in> pods w" using findPod_only [OF fp] q by auto
    ultimately show ?thesis
      using findPod_match [OF fp] findContainer_match [OF fc] findContainer_registered [OF fc] q
      by (simp add: same_regs_def)
  qed
qed

lemma EnsurePod_Ok:
  assumes "EnsurePod lp r options w = (Ok m, w')" and wf: "gm_wf (pe_Labels options)"
  shows "ps_Uid m = pe_PodUid options
    \<and> dom (map_of (ps_Containers m)) = cs_Name ` set (pe_Containers options) - {[]}
    \<and> (\<exists>p\<in>pods w'. filterLabels [(ContainerLabelPodUID, pe_PodUid options)] (pod_Labels p)
        \<and> (\<forall>s\<in>set (pe_Containers options). \<exists>c\<in>ctrs w'. ctr_Pod c = pod_ID p
              \<and> ctr_Labels c = ContainerLabels options (cs_Name s)))"
proof -
  from deferErr_OkD [OF assms(1) [unfolded EnsurePod_def]] obtain p pc b v where
    sb: "ensureSandbox lp r options w = (Ok (p, pc, b), v)"
    and ec: "ensureContainers lp r options p pc b v = (Ok m, w')"
    by (auto elim!: andThen_OkE dest!: deferErr_OkD)
  have "gm_str (ctr_Labels pc) ContainerLabelPodUID = pe_PodUid options" and "p \<in> pods v"
    and "filterLabels [(ContainerLabelPodUID, pe_PodUid options)] (pod_Labels p)"
    using ensureSandbox_Ok [OF sb wf] by blast+
  with ensureContainers_Ok [OF ec wf] show ?thesis by blast
qed

end

context libpod_api
begin

lemma keeps_cleanupPodData: "keeps (same_regs ctrs pods) (cleanupPodData lp r u)"
  unfolding cleanupPodData_def by (rule keeps_CleanupPodData)

lemma EnsurePod_rollback:
  assumes sb: "ensureSandbox lp r options w = (Ok (p, pc, b), v)"
    and ec: "ensureContainers lp r options p pc b v = (Err e, v1)" and dp: "deletePod lp r p v1 = (Ok (), v2)"
  shows "fst (EnsurePod lp r options w) \<noteq> Ok m \<and> same_regs ctrs pods v2 (snd (EnsurePod lp r options w))"
proof -
  obtain x v3 where c: "cleanupPodData lp r (pe_PodUid options) v2 = (x, v3)" by fastforce
  have same: "same_regs ctrs pods v2 v3" using keeps_cleanupPodData c by (rule keepsD)
  have "deferErr (ensureContainers lp r options p pc b) (\<lambda>_. ignore (deletePod lp r p)) v = (Err e, v2)"
    using ec dp by (simp add: deferErr_def act_eval)
  then have "EnsurePod lp r options w = (case ignore (cleanupPodData lp r (pe_PodUid options)) v2 of
      (Panic s, w'') \<Rightarrow> (Panic s, w'') | (_, w'') \<Rightarrow> (Err e, w''))"
    using sb by (simp add: EnsurePod_def deferErr_def act_eval)
  with c same show ?thesis by (cases x) (simp_all add: act_eval)
qed

end

context libpod_unique_names
begin

lemma createAll_name_taken:
  assumes "s \<in> set specs" and "d \<in> ctrs w"
    and "ctr_Name d = GetContainerName (pe_Namespace options) (pe_Name options) (cs_Name s)"
  shows "forEach specs (\<lambda>spec. wrapErr msg (createContainer lp r options p spec ns)) w \<noteq> (Ok cs, w')"
  using assms
proof (induction specs arbitrary: w cs)
  case Nil
  then show ?case by simp
next
  case (Cons x specs)
  show ?case
  proof
    assume "forEach (x # specs) (\<lambda>spec. wrapErr msg (createContainer lp r options p spec ns)) w = (Ok cs, w')"
    then obtain c v cs' where c: "createContainer lp r options p x ns w = (Ok c, v)"
      and rest: "forEach specs (\<lambda>spec. wrapErr msg (createContainer lp r options p spec ns)) v = (Ok cs', w')"
      by (auto elim!: andThen_OkE dest: wrapErr_OkD)
    have "d \<in> ctrs v" using createContainer_Ok [OF c] Cons.prems(2) by simp
    moreover have "s \<noteq> x" using c createContainer_name_taken Cons.prems(2,3) by blast
    ultimately show False using Cons.IH [of v cs'] Cons.prems(1,3) rest by simp
  qed
qed

lemma ensureContainers_name_taken:
  assumes "s \<in> set (pe_Containers options)" and "d \<in> ctrs w"
    and "ctr_Name d = GetContainerName (pe_Namespace options) (pe_Name options) (cs_Name s)"
  shows "ensureContainers lp r options p pc b w \<noteq> (Ok m, w')"
proof
  let ?ns = "SharedNamespaces (ctr_ID pc) options"
  assume "ensureContainers lp r options p pc b w = (Ok m, w')"
  then obtain w1 st w2 w3 cs w4 where
    s1: "ignore (lp_Sync lp pc) w = (Ok (), w1)"
    and s2: "wrapErr ''failed to get pause container state'' (lp_State lp pc) w1 = (Ok st, w2)"
    and s3: "resumePause lp pc st w2 = (Ok (), w3)"
    and s4: "forEach (pe_Containers options) (\<lambda>spec. wrapErr ''failed to create container'' (createContainer lp r options p spec ?ns)) w3 = (Ok cs, w4)"
    by (auto simp: ensureContainers_def elim!: andThen_OkE)
  have "same_regs ctrs pods w w1" using sr.keeps_ignore [OF quiet(10)] s1 by (rule keepsD)
  moreover have "same_regs ctrs pods w1 w2" using sr.keeps_wrapErr [OF quiet(11)] s2 by (rule keepsD)
  moreover have "same_regs ctrs pods w2 w3" using keeps_resumePause s3 by (rule keepsD)
  ultimately have "d \<in> ctrs w3" using assms(2) by (simp add: same_regs_def)
  then show False using createAll_name_taken [OF assms(1) _ assms(3)] s4 by blast
qed

lemma EnsurePod_name_taken:
  assumes f: "findPod lp (pe_PodUid options) w = (Ok p, w1)"
    and s: "s \<in> set (pe_Containers options)" and d: "d \<in> ctrs w"
    and n: "ctr_Name d = GetContainerName (pe_Namespace options) (pe_Name options) (cs_Name s)"
  shows "EnsurePod lp r options w \<noteq> (Ok m, w')"
proof
  assume "EnsurePod lp r options w = (Ok m, w')"
  from deferErr_OkD [OF this [unfolded EnsurePod_def]] obtain q pc b v where
    sb: "ensureSandbox lp r options w = (Ok (q, pc, b), v)"
    and ec: "ensureContainers lp r options q pc b v = (Ok m, w')"
    by (auto elim!: andThen_OkE dest!: deferErr_OkD)
  from sb f have fc: "findContainer lp (pe_PodUid options) ContainerNamePause w1 = (Ok pc, v)"
    by (auto simp: ensureSandbox_def act_eval attempt_def elim!: andThen_OkE split: outcome.splits prod.splits sum.splits)
  have "same_regs ctrs pods w w1" using keeps_findPod f by (rule keepsD)
  moreover have "same_regs ctrs pods w1 v" using keeps_findContainer fc by (rule keepsD)
  ultimately have "d \<in> ctrs v" using d by (simp add: same_regs_def)
  with ensureContainers_name_taken [OF s _ n] ec show False by blast
qed

end

section \<open>Facts about DeletePod\<close>

text \<open>The deferred clean up runs on every exit.\<close>

lemma deferAlways_snd: "snd (deferAlways m d w) = snd (d (snd (m w)))"
  by (simp add: deferAlways_def split: outcome.splits prod.splits)

lemma deferAlways_OkD: "deferAlways m d w = (Ok a, w') \<Longrightarrow> \<exists>v. m w = (Ok a, v) \<and> snd (d v) = w'"
  by (auto simp: deferAlways_def split: outcome.splits prod.splits)

context libpod_api
begin

lemma keeps_deleteNamedContainer:
  assumes "u \<noteq> []"
  shows "keeps (same_regs ctrs pods) (deleteNamedContainer lp u n)"
proof -
  have "same_regs ctrs pods w w'" if d: "deleteNamedContainer lp u n w = (x, w')" for w x w'
  proof -
    obtain f w1 where f: "findContainer lp u n w = (f, w1)" by fastforce
    have s1: "same_regs ctrs pods w w1" using keeps_findContainer f by (rule keepsD)
    show ?thesis
    proof (cases f)
      case (Ok c)
      with f assms have "map_of (ctr_Labels c) ContainerLabelPodUID = Some u" by (intro findContainer_uid_label) simp_all
      then have "keeps (same_regs ctrs pods) (wrapErr (''failed to delete container '' @ goQuote n) (deleteContainer lp (Some c)))"
        by (simp add: deleteContainer_labelled quiet_rules keeps_denyAbbotDeletion)
      moreover have "wrapErr (''failed to delete container '' @ goQuote n) (deleteContainer lp (Some c)) w1 = (x, w')"
        using d f Ok by (simp add: deleteNamedContainer_def act_eval)
      ultimately have "same_regs ctrs pods w1 w'" by (rule keepsD)
      with s1 show ?thesis by (rule sr.rel_trans)
    next
      case (Err e)
      with d f have "w' = w1"
        by (auto simp: deleteNamedContainer_def deleteContainer_def act_eval split: if_splits)
      with s1 show ?thesis by simp
    next
      case (Panic m)
      with d f have "w' = w1" by (simp add: deleteNamedContainer_def act_eval)
      with s1 show ?thesis by simp
    qed
  qed
  then show ?thesis by (simp add: keeps_def) (metis prod.collapse)
qed

lemma keeps_deletePodContainers:
  assumes "pd_PodUid options \<noteq> []"
  shows "keeps (same_regs ctrs pods) (deletePodContainers lp options p)"
  unfolding deletePodContainers_def Let_def
  by (auto split: option.splits
      intro!: quiet_rules keeps_translatePodStatus keeps_deleteNamedContainer assms)

lemma DeletePod_named_keeps:
  assumes "pd_PodUid options \<noteq> []" and "pd_Containers options \<noteq> []"
  shows "keeps (same_regs ctrs pods) (DeletePod lp r options)"
  unfolding DeletePod_def
  using assms(2)
  by (auto intro!: quiet_rules keeps_findPod keeps_deletePodContainers assms(1) keeps_cleanupPodData)

lemma DeletePod_whole_Ok:
  assumes "DeletePod lp r options w = (Ok m, w')" and "pd_Containers options = []"
  shows "m = NewPodStatusMsg (pd_PodUid options) [] []
    \<and> (\<exists>p\<in>pods w. filterLabels [(ContainerLabelPodUID, pd_PodUid options)] (pod_Labels p)
         \<and> pods w' = {q \<in> pods w. pod_ID q \<noteq> pod_ID p} \<and> ctrs w' = {c \<in> ctrs w. ctr_Pod c \<noteq> pod_ID p})
    \<and> (\<forall>q\<in>pods w'. \<not> filterLabels [(ContainerLabelPodUID, pd_PodUid options)] (pod_Labels q))"
proof -
  from deferAlways_OkD [OF assms(1) [unfolded DeletePod_def]] assms(2) obtain p w1 v where
    f: "findPod lp (pd_PodUid options) w = (Ok p, w1)" and d: "deletePod lp r p w1 = (Ok (), v)"
    and m: "m = NewPodStatusMsg (pd_PodUid options) [] []"
    and c: "snd (ignore (cleanupPodData lp r (pd_PodUid options)) v) = w'"
    by (auto elim!: andThen_OkE dest!: wrapErr_OkD)
  have "same_regs ctrs pods w w1" using keeps_findPod f by (rule keepsD)
  moreover have "same_regs ctrs pods v w'"
    using sr.keeps_ignore [OF keeps_cleanupPodData] c by (metis keeps_def)
  ultimately have e: "pods w' = {q \<in> pods w. pod_ID q \<noteq> pod_ID p}" "ctrs w' = {c \<in> ctrs w. ctr_Pod c \<noteq> pod_ID p}"
    using deletePod_Ok [OF d] by (simp_all add: same_regs_def)
  have o: "{q \<in> pods w. filterLabels [(ContainerLabelPodUID, pd_PodUid options)] (pod_Labels q)} = {p}"
    using findPod_only [OF f] .
  then have "p \<in> pods w \<and> filterLabels [(ContainerLabelPodUID, pd_PodUid options)] (pod_Labels p)" by blast
  moreover have "\<forall>q\<in>pods w'. \<not> filterLabels [(ContainerLabelPodUID, pd_PodUid options)] (pod_Labels q)"
  proof
    fix q
    assume "q \<in> pods w'"
    then have "q \<in> pods w" and "q \<noteq> p" by (auto simp: e(1))
    with o show "\<not> filterLabels [(ContainerLabelPodUID, pd_PodUid options)] (pod_Labels q)" by auto
  qed
  ultimately show ?thesis using m e by (intro conjI bexI [of _ p]) simp_all
qed

lemma deleteNamedContainer_unknown:
  assumes "lp_AllContainers lp w = (Ok cs, w')"
    and "\<forall>c\<in>ctrs w. \<not> filterLabels [(ContainerLabelPodUID, u), (ContainerLabelPodContainer, n)] (ctr_Labels c)"
  shows "deleteNamedContainer lp u n w = (Panic ''nil pointer dereference'', w')"
proof -
  have "filter (containerLabelFilterFunc [(ContainerLabelPodUID, u), (ContainerLabelPodContainer, n)]) cs = []"
    using assms all_ctrs [OF assms(1)] by (simp add: filter_empty_conv containerLabelFilterFunc_def)
  with assms(1) have "findContainer lp u n w = (Err ErrNotFound, w')"
    by (simp add: findContainer_def findContainerByLabels_def listContainersByLabels_def GetContainers_def andThen_def)
  then show ?thesis
    by (simp add: deleteNamedContainer_def deleteContainer_def andThen_def attempt_def wrapErr_def)
qed

end

section \<open>Facts about ListPods\<close>

lemma podLabelFilterFunc_Nil [simp]: "podLabelFilterFunc [] p"
  by (simp add: podLabelFilterFunc_def filterLabels_def)

context libpod_api
begin

lemma keeps_listNetwork: "keeps (same_regs ctrs pods) (listNetwork lp r pc)"
  unfolding listNetwork_def by (auto intro!: quiet_rules keeps_pidOf keeps_network)

text \<open>After the pause container is found, listing a pod only reads.\<close>

lemma keeps_listPod_found:
  "keeps (same_regs ctrs pods)
     (andThen (ignore (lp_Sync lp pc)) (\<lambda>_.
      andThen (listNetwork lp r pc) (\<lambda>b.
      andThen (wrapErr m1 (lp_PodContainers lp p)) (\<lambda>cs.
      andThen (wrapErr m2 (translatePodStatus lp b pc cs)) (\<lambda>status. ret [status])))))"
  by (intro quiet_rules keeps_listNetwork keeps_translatePodStatus)

lemma listPod_frame: "keeps (pod_frame ctrs pods {pod_ID p}) (listPod lp r p)"
proof (cases "map_of (pod_Labels p) ContainerLabelPodUID")
  case None
  then show ?thesis unfolding listPod_def by (auto intro!: pf.keeps_rules deletePod_frame)
next
  case (Some u)
  have "keeps (pod_frame ctrs pods {pod_ID p}) (lp_RemovePod lp p True True)"
    unfolding keeps_def using remove_pod_frame by (metis prod.collapse)
  then show ?thesis
    unfolding listPod_def using Some keeps_same_frame [OF keeps_findContainer] keeps_same_frame [OF keeps_listPod_found]
    by (auto split: sum.splits intro!: pf.keeps_andThen pf.keeps_attempt pf.keeps_ret pf.keeps_Pair)
qed

lemma findContainer_total:
  assumes "lp_AllContainers lp w = (Ok cs, w')" and "c \<in> ctrs w"
    and "filterLabels [(ContainerLabelPodUID, u), (ContainerLabelPodContainer, n)] (ctr_Labels c)"
  shows "\<exists>d. findContainer lp u n w = (Ok d, w')"
proof -
  let ?f = "containerLabelFilterFunc [(ContainerLabelPodUID, u), (ContainerLabelPodContainer, n)]"
  have "c \<in> set (filter ?f cs)" using all_ctrs [OF assms(1)] assms(2,3) by (simp add: containerLabelFilterFunc_def)
  then have "length (filter ?f cs) \<noteq> 0" by (metis length_0_conv list.distinct(1) list.set_cases)
  with assms(1) show ?thesis
    by (simp add: findContainer_def findContainerByLabels_def listContainersByLabels_def GetContainers_def andThen_def)
qed

lemma listPod_healthy:
  assumes "lp_AllContainers lp w = (Ok cs, w1)" and "map_of (pod_Labels p) ContainerLabelPodUID = Some u"
    and "c \<in> ctrs w"
    and "filterLabels [(ContainerLabelPodUID, u), (ContainerLabelPodContainer, ContainerNamePause)] (ctr_Labels c)"
  shows "same_regs ctrs pods w (snd (listPod lp r p w))"
proof -
  obtain d where f: "findContainer lp u ContainerNamePause w = (Ok d, w1)"
    using findContainer_total [OF assms(1,3,4)] by blast
  have "same_regs ctrs pods w w1" using keeps_findContainer f by (rule keepsD)
  moreover have "same_regs ctrs pods w1 (snd (listPod lp r p w))"
    using f assms(2) keeps_listPod_found by (simp add: listPod_def andThen_Ok attempt_Ok keeps_def)
  ultimately show ?thesis by (rule sr.rel_trans)
qed

lemma ListPods_healthy:
  assumes list: "\<And>w. \<exists>cs w'. lp_AllContainers lp w = (Ok cs, w')"
    and u: "map_of (pod_Labels p) ContainerLabelPodUID = Some u"
    and c: "filterLabels [(ContainerLabelPodUID, u), (ContainerLabelPodContainer, ContainerNamePause)] (ctr_Labels c)"
    and own: "ctr_Pod c = pod_ID p" and ids: "inj_on pod_ID (pods w)" and reg: "p \<in> pods w" "c \<in> ctrs w"
  shows "p \<in> pods (snd (ListPods lp r options w)) \<and> c \<in> ctrs (snd (ListPods lp r options w))"
proof -
  let ?I = "\<lambda>v. p \<in> pods v \<and> c \<in> ctrs v"
  have one: "keeps (if_then_inv ?I) (listPod lp r q)" if "q \<in> pods w" for q
    unfolding keeps_def if_then_inv_def
  proof (intro allI impI)
    fix v
    assume I: "?I v"
    show "?I (snd (listPod lp r q v))"
    proof (cases "pod_ID q = pod_ID p")
      case True
      then have "q = p" using ids reg that by (auto dest: inj_onD)
      with listPod_healthy [OF _ u _ c, of v] list [of v] I show ?thesis by (auto simp: same_regs_def)
    next
      case False
      with listPod_frame [of q r] I own show ?thesis by (auto simp: keeps_def pod_frame_def)
    qed
  qed
  obtain x w1 where P: "Pods lp (podLabelFilterFunc (listFilters options)) w = (x, w1)" by fastforce
  then have "?I w1" using keepsD [OF keeps_Pods P] reg by (simp add: same_regs_def)
  show ?thesis
  proof (cases x)
    case (Ok ps)
    have "set ps \<subseteq> pods w" using Pods_Ok [OF P [unfolded Ok]] by blast
    then have "keeps (if_then_inv ?I) (andThen (forEach ps (listPod lp r)) (\<lambda>results. ret (concat results)))"
      by (intro inv.keeps_rules one) auto
    with P Ok \<open>?I w1\<close> show ?thesis by (simp add: ListPods_def andThen_Ok keeps_def if_then_inv_def)
  qed (use P \<open>?I w1\<close> in \<open>simp_all add: ListPods_def andThen_def\<close>)
qed

lemma ListPods_listing_down:
  assumes down: "\<And>w. \<exists>e w'. lp_AllContainers lp w = (Err e, w')"
    and rm: "\<And>q w. fst (lp_RemovePod lp q True True w) = Ok ()"
    and lbl: "\<forall>q\<in>set ps. map_of (pod_Labels q) ContainerLabelPodUID \<noteq> None"
  shows "\<exists>w'. forEach ps (listPod lp r) w = (Ok (map (\<lambda>_. []) ps), w')
    \<and> pods w' = {q \<in> pods w. pod_ID q \<notin> pod_ID ` set ps}"
  using lbl
proof (induction ps arbitrary: w)
  case Nil
  then show ?case by simp
next
  case (Cons q ps)
  then obtain u where u: "map_of (pod_Labels q) ContainerLabelPodUID = Some u" by auto
  obtain e w1 where "lp_AllContainers lp w = (Err e, w1)" using down by blast
  then have f: "findContainer lp u ContainerNamePause w = (Err e, w1)"
    by (simp add: findContainer_def findContainerByLabels_def listContainersByLabels_def GetContainers_def andThen_def)
  have "same_regs ctrs pods w w1" using keeps_findContainer f by (rule keepsD)
  moreover obtain w2 where w2: "lp_RemovePod lp q True True w1 = (Ok (), w2)"
    using rm [of q w1] by (metis prod.collapse)
  ultimately have p2: "pods w2 = {x \<in> pods w. pod_ID x \<noteq> pod_ID q}"
    using remove_pod [OF w2] by (simp add: same_regs_def)
  have "listPod lp r q w = (Ok [], w2)"
    using f w2 u by (simp add: listPod_def andThen_def attempt_def)
  moreover obtain w3 where "forEach ps (listPod lp r) w2 = (Ok (map (\<lambda>_. []) ps), w3)"
    and "pods w3 = {x \<in> pods w2. pod_ID x \<notin> pod_ID ` set ps}"
    using Cons.IH [of w2] Cons.prems by auto
  ultimately show ?case using p2 by (auto simp: andThen_def)
qed

lemma listPod_Ok:
  assumes "listPod lp r p v = (Ok ms, v')" and "m \<in> set ms"
  shows "map_of (pod_Labels p) ContainerLabelPodUID = Some (ps_Uid m)
    \<and> (\<exists>c\<in>ctrs v. filterLabels [(ContainerLabelPodUID, ps_Uid m), (ContainerLabelPodContainer, ContainerNamePause)] (ctr_Labels c)
        \<and> (ps_Network m \<noteq> [] \<longrightarrow> IsHostNetwork (ctr_Labels c)))
    \<and> dom (map_of (ps_Containers m)) \<subseteq> {gm_str (ctr_Labels c) ContainerLabelPodContainer | c.
         c \<in> ctrs v \<and> ctr_Pod c = pod_ID p \<and> gm_str (ctr_Labels c) ContainerLabelPodUID = ps_Uid m}"
proof -
  from assms obtain u where u: "map_of (pod_Labels p) ContainerLabelPodUID = Some u"
    by (auto simp: listPod_def elim!: andThen_OkE split: option.splits)
  with assms obtain pc v1 where f: "findContainer lp u ContainerNamePause v = (Ok pc, v1)"
    by (auto simp: listPod_def attempt_def elim!: andThen_OkE split: outcome.splits prod.splits sum.splits)
  from assms u f obtain v2 b v3 cs v4 where
    s: "ignore (lp_Sync lp pc) v1 = (Ok (), v2)"
    and n: "listNetwork lp r pc v2 = (Ok b, v3)"
    and cs: "lp_PodContainers lp p v3 = (Ok cs, v4)"
    and t: "translatePodStatus lp b pc cs v4 = (Ok m, v')"
    by (auto simp: listPod_def andThen_Ok attempt_Ok elim!: andThen_OkE dest!: wrapErr_OkD)
  have match: "gm_str (ctr_Labels pc) ContainerLabelPodUID = u" using findContainer_match [OF f] by simp
  then have uid: "ps_Uid m = u" and net: "ps_Network m = b"
    and d: "dom (map_of (ps_Containers m)) = reported u cs"
    using translatePodStatus_Ok [OF t] by simp_all
  have "same_regs ctrs pods v v1" using keeps_findContainer f by (rule keepsD)
  moreover have "same_regs ctrs pods v1 v2" using sr.keeps_ignore [OF quiet(10)] s by (rule keepsD)
  moreover have "same_regs ctrs pods v2 v3" using keeps_listNetwork n by (rule keepsD)
  ultimately have "ctrs v3 = ctrs v" by (simp add: same_regs_def)
  then have "set cs = {c \<in> ctrs v. ctr_Pod c = pod_ID p}" using pod_ctrs [OF cs] by simp
  then have "dom (map_of (ps_Containers m)) \<subseteq> {gm_str (ctr_Labels c) ContainerLabelPodContainer | c.
         c \<in> ctrs v \<and> ctr_Pod c = pod_ID p \<and> gm_str (ctr_Labels c) ContainerLabelPodUID = ps_Uid m}"
    unfolding d uid reported_def by auto
  moreover have "b \<noteq> [] \<longrightarrow> IsHostNetwork (ctr_Labels pc)" using n by (auto simp: listNetwork_def split: if_splits)
  moreover have "filterLabels [(ContainerLabelPodUID, u), (ContainerLabelPodContainer, ContainerNamePause)] (ctr_Labels pc)"
    using findContainerByLabels_match [OF f [unfolded findContainer_def]] .
  ultimately show ?thesis using u uid net findContainer_registered [OF f] by auto
qed

lemma listAll_Ok:
  assumes "forEach ps (listPod lp r) v = (Ok rs, v')" and "m \<in> set (concat rs)" and "ctrs v \<subseteq> C"
  shows "\<exists>p\<in>set ps. map_of (pod_Labels p) ContainerLabelPodUID = Some (ps_Uid m)
    \<and> (\<exists>c\<in>C. filterLabels [(ContainerLabelPodUID, ps_Uid m), (ContainerLabelPodContainer, ContainerNamePause)] (ctr_Labels c)
        \<and> (ps_Network m \<noteq> [] \<longrightarrow> IsHostNetwork (ctr_Labels c)))
    \<and> dom (map_of (ps_Containers m)) \<subseteq> {gm_str (ctr_Labels c) ContainerLabelPodContainer | c.
         c \<in> C \<and> ctr_Pod c = pod_ID p \<and> gm_str (ctr_Labels c) ContainerLabelPodUID = ps_Uid m}"
  using assms
proof (induction ps arbitrary: v rs)
  case Nil
  then show ?case by simp
next
  case (Cons p ps)
  from Cons.prems(1) obtain ms v1 rs' where l: "listPod lp r p v = (Ok ms, v1)"
    and rest: "forEach ps (listPod lp r) v1 = (Ok rs', v')" and rs: "rs = ms # rs'"
    by (auto elim!: andThen_OkE)
  have "pod_frame ctrs pods {pod_ID p} v v1" using listPod_frame l by (rule keepsD)
  then have sub: "ctrs v1 \<subseteq> C" using Cons.prems(3) by (auto simp: pod_frame_def)
  show ?case
  proof (cases "m \<in> set ms")
    case True
    with listPod_Ok [OF l] Cons.prems(3) show ?thesis
      by (intro bexI [of _ p]) (simp, blast, simp)
  next
    case False
    with Cons.prems(2) rs have "m \<in> set (concat rs')" by simp
    from Cons.IH [OF rest this sub] show ?thesis by auto
  qed
qed

lemma ListPods_Ok:
  assumes "ListPods lp r options w = (Ok ms, w')" and "m \<in> set ms"
  shows "\<exists>p\<in>pods w. map_of (pod_Labels p) ContainerLabelPodUID = Some (ps_Uid m)
    \<and> (\<exists>c\<in>ctrs w. filterLabels [(ContainerLabelPodUID, ps_Uid m), (ContainerLabelPodContainer, ContainerNamePause)] (ctr_Labels c)
        \<and> (ps_Network m \<noteq> [] \<longrightarrow> IsHostNetwork (ctr_Labels c)))
    \<and> dom (map_of (ps_Containers m)) \<subseteq> {gm_str (ctr_Labels c) ContainerLabelPodContainer | c.
         c \<in> ctrs w \<and> ctr_Pod c = pod_ID p \<and> gm_str (ctr_Labels c) ContainerLabelPodUID = ps_Uid m}"
proof -
  from assms obtain ps w1 rs where P: "Pods lp (podLabelFilterFunc (listFilters options)) w = (Ok ps, w1)"
    and l: "forEach ps (listPod lp r) w1 = (Ok rs, w')" and m: "m \<in> set (concat rs)"
    by (auto simp: ListPods_def elim!: andThen_OkE)
  have sub: "set ps \<subseteq> pods w" using Pods_Ok [OF P] by blast
  have "ctrs w1 = ctrs w" using keepsD [OF keeps_Pods P] by (simp add: same_regs_def)
  then have "ctrs w1 \<subseteq> ctrs w" by simp
  from listAll_Ok [OF l m this] sub show ?thesis by (elim bexE) (rule bexI, assumption, blast)
qed

lemma ListPods_destroys:
  assumes down: "\<And>w. \<exists>e w'. lp_AllContainers lp w = (Err e, w')"
    and rm: "\<And>q w. fst (lp_RemovePod lp q True True w) = Ok ()"
    and ps: "lp_AllPods lp w = (Ok ps, w1)" and lbl: "\<forall>q\<in>pods w. map_of (pod_Labels q) ContainerLabelPodUID \<noteq> None"
    and all: "pl_All options"
  shows "\<exists>w'. ListPods lp r options w = (Ok [], w') \<and> pods w' = {}"
proof -
  have P: "Pods lp (podLabelFilterFunc (listFilters options)) w = (Ok ps, w1)"
    using ps all by (simp add: Pods_def listFilters_def andThen_def)
  have s: "set ps = pods w" using all_pods [OF ps] by simp
  have "pods w1 = pods w" using keepsD [OF keeps_Pods P] by (simp add: same_regs_def)
  with ListPods_listing_down [OF down rm, of ps r w1] lbl s
  obtain w' where "forEach ps (listPod lp r) w1 = (Ok (map (\<lambda>_. []) ps), w')" and "pods w' = {}" by auto
  with P show ?thesis by (simp add: ListPods_def andThen_def)
qed

end

end
