(* ===== verification/Images.thy ===== *)
theory Images
  imports Containers
begin

text \<open>
  \<^verbatim>\<open>pkg/runtime/image.go\<close>: pulling images and reporting them. A slice of pointers is a
  list of options.
\<close>

text \<open>The Go map lookup gives the zero value, \<^verbatim>\<open>PullImageAlways\<close>, for an unknown policy.\<close>

definition pullTypeMapping :: "int \<Rightarrow> pullType" where
  "pullTypeMapping policy =
     (if policy = IMAGE_PULL_ALWAYS then PullImageAlways
      else if policy = IMAGE_PULL_IF_NOT_PRESENT then PullImageMissing
      else if policy = IMAGE_PULL_NEVER then PullImageNever
      else PullImageAlways)"

text \<open>One round of the loop: of the credentials, the name and the password are used; a nil specification is dereferenced.\<close>

definition pullImage :: "'w engine \<Rightarrow> string \<times> imagePullSpec option \<Rightarrow> ('w, string \<times> image) act" where
  "pullImage lp entry =
     (case snd entry of
        None \<Rightarrow> panic ''nil pointer dereference''
      | Some spec \<Rightarrow>
          let dockerRegistryOptions = map_option (\<lambda>au. (ia_Username au, ia_Password au)) (ip_AuthConfig spec) in
          andThen (im_New lp (fst entry) dockerRegistryOptions (pullTypeMapping (ip_PullPolicy spec)))
            (\<lambda>im. ret (fst entry, im)))"

text \<open>The pulled images as a map from image names, in the order of the pulls.\<close>

definition ensureImages :: "'w engine \<Rightarrow> (string, imagePullSpec option) gomap \<Rightarrow> ('w, (string, image) gomap) act" where
  "ensureImages lp images = andThen (forEach images (pullImage lp)) (\<lambda>pulled. ret (gm_copy pulled []))"

text \<open>The hash after the last \<^verbatim>\<open>sha256:\<close>; a later digest overwrites an earlier one.\<close>

fun digest_hash :: "string list \<Rightarrow> string \<Rightarrow> string" where
  "digest_hash [] sha256Hash = sha256Hash"
| "digest_hash (d # digests) sha256Hash =
     digest_hash digests
       (case last_index d ''sha256:'' of None \<Rightarrow> sha256Hash | Some idx \<Rightarrow> drop (idx + 7) d)"

definition imageStatus :: "'w engine \<Rightarrow> image \<Rightarrow> ('w, imageStatusMsg option list) act" where
  "imageStatus lp im =
     andThen (im_RepoDigests lp im) (\<lambda>digests.
       let sha256Hash = digest_hash digests [] in
       if sha256Hash = [] then ret []
       else ret [Some \<lparr>is_Sha256 = sha256Hash, is_Size = 0, is_Refs = [img_Tag im]\<rparr>])"

definition allImagesOf :: "libpodRuntime \<Rightarrow> imageEnsureCmd \<Rightarrow> (string, imagePullSpec option) gomap" where
  "allImagesOf r options =
     gm_copy (ie_Images options)
       [(rt_pauseImage r, Some \<lparr>ip_AuthConfig = None, ip_PullPolicy = IMAGE_PULL_IF_NOT_PRESENT\<rparr>)]"

text \<open>
  The result slice is made with a length and then appended to, so it starts with as
  many nil entries as images were pulled.
\<close>

definition EnsureImages :: "'w engine \<Rightarrow> libpodRuntime \<Rightarrow> imageEnsureCmd \<Rightarrow> ('w, imageStatusMsg option list) act" where
  "EnsureImages lp r options =
     andThen (ensureImages lp (allImagesOf r options)) (\<lambda>pulledImages.
     andThen (forEach (map snd pulledImages) (imageStatus lp)) (\<lambda>statuses.
     ret (replicate (length pulledImages) None @ concat statuses)))"

definition DeleteImages :: "('w, imageStatusMsg option list) act" where
  "DeleteImages = throw ErrNotSupported"

definition ListImages :: "('w, imageStatusMsg option list) act" where
  "ListImages = throw ErrNotSupported"

section \<open>Facts about the results\<close>

lemma gm_wf_allImagesOf: "gm_wf (allImagesOf r options)"
  unfolding allImagesOf_def by (rule gm_wf_copy) (simp add: gm_wf_def)

lemma map_of_allImagesOf:
  assumes "gm_wf (ie_Images options)"
  shows "map_of (allImagesOf r options) n =
    (case map_of (ie_Images options) n of
       Some s \<Rightarrow> Some s
     | None \<Rightarrow> if n = rt_pauseImage r then Some (Some \<lparr>ip_AuthConfig = None, ip_PullPolicy = IMAGE_PULL_IF_NOT_PRESENT\<rparr>) else None)"
  using assms by (auto simp: allImagesOf_def map_of_gm_copy map_add_def split: option.split)

lemma dom_allImagesOf:
  "gm_wf (ie_Images options) \<Longrightarrow> dom (map_of (allImagesOf r options)) = insert (rt_pauseImage r) (fst ` set (ie_Images options))"
  by (auto simp: allImagesOf_def map_of_gm_copy dom_map_of_conv_image_fst)

lemma forEach_pullImage_names: "forEach imgs (pullImage lp) w = (Ok ps, w') \<Longrightarrow> map fst ps = map fst imgs"
  by (induction imgs arbitrary: w ps) (auto simp: pullImage_def elim!: andThen_OkE split: option.splits)

lemma forEach_pullImage_specs: "forEach imgs (pullImage lp) w = (Ok ps, w') \<Longrightarrow> None \<notin> snd ` set imgs"
  by (induction imgs arbitrary: w ps) (auto simp: pullImage_def elim!: andThen_OkE split: option.splits)

lemma ensureImages_Ok:
  assumes "ensureImages lp imgs w = (Ok m, w')" and "gm_wf imgs"
  shows "gm_wf m \<and> dom (map_of m) = dom (map_of imgs)"
proof -
  from assms(1) obtain ps where ps: "forEach imgs (pullImage lp) w = (Ok ps, w')" and m: "m = gm_copy ps []"
    by (auto simp: ensureImages_def elim!: andThen_OkE)
  have names: "map fst ps = map fst imgs" by (rule forEach_pullImage_names [OF ps])
  then have "gm_wf ps" using assms(2) by (simp add: gm_wf_def)
  moreover have "fst ` set ps = fst ` set imgs" using arg_cong [OF names, of set] by simp
  ultimately show ?thesis using m by (simp add: map_of_gm_copy gm_wf_copy dom_map_of_conv_image_fst)
qed

lemma imageStatus_Ok:
  "imageStatus lp im w = (Ok st, w') \<Longrightarrow> None \<notin> set st \<and> length st \<le> 1"
  by (auto simp: imageStatus_def Let_def elim!: andThen_OkE split: if_splits)

lemma forEach_imageStatus_Ok:
  "forEach ims (imageStatus lp) w = (Ok sts, w') \<Longrightarrow> None \<notin> set (concat sts) \<and> length (concat sts) \<le> length ims"
proof (induction ims arbitrary: w sts)
  case Nil
  then show ?case by simp
next
  case (Cons im ims)
  from Cons.prems obtain st v sts' where "imageStatus lp im w = (Ok st, v)"
    and r: "forEach ims (imageStatus lp) v = (Ok sts', w')" and "sts = st # sts'"
    by (auto elim!: andThen_OkE)
  with imageStatus_Ok [of lp im w st v] Cons.IH [OF r] show ?case by auto
qed

text \<open>The loop keeps the hash of the last digest that has one.\<close>

lemma digest_hash_cases:
  "digest_hash ds h = h \<or> (\<exists>d\<in>set ds. \<exists>pre. d = pre @ ''sha256:'' @ digest_hash ds h)"
proof (induction ds arbitrary: h)
  case Nil
  then show ?case by simp
next
  case (Cons d ds)
  show ?case
  proof (cases "last_index d ''sha256:''")
    case None
    then show ?thesis using Cons.IH [of h] by auto
  next
    case (Some i)
    let ?h = "drop (i + 7) d"
    obtain t where d: "d = take i d @ ''sha256:'' @ t" and le: "i + length ''sha256:'' \<le> length d"
      using last_index_Some [OF Some] by blast
    have l: "length (take i d @ ''sha256:'') = i + 7" using le by simp
    have "drop (length ps) (ps @ t) = t" for ps by simp
    from this [of "take i d @ ''sha256:''"] have "drop (i + 7) ((take i d @ ''sha256:'') @ t) = t" unfolding l .
    moreover have "(take i d @ ''sha256:'') @ t = d" using d by simp
    ultimately have "t = ?h" by (simp only:)
    with d have "d = take i d @ ''sha256:'' @ ?h" by (simp only:)
    then show ?thesis using Some Cons.IH [of ?h] by auto
  qed
qed

section \<open>Properties\<close>

text \<open>Which images are ensured: exactly those of the command and the pause image; the pause image is pulled when
  missing unless the command itself says how to pull it.\<close>

theorem images_to_ensure:
  assumes "gm_wf (ie_Images options)"
  shows "map_of (allImagesOf r options) n =
    (case map_of (ie_Images options) n of
       Some s \<Rightarrow> Some s
     | None \<Rightarrow> if n = rt_pauseImage r then Some (Some \<lparr>ip_AuthConfig = None, ip_PullPolicy = IMAGE_PULL_IF_NOT_PRESENT\<rparr>) else None)"
  by (rule map_of_allImagesOf [OF assms])

text \<open>Witness: the pause image beside one image of the command.\<close>

theorem images_to_ensure_witness:
  "map_of (allImagesOf exampleRuntime \<lparr>ie_Images = [(''nginx'', Some \<lparr>ip_AuthConfig = None, ip_PullPolicy = 0\<rparr>)]\<rparr>) ''pause''
   = Some (Some \<lparr>ip_AuthConfig = None, ip_PullPolicy = IMAGE_PULL_IF_NOT_PRESENT\<rparr>)"
  using images_to_ensure [of "\<lparr>ie_Images = [(''nginx'', Some \<lparr>ip_AuthConfig = None, ip_PullPolicy = 0\<rparr>)]\<rparr>" exampleRuntime "''pause''"]
  by (simp add: gm_wf_def exampleRuntime_def)

text \<open>The answer of \<^verbatim>\<open>EnsureImages\<close> starts with a nil entry for every ensured image: it is as many nil entries as
  there are distinct images (the pause image included, so at least one), followed by at most that many real ones.\<close>

theorem ensure_images_nil_prefix:
  assumes "gm_wf (ie_Images options)" and "EnsureImages lp r options w = (Ok res, w')"
  shows "\<exists>rest. res = replicate (card (insert (rt_pauseImage r) (fst ` set (ie_Images options)))) None @ rest
    \<and> None \<notin> set rest \<and> length rest \<le> card (insert (rt_pauseImage r) (fst ` set (ie_Images options)))"
proof -
  let ?n = "card (insert (rt_pauseImage r) (fst ` set (ie_Images options)))"
  from assms(2) obtain m v sts where e: "ensureImages lp (allImagesOf r options) w = (Ok m, v)"
    and st: "forEach (map snd m) (imageStatus lp) v = (Ok sts, w')"
    and res: "res = replicate (length m) None @ concat sts"
    by (auto simp: EnsureImages_def elim!: andThen_OkE)
  have "length m = ?n"
    using ensureImages_Ok [OF e gm_wf_allImagesOf] dom_allImagesOf [OF assms(1), of r] gm_card [of m] by simp
  with forEach_imageStatus_Ok [OF st] res show ?thesis by (intro exI [of _ "concat sts"]) simp
qed

text \<open>Witness: two images, two nil entries, two statuses.\<close>

definition exampleImages :: "imageStatusMsg option list" where
  "exampleImages = (case fst (EnsureImages goodEngine exampleRuntime
      \<lparr>ie_Images = [(''nginx'', Some \<lparr>ip_AuthConfig = None, ip_PullPolicy = 0\<rparr>)]\<rparr> exampleWorld) of Ok res \<Rightarrow> res | _ \<Rightarrow> [])"

theorem ensure_images_nil_prefix_witness:
  "length exampleImages = 4 \<and> exampleImages ! 0 = None"
proof
  have "EnsureImages goodEngine exampleRuntime \<lparr>ie_Images = [(''nginx'', Some \<lparr>ip_AuthConfig = None, ip_PullPolicy = 0\<rparr>)]\<rparr> exampleWorld
      = (Ok exampleImages, exampleWorld)"
    by code_simp
  from ensure_images_nil_prefix [OF _ this]
  obtain rest where e: "exampleImages = replicate (card {''pause'', ''nginx''}) None @ rest"
    by (auto simp: gm_wf_def exampleRuntime_def)
  show "exampleImages ! 0 = None" by (subst e) simp
  show "length exampleImages = 4" by code_simp
qed

text \<open>A command with an entry that has no value never succeeds: the nil specification is dereferenced, when no other image
  fails before.\<close>

theorem nil_pull_spec_fails:
  assumes "map_of (ie_Images options) n = Some None" and "gm_wf (ie_Images options)"
  shows "fst (EnsureImages lp r options w) \<noteq> Ok res"
proof
  assume "fst (EnsureImages lp r options w) = Ok res"
  then obtain w' where "EnsureImages lp r options w = (Ok res, w')" by (metis prod.collapse)
  then obtain m v ps where "forEach (allImagesOf r options) (pullImage lp) w = (Ok ps, v)"
    by (auto simp: EnsureImages_def ensureImages_def elim!: andThen_OkE)
  then have "None \<notin> snd ` set (allImagesOf r options)" by (rule forEach_pullImage_specs)
  moreover have "map_of (allImagesOf r options) n = Some None" using assms by (simp add: map_of_allImagesOf)
  then have "(n, None) \<in> set (allImagesOf r options)" by (rule map_of_SomeD)
  ultimately show False by force
qed

text \<open>Witness: an entry with the empty name.\<close>

theorem nil_pull_spec_fails_witness:
  "fst (EnsureImages goodEngine exampleRuntime \<lparr>ie_Images = [([], None)]\<rparr> exampleWorld) \<noteq> Ok []"
  by (rule nil_pull_spec_fails [where n = "[]"]) (simp_all add: gm_wf_def)

text \<open>The hash reported for an image is the text after a \<^verbatim>\<open>sha256:\<close> of one of its digests.\<close>

theorem image_hash_from_digest:
  assumes "digest_hash digests [] \<noteq> []"
  shows "\<exists>d\<in>set digests. \<exists>pre. d = pre @ ''sha256:'' @ digest_hash digests []"
  using digest_hash_cases [of digests "[]"] assms by auto

text \<open>Witness: one digest.\<close>

theorem image_hash_from_digest_witness:
  "\<exists>d\<in>{''nginx@sha256:ab12''}. \<exists>pre. d = pre @ ''sha256:'' @ digest_hash [''nginx@sha256:ab12''] []"
  using image_hash_from_digest [of "[''nginx@sha256:ab12'']"] by simp

end
