(* ===== verification/Actions.thy ===== *)
theory Actions
  imports Containers
begin

text \<open>
  \<^verbatim>\<open>pkg/runtime/action.go\<close>: exec, attach, logs and port-forward, with
  \<^verbatim>\<open>translateStreams\<close> of \<^verbatim>\<open>translate.go\<close>. Logs are read by the reader of \<open>Logs\<close>; dialling for a port forward
  is an operation of the environment.
\<close>

section \<open>Streams and terminal size\<close>

record attachStreams =
  as_AttachOutput :: bool
  as_AttachError :: bool
  as_AttachInput :: bool

definition translateStreams :: "string option \<Rightarrow> bool \<Rightarrow> bool \<Rightarrow> attachStreams" where
  "translateStreams stdin hasStdout hasStderr =
     \<lparr>as_AttachOutput = hasStdout, as_AttachError = hasStderr, as_AttachInput = (stdin \<noteq> None)\<rparr>"

text \<open>\<^verbatim>\<open>remotecommand.TerminalSize{Width: uint16(cols), Height: uint16(rows)}\<close>\<close>

definition terminalSize :: "32 word \<Rightarrow> 32 word \<Rightarrow> 16 word \<times> 16 word" where
  "terminalSize cols rows = (ucast cols, ucast rows)"

section \<open>The actions\<close>

definition Exec ::
  "'w engine \<Rightarrow> string \<Rightarrow> string \<Rightarrow> string option \<Rightarrow> bool \<Rightarrow> bool \<Rightarrow> string list \<Rightarrow> bool \<Rightarrow>
   ('w, goerr option \<times> string \<times> string) act" where
  "Exec lp podUID container stdin hasStdout hasStderr command tty =
     andThen (findContainer lp podUID container) (\<lambda>c.
       execInContainer lp c stdin hasStdout hasStderr command tty [])"

text \<open>What a reader of the attach error channel receives.\<close>

definition Attach :: "'w engine \<Rightarrow> string \<Rightarrow> string \<Rightarrow> string option \<Rightarrow> bool \<Rightarrow> bool \<Rightarrow> ('w, goerr option) act" where
  "Attach lp podUID container stdin hasStdout hasStderr =
     andThen (findContainer lp podUID container) (\<lambda>c.
       let streams = translateStreams stdin hasStdout hasStderr in
       andThen (lp_Attach lp c (as_AttachInput streams) (as_AttachOutput streams) (as_AttachError streams)) (\<lambda>err.
         case err of
           None \<Rightarrow> ret None
         | Some e \<Rightarrow> andThen (ctx_Done lp) (\<lambda>isDone. ret (if isDone then None else Some (ErrorMsg (err_Error e) 0)))))"

text \<open>The error of \<^verbatim>\<open>ReadLogs\<close> and what it wrote. What the files, the clock and the writers do is observed in the environment.\<close>

definition Logs :: "'w engine \<Rightarrow> logsCmd \<Rightarrow> ('w, goerr option \<times> logWriter) act" where
  "Logs lp options =
     andThen (findContainer lp (lc_PodUid options) (lc_Container options)) (\<lambda>c.
     andThen (act_logEnv lp) (\<lambda>(env, evs). ret (ReadLogs env (ctr_LogPath c) options evs)))"

section \<open>Port forwarding\<close>

text \<open>\<^verbatim>\<open>net.IPNet.String\<close> is in CIDR notation; \<^verbatim>\<open>net.JoinHostPort\<close> brackets hosts with a colon.\<close>

definition ipNet_String :: "ipNet \<Rightarrow> string" where
  "ipNet_String n = ip_Addr n @ ''/'' @ FormatInt (int (ip_Prefix n))"

definition JoinHostPort :: "string \<Rightarrow> string \<Rightarrow> string" where
  "JoinHostPort host port =
     (if CHR '':'' \<in> set host then ''['' @ host @ '']:'' @ port else host @ '':'' @ port)"

text \<open>The loop keeps the last address that is not a loopback address.\<close>

fun forward_address :: "ipNet list \<Rightarrow> string \<Rightarrow> string" where
  "forward_address [] address = address"
| "forward_address (a # addresses) address =
     forward_address addresses (if \<not> ip_Loopback a then ipNet_String a else address)"

definition PortForward :: "'w engine \<Rightarrow> string \<Rightarrow> string \<Rightarrow> int \<Rightarrow> ('w, unit) act" where
  "PortForward lp podUID protocol port =
     andThen (findContainer lp podUID ContainerNamePause) (\<lambda>pauseCtr.
     andThen (attempt (lp_IPs lp pauseCtr)) (\<lambda>res.
       let addresses = (case res of Inl _ \<Rightarrow> [] | Inr as \<Rightarrow> as);
           address = forward_address addresses []
       in net_Forward lp protocol (JoinHostPort address (FormatInt port))))"

lemma forward_address_split:
  "forward_address xs a =
     (case rev (filter (\<lambda>n. \<not> ip_Loopback n) xs) of [] \<Rightarrow> a | n # _ \<Rightarrow> ipNet_String n)"
proof (induction xs arbitrary: a)
  case Nil
  then show ?case by simp
next
  case (Cons x xs)
  then show ?case by (cases "rev (filter (\<lambda>n. \<not> ip_Loopback n) xs)") simp_all
qed

section \<open>Properties\<close>

text \<open>The address \<^verbatim>\<open>PortForward\<close> dials: for a pod with an address that is not a loopback address it is the last such
  address in CIDR notation with the port, so it contains a slash.\<close>

theorem port_forward_dials_cidr:
  assumes "findContainer lp podUID ContainerNamePause w = (Ok pauseCtr, w1)"
    and "lp_IPs lp pauseCtr w1 = (Ok (as @ a # bs), w2)" and "\<not> ip_Loopback a" and "\<forall>b\<in>set bs. ip_Loopback b"
  shows "PortForward lp podUID protocol port w =
      net_Forward lp protocol (JoinHostPort (ip_Addr a @ ''/'' @ FormatInt (int (ip_Prefix a))) (FormatInt port)) w2
    \<and> CHR ''/'' \<in> set (JoinHostPort (ip_Addr a @ ''/'' @ FormatInt (int (ip_Prefix a))) (FormatInt port))"
proof -
  have "filter (\<lambda>n. \<not> ip_Loopback n) bs = []" using assms(4) by (simp add: filter_empty_conv)
  then have "forward_address (as @ a # bs) [] = ipNet_String a"
    using assms(3) by (simp add: forward_address_split)
  with assms(1,2) show ?thesis
    by (simp add: PortForward_def Let_def andThen_def attempt_def ipNet_String_def JoinHostPort_def)
qed

text \<open>Witness: the pause container of the example pod; the dial fails.\<close>

theorem port_forward_dials_cidr_witness:
  "PortForward goodEngine ''u1'' ''tcp'' 80 exampleWorld = net_Forward goodEngine ''tcp'' ''10.0.0.5/24:80'' exampleWorld
   \<and> fst (net_Forward goodEngine ''tcp'' ''10.0.0.5/24:80'' exampleWorld) = Err (ErrExt ''bad address'')"
proof
  have "findContainer goodEngine ''u1'' ContainerNamePause exampleWorld = (Ok examplePause, exampleWorld)" by code_simp
  moreover have "lp_IPs goodEngine examplePause exampleWorld =
      (Ok ([] @ \<lparr>ip_Addr = ''10.0.0.5'', ip_Prefix = 24, ip_Loopback = False\<rparr> # []), exampleWorld)"
    by code_simp
  moreover have "JoinHostPort (''10.0.0.5'' @ ''/'' @ FormatInt (int 24)) (FormatInt 80) = ''10.0.0.5/24:80''" by code_simp
  ultimately show "PortForward goodEngine ''u1'' ''tcp'' 80 exampleWorld = net_Forward goodEngine ''tcp'' ''10.0.0.5/24:80'' exampleWorld"
    using port_forward_dials_cidr [of goodEngine "''u1''" exampleWorld examplePause exampleWorld "[]"] by simp
  show "fst (net_Forward goodEngine ''tcp'' ''10.0.0.5/24:80'' exampleWorld) = Err (ErrExt ''bad address'')" by code_simp
qed

text \<open>Terminal sizes are kept modulo \<open>2 ^ 16\<close>: sizes below that are exact, larger ones wrap around.\<close>

theorem terminal_size_wraps:
  "unat (fst (terminalSize cols rows)) = unat cols mod 2 ^ 16 \<and> unat (snd (terminalSize cols rows)) = unat rows mod 2 ^ 16"
  by (simp add: terminalSize_def unsigned_ucast_eq take_bit_eq_mod)

text \<open>Exec reaches only containers of the pod: a successful \<^verbatim>\<open>Exec\<close> ran in a container whose labels carry the UID and
  the name asked for, and the command, the terminal flag and the streams are passed on unchanged.\<close>

theorem exec_runs_in_named_container:
  assumes "Exec lp podUID container stdin so se command tty w = (Ok res, w')"
  shows "\<exists>c v. findContainer lp podUID container w = (Ok c, v)
    \<and> gm_str (ctr_Labels c) ContainerLabelPodUID = podUID \<and> gm_str (ctr_Labels c) ContainerLabelPodContainer = container
    \<and> (\<exists>out v'. lp_Exec lp c \<lparr>ec_Command = command, ec_Terminal = tty, ec_AttachStdin = (stdin \<noteq> None), ec_AttachStdout = so,
           ec_AttachStderr = se, ec_Environment = []\<rparr> stdin v = (Ok out, v') \<and> snd res = (er_Stdout out, er_Stderr out))"
proof -
  from assms obtain c v where f: "findContainer lp podUID container w = (Ok c, v)"
    and e: "execInContainer lp c stdin so se command tty [] v = (Ok res, w')"
    by (auto simp: Exec_def elim!: andThen_OkE)
  have "\<exists>out v'. lp_Exec lp c \<lparr>ec_Command = command, ec_Terminal = tty, ec_AttachStdin = (stdin \<noteq> None), ec_AttachStdout = so,
           ec_AttachStderr = se, ec_Environment = []\<rparr> stdin v = (Ok out, v') \<and> snd res = (er_Stdout out, er_Stderr out)"
    using e by (auto simp: execInContainer_def Let_def elim!: andThen_OkE split: option.splits)
  with f findContainer_match [OF f] show ?thesis by blast
qed

text \<open>Witness: a command in the web container.\<close>

theorem exec_runs_in_named_container_witness:
  "\<exists>c v. findContainer goodEngine ''u1'' ''web'' exampleWorld = (Ok c, v) \<and> gm_str (ctr_Labels c) ContainerLabelPodContainer = ''web''"
proof -
  have "Exec goodEngine ''u1'' ''web'' None True True [''ls''] False exampleWorld = (Ok (None, [], []), exampleWorld)"
    by code_simp
  from exec_runs_in_named_container [OF this] show ?thesis by blast
qed

text \<open>C32: The logs a command shows are those of the container it names: the log file of the container whose labels carry the UID and
  the name of the command is read, and without following the lines shown are the last ones the command asks for (all of them
  for a negative number), one by one, up to an error of the writer or the limit of bytes.\<close>

theorem logs_show_tail_of_container:
  assumes "findContainer lp (lc_PodUid options) (lc_Container options) w = (Ok c, v)" and "act_logEnv lp v = (Ok (env, evs), v')"
    and "le_EvalSymlinks env (ctr_LogPath c) = Inr path" and "le_Open env path = Inr content"
    and "\<And>i. \<not> le_exiting env i" and "\<not> lc_Follow options" and "opts = newLogOptions env options"
  shows "gm_str (ctr_Labels c) ContainerLabelPodUID = lc_PodUid options
    \<and> gm_str (ctr_Labels c) ContainerLabelPodContainer = lc_Container options
    \<and> Logs lp options w =
      (Ok (case showLines env opts (None, newLogWriter opts)
             (if lc_TailLines options < 0 then logLines content
              else drop (countEol content - nat (lc_TailLines options)) (logLines content)) of
             Inl r \<Rightarrow> r | Inr st \<Rightarrow> (None, snd st)), v')"
proof -
  have "lo_tail opts = lc_TailLines options" by (simp add: assms(7) newLogOptions_def)
  with assms(1,2) ReadLogs_lines [OF assms(3-5,7,6), of evs] findContainer_match [OF assms(1)] show ?thesis
    by (simp add: Logs_def andThen_def tail_lines)
qed

text \<open>Witness: the last line of the web container.\<close>

theorem logs_show_tail_of_container_witness:
  "Logs goodEngine ((exampleLogsCmd False 1 (- 1))\<lparr>lc_PodUid := ''u1'', lc_Container := ''web''\<rparr>) exampleWorld =
     (Ok (None, \<lparr>lw_stdout = ''c'', lw_stderr = [], lw_remain = 2 ^ 63 - 2\<rparr>), exampleWorld)"
proof -
  let ?options = "(exampleLogsCmd False 1 (- 1))\<lparr>lc_PodUid := ''u1'', lc_Container := ''web''\<rparr>"
  let ?opts = "newLogOptions exampleLogEnv ?options"
  have c: "findContainer goodEngine (lc_PodUid ?options) (lc_Container ?options) exampleWorld = (Ok exampleWeb, exampleWorld)" by code_simp
  have e: "act_logEnv goodEngine exampleWorld = (Ok (exampleLogEnv, []), exampleWorld)" by (simp add: store_engine_def)
  have env: "le_EvalSymlinks exampleLogEnv (ctr_LogPath exampleWeb) = Inr (ctr_LogPath exampleWeb)"
    "le_Open exampleLogEnv (ctr_LogPath exampleWeb) = Inr exampleLog" "\<not> le_exiting exampleLogEnv i" for i
    by (simp_all add: exampleLogEnv_def)
  have f: "\<not> lc_Follow ?options" "lc_TailLines ?options = 1" by (simp_all add: exampleLogsCmd_def)
  have "(case showLines exampleLogEnv ?opts (None, newLogWriter ?opts) (drop (countEol exampleLog - 1) (logLines exampleLog)) of
      Inl r \<Rightarrow> r | Inr st \<Rightarrow> (None, snd st)) = (None, \<lparr>lw_stdout = ''c'', lw_stderr = [], lw_remain = 2 ^ 63 - 2\<rparr>)"
    by code_simp
  with logs_show_tail_of_container [OF c e env f(1) refl] f(2) show ?thesis by simp
qed

end
