(* ===== verification/SeqQueue.thy ===== *)
theory SeqQueue
  imports Prelude "HOL-Library.Word"
begin

text \<open>
  \<^verbatim>\<open>arhat.dev/pkg/queue/seq_queue.go\<close>: the queue that puts the numbered input chunks of a stream back in
  order. The sequence numbers are 64 bit words. Shown: whatever the order and the repetitions in which
  chunks arrive, the queue hands out the chunks 0, 1, 2, ... in this order, each once and each in
  its first version, up to the first one missing or to the maximum that was set; and a maximum below
  what was already handed out leaves the queue open for one more chunk.
\<close>

section \<open>The queue\<close>

record 'a seqData =
  sd_seq :: "64 word"
  sd_data :: 'a

record 'a seqQueue =
  sq_next :: "64 word"
  sq_max :: "64 word"
  sq_data :: "'a seqData list"

definition NewSeqQueue :: "'a seqQueue" where
  "NewSeqQueue = \<lparr>sq_next = 0, sq_max = - 1, sq_data = []\<rparr>"

text \<open>The loop that pops the chunks following the expected one.\<close>

fun popLoop :: "64 word \<Rightarrow> 64 word \<Rightarrow> 'a seqData list \<Rightarrow> 'a list \<times> 64 word" where
  "popLoop next mx [] = ([], next)"
| "popLoop next mx (d # ds) =
     (if sd_seq d \<noteq> next \<or> mx < sd_seq d then ([], next)
      else case popLoop (next + 1) mx ds of (out, next') \<Rightarrow> (sd_data d # out, next'))"

text \<open>The loop that looks for the place of a chunk; \<^term>\<open>None\<close> for a duplicate.\<close>

fun insertAtLoop :: "64 word \<Rightarrow> nat \<Rightarrow> nat \<Rightarrow> 'a seqData list \<Rightarrow> nat option" where
  "insertAtLoop seq i insertAt [] = Some insertAt"
| "insertAtLoop seq i insertAt (d # ds) =
     (if seq < sd_seq d then Some i
      else if sd_seq d = seq then None
      else insertAtLoop seq (i + 1) (i + 1) ds)"

definition Offer :: "64 word \<Rightarrow> 'a \<Rightarrow> 'a seqQueue \<Rightarrow> ('a list \<times> bool) \<times> 'a seqQueue" where
  "Offer seq data q =
     (if sq_max q < sq_next q then (([], True), q)
      else if sq_max q < seq \<or> seq < sq_next q then (([], False), q)
      else if seq = sq_next q then
        (case popLoop (sq_next q + 1) (sq_max q) (sq_data q) of
           (out, next') \<Rightarrow>
             ((data # out, sq_max q < next'),
              q\<lparr>sq_next := next', sq_data := drop (length (data # out) - 1) (sq_data q)\<rparr>))
      else
        (case insertAtLoop seq 0 0 (sq_data q) of
           None \<Rightarrow> (([], False), q)
         | Some k \<Rightarrow>
             (([], False),
              q\<lparr>sq_data := take k (sq_data q) @ \<lparr>sd_seq = seq, sd_data = data\<rparr> # drop k (sq_data q)\<rparr>)))"

definition SetMaxSeq :: "64 word \<Rightarrow> 'a seqQueue \<Rightarrow> bool \<times> 'a seqQueue" where
  "SetMaxSeq maxSeq q =
     (if maxSeq < sq_next q then (True, q\<lparr>sq_max := sq_next q\<rparr>) else (False, q\<lparr>sq_max := maxSeq\<rparr>))"

definition sq_Reset :: "'a seqQueue \<Rightarrow> 'a seqQueue" where
  "sq_Reset q = q\<lparr>sq_next := 0, sq_max := - 1, sq_data := []\<rparr>"

text \<open>A series of offers: everything that is handed out, and the queue after it.\<close>

fun offerAll :: "(64 word \<times> 'a) list \<Rightarrow> 'a seqQueue \<Rightarrow> 'a list \<times> 'a seqQueue" where
  "offerAll [] q = ([], q)"
| "offerAll ((seq, data) # zs) q =
     (case Offer seq data q of ((out, _), q') \<Rightarrow>
      case offerAll zs q' of (out', q'') \<Rightarrow> (out @ out', q''))"

section \<open>The loops\<close>

text \<open>The chunks that wait, as a map.\<close>

definition waiting :: "'a seqData list \<Rightarrow> 64 word \<Rightarrow> 'a option" where
  "waiting ds = map_of (map (\<lambda>d. (sd_seq d, sd_data d)) ds)"

definition inOrder :: "'a seqData list \<Rightarrow> bool" where
  "inOrder ds \<longleftrightarrow> sorted_wrt (<) (map sd_seq ds) \<and> (\<forall>d\<in>set ds. sd_seq d \<noteq> - 1)"

text \<open>The chunks with the numbers from \<open>a\<close> to \<open>b\<close>.\<close>

definition chunks :: "(64 word \<Rightarrow> 'a option) \<Rightarrow> nat \<Rightarrow> nat \<Rightarrow> 'a list" where
  "chunks m a b = map (\<lambda>i. the (m (word_of_nat i))) [a..<b]"

lemma waiting_simps [simp]:
  "waiting [] = Map.empty" "waiting (d # ds) = (waiting ds)(sd_seq d \<mapsto> sd_data d)"
  by (simp_all add: waiting_def)

lemma waiting_None: "waiting ds s = None \<longleftrightarrow> (\<forall>d\<in>set ds. sd_seq d \<noteq> s)"
  by (induction ds) auto

lemma inOrder_simps [simp]:
  "inOrder []"
  "inOrder (d # ds) \<longleftrightarrow> sd_seq d \<noteq> - 1 \<and> (\<forall>e\<in>set ds. sd_seq d < sd_seq e) \<and> inOrder ds"
  by (auto simp: inOrder_def)

lemma inOrder_drop: "inOrder ds \<Longrightarrow> inOrder (drop k ds)"
  unfolding inOrder_def by (metis drop_map in_set_dropD sorted_wrt_drop)

lemma unat_next: "(s::64 word) \<noteq> - 1 \<Longrightarrow> unat (s + 1) = Suc (unat s)"
  by (metis add.commute add_eq_0_iff unatSuc)

lemma less_next: "(s::64 word) \<noteq> - 1 \<Longrightarrow> t < s + 1 \<longleftrightarrow> t \<le> s"
  by (simp add: word_less_nat_alt word_le_nat_alt unat_next less_Suc_eq_le)

lemma next_le: "(s::64 word) \<noteq> - 1 \<Longrightarrow> s + 1 \<le> t \<longleftrightarrow> s < t"
  by (simp add: word_less_nat_alt word_le_nat_alt unat_next Suc_le_eq)

lemma chunks_append: "a \<le> b \<Longrightarrow> b \<le> c \<Longrightarrow> chunks m a b @ chunks m b c = chunks m a c"
  unfolding chunks_def by (metis le_add_diff_inverse map_append upt_add_eq_append)

lemma chunks_cong:
  "(\<And>s. a \<le> unat s \<Longrightarrow> unat s < b \<Longrightarrow> m s = m' s) \<Longrightarrow> b \<le> 2 ^ 64 \<Longrightarrow> chunks m a b = chunks m' a b"
  unfolding chunks_def by (auto simp: unat_of_nat take_bit_nat_eq_self)

lemma chunks_one: "chunks m (unat s) (Suc (unat s)) = [the (m s)]"
  by (simp add: chunks_def)

text \<open>Popping hands out the chunks that follow without a gap, up to the maximum.\<close>

lemma popLoop_spec:
  assumes "popLoop n mx ds = (out, n')" and "inOrder ds" and "\<forall>d\<in>set ds. n \<le> sd_seq d"
  shows "n \<le> n' \<and> out = chunks (waiting ds) (unat n) (unat n')
    \<and> (\<forall>s. n \<le> s \<longrightarrow> s < n' \<longrightarrow> waiting ds s \<noteq> None \<and> s \<le> mx)
    \<and> (n' \<le> mx \<longrightarrow> (\<forall>d\<in>set (drop (length out) ds). n' < sd_seq d)
         \<and> (\<forall>s\<ge>n'. waiting (drop (length out) ds) s = waiting ds s))"
  using assms
proof (induction ds arbitrary: n out)
  case Nil
  then show ?case by (auto simp: chunks_def)
next
  case (Cons d ds)
  show ?case
  proof (cases "sd_seq d \<noteq> n \<or> mx < sd_seq d")
    case True
    with Cons.prems show ?thesis by (auto simp: chunks_def order_less_le)
  next
    case False
    then have d: "sd_seq d = n" "n \<le> mx" by auto
    with Cons.prems(2) have n: "n \<noteq> - 1" "inOrder ds" "\<forall>e\<in>set ds. n + 1 \<le> sd_seq e"
      by (auto simp: next_le)
    obtain out' where out: "popLoop (n + 1) mx ds = (out', n')" "out = sd_data d # out'"
      using Cons.prems(1) False by (auto split: prod.splits)
    note IH = Cons.IH [OF out(1) n(2,3)]
    then have n': "n < n'" using n(1) by (simp add: next_le)
    have "chunks (waiting ds) (unat (n + 1)) (unat n') = chunks (waiting (d # ds)) (unat (n + 1)) (unat n')"
      by (rule chunks_cong) (auto simp: d(1) unat_next [OF n(1)] less_imp_le [OF unsigned_less [of n', simplified]])
    moreover have "[sd_data d] = chunks (waiting (d # ds)) (unat n) (unat (n + 1))"
      by (simp add: unat_next [OF n(1)] chunks_one d(1))
    moreover have "chunks (waiting (d # ds)) (unat n) (unat n')
        = chunks (waiting (d # ds)) (unat n) (unat (n + 1)) @ chunks (waiting (d # ds)) (unat (n + 1)) (unat n')"
      using n' by (intro chunks_append [symmetric]) (simp_all add: unat_next [OF n(1)] word_less_nat_alt)
    ultimately have "out = chunks (waiting (d # ds)) (unat n) (unat n')"
      using IH out(2) by simp
    moreover have "waiting (d # ds) s \<noteq> None \<and> s \<le> mx" if "n \<le> s" "s < n'" for s
      using IH that d by (cases "s = n") (auto simp: next_le [OF n(1)])
    moreover have "waiting (drop (length out) (d # ds)) s = waiting (d # ds) s" if "n' \<le> mx" "n' \<le> s" for s
      using IH that n' d(1) out(2) by auto
    moreover have "\<forall>e\<in>set (drop (length out) (d # ds)). n' < sd_seq e" if "n' \<le> mx"
      using IH that out(2) by simp
    ultimately show ?thesis using less_imp_le [OF n'] by blast
  qed
qed

text \<open>A chunk that is not there yet goes to its place.\<close>

lemma insertAtLoop_spec:
  assumes "inOrder ds"
  shows "case insertAtLoop seq i i ds of
      None \<Rightarrow> waiting ds seq \<noteq> None
    | Some k \<Rightarrow> i \<le> k \<and> k \<le> i + length ds \<and> (\<forall>d\<in>set (take (k - i) ds). sd_seq d < seq)
                \<and> (\<forall>d\<in>set (drop (k - i) ds). seq < sd_seq d)"
  using assms
proof (induction ds arbitrary: i)
  case (Cons d ds)
  show ?case
  proof (cases "seq < sd_seq d \<or> sd_seq d = seq")
    case True
    with Cons.prems show ?thesis by auto
  next
    case False
    then have "sd_seq d < seq" by auto
    with Cons.IH [of "Suc i"] Cons.prems False show ?thesis
      by (auto split: option.splits simp: Suc_diff_le take_Cons' drop_Cons' dest: Suc_le_lessD)
  qed
qed simp

section \<open>What has been handed out\<close>

text \<open>The queue after the offers \<open>zs\<close>, of which \<open>outs\<close> has been handed out.\<close>

definition seqInv :: "(64 word \<times> 'a) list \<Rightarrow> 'a list \<Rightarrow> 'a seqQueue \<Rightarrow> bool" where
  "seqInv zs outs q \<longleftrightarrow>
     outs = chunks (map_of zs) 0 (unat (sq_next q)) \<and> (\<forall>s < sq_next q. map_of zs s \<noteq> None)
     \<and> unat (sq_next q) \<le> Suc (unat (sq_max q)) \<and> inOrder (sq_data q)
     \<and> (sq_next q \<le> sq_max q \<longrightarrow>
          (\<forall>d\<in>set (sq_data q). sq_next q < sd_seq d)
          \<and> (\<forall>s. sq_next q \<le> s \<longrightarrow> s \<le> sq_max q \<longrightarrow> map_of zs s = waiting (sq_data q) s))"

lemma seqInv_new: "seqInv [] [] NewSeqQueue"
  by (simp add: seqInv_def NewSeqQueue_def chunks_def)

lemma map_of_snoc:
  "map_of (zs @ [(s, d)]) t = (case map_of zs t of None \<Rightarrow> if t = s then Some d else None | Some x \<Rightarrow> Some x)"
  by (auto simp: map_add_def split: option.splits)

text \<open>An offer that is discarded leaves the queue correct.\<close>

lemma seqInv_discard:
  assumes "seqInv zs outs q" and "sq_next q \<le> sq_max q \<longrightarrow> s \<le> sq_max q \<longrightarrow> map_of zs s \<noteq> None"
  shows "seqInv (zs @ [(s, d)]) outs q"
proof -
  have "chunks (map_of (zs @ [(s, d)])) 0 (unat (sq_next q)) = chunks (map_of zs) 0 (unat (sq_next q))"
    using assms(1) less_imp_le [OF unsigned_less [of "sq_next q", simplified]]
    by (intro chunks_cong) (auto simp: seqInv_def map_of_snoc word_less_nat_alt simp del: map_of_append split: option.splits)
  with assms show ?thesis
    by (auto simp: seqInv_def map_of_snoc simp del: map_of_append split: option.splits)
qed

lemma Offer_next:
  assumes inv: "seqInv zs outs q" and q: "sq_next q \<le> sq_max q" "s = sq_next q" "s \<noteq> - 1"
    and pop: "popLoop (sq_next q + 1) (sq_max q) (sq_data q) = (out, n')"
  shows "seqInv (zs @ [(s, d)]) (outs @ d # out)
           (q\<lparr>sq_next := n', sq_data := drop (length out) (sq_data q)\<rparr>)"
proof -
  let ?m = "map_of (zs @ [(s, d)])" and ?w = "waiting (sq_data q)"
  have ds: "inOrder (sq_data q)" "\<forall>e\<in>set (sq_data q). s + 1 \<le> sd_seq e"
    using inv q by (auto simp: seqInv_def next_le)
  note P = popLoop_spec [OF pop ds(1) ds(2) [unfolded q(2)], folded q(2)]
  have w: "?m t = ?w t" if "s < t" "t \<le> sq_max q" for t
    using inv q that by (auto simp: seqInv_def map_of_snoc simp del: map_of_append split: option.splits)
  have s: "map_of zs s = None"
    using inv q by (auto simp: seqInv_def waiting_None)
  then have ms: "?m s = Some d" by (simp add: map_of_snoc del: map_of_append)
  have old: "?m t = map_of zs t" if "t < s" for t
    using inv q that by (auto simp: seqInv_def map_of_snoc simp del: map_of_append split: option.splits)
  have n': "s < n'" using P by (simp add: next_le [OF q(3)])
  have b: "unat t \<le> 2 ^ 64" for t :: "64 word" using less_imp_le [OF unsigned_less [of t, simplified]] by simp
  have "outs = chunks ?m 0 (unat s)"
    using inv q(2) b old by (auto simp: seqInv_def word_less_nat_alt simp del: map_of_append intro!: chunks_cong)
  moreover have "[d] = chunks ?m (unat s) (unat (s + 1))"
    by (simp add: unat_next [OF q(3)] chunks_one ms del: map_of_append)
  moreover have "out = chunks ?m (unat (s + 1)) (unat n')"
  proof -
    have "chunks ?w (unat (s + 1)) (unat n') = chunks ?m (unat (s + 1)) (unat n')"
    proof (rule chunks_cong)
      fix t :: "64 word" assume "unat (s + 1) \<le> unat t" "unat t < unat n'"
      then have "s + 1 \<le> t" "t < n'" by (simp_all add: word_le_nat_alt word_less_nat_alt)
      with P w [of t] show "?w t = ?m t" by (auto simp: next_le [OF q(3)] simp del: map_of_append)
    qed (rule b)
    with P show ?thesis by simp
  qed
  moreover have "chunks ?m 0 (unat n')
      = chunks ?m 0 (unat s) @ chunks ?m (unat s) (unat (s + 1)) @ chunks ?m (unat (s + 1)) (unat n')"
    using n' by (simp add: chunks_append unat_next [OF q(3)] word_less_nat_alt del: map_of_append)
  ultimately have "outs @ d # out = chunks ?m 0 (unat n')" by simp
  moreover have "?m t \<noteq> None" if "t < n'" for t
  proof (cases "t < s")
    case True
    with old inv q(2) show ?thesis by (auto simp: seqInv_def simp del: map_of_append)
  next
    case False
    with P that w [of t] ms show ?thesis by (cases "t = s") (auto simp: next_le [OF q(3)] simp del: map_of_append)
  qed
  moreover have "unat n' \<le> Suc (unat (sq_max q))"
  proof (cases "n' = s + 1")
    case True
    with q show ?thesis by (simp add: unat_next word_le_nat_alt)
  next
    case False
    with P have "s + 1 < n'" by auto
    then have "s + 1 \<le> n' - 1" "n' - 1 < n'" "n' \<noteq> 0"
      by (auto simp: word_le_nat_alt word_less_nat_alt unat_sub_if' unat_next [OF q(3)])
    with P have "n' - 1 \<le> sq_max q" by blast
    with \<open>n' \<noteq> 0\<close> show ?thesis by (simp add: word_le_nat_alt unat_minus_one le_diff_conv)
  qed
  ultimately show ?thesis
    using P n' w inOrder_drop [OF ds(1)] by (auto simp: seqInv_def simp del: map_of_append)
qed

lemma waiting_insert:
  assumes "\<forall>e\<in>set as. sd_seq e \<noteq> s" and "\<forall>e\<in>set bs. sd_seq e \<noteq> s"
  shows "waiting (as @ \<lparr>sd_seq = s, sd_data = d\<rparr> # bs) = (waiting (as @ bs))(s \<mapsto> d)"
  using assms by (induction as) (auto simp: fun_upd_twist)

lemma inOrder_insert:
  assumes "inOrder (as @ bs)" and "\<forall>e\<in>set as. sd_seq e < s" and "\<forall>e\<in>set bs. s < sd_seq e" and "s \<noteq> - 1"
  shows "inOrder (as @ \<lparr>sd_seq = s, sd_data = d\<rparr> # bs)"
  using assms by (auto simp: inOrder_def sorted_wrt_append)

lemma seqInv_store:
  assumes inv: "seqInv zs outs q" and q: "sq_next q \<le> sq_max q" "s \<noteq> - 1" "sq_next q < s" "s \<le> sq_max q"
    and k: "\<forall>e\<in>set (take k (sq_data q)). sd_seq e < s" "\<forall>e\<in>set (drop k (sq_data q)). s < sd_seq e"
  shows "seqInv (zs @ [(s, d)]) outs
           (q\<lparr>sq_data := take k (sq_data q) @ \<lparr>sd_seq = s, sd_data = d\<rparr> # drop k (sq_data q)\<rparr>)"
proof -
  let ?new = "take k (sq_data q) @ \<lparr>sd_seq = s, sd_data = d\<rparr> # drop k (sq_data q)"
  have w: "waiting ?new = (waiting (sq_data q))(s \<mapsto> d)"
    using waiting_insert [of "take k (sq_data q)" s "drop k (sq_data q)" d] k by auto
  have "waiting (sq_data q) s = None"
    using k set_append [of "take k (sq_data q)" "drop k (sq_data q)"] by (auto simp: waiting_None)
  with inv q have none: "map_of zs s = None" by (auto simp: seqInv_def)
  have "chunks (map_of (zs @ [(s, d)])) 0 (unat (sq_next q)) = chunks (map_of zs) 0 (unat (sq_next q))"
    using q less_imp_le [OF unsigned_less [of "sq_next q", simplified]]
    by (intro chunks_cong) (auto simp: map_of_snoc word_less_nat_alt simp del: map_of_append split: option.splits)
  moreover have "inOrder ?new"
    by (rule inOrder_insert [OF _ k q(2)]) (use inv in \<open>simp add: seqInv_def\<close>)
  moreover have "set ?new = insert \<lparr>sd_seq = s, sd_data = d\<rparr> (set (sq_data q))"
    using set_append [of "take k (sq_data q)" "drop k (sq_data q)"] by simp
  ultimately show ?thesis
    using inv q none w by (auto simp: seqInv_def map_of_snoc simp del: map_of_append split: option.splits)
qed

lemma Offer_cases:
  "sq_max q < sq_next q \<Longrightarrow> Offer s d q = (([], True), q)"
  "sq_next q \<le> sq_max q \<Longrightarrow> sq_max q < s \<or> s < sq_next q \<Longrightarrow> Offer s d q = (([], False), q)"
  "sq_next q \<le> sq_max q \<Longrightarrow> s = sq_next q \<Longrightarrow> popLoop (s + 1) (sq_max q) (sq_data q) = (out, n') \<Longrightarrow>
   Offer s d q = ((d # out, sq_max q < n'), q\<lparr>sq_next := n', sq_data := drop (length out) (sq_data q)\<rparr>)"
  "s \<le> sq_max q \<Longrightarrow> sq_next q < s \<Longrightarrow> insertAtLoop s 0 0 (sq_data q) = None \<Longrightarrow> Offer s d q = (([], False), q)"
  "s \<le> sq_max q \<Longrightarrow> sq_next q < s \<Longrightarrow> insertAtLoop s 0 0 (sq_data q) = Some k \<Longrightarrow>
   Offer s d q = (([], False), q\<lparr>sq_data := take k (sq_data q) @ \<lparr>sd_seq = s, sd_data = d\<rparr> # drop k (sq_data q)\<rparr>)"
  by (auto simp: Offer_def)

lemma Offer_seqInv:
  assumes inv: "seqInv zs outs q" and s: "s \<noteq> - 1" and r: "Offer s d q = ((out, c), q')"
  shows "seqInv (zs @ [(s, d)]) (outs @ out) q' \<and> sq_max q' = sq_max q \<and> (c \<longrightarrow> sq_max q' < sq_next q')"
proof -
  consider (full) "sq_max q < sq_next q"
    | (discard) "sq_next q \<le> sq_max q" "sq_max q < s \<or> s < sq_next q"
    | (nxt) "sq_next q \<le> sq_max q" "s = sq_next q"
    | (store) "sq_next q \<le> sq_max q" "s \<le> sq_max q" "sq_next q < s"
    by fastforce
  then show ?thesis
  proof cases
    case full
    with r seqInv_discard [OF inv, of s d] show ?thesis by (auto simp: Offer_cases(1))
  next
    case discard
    with inv have "s \<le> sq_max q \<longrightarrow> map_of zs s \<noteq> None" by (auto simp: seqInv_def)
    with r seqInv_discard [OF inv, of s d] show ?thesis by (simp add: Offer_cases(2) [OF discard])
  next
    case nxt
    obtain o' n' where pop: "popLoop (sq_next q + 1) (sq_max q) (sq_data q) = (o', n')" by fastforce
    with r Offer_next [OF inv nxt s pop, of d] show ?thesis
      by (auto simp: Offer_cases(3) [OF nxt pop [folded nxt(2)]])
  next
    case store
    with inv have ds: "inOrder (sq_data q)" "\<forall>e\<in>set (sq_data q). sq_next q < sd_seq e"
      and m: "map_of zs s = waiting (sq_data q) s" by (auto simp: seqInv_def)
    note L = insertAtLoop_spec [OF ds(1), of s 0]
    show ?thesis
    proof (cases "insertAtLoop s 0 0 (sq_data q)")
      case None
      with L m r seqInv_discard [OF inv, of s d] show ?thesis
        by (simp add: Offer_cases(4) [OF store(2,3) None])
    next
      case (Some k)
      with L r seqInv_store [OF inv store(1) s store(3,2), of k d] show ?thesis
        by (auto simp: Offer_cases(5) [OF store(2,3) Some])
    qed
  qed
qed

lemma offerAll_seqInv:
  assumes "seqInv zs outs q" and "\<forall>z\<in>set ws. fst z \<noteq> - 1" and "offerAll ws q = (out, q')"
  shows "seqInv (zs @ ws) (outs @ out) q' \<and> sq_max q' = sq_max q"
  using assms
proof (induction ws arbitrary: zs outs q out)
  case (Cons w ws)
  obtain s d where w: "w = (s, d)" by fastforce
  obtain o1 c q1 where o: "Offer s d q = ((o1, c), q1)" by (metis surj_pair)
  obtain o2 where ws: "offerAll ws q1 = (o2, q')" "out = o1 @ o2"
    using Cons.prems(3) by (auto simp: w o split: prod.splits)
  have "s \<noteq> - 1" using Cons.prems(2) by (simp add: w)
  note O = Offer_seqInv [OF Cons.prems(1) this o]
  with Cons.IH [OF conjunct1 [OF O] _ ws(1)] Cons.prems(2) ws(2) show ?case by (simp add: w)
qed simp

lemma SetMaxSeq_seqInv:
  assumes "seqInv zs outs q" and "sq_next q \<le> m" and "m \<le> sq_max q"
  shows "SetMaxSeq m q = (False, q\<lparr>sq_max := m\<rparr>) \<and> seqInv zs outs (q\<lparr>sq_max := m\<rparr>)"
  using assms by (auto simp: SetMaxSeq_def seqInv_def word_le_nat_alt word_less_nat_alt)

section \<open>The properties\<close>

text \<open>C7: The sequence queue delivers in order. Whatever the order in which the chunks \<open>xs\<close> arrive before
  the maximum \<open>m\<close> is set and the chunks \<open>ys\<close> after it, repetitions included, what is handed out is the
  first version of the chunks 0, 1, 2, ... up to the first one missing, or up to \<open>m\<close> when none is
  missing. (A chunk with the largest 64 bit number, which no stream reaches, is excluded, and \<open>m\<close> is
  not below what was already handed out.)\<close>

theorem seq_queue_delivers_in_order:
  assumes "offerAll xs NewSeqQueue = (out1, q1)" and "offerAll ys (snd (SetMaxSeq m q1)) = (out2, q2)"
    and "\<forall>z\<in>set (xs @ ys). fst z \<noteq> - 1" and "\<exists>s\<le>m. s \<notin> fst ` set xs"
  shows "\<exists>n \<le> Suc (unat m). out1 @ out2 = map (\<lambda>i. the (map_of (xs @ ys) (word_of_nat i))) [0..<n]
    \<and> (\<forall>i<n. map_of (xs @ ys) (word_of_nat i) \<noteq> None)
    \<and> (n \<le> unat m \<longrightarrow> map_of (xs @ ys) (word_of_nat n) = None)"
proof -
  have 1: "seqInv xs out1 q1" "sq_max q1 = - 1"
    using offerAll_seqInv [OF seqInv_new _ assms(1)] assms(3) by (simp_all add: NewSeqQueue_def)
  have "sq_next q1 \<le> m"
  proof (rule ccontr)
    assume "\<not> sq_next q1 \<le> m"
    with 1(1) have "\<forall>s\<le>m. s \<in> fst ` set xs" by (auto simp: seqInv_def map_of_eq_None_iff)
    with assms(4) show False by blast
  qed
  with SetMaxSeq_seqInv [OF 1(1), of m] 1(2) assms(2)
  have "seqInv xs out1 (q1\<lparr>sq_max := m\<rparr>)" "offerAll ys (q1\<lparr>sq_max := m\<rparr>) = (out2, q2)" by auto
  from offerAll_seqInv [OF this(1) _ this(2)] assms(3)
  have 2: "seqInv (xs @ ys) (out1 @ out2) q2" "sq_max q2 = m" by auto
  have "map_of (xs @ ys) (word_of_nat i) \<noteq> None" if "i < unat (sq_next q2)" for i
  proof -
    have "word_of_nat i < sq_next q2"
      using that unsigned_less [of "sq_next q2"] by (simp add: word_less_nat_alt unat_of_nat take_bit_nat_eq_self)
    with 2 show ?thesis by (simp add: seqInv_def)
  qed
  moreover have "map_of (xs @ ys) (sq_next q2) = None" if "unat (sq_next q2) \<le> unat m"
    using 2 that by (auto simp: seqInv_def waiting_None word_le_nat_alt simp del: map_of_append)
  ultimately show ?thesis
    using 2 by (intro exI [of _ "unat (sq_next q2)"]) (simp add: seqInv_def chunks_def del: map_of_append)
qed

theorem seq_queue_delivers_in_order_witness:
  "offerAll [(1, ''b''), (0, ''a''), (1, ''x'')] NewSeqQueue = ([''a'', ''b''], \<lparr>sq_next = 2, sq_max = - 1, sq_data = []\<rparr>)
   \<and> fst (offerAll [(3, ''d''), (2, ''c'')] \<lparr>sq_next = 2, sq_max = 2, sq_data = []\<rparr>) = [''c'']
   \<and> (\<exists>n \<le> 3. [''a'', ''b'', ''c'']
        = map (\<lambda>i. the (map_of [(1, ''b''), (0, ''a''), (1, ''x''), (3, ''d''), (2 :: 64 word, ''c'')] (word_of_nat i))) [0..<n])"
proof -
  let ?xs = "[(1, ''b''), (0, ''a''), (1, ''x'')] :: (64 word \<times> string) list"
  let ?ys = "[(3, ''d''), (2, ''c'')] :: (64 word \<times> string) list"
  have 1: "offerAll ?xs NewSeqQueue = ([''a'', ''b''], \<lparr>sq_next = 2, sq_max = - 1, sq_data = []\<rparr>)"
    by code_simp
  have 2: "offerAll ?ys (snd (SetMaxSeq 2 \<lparr>sq_next = 2, sq_max = - 1, sq_data = []\<rparr>))
      = ([''c''], \<lparr>sq_next = 3, sq_max = 2, sq_data = []\<rparr>)"
    by code_simp
  have 3: "fst (offerAll ?ys \<lparr>sq_next = 2, sq_max = 2, sq_data = []\<rparr>) = [''c'']" by code_simp
  have "(2::64 word) \<notin> fst ` set ?xs" by simp
  then have "\<exists>s\<le>(2::64 word). s \<notin> fst ` set ?xs" by blast
  have u: "Suc (unat (2 :: 64 word)) = 3" by simp
  have "\<forall>z\<in>set (?xs @ ?ys). fst z \<noteq> - 1" by simp
  note seq_queue_delivers_in_order [OF 1 2 this \<open>\<exists>s\<le>2. s \<notin> fst ` set ?xs\<close>, unfolded u]
  then have "\<exists>n \<le> 3. [''a'', ''b''] @ [''c''] = map (\<lambda>i. the (map_of (?xs @ ?ys) (word_of_nat i))) [0..<n]"
    by (rule ex_forward) (erule conj_forward, assumption, erule conjunct1)
  with 1 3 show ?thesis unfolding append_Cons append_Nil by (intro conjI)
qed

text \<open>Setting a maximum that was already passed does not close the queue, although the call reports
  completion: the maximum becomes the next number, and the chunk with that number is still handed
  out; only then is the queue complete.\<close>

theorem late_max_takes_one_more:
  assumes "m < sq_next q" and "sq_next q \<noteq> - 1" and "inOrder (sq_data q)" and "\<forall>d\<in>set (sq_data q). sq_next q < sd_seq d"
  shows "SetMaxSeq m q = (True, q\<lparr>sq_max := sq_next q\<rparr>)
    \<and> fst (Offer (sq_next q) d (snd (SetMaxSeq m q))) = ([d], True)"
proof -
  have "popLoop (sq_next q + 1) (sq_next q) (sq_data q) = ([], sq_next q + 1)"
    using assms(2,4) by (cases "sq_data q") (auto simp: not_less)
  moreover have "sq_next q < sq_next q + 1" using assms(2) by (simp add: less_next)
  ultimately show ?thesis using assms(1) by (simp add: SetMaxSeq_def Offer_def)
qed

theorem late_max_takes_one_more_witness:
  "fst (Offer 2 ''late'' (snd (SetMaxSeq 0 (snd (offerAll [(0, ''a''), (1, ''b'')] NewSeqQueue))))) = ([''late''], True)"
proof -
  let ?q = "\<lparr>sq_next = 2, sq_max = - 1, sq_data = []\<rparr> :: string seqQueue"
  have q: "snd (offerAll [(0, ''a''), (1, ''b'')] NewSeqQueue) = ?q"
    by code_simp
  have "fst (Offer (sq_next ?q) ''late'' (snd (SetMaxSeq 0 ?q))) = ([''late''], True)"
    by (rule conjunct2 [OF late_max_takes_one_more]) simp_all
  then show ?thesis by (simp only: q seqQueue.select_convs)
qed

end
