(* ===== verification/Steps.thy ===== *)
theory Steps
  imports Main
begin

text \<open>
  Runs of the state machines of the development. A machine is a step function that gives the next state
  for an event, or \<^term>\<open>None\<close> where the event cannot happen; a run is a list of events, each of which can
  happen; reachability is its closure, with the rule that an invariant of the steps is one of
  all reachable states.
\<close>

fun runSteps :: "('e \<Rightarrow> 's \<Rightarrow> 's option) \<Rightarrow> 'e list \<Rightarrow> 's \<Rightarrow> 's option" where
  "runSteps step [] st = Some st"
| "runSteps step (ev # evs) st = (case step ev st of None \<Rightarrow> None | Some st' \<Rightarrow> runSteps step evs st')"

inductive stepReaches :: "('e \<Rightarrow> 's \<Rightarrow> 's option) \<Rightarrow> 's \<Rightarrow> 's \<Rightarrow> bool" for step where
  reaches_refl: "stepReaches step st st"
| reaches_step: "stepReaches step st st' \<Longrightarrow> step ev st' = Some st'' \<Longrightarrow> stepReaches step st st''"

lemma stepReaches_trans: "stepReaches step b c \<Longrightarrow> stepReaches step a b \<Longrightarrow> stepReaches step a c"
  by (induction rule: stepReaches.induct) (auto intro: stepReaches.intros)

lemma runSteps_append:
  "runSteps step (a @ b) st = (case runSteps step a st of None \<Rightarrow> None | Some st' \<Rightarrow> runSteps step b st')"
  by (induction a arbitrary: st) (auto split: option.splits)

lemma runSteps_reaches: "runSteps step evs st = Some st' \<Longrightarrow> stepReaches step st st'"
proof (induction evs arbitrary: st)
  case (Cons ev evs)
  then obtain st1 where "step ev st = Some st1" "runSteps step evs st1 = Some st'" by (auto split: option.splits)
  with Cons.IH [of st1] show ?case by (meson stepReaches.intros stepReaches_trans)
qed (simp add: reaches_refl)

lemma stepReaches_inv:
  assumes "stepReaches step st st'" and "P st" and "\<And>ev st st'. step ev st = Some st' \<Longrightarrow> P st \<Longrightarrow> P st'"
  shows "P st'"
  using assms by (induction rule: stepReaches.induct) auto

lemma runSteps_inv:
  assumes "runSteps step evs st = Some st'" and "P st" and "\<And>ev st st'. ev \<in> set evs \<Longrightarrow> step ev st = Some st' \<Longrightarrow> P st \<Longrightarrow> P st'"
  shows "P st'"
  using assms
proof (induction evs arbitrary: st)
  case (Cons ev evs)
  then obtain st1 where "step ev st = Some st1" "runSteps step evs st1 = Some st'" by (auto split: option.splits)
  with Cons.IH [of st1] Cons.prems(2,3) show ?case by auto
qed simp

lemma nth_upd: "xs[m := x] ! i = (if i = m \<and> m < length xs then x else xs ! i)"
  by (cases "i = m") (auto simp: list_update_beyond)

end
