(* ===== verification/Streams.thy ===== *)
theory Streams
  imports SeqQueue Steps "HOL-Library.Sublist"
begin

text \<open>
  \<^verbatim>\<open>libext/extutil/streaming.go\<close>: the stream manager, which hands the input chunks of a session to the
  command that runs for it. Its operations are called by the goroutine that handles the commands of
  the hub and by one goroutine per running operation, so the manager is a state machine: every call is
  a thread with a program counter, and a step is a piece of code without a blocking operation. A thread
  waits for the mutex of the manager (\<^verbatim>\<open>mu\<close>) or spins on the flag \<^verbatim>\<open>working\<close> of a stream; a step of a
  spinning thread is one successful compare-and-swap. The function that \<^verbatim>\<open>Add\<close> calls to create the
  writer is represented by its result, and the writer by the chunks written to it. Shown: chunks are
  written in order; a call returns as long as nobody closes an input; and closing the input of a session
  stops the whole manager once its operation ends.
\<close>

section \<open>The manager\<close>

record stream =
  st_sid :: "64 word"
  st_seqQ :: "string seqQueue"
  st_written :: "string list"
  st_closed :: bool
  st_rF :: bool
  st_resizes :: "(32 word \<times> 32 word) list"
  st_working :: bool

text \<open>The calls: for \<^verbatim>\<open>Add\<close> with the result of its function, an error or whether there is a resize
  function; for \<^verbatim>\<open>Write\<close> with the data, \<^term>\<open>None\<close> for \<^verbatim>\<open>nil\<close>.\<close>

datatype smCall =
    CallAdd "64 word" "goerr + bool"
  | CallDel "64 word"
  | CallWrite "64 word" "64 word" "string option"
  | CallResize "64 word" "32 word" "32 word"

datatype smPc = Called | DelSpin nat | DelClose nat | WriteSpin nat | WriteWork nat | ResizeWork nat | Returned "goerr option"

record smState =
  sm_sessions :: "(64 word, nat) gomap"
  sm_streams :: "stream list"
  sm_mu :: "nat option"
  sm_threads :: "(smCall \<times> smPc) list"

definition NewStreamManager :: smState where
  "NewStreamManager = \<lparr>sm_sessions = [], sm_streams = [], sm_mu = None, sm_threads = []\<rparr>"

definition newStream :: "64 word \<Rightarrow> bool \<Rightarrow> stream" where
  "newStream sid rF = \<lparr>st_sid = sid, st_seqQ = NewSeqQueue, st_written = [], st_closed = False, st_rF = rF,
     st_resizes = [], st_working = False\<rparr>"

definition goto :: "nat \<Rightarrow> smPc \<Rightarrow> smState \<Rightarrow> smState" where
  "goto t pc st = st\<lparr>sm_threads := (sm_threads st)[t := (fst (sm_threads st ! t), pc)]\<rparr>"

definition updStream :: "nat \<Rightarrow> (stream \<Rightarrow> stream) \<Rightarrow> smState \<Rightarrow> smState" where
  "updStream k f st = st\<lparr>sm_streams := (sm_streams st)[k := f (sm_streams st ! k)]\<rparr>"

definition setWorking :: "nat \<Rightarrow> bool \<Rightarrow> smState \<Rightarrow> smState" where
  "setWorking k b = updStream k (st_working_update (\<lambda>_. b))"

text \<open>\<^verbatim>\<open>Add\<close>: the whole body is protected by the mutex.\<close>

definition sm_Add :: "nat \<Rightarrow> 64 word \<Rightarrow> goerr + bool \<Rightarrow> smState \<Rightarrow> smState option" where
  "sm_Add t sid created st =
     (if sm_mu st \<noteq> None then None
      else case map_of (sm_sessions st) sid of
        Some _ \<Rightarrow> Some (goto t (Returned (Some ErrAlreadyExists)) st)
      | None \<Rightarrow>
          (case created of
             Inl err \<Rightarrow> Some (goto t (Returned (Some err)) st)
           | Inr rF \<Rightarrow>
               Some (goto t (Returned None)
                 (st\<lparr>sm_sessions := gm_put sid (length (sm_streams st)) (sm_sessions st),
                    sm_streams := sm_streams st @ [newStream sid rF]\<rparr>))))"

text \<open>\<^verbatim>\<open>Del\<close>: it takes the mutex, spins on the flag of the stream in \<^verbatim>\<open>close\<close>, closes the writer, and gives the
  flag and the mutex back.\<close>

definition sm_Del :: "nat \<Rightarrow> 64 word \<Rightarrow> smState \<Rightarrow> smState option" where
  "sm_Del t sid st =
     (if sm_mu st \<noteq> None then None
      else case map_of (sm_sessions st) sid of
        None \<Rightarrow> Some (goto t (Returned None) st)
      | Some k \<Rightarrow> Some (goto t (DelSpin k) (st\<lparr>sm_mu := Some t\<rparr>)))"

definition stream_close :: "nat \<Rightarrow> 64 word \<Rightarrow> nat \<Rightarrow> smState \<Rightarrow> smState" where
  "stream_close t sid k st =
     (let st' = setWorking k False (updStream k (st_closed_update (\<lambda>_. True)) st) in
      goto t (Returned None) (st'\<lparr>sm_sessions := gm_del sid (sm_sessions st'), sm_mu := None\<rparr>))"

text \<open>\<^verbatim>\<open>Write\<close>: the session is looked up under the read lock; \<^verbatim>\<open>write\<close> spins on the flag. What is written to a
  closed writer is lost, the error is ignored. With no data the maximum is set, and the function
  returns without giving the flag back.\<close>

definition sm_Write :: "nat \<Rightarrow> 64 word \<Rightarrow> smState \<Rightarrow> smState option" where
  "sm_Write t sid st =
     (if sm_mu st \<noteq> None then None
      else case map_of (sm_sessions st) sid of
        None \<Rightarrow> Some (goto t (Returned None) st)
      | Some k \<Rightarrow> Some (goto t (WriteSpin k) st))"

definition offerChunk :: "64 word \<Rightarrow> string \<Rightarrow> stream \<Rightarrow> stream" where
  "offerChunk seq d s =
     (case Offer seq d (st_seqQ s) of ((out, _), q) \<Rightarrow>
        s\<lparr>st_seqQ := q, st_written := st_written s @ (if st_closed s then [] else out)\<rparr>)"

definition stream_write :: "nat \<Rightarrow> 64 word \<Rightarrow> string option \<Rightarrow> nat \<Rightarrow> smState \<Rightarrow> smState" where
  "stream_write t seq data k st =
     (case data of
        None \<Rightarrow> goto t (Returned None) (updStream k (\<lambda>s. s\<lparr>st_seqQ := snd (SetMaxSeq seq (st_seqQ s))\<rparr>) st)
      | Some d \<Rightarrow> goto t (Returned None) (setWorking k False (updStream k (offerChunk seq d) st)))"

definition sm_Resize :: "nat \<Rightarrow> 64 word \<Rightarrow> smState \<Rightarrow> smState option" where
  "sm_Resize t sid st =
     (if sm_mu st \<noteq> None then None
      else case map_of (sm_sessions st) sid of
        None \<Rightarrow> Some (goto t (Returned None) st)
      | Some k \<Rightarrow> Some (goto t (ResizeWork k) st))"

definition stream_resize :: "nat \<Rightarrow> 32 word \<Rightarrow> 32 word \<Rightarrow> nat \<Rightarrow> smState \<Rightarrow> smState" where
  "stream_resize t cols rows k st =
     goto t (Returned None)
       (updStream k (\<lambda>s. if st_rF s then s\<lparr>st_resizes := st_resizes s @ [(cols, rows)]\<rparr> else s) st)"

text \<open>One step of a thread.\<close>

fun threadStep :: "nat \<Rightarrow> smCall \<times> smPc \<Rightarrow> smState \<Rightarrow> smState option" where
  "threadStep t (CallAdd sid created, Called) st = sm_Add t sid created st"
| "threadStep t (CallDel sid, Called) st = sm_Del t sid st"
| "threadStep t (CallDel sid, DelSpin k) st =
     (if st_working (sm_streams st ! k) then None else Some (goto t (DelClose k) (setWorking k True st)))"
| "threadStep t (CallDel sid, DelClose k) st = Some (stream_close t sid k st)"
| "threadStep t (CallWrite sid seq data, Called) st = sm_Write t sid st"
| "threadStep t (CallWrite sid seq data, WriteSpin k) st =
     (if st_working (sm_streams st ! k) then None else Some (goto t (WriteWork k) (setWorking k True st)))"
| "threadStep t (CallWrite sid seq data, WriteWork k) st = Some (stream_write t seq data k st)"
| "threadStep t (CallResize sid cols rows, Called) st = sm_Resize t sid st"
| "threadStep t (CallResize sid cols rows, ResizeWork k) st = Some (stream_resize t cols rows k st)"
| "threadStep t _ st = None"

datatype smEvent = EvCall smCall | EvThread nat

fun smStep :: "smEvent \<Rightarrow> smState \<Rightarrow> smState option" where
  "smStep (EvCall c) st = Some (st\<lparr>sm_threads := sm_threads st @ [(c, Called)]\<rparr>)"
| "smStep (EvThread t) st = (if t < length (sm_threads st) then threadStep t (sm_threads st ! t) st else None)"

abbreviation smRun :: "smEvent list \<Rightarrow> smState \<Rightarrow> smState option" where
  "smRun \<equiv> runSteps smStep"

abbreviation smReaches :: "smState \<Rightarrow> smState \<Rightarrow> bool" where
  "smReaches \<equiv> stepReaches smStep"

section \<open>Who holds what\<close>

text \<open>The stream whose flag a thread has set, and the one it points to.\<close>

fun owns :: "smPc \<Rightarrow> nat option" where
  "owns (DelClose k) = Some k"
| "owns (WriteWork k) = Some k"
| "owns _ = None"

fun pointsTo :: "smPc \<Rightarrow> nat option" where
  "pointsTo (DelSpin k) = Some k"
| "pointsTo (DelClose k) = Some k"
| "pointsTo (WriteSpin k) = Some k"
| "pointsTo (WriteWork k) = Some k"
| "pointsTo (ResizeWork k) = Some k"
| "pointsTo _ = None"

fun holdsMu :: "smPc \<Rightarrow> bool" where
  "holdsMu (DelSpin k) = True"
| "holdsMu (DelClose k) = True"
| "holdsMu _ = False"

fun pcOk :: "smCall \<Rightarrow> smPc \<Rightarrow> bool" where
  "pcOk c Called = True"
| "pcOk c (Returned r) = True"
| "pcOk (CallDel sid) (DelSpin k) = True"
| "pcOk (CallDel sid) (DelClose k) = True"
| "pcOk (CallWrite sid seq data) (WriteSpin k) = True"
| "pcOk (CallWrite sid seq data) (WriteWork k) = True"
| "pcOk (CallResize sid cols rows) (ResizeWork k) = True"
| "pcOk c pc = False"

fun callSid :: "smCall \<Rightarrow> 64 word" where
  "callSid (CallAdd sid created) = sid"
| "callSid (CallDel sid) = sid"
| "callSid (CallWrite sid seq data) = sid"
| "callSid (CallResize sid cols rows) = sid"

abbreviation callOf :: "smState \<Rightarrow> nat \<Rightarrow> smCall" where
  "callOf st t \<equiv> fst (sm_threads st ! t)"

abbreviation pcOf :: "smState \<Rightarrow> nat \<Rightarrow> smPc" where
  "pcOf st t \<equiv> snd (sm_threads st ! t)"

lemma goto_simps [simp]:
  "sm_sessions (goto t pc st) = sm_sessions st" "sm_streams (goto t pc st) = sm_streams st"
  "sm_mu (goto t pc st) = sm_mu st" "length (sm_threads (goto t pc st)) = length (sm_threads st)"
  "sm_threads (goto t pc st) = (sm_threads st)[t := (callOf st t, pc)]"
  by (simp_all add: goto_def)

lemma updStream_simps [simp]:
  "sm_sessions (updStream k f st) = sm_sessions st" "sm_threads (updStream k f st) = sm_threads st"
  "sm_mu (updStream k f st) = sm_mu st" "sm_streams (updStream k f st) = (sm_streams st)[k := f (sm_streams st ! k)]"
  by (simp_all add: updStream_def)

lemma offerChunk_simps [simp]:
  "st_sid (offerChunk seq d s) = st_sid s" "st_closed (offerChunk seq d s) = st_closed s"
  "st_working (offerChunk seq d s) = st_working s"
  by (simp_all add: offerChunk_def split: prod.splits)

lemmas sm_defs = sm_Add_def sm_Del_def stream_close_def sm_Write_def stream_write_def sm_Resize_def
  stream_resize_def setWorking_def newStream_def Let_def

text \<open>A step of a thread changes its program counter and, in the middle state, the shared data; the
  relation lists what can happen.\<close>

inductive move :: "nat \<Rightarrow> smState \<Rightarrow> smCall \<Rightarrow> smPc \<Rightarrow> smPc \<Rightarrow> smState \<Rightarrow> bool" for t st where
  move_return: "sm_mu st = None \<Longrightarrow> move t st c Called (Returned r) st"
| move_add: "sm_mu st = None \<Longrightarrow> map_of (sm_sessions st) sid = None \<Longrightarrow>
    move t st (CallAdd sid (Inr rF)) Called (Returned None)
      (st\<lparr>sm_sessions := gm_put sid (length (sm_streams st)) (sm_sessions st),
         sm_streams := sm_streams st @ [newStream sid rF]\<rparr>)"
| move_lookup: "sm_mu st = None \<Longrightarrow> map_of (sm_sessions st) (callSid c) = Some k \<Longrightarrow>
    pc' \<in> {WriteSpin k, ResizeWork k} \<Longrightarrow> pcOk c pc' \<Longrightarrow> move t st c Called pc' st"
| move_lock: "sm_mu st = None \<Longrightarrow> map_of (sm_sessions st) sid = Some k \<Longrightarrow>
    move t st (CallDel sid) Called (DelSpin k) (st\<lparr>sm_mu := Some t\<rparr>)"
| move_spin: "(pc, pc') \<in> {(DelSpin k, DelClose k), (WriteSpin k, WriteWork k)} \<Longrightarrow> pcOk c pc' \<Longrightarrow>
    \<not> st_working (sm_streams st ! k) \<Longrightarrow> move t st c pc pc' (setWorking k True st)"
| move_close: "move t st (CallDel sid) (DelClose k) (Returned None)
    ((setWorking k False (updStream k (st_closed_update (\<lambda>_. True)) st))
       \<lparr>sm_sessions := gm_del sid (sm_sessions st), sm_mu := None\<rparr>)"
| move_write: "move t st (CallWrite sid seq (Some d)) (WriteWork k) (Returned None)
    (setWorking k False (updStream k (offerChunk seq d) st))"
| move_max: "move t st (CallWrite sid seq None) (WriteWork k) (Returned None)
    (updStream k (\<lambda>s. s\<lparr>st_seqQ := snd (SetMaxSeq seq (st_seqQ s))\<rparr>) st)"
| move_resize: "move t st (CallResize sid cols rows) (ResizeWork k) (Returned None)
    (updStream k (\<lambda>s. if st_rF s then s\<lparr>st_resizes := st_resizes s @ [(cols, rows)]\<rparr> else s) st)"

lemma threadStep_move:
  assumes "threadStep t (c, pc) st = Some st'"
  shows "\<exists>pc' st0. move t st c pc pc' st0 \<and> st' = goto t pc' st0"
proof (cases pc)
  case Called
  with assms show ?thesis
    by (cases c) (force simp: sm_defs intro: move.intros split: if_splits option.splits sum.splits)+
next
  case (DelSpin k)
  with assms show ?thesis by (cases c) (force intro: move_spin split: if_splits)+
next
  case (DelClose k)
  with assms show ?thesis by (cases c) (force simp: sm_defs intro: move_close)+
next
  case (WriteSpin k)
  with assms show ?thesis by (cases c) (force intro: move_spin split: if_splits)+
next
  case (WriteWork k)
  with assms show ?thesis
    by (cases c) (force simp: stream_write_def intro: move_write move_max split: option.splits)+
next
  case (ResizeWork k)
  with assms show ?thesis by (cases c) (force simp: stream_resize_def intro: move_resize)+
next
  case (Returned r)
  with assms show ?thesis by (cases c) auto
qed

lemma smStep_cases:
  assumes "smStep ev st = Some st'"
  obtains (call) c where "ev = EvCall c" "st' = st\<lparr>sm_threads := sm_threads st @ [(c, Called)]\<rparr>"
  | (thread) t pc' st0 where "ev = EvThread t" "t < length (sm_threads st)"
      "move t st (callOf st t) (pcOf st t) pc' st0" "st' = goto t pc' st0"
proof (cases ev)
  case (EvCall c)
  with assms that(1) show ?thesis by simp
next
  case (EvThread t)
  with assms have "t < length (sm_threads st)" "threadStep t (callOf st t, pcOf st t) st = Some st'"
    by (auto split: if_splits)
  with threadStep_move that(2) EvThread show ?thesis by blast
qed

lemma move_threads: "move t st c pc pc' st0 \<Longrightarrow> sm_threads st0 = sm_threads st"
  by (induction rule: move.induct) (simp_all add: setWorking_def)

lemma move_streams: "move t st c pc pc' st0 \<Longrightarrow> length (sm_streams st) \<le> length (sm_streams st0)"
  by (induction rule: move.induct) (simp_all add: setWorking_def)

lemma pcOf_goto:
  "move t st c pc pc' st0 \<Longrightarrow> t < length (sm_threads st) \<Longrightarrow>
   pcOf (goto t pc' st0) u = (if u = t then pc' else pcOf st u)
   \<and> callOf (goto t pc' st0) u = callOf st u \<and> length (sm_threads (goto t pc' st0)) = length (sm_threads st)"
  by (auto simp: move_threads)

text \<open>The invariant of the manager: the mutex is held by the thread that closes a stream; program counters
  fit their calls and point to the stream of their session; a flag has at most one owner.\<close>

definition muOk :: "smState \<Rightarrow> bool" where
  "muOk st \<longleftrightarrow> (\<forall>t. sm_mu st = Some t \<longleftrightarrow> t < length (sm_threads st) \<and> holdsMu (pcOf st t))"

definition sessionsOk :: "smState \<Rightarrow> bool" where
  "sessionsOk st \<longleftrightarrow> (\<forall>sid k. map_of (sm_sessions st) sid = Some k \<longrightarrow>
     k < length (sm_streams st) \<and> st_sid (sm_streams st ! k) = sid)"

definition pcsOk :: "smState \<Rightarrow> bool" where
  "pcsOk st \<longleftrightarrow> (\<forall>t < length (sm_threads st). pcOk (callOf st t) (pcOf st t)
     \<and> (\<forall>k. pointsTo (pcOf st t) = Some k \<longrightarrow>
          k < length (sm_streams st) \<and> st_sid (sm_streams st ! k) = callSid (callOf st t)))"

definition ownersOk :: "smState \<Rightarrow> bool" where
  "ownersOk st \<longleftrightarrow> (\<forall>t u k. t < length (sm_threads st) \<longrightarrow> u < length (sm_threads st) \<longrightarrow>
     owns (pcOf st t) = Some k \<longrightarrow> owns (pcOf st u) = Some k \<longrightarrow> t = u)
   \<and> (\<forall>t k. t < length (sm_threads st) \<longrightarrow> owns (pcOf st t) = Some k \<longrightarrow> st_working (sm_streams st ! k))"

lemma muOk_move:
  assumes m: "move t st (callOf st t) (pcOf st t) pc' st0" and t: "t < length (sm_threads st)" and ok: "muOk st"
  shows "muOk (goto t pc' st0)"
proof -
  have "\<forall>u. sm_mu st0 = Some u \<longleftrightarrow> u < length (sm_threads st) \<and> holdsMu (if u = t then pc' else pcOf st u)"
  proof -
    have a: "sm_mu st = Some u \<longleftrightarrow> u < length (sm_threads st) \<and> holdsMu (pcOf st u)" for u
      using ok by (simp add: muOk_def)
    from m t show ?thesis
    proof cases
      case (move_lookup k)
      then have "\<not> holdsMu pc'" by auto
      with a move_lookup show ?thesis by simp
    next
      case (move_spin k)
      then have "holdsMu pc' = holdsMu (pcOf st t)" by auto
      with a move_spin(1) show ?thesis by (simp add: setWorking_def)
    next
      case (move_close sid k)
      with a [of t] t have "sm_mu st = Some t" by simp
      with a have "u = t" if "u < length (sm_threads st)" "holdsMu (pcOf st u)" for u using that by fastforce
      with move_close show ?thesis by auto
    qed (use a in \<open>simp_all add: setWorking_def\<close>)
  qed
  with pcOf_goto [OF m t] show ?thesis unfolding muOk_def by simp
qed

lemma sessionsOk_move:
  assumes "move t st (callOf st t) (pcOf st t) pc' st0" and "sessionsOk st"
  shows "sessionsOk (goto t pc' st0)"
  using assms unfolding sessionsOk_def 
  by cases (auto simp: setWorking_def nth_upd nth_append newStream_def gm.look_put gm.look_del less_Suc_eq
    split: if_splits)

lemma move_sid:
  assumes "move t st c pc pc' st0" and "k < length (sm_streams st)"
  shows "st_sid (sm_streams st0 ! k) = st_sid (sm_streams st ! k)"
  using assms by cases (auto simp: setWorking_def nth_upd nth_append)

lemma pcsOk_move:
  assumes m: "move t st (callOf st t) (pcOf st t) pc' st0" and t: "t < length (sm_threads st)"
    and ok: "pcsOk st" "sessionsOk st"
  shows "pcsOk (goto t pc' st0)"
proof -
  have "pcOk (callOf st t) pc' \<and> (\<forall>k. pointsTo pc' = Some k \<longrightarrow>
      k < length (sm_streams st) \<and> st_sid (sm_streams st ! k) = callSid (callOf st t))"
    using m ok t unfolding pcsOk_def sessionsOk_def by cases fastforce+
  with pcOf_goto [OF m t] move_sid [OF m] move_streams [OF m] ok(1) show ?thesis
    unfolding pcsOk_def by (simp, meson less_le_trans)
qed

text \<open>A step sets the flag of the stream it points to, or gives back a flag it owns.\<close>

lemma move_flags:
  assumes "move t st c pc pc' st0" and "j < length (sm_streams st)"
  shows "st_working (sm_streams st0 ! j) =
    (if owns pc' = Some j then True else if owns pc = Some j \<and> (\<forall>sid seq. c \<noteq> CallWrite sid seq None) then False
     else st_working (sm_streams st ! j))"
  using assms by cases (auto simp: setWorking_def nth_upd nth_append)

lemma move_owns:
  "move t st c pc pc' st0 \<Longrightarrow> owns pc' = Some k \<Longrightarrow> \<not> st_working (sm_streams st ! k) \<and> pointsTo pc = Some k"
  by (erule move.cases) auto

definition smInv :: "smState \<Rightarrow> bool" where
  "smInv st \<longleftrightarrow> muOk st \<and> sessionsOk st \<and> pcsOk st \<and> ownersOk st"

lemma ownersOk_move:
  assumes m: "move t st (callOf st t) (pcOf st t) pc' st0" and t: "t < length (sm_threads st)"
    and ok: "ownersOk st" "pcsOk st"
  shows "ownersOk (goto t pc' st0)"
proof -
  note pc = pcOf_goto [OF m t]
  have old: "owns (pcOf st u) = Some k \<Longrightarrow> st_working (sm_streams st ! k) \<and> k < length (sm_streams st)"
    if "u < length (sm_threads st)" for u k
    using ok that by (cases "pcOf st u") (auto simp: ownersOk_def pcsOk_def)
  have new: "owns pc' = Some k \<Longrightarrow> k < length (sm_streams st) \<and> \<not> st_working (sm_streams st ! k)" for k
    using move_owns [OF m] ok(2) t by (auto simp: pcsOk_def)
  have "st_working (sm_streams st0 ! k)"
    if "u < length (sm_threads st)" "owns (if u = t then pc' else pcOf st u) = Some k" for u k
  proof (cases "u = t")
    case True
    with that new [of k] move_flags [OF m, of k] show ?thesis by simp
  next
    case False
    with that ok(1) t have "owns (pcOf st t) \<noteq> Some k" by (auto simp: ownersOk_def)
    with False that old [of u k] move_flags [OF m, of k] show ?thesis by simp
  qed
  moreover have "u = v"
    if "u < length (sm_threads st)" "v < length (sm_threads st)" "owns (if u = t then pc' else pcOf st u) = Some k"
      "owns (if v = t then pc' else pcOf st v) = Some k" for u v k
    using that old new ok(1) by (auto simp: ownersOk_def split: if_splits)
  ultimately show ?thesis unfolding ownersOk_def using pc by simp
qed

lemma smInv_step: "smStep ev st = Some st' \<Longrightarrow> smInv st \<Longrightarrow> smInv st'"
proof (erule smStep_cases)
  fix c assume "smInv st" "st' = st\<lparr>sm_threads := sm_threads st @ [(c, Called)]\<rparr>"
  then show "smInv st'"
    by (auto simp: smInv_def muOk_def sessionsOk_def pcsOk_def ownersOk_def nth_append less_Suc_eq)
next
  fix t pc' st0 assume "t < length (sm_threads st)" "move t st (callOf st t) (pcOf st t) pc' st0"
    "st' = goto t pc' st0" "smInv st"
  then show "smInv st'" unfolding smInv_def
    by (blast intro: muOk_move sessionsOk_move pcsOk_move ownersOk_move)
qed

lemma smInv_init: "smInv NewStreamManager"
  by (simp add: smInv_def NewStreamManager_def muOk_def sessionsOk_def pcsOk_def ownersOk_def)

lemma smInv_reaches: "smReaches NewStreamManager st \<Longrightarrow> smInv st"
  by (erule stepReaches_inv [where P = smInv, OF _ smInv_init smInv_step])

section \<open>A closed input\<close>

text \<open>A flag that is set and has no owner is never given back.\<close>

definition stuck :: "nat \<Rightarrow> smState \<Rightarrow> bool" where
  "stuck k st \<longleftrightarrow> k < length (sm_streams st) \<and> st_working (sm_streams st ! k)
     \<and> (\<forall>t < length (sm_threads st). owns (pcOf st t) \<noteq> Some k)"

lemma stuck_step:
  assumes "smStep ev st = Some st'" and k: "stuck k st"
  shows "stuck k st' \<and> st_closed (sm_streams st' ! k) = st_closed (sm_streams st ! k)
    \<and> st_written (sm_streams st' ! k) = st_written (sm_streams st ! k)"
  using assms(1)
proof (cases rule: smStep_cases)
  case (call c)
  with k show ?thesis by (auto simp: stuck_def nth_append less_Suc_eq)
next
  case (thread t pc' st0)
  then have o: "owns (pcOf st t) \<noteq> Some k" using k by (simp add: stuck_def)
  have new: "owns pc' \<noteq> Some k" using move_owns [OF thread(3)] k by (auto simp: stuck_def)
  have "st_closed (sm_streams st0 ! k) = st_closed (sm_streams st ! k)
      \<and> st_written (sm_streams st0 ! k) = st_written (sm_streams st ! k)"
    using thread(3) o k unfolding stuck_def by cases (auto simp: setWorking_def nth_upd nth_append)
  with o new k pcOf_goto [OF thread(3,2)] move_flags [OF thread(3), of k] move_streams [OF thread(3)] thread(4)
  show ?thesis by (auto simp: stuck_def)
qed

text \<open>A thread that waits for such a flag with the mutex in its hands keeps it forever, and the calls
  made later stay at their beginning.\<close>

definition dead :: "nat \<Rightarrow> nat \<Rightarrow> nat \<Rightarrow> smState \<Rightarrow> bool" where
  "dead t k n st \<longleftrightarrow> stuck k st \<and> smInv st \<and> t < length (sm_threads st) \<and> pcOf st t = DelSpin k \<and> sm_mu st = Some t
     \<and> (\<forall>u. n \<le> u \<longrightarrow> u < length (sm_threads st) \<longrightarrow> pcOf st u = Called)"

lemma dead_step:
  assumes "smStep ev st = Some st'" and d: "dead t k n st"
  shows "dead t k n st'"
  using assms(1)
proof (cases rule: smStep_cases)
  case (call c)
  with d stuck_step [OF assms(1)] smInv_step [OF assms(1)] show ?thesis
    by (auto simp: dead_def nth_append less_Suc_eq)
next
  case (thread u pc' st0)
  have "u \<noteq> t"
    using thread(3) d by cases (auto simp: dead_def stuck_def)
  moreover have "pcOf st u \<noteq> Called"
    using thread(3) d by cases (auto simp: dead_def)
  moreover have "sm_mu st0 = Some t"
    using thread(3) d \<open>u \<noteq> t\<close> thread(2) by cases (auto simp: dead_def smInv_def muOk_def setWorking_def)
  ultimately show ?thesis
    using d stuck_step [OF assms(1)] smInv_step [OF assms(1)] pcOf_goto [OF thread(3,2)] thread(4)
    by (auto simp: dead_def move_threads [OF thread(3)])
qed

text \<open>The events of an input that is closed, followed by the end of its operation.\<close>

definition closeThenDel :: "64 word \<Rightarrow> 64 word \<Rightarrow> nat \<Rightarrow> smEvent list" where
  "closeThenDel sid seq n =
     [EvCall (CallWrite sid seq None), EvThread n, EvThread n, EvThread n, EvCall (CallDel sid), EvThread (Suc n)]"

lemma closeThenDel_dead:
  assumes inv: "smInv st" and mu: "sm_mu st = None" and k: "map_of (sm_sessions st) sid = Some k"
    and w: "\<not> st_working (sm_streams st ! k)"
  shows "\<exists>st1. smRun (closeThenDel sid seq (length (sm_threads st))) st = Some st1
    \<and> dead (Suc (length (sm_threads st))) k (length (sm_threads st1)) st1
    \<and> st_closed (sm_streams st1 ! k) = st_closed (sm_streams st ! k)"
proof -
  let ?n = "length (sm_threads st)"
  have len: "k < length (sm_streams st)" using inv k by (simp add: smInv_def sessionsOk_def)
  have "\<exists>st1. smRun (closeThenDel sid seq ?n) st = Some st1
      \<and> sm_threads st1 = sm_threads st @ [(CallWrite sid seq None, Returned None), (CallDel sid, DelSpin k)]
      \<and> sm_mu st1 = Some (Suc ?n) \<and> length (sm_streams st1) = length (sm_streams st)
      \<and> st_working (sm_streams st1 ! k) \<and> st_closed (sm_streams st1 ! k) = st_closed (sm_streams st ! k)"
    using mu k w len by (simp add: closeThenDel_def sm_defs nth_append list_update_append)
  then obtain st1 where run: "smRun (closeThenDel sid seq ?n) st = Some st1"
    and st1: "sm_threads st1 = sm_threads st @ [(CallWrite sid seq None, Returned None), (CallDel sid, DelSpin k)]"
      "sm_mu st1 = Some (Suc ?n)" "length (sm_streams st1) = length (sm_streams st)" "st_working (sm_streams st1 ! k)"
      "st_closed (sm_streams st1 ! k) = st_closed (sm_streams st ! k)"
    by blast
  have "owns (pcOf st1 t) \<noteq> Some k" if "t < length (sm_threads st1)" for t
    using that w inv st1(1) by (auto simp: smInv_def ownersOk_def nth_append less_Suc_eq)
  moreover have "smInv st1" by (rule stepReaches_inv [where P = smInv, OF runSteps_reaches [OF run] inv smInv_step])
  ultimately have "dead (Suc ?n) k (length (sm_threads st1)) st1"
    using st1 len by (simp add: dead_def stuck_def nth_append)
  with run st1(5) show ?thesis by blast
qed

section \<open>Calls return when no input is closed\<close>

text \<open>The steps a thread has still to make.\<close>

fun pcWork :: "smPc \<Rightarrow> nat" where
  "pcWork Called = 3"
| "pcWork (DelSpin k) = 2"
| "pcWork (WriteSpin k) = 2"
| "pcWork (Returned r) = 0"
| "pcWork pc = 1"

definition smWork :: "smState \<Rightarrow> nat" where
  "smWork st = sum_list (map (pcWork \<circ> snd) (sm_threads st))"

fun isClose :: "smCall \<Rightarrow> bool" where
  "isClose (CallWrite sid seq None) = True"
| "isClose c = False"

definition noClose :: "smState \<Rightarrow> bool" where
  "noClose st \<longleftrightarrow> (\<forall>c \<in> fst ` set (sm_threads st). \<not> isClose c)"

definition allReturned :: "smState \<Rightarrow> bool" where
  "allReturned st \<longleftrightarrow> (\<forall>t < length (sm_threads st). pcWork (pcOf st t) = 0)"

lemma pcWork_0: "pcWork pc = 0 \<longleftrightarrow> (\<exists>r. pc = Returned r)"
  by (cases pc) auto

lemma move_work: "move t st c pc pc' st0 \<Longrightarrow> pcWork pc' < pcWork pc"
  by (erule move.cases) auto

lemma sum_list_smaller: "i < length xs \<Longrightarrow> x < xs ! i \<Longrightarrow> sum_list (xs[i := x]) < sum_list (xs :: nat list)"
  by (induction xs arbitrary: i) (auto simp: nth_Cons' split: nat.splits if_splits)

lemma smWork_decreases:
  assumes "smStep (EvThread t) st = Some st'"
  shows "smWork st' < smWork st"
  using assms
proof (cases rule: smStep_cases)
  case (thread u pc' st0)
  then have "u = t" by simp
  with thread move_work [OF thread(3)] show ?thesis
    by (simp add: smWork_def move_threads [OF thread(3)] map_update sum_list_smaller)
qed simp

text \<open>Every flag that is set has an owner.\<close>

definition flagsOk :: "smState \<Rightarrow> bool" where
  "flagsOk st \<longleftrightarrow> (\<forall>k < length (sm_streams st). st_working (sm_streams st ! k) \<longrightarrow>
     (\<exists>t < length (sm_threads st). owns (pcOf st t) = Some k))"

lemma flagsOk_step:
  assumes "smStep ev st = Some st'" and "noClose st" and "flagsOk st"
  shows "flagsOk st'"
  using assms(1)
proof (cases rule: smStep_cases)
  case (call c)
  with assms(3) show ?thesis by (fastforce simp: flagsOk_def nth_append)
next
  case (thread t pc' st0)
  have c: "\<not> isClose (callOf st t)" using assms(2) thread(2) by (simp add: noClose_def)
  note pc = pcOf_goto [OF thread(3,2)]
  show ?thesis unfolding flagsOk_def
  proof (intro allI impI)
    fix k assume k: "k < length (sm_streams st')" "st_working (sm_streams st' ! k)"
    show "\<exists>u < length (sm_threads st'). owns (pcOf st' u) = Some k"
    proof (cases "owns pc' = Some k")
      case True
      with pc [of t] thread(2,4) show ?thesis by auto
    next
      case False
      have l: "k < length (sm_streams st)"
        using thread(3) k unfolding thread(4)
        by cases (auto simp: setWorking_def newStream_def less_Suc_eq)
      from move_flags [OF thread(3) l] False k(2) c thread(4)
      have "owns (pcOf st t) \<noteq> Some k" "st_working (sm_streams st ! k)"
        by (auto split: if_splits)
      moreover from this(2) l assms(3) obtain u where "u < length (sm_threads st)" "owns (pcOf st u) = Some k"
        by (auto simp: flagsOk_def)
      ultimately show ?thesis using pc [of u] thread(4) by (intro exI [of _ u]) auto
    qed
  qed
qed

lemma noClose_step: "smStep ev st = Some st' \<Longrightarrow> noClose st' \<Longrightarrow> noClose st"
proof (erule smStep_cases)
  fix t pc' st0 assume "t < length (sm_threads st)" "move t st (callOf st t) (pcOf st t) pc' st0"
    "st' = goto t pc' st0" "noClose st'"
  then show "noClose st"
    by (metis (no_types, opaque_lifting) noClose_def fst_conv image_iff in_set_conv_nth pcOf_goto)
qed (auto simp: noClose_def)

lemma noClose_thread:
  "smStep (EvThread t) st = Some st' \<Longrightarrow> noClose st \<Longrightarrow> noClose st' \<and> length (sm_threads st') = length (sm_threads st)"
proof (erule smStep_cases)
  fix u pc' st0 assume "u < length (sm_threads st)" "move u st (callOf st u) (pcOf st u) pc' st0"
    "st' = goto u pc' st0" "noClose st"
  then show "noClose st' \<and> length (sm_threads st') = length (sm_threads st)"
    by (metis (no_types, opaque_lifting) noClose_def fst_conv image_iff in_set_conv_nth pcOf_goto)
qed simp

lemma flagsOk_reaches:
  assumes "smReaches NewStreamManager st" and "noClose st"
  shows "flagsOk st"
proof -
  have "flagsOk NewStreamManager" by (simp add: flagsOk_def NewStreamManager_def)
  then have "noClose st \<longrightarrow> flagsOk st"
    by (intro stepReaches_inv [where P = "\<lambda>st. noClose st \<longrightarrow> flagsOk st", OF assms(1)])
       (blast intro: noClose_step flagsOk_step)+
  with assms(2) show ?thesis by simp
qed

text \<open>As long as a call has not returned, some thread can make a step.\<close>

lemma progress:
  assumes inv: "smInv st" and flags: "flagsOk st" and t: "t < length (sm_threads st)" "pcWork (pcOf st t) \<noteq> 0"
  shows "\<exists>u st'. smStep (EvThread u) st = Some st'"
proof -
  have step: "\<exists>u st'. smStep (EvThread u) st = Some st'"
    if "u < length (sm_threads st)" "threadStep u (callOf st u, pcOf st u) st \<noteq> None" for u
    using that by (intro exI [of _ u]) auto
  have ok: "pcOk (callOf st u) (pcOf st u)" "pointsTo (pcOf st u) = Some k \<Longrightarrow> k < length (sm_streams st)"
    if "u < length (sm_threads st)" for u k
    using inv that by (auto simp: smInv_def pcsOk_def)
  show ?thesis
  proof (cases "\<exists>u < length (sm_threads st). owns (pcOf st u) \<noteq> None")
    case True
    then obtain u where u: "u < length (sm_threads st)" "owns (pcOf st u) \<noteq> None" by blast
    with ok(1) [OF u(1)] show ?thesis by (intro step [OF u(1)]) (cases "callOf st u"; cases "pcOf st u"; simp)
  next
    case False
    then have free: "\<not> st_working (sm_streams st ! k)" if "k < length (sm_streams st)" for k
      using flags that by (force simp: flagsOk_def)
    show ?thesis
    proof (cases "\<exists>u < length (sm_threads st). pointsTo (pcOf st u) \<noteq> None")
      case True
      then obtain u k where u: "u < length (sm_threads st)" "pointsTo (pcOf st u) = Some k" by blast
      with ok [OF u(1)] free [of k] show ?thesis
        by (intro step [OF u(1)]) (cases "callOf st u"; cases "pcOf st u"; simp)
    next
      case none: False
      have "sm_mu st = None"
      proof (rule ccontr)
        assume "sm_mu st \<noteq> None"
        then obtain h where "h < length (sm_threads st)" "holdsMu (pcOf st h)"
          using inv by (auto simp: smInv_def muOk_def)
        with none show False by (cases "pcOf st h") auto
      qed
      moreover have "pcOf st t = Called" using none t by (cases "pcOf st t") auto
      ultimately show ?thesis
        by (intro step [OF t(1)]) (cases "callOf st t"; simp add: sm_defs split: option.splits sum.splits)
    qed
  qed
qed

lemma thread_runs:
  assumes "smRun (map EvThread ts) st = Some st'" and "smInv st" and "flagsOk st" and "noClose st"
  shows "smInv st' \<and> flagsOk st' \<and> noClose st' \<and> length (sm_threads st') = length (sm_threads st)
    \<and> length ts + smWork st' \<le> smWork st"
  using assms
proof (induction ts arbitrary: st)
  case (Cons t ts)
  then obtain st1 where st1: "smStep (EvThread t) st = Some st1" "smRun (map EvThread ts) st1 = Some st'"
    by (auto simp del: smStep.simps split: option.splits)
  with Cons.IH [OF st1(2) smInv_step [OF st1(1)] flagsOk_step [OF st1(1)]] Cons.prems(2-4)
    noClose_thread [OF st1(1)] smWork_decreases [OF st1(1)] show ?case by simp
qed simp

lemma smWork_bound: "smWork st \<le> 3 * length (sm_threads st)"
proof -
  have "sum_list (map (pcWork \<circ> snd) xs) \<le> 3 * length xs" for xs :: "(smCall \<times> smPc) list"
  proof (induction xs)
    case (Cons x xs)
    moreover have "pcWork (snd x) \<le> 3" by (cases "snd x") auto
    ultimately show ?case by simp
  qed simp
  then show ?thesis by (simp add: smWork_def)
qed

section \<open>What is written\<close>

text \<open>What the stream relies on in its queue: an invariant that relates the queue to what was offered and
  handed out, and that what was handed out is in order.\<close>

locale chunk_queue =
  fixes inv :: "(64 word \<times> 'a) list \<Rightarrow> 'a list \<Rightarrow> 'q \<Rightarrow> bool"
    and new :: 'q
    and offer :: "64 word \<Rightarrow> 'a \<Rightarrow> 'q \<Rightarrow> 'a list \<times> 'q"
    and setMax :: "64 word \<Rightarrow> 'q \<Rightarrow> 'q"
    and unlimited :: "'q \<Rightarrow> bool"
  assumes inv_new: "inv [] [] new"
    and inv_offer: "inv zs outs q \<Longrightarrow> s \<noteq> - 1 \<Longrightarrow> offer s d q = (out, q') \<Longrightarrow> inv (zs @ [(s, d)]) (outs @ out) q'"
    and inv_setMax: "inv zs outs q \<Longrightarrow> unlimited q \<Longrightarrow> inv zs outs (setMax m q)"
    and in_order: "inv zs outs q \<Longrightarrow> length outs < 2 ^ 64 \<and> (\<forall>i < length outs. map_of zs (word_of_nat i) = Some (outs ! i))"
begin

text \<open>The queue of a stream of which \<open>w\<close> was written: everything handed out up to the moment of closing.\<close>

definition fed :: "(64 word \<times> 'a) list \<Rightarrow> bool \<Rightarrow> 'a list \<Rightarrow> 'q \<Rightarrow> bool" where
  "fed zs closed w q \<longleftrightarrow> (\<exists>outs. inv zs outs q \<and> prefix w outs \<and> (\<not> closed \<longrightarrow> w = outs))"

lemma fed_new: "fed [] False [] new"
  using inv_new by (auto simp: fed_def)

lemma fed_offer:
  assumes "fed zs closed w q" and "s \<noteq> - 1" and "offer s d q = (out, q')"
  shows "fed (zs @ [(s, d)]) closed (w @ (if closed then [] else out)) q'"
proof -
  from assms(1) obtain outs where o: "inv zs outs q" "prefix w outs" "\<not> closed \<longrightarrow> w = outs" by (auto simp: fed_def)
  with inv_offer [OF o(1) assms(2,3)] show ?thesis
    unfolding fed_def by (intro exI [of _ "outs @ out"]) (auto intro: prefix_prefix)
qed

lemma fed_close: "fed zs closed w q \<Longrightarrow> fed zs True w q"
  by (auto simp: fed_def)

lemma fed_setMax: "fed zs closed w q \<Longrightarrow> unlimited q \<Longrightarrow> fed zs closed w (setMax m q)"
  unfolding fed_def by (blast intro: inv_setMax)

lemma fed_in_order:
  assumes "fed zs closed w q" and "i < length w"
  shows "map_of zs (word_of_nat i) = Some (w ! i)"
proof -
  from assms(1) obtain outs where "inv zs outs q" "prefix w outs" by (auto simp: fed_def)
  with in_order [of zs outs q] assms(2) show ?thesis by (auto simp: prefix_def nth_append)
qed

end

lemma seqInv_in_order:
  assumes "seqInv zs outs q"
  shows "length outs < 2 ^ 64 \<and> (\<forall>i < length outs. map_of zs (word_of_nat i) = Some (outs ! i))"
proof -
  have len: "length outs = unat (sq_next q)" using assms by (simp add: seqInv_def chunks_def)
  have "map_of zs (word_of_nat i) = Some (outs ! i)" if "i < length outs" for i
  proof -
    have "word_of_nat i < sq_next q"
      using that len unsigned_less [of "sq_next q"] by (simp add: word_less_nat_alt unat_of_nat take_bit_nat_eq_self)
    with assms that show ?thesis by (auto simp: seqInv_def chunks_def)
  qed
  with len unsigned_less [of "sq_next q"] show ?thesis by simp
qed

lemma SetMaxSeq_inv: "seqInv zs outs q \<Longrightarrow> sq_max q = - 1 \<Longrightarrow> seqInv zs outs (snd (SetMaxSeq m q))"
  using SetMaxSeq_seqInv [of zs outs q m]
  by (cases "m < sq_next q") (auto simp: SetMaxSeq_def seqInv_def)

interpretation seqq: chunk_queue seqInv NewSeqQueue "\<lambda>s d q. case Offer s d q of ((out, _), q') \<Rightarrow> (out, q')"
  "\<lambda>m q. snd (SetMaxSeq m q)" "\<lambda>q. sq_max q = - 1"
proof
  fix zs outs q s d out q'
  assume "seqInv zs outs q" "s \<noteq> - 1" "(case Offer s d q of ((out, _), q') \<Rightarrow> (out, q')) = (out, q')"
  then show "seqInv (zs @ [(s, d)]) (outs @ out) q'" by (auto dest: Offer_seqInv split: prod.splits)
qed (auto intro: seqInv_new SetMaxSeq_inv dest: seqInv_in_order)

lemma Offer_keeps_max: "sq_max (snd (Offer s d q)) = sq_max q"
  by (auto simp: Offer_def split: prod.splits option.splits)

lemma offerChunk_max: "sq_max (st_seqQ (offerChunk seq d s)) = sq_max (st_seqQ s)"
  using Offer_keeps_max [of seq d "st_seqQ s"] by (auto simp: offerChunk_def split: prod.splits)

text \<open>What a step does to the data of a stream.\<close>

lemma move_stream:
  assumes "move t st c pc pc' st0" and "k < length (sm_streams st)"
  shows "let old = sm_streams st ! k; new = sm_streams st0 ! k in
     st_seqQ new = st_seqQ old \<and> st_written new = st_written old \<and> (st_closed new = st_closed old \<or> st_closed new)
   \<or> (\<exists>sid seq d. c = CallWrite sid seq (Some d) \<and> pc = WriteWork k \<and> st_closed new = st_closed old
        \<and> st_seqQ new = st_seqQ (offerChunk seq d old) \<and> st_written new = st_written (offerChunk seq d old))
   \<or> (\<exists>sid seq. c = CallWrite sid seq None \<and> pc = WriteWork k \<and> st_closed new = st_closed old
        \<and> st_seqQ new = snd (SetMaxSeq seq (st_seqQ old)) \<and> st_written new = st_written old)"
  using assms by cases (auto simp: Let_def setWorking_def nth_upd nth_append)

text \<open>Every stream has been fed with data of write calls for its session, and its queue has a maximum only when its flag
  is lost.\<close>

definition callsOf :: "smState \<Rightarrow> smCall set" where
  "callsOf st = fst ` set (sm_threads st)"

definition fedBy :: "smState \<Rightarrow> stream \<Rightarrow> bool" where
  "fedBy st s \<longleftrightarrow> (\<exists>zs. (\<forall>(seq, d)\<in>set zs. CallWrite (st_sid s) seq (Some d) \<in> callsOf st)
     \<and> seqq.fed zs (st_closed s) (st_written s) (st_seqQ s))"

definition streamsOk :: "smState \<Rightarrow> bool" where
  "streamsOk st \<longleftrightarrow> (\<forall>k < length (sm_streams st).
     (sq_max (st_seqQ (sm_streams st ! k)) = - 1 \<or> stuck k st) \<and> fedBy st (sm_streams st ! k))"

definition noLastSeq :: "smState \<Rightarrow> bool" where
  "noLastSeq st \<longleftrightarrow> (\<forall>sid d. CallWrite sid (- 1) (Some d) \<notin> callsOf st)"

lemma callsOf_goto:
  assumes "move t st c pc pc' st0" and "t < length (sm_threads st)"
  shows "callsOf (goto t pc' st0) = callsOf st"
proof -
  have "map fst (sm_threads (goto t pc' st0)) = map fst (sm_threads st)"
    using pcOf_goto [OF assms] by (intro nth_equalityI) auto
  then show ?thesis unfolding callsOf_def by (metis image_set)
qed

lemma callsOf_step: "smStep ev st = Some st' \<Longrightarrow> callsOf st \<subseteq> callsOf st'"
proof (erule smStep_cases)
  fix t pc' st0 assume "t < length (sm_threads st)" "move t st (callOf st t) (pcOf st t) pc' st0" "st' = goto t pc' st0"
  then show "callsOf st \<subseteq> callsOf st'" using callsOf_goto by blast
qed (auto simp: callsOf_def)

lemma fedBy_mono: "fedBy st s \<Longrightarrow> callsOf st \<subseteq> callsOf st' \<Longrightarrow> fedBy st' s"
  unfolding fedBy_def by blast

lemma fedBy_move:
  assumes m: "move t st (callOf st t) (pcOf st t) pc' st0" and t: "t < length (sm_threads st)"
    and k: "k < length (sm_streams st)" and ok: "pcsOk st" "noLastSeq st" "fedBy st (sm_streams st ! k)"
    and max: "pcOf st t = WriteWork k \<Longrightarrow> sq_max (st_seqQ (sm_streams st ! k)) = - 1"
  shows "fedBy (goto t pc' st0) (sm_streams st0 ! k)"
proof -
  let ?old = "sm_streams st ! k" and ?new = "sm_streams st0 ! k"
  have sid: "st_sid ?new = st_sid ?old" by (rule move_sid [OF m k])
  have c: "callOf st t \<in> callsOf st" using t by (simp add: callsOf_def)
  from ok(3) obtain zs where zs: "\<forall>(seq, d)\<in>set zs. CallWrite (st_sid ?old) seq (Some d) \<in> callsOf st"
    "seqq.fed zs (st_closed ?old) (st_written ?old) (st_seqQ ?old)" by (auto simp: fedBy_def)
  from move_stream [OF m k] consider
    (same) "st_seqQ ?new = st_seqQ ?old" "st_written ?new = st_written ?old" "st_closed ?new = st_closed ?old \<or> st_closed ?new"
  | (offers) sid seq d where "callOf st t = CallWrite sid seq (Some d)" "pcOf st t = WriteWork k"
      "st_closed ?new = st_closed ?old"
      "st_seqQ ?new = st_seqQ (offerChunk seq d ?old)" "st_written ?new = st_written (offerChunk seq d ?old)"
  | (sets) seq where "pcOf st t = WriteWork k" "st_closed ?new = st_closed ?old"
      "st_seqQ ?new = snd (SetMaxSeq seq (st_seqQ ?old))" "st_written ?new = st_written ?old"
    by (auto simp: Let_def)
  then show ?thesis
  proof cases
    case same
    with zs sid seqq.fed_close [OF zs(2)] show ?thesis
      unfolding fedBy_def callsOf_goto [OF m t] by (intro exI [of _ zs]) auto
  next
    case (offers s seq d)
    then have "st_sid ?old = s" using ok(1) t by (auto simp: pcsOk_def)
    moreover have "seq \<noteq> - 1" using c offers(1) ok(2) by (auto simp: noLastSeq_def)
    moreover obtain out b q' where "Offer seq d (st_seqQ ?old) = ((out, b), q')" by (metis surj_pair)
    ultimately show ?thesis
      using offers c sid zs(1) seqq.fed_offer [OF zs(2), of seq d out q']
      unfolding fedBy_def callsOf_goto [OF m t] by (intro exI [of _ "zs @ [(seq, d)]"]) (auto simp: offerChunk_def)
  next
    case (sets seq)
    with zs sid seqq.fed_setMax [OF zs(2) max] show ?thesis
      unfolding fedBy_def callsOf_goto [OF m t] by (intro exI [of _ zs]) auto
  qed
qed

lemma limit_move:
  assumes m: "move t st (callOf st t) (pcOf st t) pc' st0" and t: "t < length (sm_threads st)"
    and k: "k < length (sm_streams st)" and ok: "ownersOk st"
    and lim: "sq_max (st_seqQ (sm_streams st ! k)) = - 1 \<or> stuck k st"
  shows "sq_max (st_seqQ (sm_streams st0 ! k)) = - 1 \<or> stuck k (goto t pc' st0)"
proof (cases "stuck k st")
  case True
  then show ?thesis
    using m t k ok pcOf_goto [OF m t] move_flags [OF m k] move_owns [OF m, of k] move_streams [OF m]
    by (auto simp: stuck_def)
next
  case False
  with lim have lim: "sq_max (st_seqQ (sm_streams st ! k)) = - 1" by simp
  show ?thesis
  proof (cases "\<exists>sid seq. callOf st t = CallWrite sid seq None \<and> pcOf st t = WriteWork k")
    case True
    then have "pc' = Returned None" using m by (auto elim: move.cases)
    moreover have "st_working (sm_streams st ! k)" "\<forall>u < length (sm_threads st). owns (pcOf st u) = Some k \<longrightarrow> u = t"
      using ok True t by (auto simp: ownersOk_def)
    ultimately show ?thesis
      using True k pcOf_goto [OF m t] move_flags [OF m k] move_streams [OF m] by (auto simp: stuck_def)
  next
    case False
    with move_stream [OF m k] lim show ?thesis by (auto simp: Let_def offerChunk_max)
  qed
qed

lemma streamsOk_step:
  assumes "smStep ev st = Some st'" and ok: "smInv st" "noLastSeq st" "streamsOk st"
  shows "streamsOk st'"
  using assms(1)
proof (cases rule: smStep_cases)
  case (call c)
  with ok(3) stuck_step [OF assms(1)] fedBy_mono [OF _ callsOf_step [OF assms(1)]] show ?thesis
    by (auto simp: streamsOk_def)
next
  case (thread t pc' st0)
  note m = thread(3) and t = thread(2)
  have old: "(sq_max (st_seqQ (sm_streams st' ! k)) = - 1 \<or> stuck k st') \<and> fedBy st' (sm_streams st' ! k)"
    if k: "k < length (sm_streams st)" for k
  proof -
    have "sq_max (st_seqQ (sm_streams st ! k)) = - 1" if "pcOf st t = WriteWork k"
      using that ok(3) k t by (fastforce simp: streamsOk_def stuck_def)
    with ok k limit_move [OF m t k] fedBy_move [OF m t k] thread(4) show ?thesis
      by (auto simp: smInv_def streamsOk_def)
  qed
  have new: "sm_streams st' ! k = newStream (callSid (callOf st t)) rF \<Longrightarrow>
      sq_max (st_seqQ (sm_streams st' ! k)) = - 1 \<and> fedBy st' (sm_streams st' ! k)" for k rF
    using seqq.fed_new unfolding fedBy_def by (auto simp: newStream_def NewSeqQueue_def intro!: exI [of _ "[]"])
  have "k < length (sm_streams st) \<or> (\<exists>rF. sm_streams st' ! k = newStream (callSid (callOf st t)) rF)"
    if "k < length (sm_streams st')" for k
    using m that thread(4) by cases (auto simp: setWorking_def nth_append less_Suc_eq)
  with old new show ?thesis unfolding streamsOk_def by blast
qed

lemma streamsOk_reaches:
  assumes "smReaches NewStreamManager st" and "noLastSeq st"
  shows "streamsOk st"
proof -
  have init: "streamsOk NewStreamManager" by (simp add: streamsOk_def NewStreamManager_def)
  have "smInv st \<and> (noLastSeq st \<longrightarrow> streamsOk st)"
  proof (rule stepReaches_inv [where P = "\<lambda>st. smInv st \<and> (noLastSeq st \<longrightarrow> streamsOk st)", OF assms(1)])
    fix ev st st' assume "smStep ev st = Some st'" "smInv st \<and> (noLastSeq st \<longrightarrow> streamsOk st)"
    moreover from callsOf_step [OF this(1)] have "noLastSeq st' \<Longrightarrow> noLastSeq st" by (auto simp: noLastSeq_def)
    ultimately show "smInv st' \<and> (noLastSeq st' \<longrightarrow> streamsOk st')" by (blast intro: smInv_step streamsOk_step)
  qed (simp add: init smInv_init)
  with assms(2) show ?thesis by simp
qed

section \<open>The properties\<close>

text \<open>C6: The input of a running command arrives in order: at every moment, and however the calls of the
  handler and of the running operations interleave, the chunks written to the command of a session are
  chunks 0, 1, 2, ... of write calls made for this very session, without a gap and each
  once. (No stream reaches the largest 64 bit number.)\<close>

theorem stream_input_in_order:
  assumes "smReaches NewStreamManager st" and "k < length (sm_streams st)"
    and "\<forall>sid d. CallWrite sid (- 1) (Some d) \<notin> fst ` set (sm_threads st)" and "i < length (st_written (sm_streams st ! k))"
  shows "CallWrite (st_sid (sm_streams st ! k)) (word_of_nat i) (Some (st_written (sm_streams st ! k) ! i))
    \<in> fst ` set (sm_threads st)"
proof -
  have "fedBy st (sm_streams st ! k)"
    using streamsOk_reaches [OF assms(1)] assms(2,3) by (simp add: noLastSeq_def callsOf_def streamsOk_def)
  then obtain zs where zs: "\<forall>(seq, d)\<in>set zs. CallWrite (st_sid (sm_streams st ! k)) seq (Some d) \<in> callsOf st"
    "seqq.fed zs (st_closed (sm_streams st ! k)) (st_written (sm_streams st ! k)) (st_seqQ (sm_streams st ! k))"
    by (auto simp: fedBy_def)
  from map_of_SomeD [OF seqq.fed_in_order [OF zs(2) assms(4)]] zs(1) show ?thesis by (auto simp: callsOf_def)
qed


text \<open>C4: Closing an input stops the stream manager. When the hub closes the input of a session
  (\<^verbatim>\<open>CMD_DATA_CLOSE\<close>), \<^verbatim>\<open>write\<close> returns without giving the flag of the stream back; when the operation of the session
  then ends, \<^verbatim>\<open>Del\<close> waits for that flag forever with the mutex in its hands. The writer is never closed
  any more, and no later call on the manager, for whatever session, gets past its first lock.\<close>

theorem data_close_stops_manager:
  assumes "smReaches NewStreamManager st" and "sm_mu st = None" and "map_of (sm_sessions st) sid = Some k"
    and "\<not> st_working (sm_streams st ! k)" and "\<not> st_closed (sm_streams st ! k)"
  shows "\<exists>st1. smRun (closeThenDel sid seq (length (sm_threads st))) st = Some st1
    \<and> (\<forall>st2. smReaches st1 st2 \<longrightarrow> sm_mu st2 = Some (Suc (length (sm_threads st)))
         \<and> \<not> st_closed (sm_streams st2 ! k)
         \<and> (\<forall>t. length (sm_threads st1) \<le> t \<longrightarrow> t < length (sm_threads st2) \<longrightarrow> snd (sm_threads st2 ! t) = Called))"
proof -
  from closeThenDel_dead [OF smInv_reaches [OF assms(1)] assms(2-4)] obtain st1 where
    run: "smRun (closeThenDel sid seq (length (sm_threads st))) st = Some st1"
    and d: "dead (Suc (length (sm_threads st))) k (length (sm_threads st1)) st1"
    and c: "\<not> st_closed (sm_streams st1 ! k)" using assms(5) by blast
  let ?P = "\<lambda>st2. dead (Suc (length (sm_threads st))) k (length (sm_threads st1)) st2
    \<and> \<not> st_closed (sm_streams st2 ! k)"
  have "?P st2" if "smReaches st1 st2" for st2
    by (rule stepReaches_inv [where P = ?P, OF that]) (use d c dead_step stuck_step in \<open>auto simp: dead_def\<close>)
  with run show ?thesis by (intro exI [of _ st1]) (auto simp: dead_def)
qed

section \<open>Examples\<close>

text \<open>A session with two chunks that arrive in the wrong order.\<close>

definition sessionEvents :: "smEvent list" where
  "sessionEvents =
     [EvCall (CallAdd 7 (Inr True)), EvThread 0, EvCall (CallWrite 7 1 (Some ''b'')), EvCall (CallWrite 7 0 (Some ''a'')),
      EvThread 1, EvThread 2, EvThread 1, EvThread 1, EvThread 2, EvThread 2]"

definition sessionAfter :: "nat \<Rightarrow> smState" where
  "sessionAfter n = (case smRun (take n sessionEvents) NewStreamManager of Some st \<Rightarrow> st | None \<Rightarrow> NewStreamManager)"

lemma sessionAfter_reaches: "smReaches NewStreamManager (sessionAfter n)"
  by (auto simp: sessionAfter_def intro: reaches_refl runSteps_reaches split: option.split)

theorem stream_input_in_order_witness:
  "st_written (sm_streams (sessionAfter 10) ! 0) = [''a'', ''b'']
   \<and> CallWrite 7 (word_of_nat 1) (Some ''b'') \<in> fst ` set (sm_threads (sessionAfter 10))"
proof -
  have w: "st_written (sm_streams (sessionAfter 10) ! 0) = [''a'', ''b'']" by code_simp
  have t: "fst ` set (sm_threads (sessionAfter 10))
      = {CallAdd 7 (Inr True), CallWrite 7 1 (Some ''b''), CallWrite 7 0 (Some ''a'')}" by code_simp
  have "0 < length (sm_streams (sessionAfter 10))" "st_sid (sm_streams (sessionAfter 10) ! 0) = 7" by code_simp+
  with stream_input_in_order [OF sessionAfter_reaches, of 0 10 1] w show ?thesis by (simp add: t)
qed


theorem data_close_stops_manager_witness:
  "\<exists>st1. smRun (closeThenDel 7 2 3) (sessionAfter 10) = Some st1
    \<and> (\<forall>st2. smReaches st1 st2 \<longrightarrow> sm_mu st2 = Some 4)"
proof -
  have "sm_mu (sessionAfter 10) = None" "map_of (sm_sessions (sessionAfter 10)) 7 = Some 0"
    "\<not> st_working (sm_streams (sessionAfter 10) ! 0)" "\<not> st_closed (sm_streams (sessionAfter 10) ! 0)"
    "length (sm_threads (sessionAfter 10)) = 3" by code_simp+
  with data_close_stops_manager [OF sessionAfter_reaches, of 10 7 0 2] show ?thesis by auto
qed

end
