(* ===== verification/Varint.thy ===== *)
theory Varint
  imports GoStd "HOL-Library.Word"
begin

text \<open>
  The parts of the generated protobuf code (\<^verbatim>\<open>*.pb.go\<close>) that all messages share: the length of a number, writing
  numbers, tags and bytes from the end of a buffer to its front, reading numbers and fields, skipping unknown fields. Bytes are
  characters. A Go panic is \<^const>\<open>None\<close> in the writers and \<open>Panic\<close> in the readers. Repeated fields, messages in messages and maps are included. The loop that decodes a message is the same text for every
  message but for its fields, so it is a function of a table of fields. Shown: the writers fill exactly the bytes
  a reference encoding has, and the loop decodes every sequence of encoded fields, unknown ones included.
\<close>

unbundle bit_operations_syntax

section \<open>Writing\<close>

text \<open>\<^verbatim>\<open>bits.Len64\<close>.\<close>

function bitLen :: "nat \<Rightarrow> nat" where
  "bitLen n = (if n = 0 then 0 else Suc (bitLen (n div 2)))"
  by pat_completeness auto

termination
  by (relation "measure id") auto

declare bitLen.simps [simp del]

definition sovRuntime :: "64 word \<Rightarrow> nat" where
  "sovRuntime x = (bitLen (unat (x OR 1)) + 6) div 7"

definition byteChar :: "8 word \<Rightarrow> char" where
  "byteChar b = char_of (unat b)"

text \<open>\<^verbatim>\<open>dAtA[i] = b\<close>, which panics out of range.\<close>

definition setByte :: "8 word \<Rightarrow> int \<Rightarrow> string \<Rightarrow> string option" where
  "setByte b i dAtA = (if 0 \<le> i \<and> i < int (length dAtA) then Some (dAtA[nat i := byteChar b]) else None)"

lemma drop_bit7_less: "128 \<le> v \<Longrightarrow> unat (drop_bit 7 v) < unat (v :: 64 word)"
  by (simp add: drop_bit_eq_div word_le_nat_alt unat_div)

function putVarint :: "string \<Rightarrow> int \<Rightarrow> 64 word \<Rightarrow> string option" where
  "putVarint dAtA offset v =
     (if 128 \<le> v then
        (case setByte (ucast (v AND 0x7f OR 0x80)) offset dAtA of
           None \<Rightarrow> None
         | Some dAtA' \<Rightarrow> putVarint dAtA' (offset + 1) (drop_bit 7 v))
      else setByte (ucast v) offset dAtA)"
  by pat_completeness auto

termination
  by (relation "measure (\<lambda>(dAtA, offset, v). unat v)") (auto simp: drop_bit7_less)

declare putVarint.simps [simp del]

type_synonym sizedBuffer = "string \<times> int"

definition encodeVarintRuntime :: "64 word \<Rightarrow> sizedBuffer \<Rightarrow> sizedBuffer option" where
  "encodeVarintRuntime v st =
     (case st of (dAtA, offset) \<Rightarrow>
        let base = offset - int (sovRuntime v) in map_option (\<lambda>dAtA. (dAtA, base)) (putVarint dAtA base v))"

text \<open>\<^verbatim>\<open>i -= len(s); copy(dAtA[i:], s)\<close>.\<close>

definition copyBytes :: "string \<Rightarrow> sizedBuffer \<Rightarrow> sizedBuffer option" where
  "copyBytes s st =
     (case st of (dAtA, i) \<Rightarrow>
        let i = i - int (length s) in
        if 0 \<le> i \<and> i \<le> int (length dAtA)
        then Some (take (nat i) dAtA @ take (length dAtA - nat i) s @ drop (nat i + length s) dAtA, i)
        else None)"

definition putTag :: "8 word \<Rightarrow> sizedBuffer \<Rightarrow> sizedBuffer option" where
  "putTag tag st = (case st of (dAtA, i) \<Rightarrow> map_option (\<lambda>dAtA. (dAtA, i - 1)) (setByte tag (i - 1) dAtA))"

text \<open>The block of \<^verbatim>\<open>MarshalToSizedBuffer\<close> for a field of bytes, and for a number.\<close>

definition putBytesField :: "8 word \<Rightarrow> string \<Rightarrow> sizedBuffer \<Rightarrow> sizedBuffer option" where
  "putBytesField tag s st =
     (if s = [] then Some st
      else Option.bind (copyBytes s st) (\<lambda>st. Option.bind (encodeVarintRuntime (of_nat (length s)) st) (putTag tag)))"

definition putVarintField :: "8 word \<Rightarrow> 64 word \<Rightarrow> sizedBuffer \<Rightarrow> sizedBuffer option" where
  "putVarintField tag v st = (if v = 0 then Some st else Option.bind (encodeVarintRuntime v st) (putTag tag))"

text \<open>The block for a boolean field (\<^const>\<open>putTag\<close> writes one byte), for one string of a repeated field, for a
  message in a message, and for one entry of a map. A message in a message is written by its own function into the part of
  the buffer before the position.\<close>

definition putBoolField :: "8 word \<Rightarrow> bool \<Rightarrow> sizedBuffer \<Rightarrow> sizedBuffer option" where
  "putBoolField tag b st = (if b then Option.bind (putTag (if b then 1 else 0) st) (putTag tag) else Some st)"

definition putItem :: "8 word \<Rightarrow> string \<Rightarrow> sizedBuffer \<Rightarrow> sizedBuffer option" where
  "putItem tag s st =
     Option.bind (copyBytes s st) (\<lambda>st. Option.bind (encodeVarintRuntime (of_nat (length s)) st) (putTag tag))"

definition putMessage :: "8 word \<Rightarrow> (sizedBuffer \<Rightarrow> sizedBuffer option) \<Rightarrow> sizedBuffer \<Rightarrow> sizedBuffer option" where
  "putMessage tag toSizedBuffer st =
     (case st of (dAtA, i) \<Rightarrow>
        if i < 0 \<or> int (length dAtA) < i then None
        else case toSizedBuffer (take (nat i) dAtA, i) of
          None \<Rightarrow> None
        | Some (front, j) \<Rightarrow>
            let size = int (length front) - j in
            Option.bind (encodeVarintRuntime (of_int size) (front @ drop (nat i) dAtA, i - size)) (putTag tag))"

definition putEntry :: "8 word \<Rightarrow> (sizedBuffer \<Rightarrow> sizedBuffer option) \<Rightarrow> string \<Rightarrow> sizedBuffer \<Rightarrow> sizedBuffer option" where
  "putEntry tag putValue k st =
     (let baseI = snd st in
      Option.bind (putValue st) (\<lambda>st.
      Option.bind (putItem 0xa k st) (\<lambda>st.
      Option.bind (encodeVarintRuntime (of_int (baseI - snd st)) st) (putTag tag))))"

text \<open>The loop over the entries of a map, in the order in which the iteration gives them; the loop over the elements of a sliceOf goes
  from the last to the first.\<close>

definition putAll :: "('x \<Rightarrow> sizedBuffer \<Rightarrow> sizedBuffer option) \<Rightarrow> 'x list \<Rightarrow> sizedBuffer \<Rightarrow> sizedBuffer option" where
  "putAll put xs st = fold (\<lambda>x r. Option.bind r (put x)) xs (Some st)"

definition putRepeated :: "('x \<Rightarrow> sizedBuffer \<Rightarrow> sizedBuffer option) \<Rightarrow> 'x list \<Rightarrow> sizedBuffer \<Rightarrow> sizedBuffer option" where
  "putRepeated put xs = putAll put (rev xs)"

text \<open>The summands of \<^verbatim>\<open>Size\<close>; an item is an element of a repeated field, or a message in a message, of length \<open>l\<close>.\<close>

definition sizeBytesField :: "string \<Rightarrow> nat" where
  "sizeBytesField s = (let l = length s in if 0 < l then 1 + l + sovRuntime (of_nat l) else 0)"

definition sizeVarintField :: "64 word \<Rightarrow> nat" where
  "sizeVarintField v = (if v \<noteq> 0 then 1 + sovRuntime v else 0)"

definition sizeBoolField :: "bool \<Rightarrow> nat" where
  "sizeBoolField b = (if b then 2 else 0)"

definition sizeItem :: "nat \<Rightarrow> nat" where
  "sizeItem l = 1 + l + sovRuntime (of_nat l)"

text \<open>\<^verbatim>\<open>Marshal\<close>: a buffer of the computed size is filled from its end; \<^verbatim>\<open>n\<close> bytes from its front are the result.\<close>

definition marshalWith :: "nat \<Rightarrow> (sizedBuffer \<Rightarrow> sizedBuffer option) \<Rightarrow> string option" where
  "marshalWith sz toSizedBuffer =
     (case toSizedBuffer (replicate sz (CHR 0x00), int sz) of
        None \<Rightarrow> None
      | Some (dAtA, i) \<Rightarrow>
          let n = int (length dAtA) - i in if 0 \<le> n \<and> n \<le> int (length dAtA) then Some (take (nat n) dAtA) else None)"

section \<open>Reading\<close>

definition ErrInvalidLengthRuntime :: goerr where
  "ErrInvalidLengthRuntime = ErrNew ''proto: negative length found during unmarshaling''"
definition ErrIntOverflowRuntime :: goerr where "ErrIntOverflowRuntime = ErrNew ''proto: integer overflow''"
definition ErrUnexpectedEndOfGroupRuntime :: goerr where
  "ErrUnexpectedEndOfGroupRuntime = ErrNew ''proto: unexpected end of group''"
definition ErrUnexpectedEOF :: goerr where "ErrUnexpectedEOF = ErrNew ''unexpected EOF''"

text \<open>The loop that reads a number into a variable of the width of \<open>'a\<close>.\<close>

function readVarint :: "string \<Rightarrow> nat \<Rightarrow> nat \<Rightarrow> 'a::len word \<Rightarrow> goerr + 'a word \<times> nat" where
  "readVarint dAtA iNdEx shift acc =
     (if 64 \<le> shift then Inl ErrIntOverflowRuntime
      else if length dAtA \<le> iNdEx then Inl ErrUnexpectedEOF
      else
        let b = (of_char (dAtA ! iNdEx) :: 8 word);
            acc = acc OR push_bit shift (ucast (b AND 0x7F))
        in if b < 0x80 then Inr (acc, iNdEx + 1) else readVarint dAtA (iNdEx + 1) (shift + 7) acc)"
  by pat_completeness auto

termination
  by (relation "measure (\<lambda>(dAtA, iNdEx, shift, acc). 64 - shift)") auto

declare readVarint.simps [simp del]

text \<open>Adding a length to an index. Both are of type \<^verbatim>\<open>int\<close> (64 bits): a length may be negative, and the sum of two
  that are not is negative when it reaches \<open>2 ^ 63\<close>.\<close>

definition addIndex :: "nat \<Rightarrow> 64 word \<Rightarrow> goerr + nat" where
  "addIndex iNdEx n =
     (if sint n < 0 \<or> 2 ^ 63 \<le> iNdEx + unat n then Inl ErrInvalidLengthRuntime else Inr (iNdEx + unat n))"

text \<open>\<^verbatim>\<open>skipRuntime\<close>: one field, or a group with everything in it. The value of a field may end behind the end of the data,
  which the caller checks.\<close>

definition skipValue :: "int \<Rightarrow> string \<Rightarrow> nat \<Rightarrow> nat \<Rightarrow> goerr + nat \<times> nat" where
  "skipValue wireType dAtA iNdEx depth =
     (let advance = (\<lambda>i n. case addIndex i n of Inl e \<Rightarrow> Inl e | Inr i \<Rightarrow> Inr (i, depth)) in
      if wireType = 0 then
        (case readVarint dAtA iNdEx 0 (0 :: 64 word) of Inl e \<Rightarrow> Inl e | Inr (_, i) \<Rightarrow> Inr (i, depth))
      else if wireType = 1 then advance iNdEx 8
      else if wireType = 2 then
        (case readVarint dAtA iNdEx 0 0 of Inl e \<Rightarrow> Inl e | Inr (n, i) \<Rightarrow> advance i n)
      else if wireType = 3 then Inr (iNdEx, depth + 1)
      else if wireType = 4 then
        (if depth = 0 then Inl ErrUnexpectedEndOfGroupRuntime else Inr (iNdEx, depth - 1))
      else if wireType = 5 then advance iNdEx 4
      else Inl (ErrNew (''proto: illegal wireType '' @ FormatInt wireType)))"

lemma readVarint_advances: "readVarint dAtA i s acc = Inr (v, i') \<Longrightarrow> i < i'"
proof (induction dAtA i s acc rule: readVarint.induct)
  case (1 dAtA i s acc)
  from 1(2) show ?case
    by (subst (asm) readVarint.simps) (auto simp: Let_def split: if_splits dest!: 1(1) [OF _ _ refl refl])
qed

lemma addIndex_advances: "addIndex i n = Inr i' \<Longrightarrow> i \<le> i'"
  by (auto simp: addIndex_def split: if_splits)

lemma skipValue_advances: "skipValue t dAtA i d = Inr (i', d') \<Longrightarrow> i \<le> i'"
  by (auto simp: skipValue_def Let_def split: if_splits sum.splits prod.splits
      dest!: readVarint_advances addIndex_advances)

function skipRuntime :: "string \<Rightarrow> nat \<Rightarrow> nat \<Rightarrow> goerr + nat" where
  "skipRuntime dAtA iNdEx depth =
     (if iNdEx < length dAtA then
        (case readVarint dAtA iNdEx 0 (0 :: 64 word) of
           Inl e \<Rightarrow> Inl e
         | Inr (wire, i) \<Rightarrow>
             (case skipValue (uint (wire AND 7)) dAtA i depth of
                Inl e \<Rightarrow> Inl e
              | Inr (i, depth) \<Rightarrow> if depth = 0 then Inr i else skipRuntime dAtA i depth))
      else Inl ErrUnexpectedEOF)"
  by pat_completeness auto

termination
  by (relation "measure (\<lambda>(dAtA, iNdEx, depth). length dAtA - iNdEx)")
     (auto dest!: readVarint_advances skipValue_advances)

declare skipRuntime.simps [simp del]

lemma skipRuntime_advances: "skipRuntime dAtA i d = Inr n \<Longrightarrow> i < n"
proof (induction dAtA i d rule: skipRuntime.induct)
  case (1 dAtA i d)
  from 1(2) show ?case
    by (subst (asm) skipRuntime.simps)
       (fastforce split: if_splits sum.splits prod.splits dest: readVarint_advances skipValue_advances 1(1) [OF _ _ refl _ refl])
qed

text \<open>The fields of a message: the name, for errors, and the assignment of the value that was read. A field of bytes may be
  one element of a repeated field, which the assignment appends. A field with something inside (a message, an entry of a map) is read
  by a function of the data, the index of its first byte and the one behind its last.\<close>

datatype 'm field =
    Int32Field string "32 word \<Rightarrow> 'm \<Rightarrow> 'm"
  | Int64Field string "64 word \<Rightarrow> 'm \<Rightarrow> 'm"
  | BytesField string "string \<Rightarrow> 'm \<Rightarrow> 'm"
  | SubField string "string \<Rightarrow> nat \<Rightarrow> nat \<Rightarrow> 'm \<Rightarrow> 'm outcome"

definition wrongWireType :: "int \<Rightarrow> string \<Rightarrow> goerr" where
  "wrongWireType wireType name = ErrNew (''proto: wrong wireType = '' @ FormatInt wireType @ '' for field '' @ name)"

text \<open>A length and that many bytes: the indices of the first byte and of the one behind the last.\<close>

definition readLength :: "string \<Rightarrow> nat \<Rightarrow> goerr + nat \<times> nat" where
  "readLength dAtA iNdEx =
     (case readVarint dAtA iNdEx 0 0 of
        Inl e \<Rightarrow> Inl e
      | Inr (byteLen, i) \<Rightarrow>
          (case addIndex i byteLen of
             Inl e \<Rightarrow> Inl e
           | Inr postIndex \<Rightarrow> if length dAtA < postIndex then Inl ErrUnexpectedEOF else Inr (i, postIndex)))"

definition sliceOf :: "string \<Rightarrow> nat \<Rightarrow> nat \<Rightarrow> string" where
  "sliceOf dAtA i j = take (j - i) (drop i dAtA)"

fun readField :: "'m field \<Rightarrow> int \<Rightarrow> string \<Rightarrow> nat \<Rightarrow> 'm \<Rightarrow> ('m \<times> nat) outcome" where
  "readField (Int32Field name assign) wireType dAtA iNdEx m =
     (if wireType \<noteq> 0 then Err (wrongWireType wireType name)
      else case readVarint dAtA iNdEx 0 0 of Inl e \<Rightarrow> Err e | Inr (v, i) \<Rightarrow> Ok (assign v m, i))"
| "readField (Int64Field name assign) wireType dAtA iNdEx m =
     (if wireType \<noteq> 0 then Err (wrongWireType wireType name)
      else case readVarint dAtA iNdEx 0 0 of Inl e \<Rightarrow> Err e | Inr (v, i) \<Rightarrow> Ok (assign v m, i))"
| "readField (BytesField name assign) wireType dAtA iNdEx m =
     (if wireType \<noteq> 2 then Err (wrongWireType wireType name)
      else case readLength dAtA iNdEx of
        Inl e \<Rightarrow> Err e
      | Inr (i, postIndex) \<Rightarrow> Ok (assign (sliceOf dAtA i postIndex) m, postIndex))"
| "readField (SubField name sub) wireType dAtA iNdEx m =
     (if wireType \<noteq> 2 then Err (wrongWireType wireType name)
      else case readLength dAtA iNdEx of
        Inl e \<Rightarrow> Err e
      | Inr (i, postIndex) \<Rightarrow>
          (case sub dAtA i postIndex m of Ok m' \<Rightarrow> Ok (m', postIndex) | Err e \<Rightarrow> Err e | Panic s \<Rightarrow> Panic s))"

lemma readLength_advances: "readLength dAtA i = Inr (i', j) \<Longrightarrow> i < j"
  by (auto simp: readLength_def split: sum.splits if_splits dest!: readVarint_advances addIndex_advances)

lemma readField_advances: "readField f t dAtA i m = Ok (m', i') \<Longrightarrow> i < i'"
  by (cases f) (fastforce split: if_splits sum.splits prod.splits outcome.splits dest: readVarint_advances readLength_advances)+

text \<open>The loop over an entry of a map: the key, the value, or an unknown field, whose end is tested without a look at overflow. A sum that
  overflows is negative, and a negative index panics at the next byte.\<close>

function mapEntryLoop :: "(string \<Rightarrow> 'v outcome) \<Rightarrow> string \<Rightarrow> nat \<Rightarrow> string \<Rightarrow> 'v \<Rightarrow> nat \<Rightarrow> (string \<times> 'v) outcome" where
  "mapEntryLoop readValue dAtA postIndex mapkey mapvalue iNdEx =
     (if iNdEx < postIndex then
        (case readVarint dAtA iNdEx 0 (0 :: 64 word) of
           Inl e \<Rightarrow> Err e
         | Inr (wire, i) \<Rightarrow>
             let fieldNum = sint (ucast (drop_bit 3 wire) :: 32 word) in
             if fieldNum = 1 then
               (case readLength dAtA i of
                  Inl e \<Rightarrow> Err e
                | Inr (i, j) \<Rightarrow> mapEntryLoop readValue dAtA postIndex (sliceOf dAtA i j) mapvalue j)
             else if fieldNum = 2 then
               (case readLength dAtA i of
                  Inl e \<Rightarrow> Err e
                | Inr (i, j) \<Rightarrow>
                    (case readValue (sliceOf dAtA i j) of
                       Ok v \<Rightarrow> mapEntryLoop readValue dAtA postIndex mapkey v j
                     | Err e \<Rightarrow> Err e
                     | Panic p \<Rightarrow> Panic p))
             else
               (case skipRuntime (drop iNdEx dAtA) 0 0 of
                  Inl e \<Rightarrow> Err e
                | Inr skippy \<Rightarrow>
                    if 2 ^ 63 \<le> iNdEx + skippy then Panic ''index out of range''
                    else if postIndex < iNdEx + skippy then Err ErrUnexpectedEOF
                    else mapEntryLoop readValue dAtA postIndex mapkey mapvalue (iNdEx + skippy)))
      else Ok (mapkey, mapvalue))"
  by pat_completeness auto

termination
  by (relation "measure (\<lambda>(readValue, dAtA, postIndex, mapkey, mapvalue, iNdEx). postIndex - iNdEx)")
     (auto dest!: readVarint_advances readLength_advances skipRuntime_advances)

declare mapEntryLoop.simps [simp del]

text \<open>A message in a message, and an entry of a map with the value an entry without one gets.\<close>

definition MessageField :: "string \<Rightarrow> (string \<Rightarrow> 'v outcome) \<Rightarrow> ('v \<Rightarrow> 'm \<Rightarrow> 'm) \<Rightarrow> 'm field" where
  "MessageField name readValue assign =
     SubField name (\<lambda>dAtA i j m. case readValue (sliceOf dAtA i j) of Ok v \<Rightarrow> Ok (assign v m) | Err e \<Rightarrow> Err e | Panic p \<Rightarrow> Panic p)"

definition MapField :: "string \<Rightarrow> (string \<Rightarrow> 'v outcome) \<Rightarrow> 'v \<Rightarrow> (string \<Rightarrow> 'v \<Rightarrow> 'm \<Rightarrow> 'm) \<Rightarrow> 'm field" where
  "MapField name readValue none assign =
     SubField name (\<lambda>dAtA i j m. case mapEntryLoop readValue dAtA j [] none i of
       Ok (k, v) \<Rightarrow> Ok (assign k v m) | Err e \<Rightarrow> Err e | Panic p \<Rightarrow> Panic p)"

text \<open>The loop of \<^verbatim>\<open>Unmarshal\<close>. Every step ends within the data, so the final test for an index behind its end never holds.\<close>

function unmarshalLoop :: "string \<Rightarrow> (int \<Rightarrow> 'm field option) \<Rightarrow> string \<Rightarrow> 'm \<Rightarrow> nat \<Rightarrow> 'm outcome" where
  "unmarshalLoop name fields dAtA m iNdEx =
     (if iNdEx < length dAtA then
        (case readVarint dAtA iNdEx 0 (0 :: 64 word) of
           Inl e \<Rightarrow> Err e
         | Inr (wire, i) \<Rightarrow>
             let fieldNum = sint (ucast (drop_bit 3 wire) :: 32 word); wireType = uint (wire AND 7) in
             if wireType = 4 then Err (ErrNew (''proto: '' @ name @ '': wiretype end group for non-group''))
             else if fieldNum \<le> 0 then
               Err (ErrNew (''proto: '' @ name @ '': illegal tag '' @ FormatInt fieldNum @ '' (wire type '' @ FormatInt (uint wire) @ '')''))
             else
               (case fields fieldNum of
                  Some f \<Rightarrow>
                    (case readField f wireType dAtA i m of
                       Ok (m', i') \<Rightarrow> unmarshalLoop name fields dAtA m' i'
                     | Err e \<Rightarrow> Err e
                     | Panic p \<Rightarrow> Panic p)
                | None \<Rightarrow>
                    (case skipRuntime (drop iNdEx dAtA) 0 0 of
                       Inl e \<Rightarrow> Err e
                     | Inr skippy \<Rightarrow>
                         if 2 ^ 63 \<le> iNdEx + skippy then Err ErrInvalidLengthRuntime
                         else if length dAtA < iNdEx + skippy then Err ErrUnexpectedEOF
                         else unmarshalLoop name fields dAtA m (iNdEx + skippy))))
      else Ok m)"
  by pat_completeness auto

termination
  by (relation "measure (\<lambda>(name, fields, dAtA, m, iNdEx). length dAtA - iNdEx)")
     (auto dest!: readVarint_advances readField_advances skipRuntime_advances split: if_splits)

declare unmarshalLoop.simps [simp del]

definition unmarshal :: "string \<Rightarrow> (int \<Rightarrow> 'm field option) \<Rightarrow> 'm \<Rightarrow> string \<Rightarrow> 'm outcome" where
  "unmarshal name fields m dAtA = unmarshalLoop name fields dAtA m 0"

section \<open>Reference encoding\<close>

function encVarint :: "64 word \<Rightarrow> string" where
  "encVarint v =
     (if 128 \<le> v then byteChar (ucast (v AND 0x7f OR 0x80)) # encVarint (drop_bit 7 v) else [byteChar (ucast v)])"
  by pat_completeness auto

termination
  by (relation "measure unat") (auto simp: drop_bit7_less)

declare encVarint.simps [simp del]

text \<open>A field as it is sent: nothing when it has the zero value, but for the items of repeated fields, messages in messages and entries
  of maps.\<close>

datatype part = VarintPart "8 word" "64 word" | BytesPart "8 word" string | ItemPart "8 word" string

fun partTag :: "part \<Rightarrow> 8 word" where
  "partTag (VarintPart tag v) = tag"
| "partTag (BytesPart tag s) = tag"
| "partTag (ItemPart tag s) = tag"

fun encPart :: "part \<Rightarrow> string" where
  "encPart (VarintPart tag v) = (if v = 0 then [] else byteChar tag # encVarint v)"
| "encPart (BytesPart tag s) = (if s = [] then [] else byteChar tag # encVarint (of_nat (length s)) @ s)"
| "encPart (ItemPart tag s) = byteChar tag # encVarint (of_nat (length s)) @ s"

fun putPart :: "part \<Rightarrow> sizedBuffer \<Rightarrow> sizedBuffer option" where
  "putPart (VarintPart tag v) = putVarintField tag v"
| "putPart (BytesPart tag s) = putBytesField tag s"
| "putPart (ItemPart tag s) = putItem tag s"

fun sizePart :: "part \<Rightarrow> nat" where
  "sizePart (VarintPart tag v) = sizeVarintField v"
| "sizePart (BytesPart tag s) = sizeBytesField s"
| "sizePart (ItemPart tag s) = sizeItem (length s)"

text \<open>A writer emits some bytes: it turns that many zero bytes before the current position into them.\<close>

definition emits :: "(sizedBuffer \<Rightarrow> sizedBuffer option) \<Rightarrow> string \<Rightarrow> bool" where
  "emits f bs \<longleftrightarrow> (\<forall>k suf. f (replicate (k + length bs) (CHR 0x00) @ suf, int (k + length bs))
     = Some (replicate k (CHR 0x00) @ bs @ suf, int k))"

lemma emits_nothing: "emits Some []"
  by (simp add: emits_def)

lemma emits_andThen: "emits f a \<Longrightarrow> emits g b \<Longrightarrow> emits (\<lambda>st. Option.bind (f st) g) (b @ a)"
  unfolding emits_def
proof (intro allI)
  fix k :: nat and suf
  assume f: "\<forall>k suf. f (replicate (k + length a) (CHR 0x00) @ suf, int (k + length a)) = Some (replicate k (CHR 0x00) @ a @ suf, int k)"
    and g: "\<forall>k suf. g (replicate (k + length b) (CHR 0x00) @ suf, int (k + length b)) = Some (replicate k (CHR 0x00) @ b @ suf, int k)"
  from f [rule_format, of "k + length b" suf] g [rule_format, of k "a @ suf"]
  show "Option.bind (f (replicate (k + length (b @ a)) (CHR 0x00) @ suf, int (k + length (b @ a)))) g
      = Some (replicate k (CHR 0x00) @ (b @ a) @ suf, int k)"
    by (simp add: add.assoc)
qed

lemma putVarint_enc:
  "length z = length (encVarint v) \<Longrightarrow>
    putVarint (pre @ z @ suf) (int (length pre)) v = Some (pre @ encVarint v @ suf)"
proof (induction v arbitrary: pre z rule: encVarint.induct)
  case (1 v)
  then obtain c z' where z: "z = c # z'" by (subst (asm) (2) encVarint.simps) (cases z, auto split: if_splits)
  show ?case
  proof (cases "128 \<le> v")
    case True
    let ?b = "ucast (v AND 0x7f OR 0x80) :: 8 word"
    have "length z' = length (encVarint (drop_bit 7 v))" using 1(2) z True by (subst (asm) encVarint.simps) simp
    from 1(1) [OF True this, of "pre @ [byteChar ?b]"] True z show ?thesis
      by (subst putVarint.simps, subst encVarint.simps) (simp add: setByte_def ac_simps)
  next
    case False
    with 1(2) z show ?thesis
      by (subst putVarint.simps, subst encVarint.simps, subst (asm) encVarint.simps) (simp add: setByte_def)
  qed
qed

lemma bitLen_double: "0 < n \<Longrightarrow> bitLen n = Suc (bitLen (n div 2))"
  by (subst bitLen.simps) simp

lemma bitLen_128: "128 \<le> n \<Longrightarrow> bitLen n = 7 + bitLen (n div 128)"
  by (simp add: bitLen_double div_mult2_eq [symmetric] Euclidean_Rings.div_eq_0_iff)

lemma bitLen_le: "n < 2 ^ k \<Longrightarrow> bitLen n \<le> k"
proof (induction k arbitrary: n)
  case (Suc k)
  then show ?case by (cases "n = 0") (auto simp: bitLen_double bitLen.simps [of 0])
qed (simp add: bitLen.simps)

lemma or_one_div_two: "(n OR Suc 0) div 2 = n div 2"
  using drop_bit_or [of 1 n 1] by (simp add: drop_bit_eq_div)

lemma bitLen_or_one: "0 < n \<Longrightarrow> bitLen (n OR Suc 0) = bitLen n"
  by (subst (1 2) bitLen.simps) (simp add: or_one_div_two or_eq_0_iff)

lemma sovRuntime_unat: "sovRuntime v = (bitLen (unat v OR Suc 0) + 6) div 7"
  by (simp add: sovRuntime_def unsigned_or_eq)

lemma length_encVarint: "length (encVarint v) = sovRuntime v"
proof (induction v rule: encVarint.induct)
  case (1 v)
  show ?case
  proof (cases "128 \<le> v")
    case True
    then have v: "128 \<le> unat v" by (simp add: word_le_nat_alt)
    moreover from this have "0 < unat v div 128" by (simp add: div_greater_zero_iff)
    moreover have "unat (drop_bit 7 v) = unat v div 128" by (simp add: drop_bit_eq_div unat_div)
    ultimately have "sovRuntime v = Suc (sovRuntime (drop_bit 7 v))"
      by (simp add: sovRuntime_unat bitLen_or_one bitLen_128 [of "unat v"])
    with 1 True show ?thesis by (subst encVarint.simps) simp
  next
    case False
    then have v: "unat v < 2 ^ 7" by (simp add: word_le_nat_alt)
    have "bitLen (unat v OR Suc 0) \<le> 7" "0 < bitLen (unat v OR Suc 0)"
      using bitLen_le [OF v] bitLen_le [of 0 0]
      by (cases "unat v = 0"; simp add: bitLen_or_one bitLen_double)+
    then have "sovRuntime v = 1" by (simp add: sovRuntime_unat)
    with False show ?thesis by (subst encVarint.simps) simp
  qed
qed

lemma encodeVarint_emits: "emits (encodeVarintRuntime v) (encVarint v)"
  unfolding emits_def
proof (intro allI)
  fix k :: nat and suf
  let ?z = "CHR 0x00"
  from putVarint_enc [of "replicate (length (encVarint v)) ?z" v "replicate k ?z" suf]
  show "encodeVarintRuntime v (replicate (k + length (encVarint v)) ?z @ suf, int (k + length (encVarint v)))
      = Some (replicate k ?z @ encVarint v @ suf, int k)"
    by (simp add: encodeVarintRuntime_def length_encVarint replicate_add)
qed

lemma copyBytes_emits: "emits (copyBytes s) s"
  by (simp add: emits_def copyBytes_def replicate_add)

lemma putTag_emits: "emits (putTag tag) [byteChar tag]"
  unfolding emits_def
proof (intro allI)
  fix k :: nat and suf
  have "(replicate k (CHR 0x00) @ CHR 0x00 # suf)[k := byteChar tag] = replicate k (CHR 0x00) @ byteChar tag # suf"
    by (simp add: list_update_append)
  moreover have "replicate (Suc k) (CHR 0x00) @ suf = replicate k (CHR 0x00) @ CHR 0x00 # suf"
    by (simp add: replicate_app_Cons_same)
  ultimately show "putTag tag (replicate (k + length [byteChar tag]) (CHR 0x00) @ suf, int (k + length [byteChar tag]))
      = Some (replicate k (CHR 0x00) @ [byteChar tag] @ suf, int k)"
    by (simp add: putTag_def setByte_def del: replicate_Suc)
qed

lemma putItem_emits: "emits (putItem tag s) (encPart (ItemPart tag s))"
  using emits_andThen [OF copyBytes_emits [of s] emits_andThen [OF encodeVarint_emits [of "of_nat (length s)"] putTag_emits [of tag]]]
  by (simp add: putItem_def [abs_def])

lemma putPart_emits: "emits (putPart p) (encPart p)"
proof (cases p)
  case (ItemPart tag s)
  then show ?thesis by (simp only: putItem_emits putPart.simps)
next
  case (VarintPart tag v)
  with emits_andThen [OF encodeVarint_emits [of v] putTag_emits [of tag]] emits_nothing show ?thesis
    by (simp add: putVarintField_def [abs_def])
next
  case (BytesPart tag s)
  with emits_andThen [OF copyBytes_emits [of s] emits_andThen [OF encodeVarint_emits [of "of_nat (length s)"] putTag_emits [of tag]]]
    emits_nothing show ?thesis
    by (simp add: putBytesField_def [abs_def])
qed

lemma length_encPart: "length (encPart p) = sizePart p"
  by (cases p) (auto simp: sizeVarintField_def sizeBytesField_def sizeItem_def length_encVarint Let_def)

lemma encVarint_1: "encVarint 1 = [byteChar 1]"
  by (subst encVarint.simps) (simp add: word_le_nat_alt)

lemma putBoolField_emits: "emits (putBoolField tag b) (encPart (VarintPart tag (if b then 1 else 0)))"
proof (cases b)
  case True
  with emits_andThen [OF putTag_emits [of 1] putTag_emits [of tag]] show ?thesis
    by (simp add: putBoolField_def [abs_def] encVarint_1)
next
  case False
  then show ?thesis by (simp add: putBoolField_def [abs_def] emits_nothing)
qed

lemma emitsD:
  "emits f bs \<Longrightarrow> i = k + length bs \<Longrightarrow>
    f (replicate i (CHR 0x00) @ suf, int i) = Some (replicate k (CHR 0x00) @ bs @ suf, int k)"
  by (simp add: emits_def)

lemma emitsI:
  "(\<And>i k suf. i = k + length bs \<Longrightarrow>
      f (replicate i (CHR 0x00) @ suf, int i) = Some (replicate k (CHR 0x00) @ bs @ suf, int k)) \<Longrightarrow> emits f bs"
  unfolding emits_def by blast

lemma putMessage_emits:
  assumes "emits f bs"
  shows "emits (putMessage tag f) (encPart (ItemPart tag bs))"
proof (rule emitsI)
  fix i k :: nat and suf
  assume i: "i = k + length (encPart (ItemPart tag bs))"
  let ?h = "byteChar tag # encVarint (of_nat (length bs))"
  obtain j where j: "j = k + length ?h" and ij: "i = j + length bs" using i by simp
  have "Option.bind (encodeVarintRuntime (of_nat (length bs)) (replicate j (CHR 0x00) @ bs @ suf, int j)) (putTag tag)
      = Some (replicate k (CHR 0x00) @ ?h @ bs @ suf, int k)"
    using emitsD [OF emits_andThen [OF encodeVarint_emits [of "of_nat (length bs)"] putTag_emits [of tag]], of j k "bs @ suf"] j by simp
  moreover have "f (replicate i (CHR 0x00), int i) = Some (replicate j (CHR 0x00) @ bs, int j)" using emitsD [OF assms ij, of "[]"] by simp
  moreover have "int i - int (length bs) = int j" using ij by simp
  ultimately show "putMessage tag f (replicate i (CHR 0x00) @ suf, int i) = Some (replicate k (CHR 0x00) @ encPart (ItemPart tag bs) @ suf, int k)"
    by (simp add: putMessage_def)
qed

text \<open>An entry of a map is a message of the key and the value.\<close>

lemma putEntry_emits:
  assumes "emits f vb"
  shows "emits (putEntry tag f key) (encPart (ItemPart tag (encPart (ItemPart 0xa key) @ vb)))"
proof (rule emitsI)
  fix i k :: nat and suf
  let ?bs = "encPart (ItemPart 0xa key) @ vb"
  assume i: "i = k + length (encPart (ItemPart tag ?bs))"
  let ?h = "byteChar tag # encVarint (of_nat (length ?bs))"
  obtain j where j: "j = k + length ?h" and ij: "i = j + length ?bs" using i by simp
  have "Option.bind (f (replicate i (CHR 0x00) @ suf, int i)) (putItem 0xa key) = Some (replicate j (CHR 0x00) @ ?bs @ suf, int j)"
    by (rule emitsD [OF emits_andThen [OF assms putItem_emits] ij])
  moreover have "Option.bind (encodeVarintRuntime (of_nat (length ?bs)) (replicate j (CHR 0x00) @ ?bs @ suf, int j)) (putTag tag)
      = Some (replicate k (CHR 0x00) @ ?h @ ?bs @ suf, int k)"
    using emitsD [OF emits_andThen [OF encodeVarint_emits [of "of_nat (length ?bs)"] putTag_emits [of tag]], of j k "?bs @ suf"] j by simp
  moreover have "of_int (int i - int j) = (of_nat (length ?bs) :: 64 word)" using ij by simp
  ultimately show "putEntry tag f key (replicate i (CHR 0x00) @ suf, int i)
      = Some (replicate k (CHR 0x00) @ encPart (ItemPart tag ?bs) @ suf, int k)"
    by (cases "f (replicate i (CHR 0x00) @ suf, int i)") (simp_all add: putEntry_def Let_def)
qed

lemma putAll_emits:
  "(\<And>x. x \<in> set xs \<Longrightarrow> emits (put x) (enc x)) \<Longrightarrow> emits (putAll put xs) (concat (map enc (rev xs)))"
proof (induction xs rule: rev_induct)
  case Nil
  then show ?case by (simp add: putAll_def [abs_def] emits_nothing)
next
  case (snoc x xs)
  then have "emits (putAll put xs) (concat (map enc (rev xs)))" "emits (put x) (enc x)" by simp_all
  from emits_andThen [OF this] show ?case by (simp add: putAll_def [abs_def])
qed

lemma putRepeated_emits:
  "(\<And>x. x \<in> set xs \<Longrightarrow> emits (put x) (enc x)) \<Longrightarrow> emits (putRepeated put xs) (concat (map enc xs))"
  using putAll_emits [of "rev xs" put enc] by (simp add: putRepeated_def)

text \<open>A buffer of the size of what is emitted ends up full.\<close>

lemma marshalWith_emits:
  assumes "emits f bs" shows "marshalWith (length bs) f = Some bs"
proof -
  have "f (replicate (length bs) (CHR 0x00), int (length bs)) = Some (bs, 0)"
    using assms [unfolded emits_def, rule_format, of 0 "[]"] by simp
  then show ?thesis by (simp add: marshalWith_def)
qed

section \<open>Decoding what was written\<close>

lemma of_char_byteChar [simp]: "of_char (byteChar b) = b"
proof -
  have "(of_char (byteChar b) :: nat) = unat b" using unsigned_less [of b, where ?'a = nat] by (simp add: byteChar_def)
  then have "of_nat (of_char (byteChar b)) = (of_nat (unat b) :: 8 word)" by simp
  then show ?thesis by (simp add: of_nat_of_char)
qed

lemma mask7: "(0x7F :: 'a::len word) = mask 7"
  by (simp add: mask_eq_exp_minus_1)

lemma bit_128: "bit (0x80 :: 'a::len word) n \<longleftrightarrow> n = 7 \<and> 7 < LENGTH('a)"
  using bit_exp_iff [of 7 n, where 'a = "'a word"] by auto

lemma less_128: "v < 128 \<Longrightarrow> take_bit 7 v = (v :: 'a::len word)"
proof -
  assume "v < 128"
  then have "unat v < unat (128 :: 'a word)" by (simp only: word_less_nat_alt)
  also have "\<dots> \<le> 128" using take_bit_nat_less_eq_self [of "LENGTH('a)" 128] by simp
  finally have "unat (take_bit 7 v) = unat v" by (simp add: unsigned_take_bit_eq take_bit_nat_eq_self)
  then show ?thesis by (rule unsigned_word_eqI)
qed

lemma low_byte:
  "(ucast ((ucast (v AND 0x7f OR 0x80) :: 8 word) AND 0x7F) :: 'a::len word) = take_bit 7 (ucast (v :: 64 word))"
  unfolding mask7
  by (rule bit_word_eqI, simp only: bit_unsigned_iff bit_or_iff bit_and_iff bit_128 bit_mask_iff bit_take_bit_iff) auto

lemma low_byte_small:
  "v < 128 \<Longrightarrow> (ucast ((ucast v :: 8 word) AND 0x7F) :: 'a::len word) = ucast (v :: 64 word)"
proof -
  assume "v < 128"
  then have "bit v n \<Longrightarrow> n < 7" for n by (metis bit_take_bit_iff less_128)
  then show ?thesis unfolding mask7 by (intro bit_word_eqI) (fastforce simp: bit_simps)
qed

lemma byte_big: "\<not> (ucast (v AND 0x7f OR 0x80 :: 64 word) :: 8 word) < 0x80"
proof
  assume "(ucast (v AND 0x7f OR 0x80) :: 8 word) < 0x80"
  then have "\<not> bit (ucast (v AND 0x7f OR 0x80) :: 8 word) 7" by (metis bit_take_bit_iff less_128 less_irrefl)
  then show False by (simp add: bit_simps bit_128)
qed

lemma byte_small: "v < 128 \<Longrightarrow> (ucast (v :: 64 word) :: 8 word) < 0x80"
  by (simp add: word_less_nat_alt unsigned_ucast_eq take_bit_eq_mod)

lemma join_bits:
  "push_bit s (take_bit 7 (ucast v)) OR push_bit (s + 7) (ucast (drop_bit 7 v)) = push_bit s (ucast (v :: 64 word) :: 'a::len word)"
proof (rule bit_word_eqI)
  fix n
  assume "n < LENGTH('a)"
  moreover have "n - s < 7 \<or> 7 + (n - (s + 7)) = n - s" by linarith
  ultimately show "bit (push_bit s (take_bit 7 (ucast v)) OR push_bit (s + 7) (ucast (drop_bit 7 v)) :: 'a word) n
      = bit (push_bit s (ucast v) :: 'a word) n"
    by (auto simp: bit_simps)
qed

lemma encVarint_nonempty: "encVarint v \<noteq> []"
  by (subst encVarint.simps) simp

lemma readVarint_enc:
  assumes "s < 64" and "unat v < 2 ^ (64 - s)"
  shows "readVarint (pre @ encVarint v @ post) (length pre) s acc =
    Inr (acc OR push_bit s (ucast v), length pre + length (encVarint v))"
  using assms
proof (induction v arbitrary: pre s acc rule: encVarint.induct)
  case (1 v)
  show ?case
  proof (cases "128 \<le> v")
    case True
    then have v: "128 \<le> unat v" by (simp add: word_le_nat_alt)
    have s: "s + 7 < 64" 
    proof (rule ccontr)
      assume "\<not> s + 7 < 64"
      then have "(2 :: nat) ^ (64 - s) \<le> 2 ^ 7" by (intro power_increasing) auto
      with v 1(3) show False by simp
    qed
    then have e: "64 - s = 7 + (64 - (s + 7))" by simp
    have "unat (drop_bit 7 v) < 2 ^ (64 - (s + 7))"
      using 1(3) unfolding e by (simp add: drop_bit_eq_div unat_div power_add less_mult_imp_div_less mult.commute)
    note IH = 1(1) [OF True s this, of "pre @ [byteChar (ucast (v AND 0x7f OR 0x80))]"]
    show ?thesis using True 1(2) IH
      by (subst encVarint.simps, subst (2) encVarint.simps, subst readVarint.simps)
         (simp add: nth_append byte_big low_byte Let_def or.assoc join_bits)
  next
    case False
    then have v: "v < 128" by simp
    then have "encVarint v = [byteChar (ucast v)]" using False by (subst encVarint.simps) (simp only: if_False)
    with 1(2) v show ?thesis
      by (subst readVarint.simps) (simp add: nth_append Let_def byte_small low_byte_small)
  qed
qed

lemma readVarint_encoded:
  "readVarint (pre @ encVarint v @ post) (length pre) 0 0 = Inr (ucast v, length pre + length (encVarint v))"
  using readVarint_enc [of 0 v pre post 0] unsigned_less [of v, where ?'a = nat] by simp

lemma readVarint_tag:
  "tag < 128 \<Longrightarrow> readVarint (pre @ byteChar tag # rest) (length pre) 0 0 = Inr (ucast tag :: 64 word, Suc (length pre))"
  by (subst readVarint.simps) (simp add: nth_append Let_def mask7 flip: take_bit_eq_mask, simp add: less_128)

definition tagNum :: "8 word \<Rightarrow> int" where
  "tagNum tag = uint (drop_bit 3 tag)"

lemma uint_ucast8: "uint (ucast (b :: 8 word) :: 'a::len word) = take_bit LENGTH('a) (uint b)"
  by (simp add: unsigned_ucast_eq)

lemma tag_num: "sint (ucast (drop_bit 3 (ucast tag :: 64 word)) :: 32 word) = tagNum tag"
proof -
  have "uint tag < 256" using unsigned_less [of tag, where ?'a = int] by simp
  then have d: "0 \<le> uint tag div 8" "uint tag div 8 < 2 ^ 31" by (simp_all add: pos_imp_zdiv_nonneg_iff)
  then have "uint (ucast (drop_bit 3 (ucast tag :: 64 word)) :: 32 word) = uint tag div 8"
    by (simp add: unsigned_ucast_eq uint_div drop_bit_eq_div take_bit_int_eq_self)
  with d show ?thesis
    by (simp add: sint_uint signed_take_bit_int_eq_self tagNum_def uint_div drop_bit_eq_div)
qed

lemma tag_num_pos: "8 \<le> tag \<Longrightarrow> 0 < tagNum tag"
  by (simp add: tagNum_def drop_bit_eq_div uint_div word_le_def)

lemma uint_and_7: "uint (x AND 7) = take_bit 3 (uint (x :: 'a::len word))"
proof -
  have "x AND 7 = take_bit 3 x" by (simp add: take_bit_eq_mask mask_eq_exp_minus_1)
  then show ?thesis by (simp only: unsigned_take_bit_eq)
qed

lemma tag_type: "uint (ucast (tag :: 8 word) AND 7 :: 64 word) = uint (tag AND 7)"
  by (simp add: uint_and_7 uint_ucast8)

lemma addIndex_length: "i + n < 2 ^ 63 \<Longrightarrow> addIndex i (of_nat n) = Inr (i + n)"
proof -
  assume a: "i + n < 2 ^ 63"
  then have n: "unat (of_nat n :: 64 word) = n" by (simp add: unat_of_nat take_bit_nat_eq_self)
  moreover have "sint (of_nat n :: 64 word) = int n" using a
    by (simp add: signed_of_nat signed_take_bit_int_eq_self)
  ultimately show ?thesis using a by (simp add: addIndex_def)
qed

lemma sliceOf_middle [simp]: "sliceOf (pre @ s @ rest) (length pre) (length pre + length s) = s"
  by (simp add: sliceOf_def)

lemma readLength_encoded:
  assumes "length pre + length (encVarint (of_nat (length s))) + length s < 2 ^ 63"
  shows "readLength (pre @ encVarint (of_nat (length s)) @ s @ rest) (length pre) =
    Inr (length pre + length (encVarint (of_nat (length s))), length pre + length (encVarint (of_nat (length s))) + length s)"
  using readVarint_encoded [of pre "of_nat (length s)" "s @ rest", where ?'a = 64] addIndex_length [OF assms]
  by (simp add: readLength_def)

lemma sliceOf_encoded:
  "sliceOf (pre @ encVarint v @ s @ rest) (length pre + length (encVarint v)) (length pre + length (encVarint v) + length s) = s"
  using sliceOf_middle [of "pre @ encVarint v" s rest] by simp

text \<open>A field with something inside fits when it is read, wherever in the data it stands.\<close>

definition subFits :: "(string \<Rightarrow> nat \<Rightarrow> nat \<Rightarrow> 'm \<Rightarrow> 'm outcome) \<Rightarrow> string \<Rightarrow> bool" where
  "subFits sub s \<longleftrightarrow>
     (\<forall>pre rest m. length (pre @ s @ rest) < 2 ^ 63 \<longrightarrow>
        (\<exists>m'. sub s 0 (length s) m = Ok m' \<and> sub (pre @ s @ rest) (length pre) (length pre + length s) m = Ok m'))"

text \<open>A part fits a table of fields when its tag has the wire type of the field, if the table has the field. What a
  part does to a message: nothing, when its field is unknown.\<close>

fun partFits :: "(int \<Rightarrow> 'm field option) \<Rightarrow> part \<Rightarrow> bool" where
  "partFits fields (VarintPart tag v) \<longleftrightarrow> 8 \<le> tag \<and> tag < 128 \<and> tag AND 7 = 0 \<and>
     (case fields (tagNum tag) of Some (BytesField _ _) \<Rightarrow> False | Some (SubField _ _) \<Rightarrow> False | _ \<Rightarrow> True)"
| "partFits fields (BytesPart tag s) \<longleftrightarrow> 8 \<le> tag \<and> tag < 128 \<and> tag AND 7 = 2 \<and>
     (case fields (tagNum tag) of None \<Rightarrow> True | Some (BytesField _ _) \<Rightarrow> True | _ \<Rightarrow> False)"
| "partFits fields (ItemPart tag s) \<longleftrightarrow> 8 \<le> tag \<and> tag < 128 \<and> tag AND 7 = 2 \<and>
     (case fields (tagNum tag) of
        None \<Rightarrow> True | Some (BytesField _ _) \<Rightarrow> True | Some (SubField _ sub) \<Rightarrow> subFits sub s | _ \<Rightarrow> False)"

fun applyPart :: "(int \<Rightarrow> 'm field option) \<Rightarrow> part \<Rightarrow> 'm \<Rightarrow> 'm" where
  "applyPart fields (VarintPart tag v) m =
     (if v = 0 then m
      else case fields (tagNum tag) of
        Some (Int32Field _ assign) \<Rightarrow> assign (ucast v) m
      | Some (Int64Field _ assign) \<Rightarrow> assign v m
      | _ \<Rightarrow> m)"
| "applyPart fields (BytesPart tag s) m =
     (if s = [] then m else case fields (tagNum tag) of Some (BytesField _ assign) \<Rightarrow> assign s m | _ \<Rightarrow> m)"
| "applyPart fields (ItemPart tag s) m =
     (case fields (tagNum tag) of
        Some (BytesField _ assign) \<Rightarrow> assign s m
      | Some (SubField _ sub) \<Rightarrow> (case sub s 0 (length s) m of Ok m' \<Rightarrow> m' | _ \<Rightarrow> m)
      | _ \<Rightarrow> m)"

lemma skip_item:
  assumes "tag < 128" and "tag AND 7 = 2" and "length (encPart (ItemPart tag s)) < 2 ^ 63"
  shows "skipRuntime (encPart (ItemPart tag s) @ rest) 0 0 = Inr (length (encPart (ItemPart tag s)))"
proof -
  let ?n = "encVarint (of_nat (length s))"
  have "addIndex (Suc (length ?n)) (of_nat (length s)) = Inr (Suc (length ?n) + length s)"
    using assms(3) by (intro addIndex_length) simp
  with assms(1,2) readVarint_tag [OF assms(1), of "[]" "?n @ s @ rest"]
    readVarint_encoded [of "[byteChar tag]" "of_nat (length s)" "s @ rest", where ?'a = 64]
  show ?thesis by (subst skipRuntime.simps) (simp add: tag_type skipValue_def)
qed

lemma skip_part:
  assumes "partFits fields p" and "encPart p \<noteq> []" and "length (encPart p) < 2 ^ 63"
  shows "skipRuntime (encPart p @ rest) 0 0 = Inr (length (encPart p))"
proof (cases p)
  case (VarintPart tag v)
  with assms have t: "tag < 128" "tag AND 7 = 0" "v \<noteq> 0" by (auto split: if_splits)
  with readVarint_tag [OF t(1), of "[]" "encVarint v @ rest"] readVarint_encoded [of "[byteChar tag]" v rest, where ?'a = 64]
  show ?thesis unfolding VarintPart
    by (subst skipRuntime.simps) (simp add: tag_type skipValue_def)
next
  case (BytesPart tag s)
  with assms have "tag < 128" "tag AND 7 = 2" "s \<noteq> []" by (auto split: if_splits)
  with skip_item [of tag s rest] assms(3) BytesPart show ?thesis by simp
next
  case (ItemPart tag s)
  with skip_item [of tag s rest] assms show ?thesis by simp
qed

text \<open>The field that is read from the bytes of a part.\<close>

lemma readField_part:
  assumes "partFits fields p" and "encPart p = byteChar tag # body" and "fields (tagNum tag) = Some f"
    and "length (pre @ encPart p @ rest) < 2 ^ 63"
    and "p = VarintPart tag v \<or> p = BytesPart tag s \<or> p = ItemPart tag s"
  shows "readField f (uint (tag AND 7)) (pre @ encPart p @ rest) (Suc (length pre)) m
    = Ok (applyPart fields p m, length pre + length (encPart p))"
  using assms(5)
proof (elim disjE)
  assume p: "p = VarintPart tag v"
  with assms(2) have "v \<noteq> 0" by auto
  with p assms(1,3) readVarint_encoded [of "pre @ [byteChar tag]" v rest, where ?'a = 32]
    readVarint_encoded [of "pre @ [byteChar tag]" v rest, where ?'a = 64] show ?thesis by (cases f) auto
next
  assume p: "p = BytesPart tag s"
  with assms(2) have "s \<noteq> []" by auto
  with p assms(1,3,4) readLength_encoded [of "pre @ [byteChar tag]" s rest] sliceOf_encoded [of "pre @ [byteChar tag]" _ s rest]
  show ?thesis by (cases f) auto
next
  assume p: "p = ItemPart tag s"
  let ?pre = "pre @ byteChar tag # encVarint (of_nat (length s))"
  have l: "readLength (pre @ encPart p @ rest) (Suc (length pre)) = Inr (length ?pre, length ?pre + length s)"
    using readLength_encoded [of "pre @ [byteChar tag]" s rest] assms(4) p by simp
  have e: "pre @ encPart p @ rest = ?pre @ s @ rest" using p by simp
  show ?thesis
  proof (cases f)
    case (SubField name sub)
    with assms(1,3) p have "subFits sub s" by simp
    moreover have "length (?pre @ s @ rest) < 2 ^ 63" using assms(4) e by simp
    ultimately obtain m' where "sub s 0 (length s) m = Ok m'" "sub (?pre @ s @ rest) (length ?pre) (length ?pre + length s) m = Ok m'"
      unfolding subFits_def by blast
    with SubField assms(1,3) p l show ?thesis unfolding e by simp
  next
    case (BytesField name assign)
    with assms(1,3) p l sliceOf_middle [of ?pre s rest] show ?thesis unfolding e by simp
  qed (use assms(1,3) p in auto)
qed

lemma unmarshal_part:
  assumes "partFits fields p" and "length (pre @ encPart p @ rest) < 2 ^ 63"
  shows "unmarshalLoop name fields (pre @ encPart p @ rest) m (length pre) =
    unmarshalLoop name fields (pre @ encPart p @ rest) (applyPart fields p m) (length pre + length (encPart p))"
proof (cases "encPart p = []")
  case True
  then show ?thesis by (cases p) (auto split: if_splits)
next
  case ne: False
  then obtain tag v s body where p: "encPart p = byteChar tag # body" and t: "tag < 128" "8 \<le> tag" "tag AND 7 = 0 \<or> tag AND 7 = 2"
    and kind: "p = VarintPart tag v \<or> p = BytesPart tag s \<or> p = ItemPart tag s"
    using assms(1) by (cases p) (auto split: if_splits)
  note tag = readVarint_tag [OF t(1), of pre "body @ rest"] tag_num_pos [OF t(2)]
  have wt: "uint (tag AND 7) \<noteq> 4" using t(3) by auto
  show ?thesis
  proof (cases "fields (tagNum tag)")
    case None
    moreover from this have "applyPart fields p m = m" using kind by auto
    moreover have "skipRuntime (encPart p @ rest) 0 0 = Inr (length (encPart p))"
      using skip_part [OF assms(1) ne] assms(2) by simp
    ultimately show ?thesis using tag assms(2) p wt
      by (subst unmarshalLoop.simps) (simp add: tag_num tag_type Let_def)
  next
    case (Some f)
    from readField_part [OF assms(1) p Some assms(2) kind, of m] tag p Some wt show ?thesis
      by (subst unmarshalLoop.simps) (simp add: tag_num tag_type Let_def)
  qed
qed

lemma unmarshal_prefix:
  assumes "list_all (partFits fields) ps" and "length (pre @ concat (map encPart ps) @ rest) < 2 ^ 63"
  shows "unmarshalLoop name fields (pre @ concat (map encPart ps) @ rest) m (length pre) =
    unmarshalLoop name fields (pre @ concat (map encPart ps) @ rest) (fold (applyPart fields) ps m) (length pre + length (concat (map encPart ps)))"
  using assms
proof (induction ps arbitrary: pre m)
  case (Cons p ps)
  then have "partFits fields p" "length (pre @ encPart p @ concat (map encPart ps) @ rest) < 2 ^ 63" by simp_all
  from unmarshal_part [OF this, of name m]
    Cons(1) [of "pre @ encPart p" "applyPart fields p m"] Cons(2,3) show ?case by (simp add: add.assoc)
qed simp

lemma unmarshal_parts:
  assumes "list_all (partFits fields) ps" and "length (concat (map encPart ps)) < 2 ^ 63"
  shows "unmarshal name fields m (concat (map encPart ps)) = Ok (fold (applyPart fields) ps m)"
  using unmarshal_prefix [of fields ps "[]" "[]" name m] assms by (simp add: unmarshal_def unmarshalLoop.simps [of _ _ "concat (map encPart ps)" _ "length _"])

text \<open>Numbers and bytes never make the loop panic, whatever the data are.\<close>

definition calm :: "'m field \<Rightarrow> bool" where
  "calm f \<longleftrightarrow> (case f of SubField _ sub \<Rightarrow> \<forall>dAtA i j m s. sub dAtA i j m \<noteq> Panic s | _ \<Rightarrow> True)"

lemma readField_calm: "calm f \<Longrightarrow> readField f t dAtA i m \<noteq> Panic s"
  by (cases f) (auto simp: calm_def split: sum.splits outcome.splits prod.splits if_splits)

lemma unmarshalLoop_calm:
  "(\<And>n f. fields n = Some f \<Longrightarrow> calm f) \<Longrightarrow> unmarshalLoop name fields dAtA m i \<noteq> Panic s"
proof (induction name fields dAtA m i rule: unmarshalLoop.induct)
  case (1 name fields dAtA m i)
  note IH = 1(1) [OF _ _ refl refl refl _ _ _ _ _ _ 1(3)] 1(2) [OF _ _ refl refl refl _ _ _ _ refl 1(3)]
  have rf: "fields n = Some f \<Longrightarrow> readField f t d j m' = Panic s' \<Longrightarrow> False" for n f t d j m' s'
    by (rule notE [OF readField_calm [OF 1(3)]])
  show ?case
    by (subst unmarshalLoop.simps)
       (use IH in \<open>auto simp: Let_def split: sum.splits prod.splits option.splits outcome.splits dest: rf\<close>)
qed

lemma unmarshal_calm: "(\<And>n f. fields n = Some f \<Longrightarrow> calm f) \<Longrightarrow> unmarshal name fields m dAtA \<noteq> Panic s"
  by (simp add: unmarshal_def unmarshalLoop_calm)

text \<open>What every field keeps of the message, the loop keeps.\<close>

definition keepsField :: "('m \<Rightarrow> bool) \<Rightarrow> 'm field \<Rightarrow> bool" where
  "keepsField P f \<longleftrightarrow>
     (case f of
        Int32Field _ assign \<Rightarrow> \<forall>v m. P m \<longrightarrow> P (assign v m)
      | Int64Field _ assign \<Rightarrow> \<forall>v m. P m \<longrightarrow> P (assign v m)
      | BytesField _ assign \<Rightarrow> \<forall>s m. P m \<longrightarrow> P (assign s m)
      | SubField _ sub \<Rightarrow> \<forall>dAtA i j m m'. P m \<longrightarrow> sub dAtA i j m = Ok m' \<longrightarrow> P m')"

lemma readField_inv: "keepsField P f \<Longrightarrow> P m \<Longrightarrow> readField f t dAtA i m = Ok (m', j) \<Longrightarrow> P m'"
  by (cases f) (auto simp: keepsField_def split: sum.splits outcome.splits prod.splits if_splits)

lemma unmarshalLoop_inv:
  "unmarshalLoop name fields dAtA m i = Ok m' \<Longrightarrow> \<forall>n f. fields n = Some f \<longrightarrow> keepsField P f \<Longrightarrow> P m \<Longrightarrow> P m'"
proof (induction name fields dAtA m i rule: unmarshalLoop.induct)
  case (1 name fields dAtA m i)
  note IH = 1(1) [OF _ _ refl refl refl _ _ _ _ _ _ _ 1(4)] 1(2) [OF _ _ refl refl refl _ _ _ _ refl _ 1(4)]
  have rf: "fields n = Some f \<Longrightarrow> readField f t d j m = Ok (m', j') \<Longrightarrow> P m'" for n f t d j m' j'
    by (rule readField_inv [OF 1(4) [rule_format] 1(5)])
  show ?case using 1(3,5) IH
    by (subst (asm) unmarshalLoop.simps)
       (auto simp: Let_def split: sum.splits prod.splits option.splits outcome.splits if_splits, (metis rf)+)
qed

lemma unmarshal_inv:
  "unmarshal name fields m dAtA = Ok m' \<Longrightarrow> (\<And>n f. fields n = Some f \<Longrightarrow> keepsField P f) \<Longrightarrow> P m \<Longrightarrow> P m'"
  unfolding unmarshal_def by (rule unmarshalLoop_inv) auto

text \<open>A field that is not sent has its zero value, so nothing is lost.\<close>

lemma apply_varint32:
  "fields (tagNum tag) = Some (Int32Field name assign) \<Longrightarrow> (v = 0 \<Longrightarrow> assign 0 m = m) \<Longrightarrow>
    applyPart fields (VarintPart tag v) m = assign (ucast v) m"
  by auto

lemma apply_varint64:
  "fields (tagNum tag) = Some (Int64Field name assign) \<Longrightarrow> (v = 0 \<Longrightarrow> assign 0 m = m) \<Longrightarrow>
    applyPart fields (VarintPart tag v) m = assign v m"
  by auto

lemma apply_bytes:
  "fields (tagNum tag) = Some (BytesField name assign) \<Longrightarrow> (s = [] \<Longrightarrow> assign [] m = m) \<Longrightarrow>
    applyPart fields (BytesPart tag s) m = assign s m"
  by auto

lemma apply_item:
  "fields (tagNum tag) = Some (BytesField name assign) \<Longrightarrow> applyPart fields (ItemPart tag s) m = assign s m"
  by simp

lemmas apply_rules = apply_varint32 apply_varint64 apply_bytes apply_item

section \<open>Messages and maps inside\<close>

lemma MessageField_fits:
  assumes "fields (tagNum tag) = Some (MessageField name readValue assign)" and "readValue s = Ok v"
    and "8 \<le> tag" and "tag < 128" and "tag AND 7 = 2"
  shows "partFits fields (ItemPart tag s)" and "applyPart fields (ItemPart tag s) m = assign v m"
  using assms by (simp_all add: MessageField_def subFits_def sliceOf_def)

text \<open>The two fields of an entry.\<close>

lemma mapEntry_field:
  assumes "length pre < postIndex" and "length (pre @ encPart (ItemPart tag s) @ rest) < 2 ^ 63" and "tag < 128"
    and "tagNum tag = 1 \<and> k' = s \<and> v' = v \<or> tagNum tag = 2 \<and> k' = k \<and> readValue s = Ok v'"
  shows "mapEntryLoop readValue (pre @ encPart (ItemPart tag s) @ rest) postIndex k v (length pre) =
      mapEntryLoop readValue (pre @ encPart (ItemPart tag s) @ rest) postIndex k' v' (length pre + length (encPart (ItemPart tag s)))"
proof -
  let ?d = "pre @ encPart (ItemPart tag s) @ rest"
  have tag: "readVarint ?d (length pre) 0 0 = Inr (ucast tag :: 64 word, Suc (length pre))"
    using readVarint_tag [OF assms(3), of pre "encVarint (of_nat (length s)) @ s @ rest"] by simp
  obtain i j where l: "readLength ?d (Suc (length pre)) = Inr (i, j)" "sliceOf ?d i j = s" "j = length pre + length (encPart (ItemPart tag s))"
    using readLength_encoded [of "pre @ [byteChar tag]" s rest] sliceOf_encoded [of "pre @ [byteChar tag]" "of_nat (length s)" s rest] assms(2)
    by (simp add: add.assoc)
  from assms(4) show ?thesis
  proof (elim disjE conjE)
    assume "tagNum tag = 1" "k' = s" "v' = v"
    with assms(1) tag l show ?thesis by (subst mapEntryLoop.simps) (simp del: encPart.simps add: tag_num Let_def)
  next
    assume "tagNum tag = 2" "k' = k" "readValue s = Ok v'"
    with assms(1) tag l show ?thesis by (subst mapEntryLoop.simps) (simp del: encPart.simps add: tag_num Let_def)
  qed
qed

lemma mapEntry_encoded:
  assumes "s = encPart (ItemPart 0xa k) @ encPart (ItemPart 0x12 vb)" and "readValue vb = Ok v" and "length (pre @ s @ rest) < 2 ^ 63"
  shows "mapEntryLoop readValue (pre @ s @ rest) (length pre + length s) k0 v0 (length pre) = Ok (k, v)"
proof -
  let ?key = "encPart (ItemPart 0xa k)" and ?item = "encPart (ItemPart 0x12 vb)"
  have t: "tagNum 0xa = 1" "tagNum 0x12 = 2" "(0xa :: 8 word) < 128" "(0x12 :: 8 word) < 128"
    by (simp_all add: tagNum_def drop_bit_eq_div)
  have ne: "0 < length ?key" "0 < length ?item" by simp_all
  have "mapEntryLoop readValue (pre @ s @ rest) (length pre + length s) k0 v0 (length pre)
      = mapEntryLoop readValue (pre @ s @ rest) (length pre + length s) k v0 (length (pre @ ?key))"
    using mapEntry_field [of pre "length pre + length s" "0xa" k "?item @ rest" k v0 v0 k0 readValue] t ne assms(1,3)
    by (simp del: encPart.simps)
  also have "\<dots> = mapEntryLoop readValue (pre @ s @ rest) (length pre + length s) k v (length pre + length s)"
    using mapEntry_field [of "pre @ ?key" "length pre + length s" "0x12" vb rest k v v0 k readValue] t ne assms
    by (simp del: encPart.simps add: add.assoc)
  also have "\<dots> = Ok (k, v)" by (subst mapEntryLoop.simps) simp
  finally show ?thesis .
qed

lemma MapField_fits:
  assumes "fields (tagNum tag) = Some (MapField name readValue none assign)" and "readValue vb = Ok v"
    and "8 \<le> tag" and "tag < 128" and "tag AND 7 = 2"
    and "s = encPart (ItemPart 0xa k) @ encPart (ItemPart 0x12 vb)" and "length s < 2 ^ 63"
  shows "partFits fields (ItemPart tag s)" and "applyPart fields (ItemPart tag s) m = assign k v m"
proof -
  have "mapEntryLoop readValue (pre @ s @ rest) (length pre + length s) [] none (length pre) = Ok (k, v)"
    if "length (pre @ s @ rest) < 2 ^ 63" for pre rest
    by (rule mapEntry_encoded [of s k vb readValue v, OF assms(6,2) that])
  note m = this this [of "[]" "[]"]
  show "partFits fields (ItemPart tag s)" "applyPart fields (ItemPart tag s) m = assign k v m"
    using assms(1,3-5,7) m by (simp_all add: MapField_def subFits_def)
qed

text \<open>Repeated fields and whole maps. The bytes of the value of an entry are those of \<open>enc\<close>.\<close>

definition entryPart :: "8 word \<Rightarrow> ('v \<Rightarrow> string) \<Rightarrow> string \<times> 'v \<Rightarrow> part" where
  "entryPart tag enc e = ItemPart tag (encPart (ItemPart 0xa (fst e)) @ encPart (ItemPart 0x12 (enc (snd e))))"

lemma length_part_le: "p \<in> set ps \<Longrightarrow> length (encPart p) \<le> length (concat (map encPart ps))"
  by (induction ps) auto

lemma putMap_emits:
  assumes "\<And>k v. (k, v) \<in> set xs \<Longrightarrow> emits (put v) (encPart (ItemPart 0x12 (enc v)))"
  shows "emits (putAll (\<lambda>(k, v). putEntry tag (put v) k) xs) (concat (map encPart (map (entryPart tag enc) (rev xs))))"
proof -
  have "emits (case x of (k, v) \<Rightarrow> putEntry tag (put v) k) (encPart (entryPart tag enc x))" if "x \<in> set xs" for x
  proof (cases x)
    case (Pair k v)
    with that putEntry_emits [OF assms [of k v]] show ?thesis by (simp add: entryPart_def del: encPart.simps)
  qed
  from putAll_emits [of xs "\<lambda>(k, v). putEntry tag (put v) k", OF this] show ?thesis by (simp add: o_def)
qed

lemma MapField_entries:
  assumes "fields (tagNum tag) = Some (MapField name readValue none assign)" and "8 \<le> tag" and "tag < 128" and "tag AND 7 = 2"
    and "\<And>k v. (k, v) \<in> set xs \<Longrightarrow> readValue (enc v) = Ok (view v)"
    and "\<And>e. e \<in> set xs \<Longrightarrow> length (encPart (entryPart tag enc e)) < 2 ^ 63"
  shows "list_all (partFits fields) (map (entryPart tag enc) xs)"
    and "fold (applyPart fields) (map (entryPart tag enc) xs) m = fold (\<lambda>(k, v). assign k (view v)) xs m"
proof -
  have "partFits fields (entryPart tag enc (k, v)) \<and> applyPart fields (entryPart tag enc (k, v)) m = assign k (view v) m"
    if "(k, v) \<in> set xs" for k v m
    using MapField_fits [of fields tag name readValue none assign "enc v" "view v"
        "encPart (ItemPart 0xa k) @ encPart (ItemPart 0x12 (enc v))" k, OF assms(1) assms(5) [OF that] assms(2-4)]
      assms(6) [OF that]
    by (simp add: entryPart_def)
  note e = this
  show "list_all (partFits fields) (map (entryPart tag enc) xs)" using e by (auto simp: list_all_iff)
  show "fold (applyPart fields) (map (entryPart tag enc) xs) m = fold (\<lambda>(k, v). assign k (view v)) xs m"
    unfolding fold_map using e by (intro fold_cong) auto
qed

lemma MessageField_items:
  assumes "fields (tagNum tag) = Some (MessageField name readValue assign)" and "8 \<le> tag" and "tag < 128" and "tag AND 7 = 2"
    and "\<And>x. x \<in> set xs \<Longrightarrow> readValue (enc x) = Ok (view x)"
  shows "list_all (partFits fields) (map (\<lambda>x. ItemPart tag (enc x)) xs)"
    and "fold (applyPart fields) (map (\<lambda>x. ItemPart tag (enc x)) xs) m = fold (\<lambda>x. assign (view x)) xs m"
proof -
  have e: "partFits fields (ItemPart tag (enc x))" "applyPart fields (ItemPart tag (enc x)) m = assign (view x) m" if "x \<in> set xs" for x m
    using MessageField_fits [of fields tag name readValue assign "enc x" "view x", OF assms(1) assms(5) [OF that] assms(2-4)] by simp_all
  show "list_all (partFits fields) (map (\<lambda>x. ItemPart tag (enc x)) xs)" using e(1) by (auto simp: list_all_iff simp del: partFits.simps)
  show "fold (applyPart fields) (map (\<lambda>x. ItemPart tag (enc x)) xs) m = fold (\<lambda>x. assign (view x)) xs m"
    unfolding fold_map using e(2) by (intro fold_cong) (auto simp del: applyPart.simps)
qed

lemma BytesField_items:
  assumes "fields (tagNum tag) = Some (BytesField name assign)" and "8 \<le> tag" and "tag < 128" and "tag AND 7 = 2"
  shows "list_all (partFits fields) (map (ItemPart tag) xs)"
    and "fold (applyPart fields) (map (ItemPart tag) xs) m = fold assign xs m"
proof -
  have "applyPart fields (ItemPart tag x) = assign x" for x by (rule ext) (simp add: assms(1))
  then show "fold (applyPart fields) (map (ItemPart tag) xs) m = fold assign xs m" by (simp add: fold_map o_def)
  show "list_all (partFits fields) (map (ItemPart tag) xs)" using assms by (simp add: list_all_iff)
qed

section \<open>Messages\<close>

text \<open>The writer of a message: its fields from the last to the first, as in \<^verbatim>\<open>MarshalToSizedBuffer\<close>.\<close>

lemma emits_parts:
  "emits (\<lambda>st. fold (\<lambda>p r. Option.bind r (putPart p)) (rev ps) (Some st)) (concat (map encPart ps))"
  using putRepeated_emits [of ps putPart encPart] putPart_emits by (simp add: putRepeated_def putAll_def [abs_def])

text \<open>What makes a message a message: the generated functions write the parts of its fields and the table of its
  fields takes them apart, to what the receiver sees of it. A message may have conditions to be written at all.\<close>

locale encoded_message =
  fixes name :: string
    and fields :: "int \<Rightarrow> 'r field option"
    and zero :: 'r
    and wf :: "'m \<Rightarrow> bool"
    and view :: "'m \<Rightarrow> 'r"
    and parts :: "'m \<Rightarrow> part list"
    and sz :: "'m \<Rightarrow> nat"
    and toSizedBuffer :: "'m \<Rightarrow> sizedBuffer \<Rightarrow> sizedBuffer option"
  assumes writes_bytes: "wf m \<Longrightarrow> emits (toSizedBuffer m) (concat (map encPart (parts m)))"
    and size_bytes: "wf m \<Longrightarrow> sz m = length (concat (map encPart (parts m)))"
    and parts_read: "wf m \<Longrightarrow> sz m < 2 ^ 63 \<Longrightarrow> list_all (partFits fields) (parts m)"
    and parts_view: "wf m \<Longrightarrow> sz m < 2 ^ 63 \<Longrightarrow> fold (applyPart fields) (parts m) zero = view m"
begin

lemma marshal_bytes: "wf m \<Longrightarrow> marshalWith (sz m) (toSizedBuffer m) = Some (concat (map encPart (parts m)))"
  using marshalWith_emits [OF writes_bytes, of m] by (simp add: size_bytes)

lemma unmarshal_bytes: "wf m \<Longrightarrow> sz m < 2 ^ 63 \<Longrightarrow> unmarshal name fields zero (concat (map encPart (parts m))) = Ok (view m)"
  using unmarshal_parts [OF parts_read, of m name zero] by (simp add: size_bytes [symmetric] parts_view)

lemma marshal_view:
  "wf m \<Longrightarrow> sz m < 2 ^ 63 \<Longrightarrow>
    \<exists>bs. marshalWith (sz m) (toSizedBuffer m) = Some bs \<and> length bs = sz m \<and> unmarshal name fields zero bs = Ok (view m)"
  by (simp add: marshal_bytes unmarshal_bytes size_bytes [symmetric])

text \<open>A message whose bytes are read with another table of fields.\<close>

lemma marshal_read_as:
  assumes "wf m" and "sz m < 2 ^ 63" and "list_all (partFits fields') (parts m)"
  shows "\<exists>bs. marshalWith (sz m) (toSizedBuffer m) = Some bs
    \<and> unmarshal name' fields' zero' bs = Ok (fold (applyPart fields') (parts m) zero')"
  using unmarshal_parts [OF assms(3)] assms(1,2) by (simp add: marshal_bytes size_bytes [symmetric])

end

text \<open>A message of numbers and bytes only can always be written, by its parts one after the other, and is read back as it is.\<close>

locale wire_message =
  fixes name :: string
    and fields :: "int \<Rightarrow> 'm field option"
    and zero :: 'm
    and parts :: "'m \<Rightarrow> part list"
    and sz :: "'m \<Rightarrow> nat"
    and toSizedBuffer :: "'m \<Rightarrow> sizedBuffer \<Rightarrow> sizedBuffer option"
  assumes writes_parts: "toSizedBuffer m st = fold (\<lambda>p r. Option.bind r (putPart p)) (rev (parts m)) (Some st)"
    and size_parts: "sz m = sum_list (map sizePart (parts m))"
    and parts_fit: "list_all (partFits fields) (parts m)"
    and parts_rebuild: "fold (applyPart fields) (parts m) zero = m"
begin

lemma length_parts: "length (concat (map encPart (parts m))) = sz m"
  by (simp add: size_parts length_concat o_def length_encPart)

end

sublocale wire_message \<subseteq> encoded_message name fields zero "\<lambda>_. True" "\<lambda>m. m" parts sz toSizedBuffer
  by unfold_locales (simp_all add: writes_parts [abs_def] emits_parts length_parts parts_fit parts_rebuild)

declare applyPart.simps [simp del]

context wire_message
begin

lemma marshal_parts: "marshalWith (sz m) (toSizedBuffer m) = Some (concat (map encPart (parts m)))"
  by (simp add: marshal_bytes)

lemma marshal_total: "\<exists>bs. marshalWith (sz m) (toSizedBuffer m) = Some bs \<and> length bs = sz m"
  by (simp add: marshal_parts length_parts)

lemma marshal_unmarshal:
  "sz m < 2 ^ 63 \<Longrightarrow> \<exists>bs. marshalWith (sz m) (toSizedBuffer m) = Some bs \<and> unmarshal name fields zero bs = Ok m"
  using marshal_view [of m] by auto

end

end
