(* ===== verification/Messages.thy ===== *)
theory Messages
  imports Varint
begin

text \<open>
  Messages on the wire: the generated \<^verbatim>\<open>Size\<close>, \<^verbatim>\<open>MarshalToSizedBuffer\<close>, \<^verbatim>\<open>Marshal\<close> and \<^verbatim>\<open>Unmarshal\<close> of the packets of
  the runtime protocol (\<^verbatim>\<open>runtimepb.Packet\<close>, \<^verbatim>\<open>runtimepb.RuntimeInfo\<close>), of \<^verbatim>\<open>aranyagopb.ErrorMsg\<close> and
  \<^verbatim>\<open>aranyagopb.TerminalResizeCmd\<close>, and of the commands and messages of the hub (\<^verbatim>\<open>arhatgopb.Cmd\<close>, \<^verbatim>\<open>arhatgopb.Msg\<close>).
  Enumerations are \<^verbatim>\<open>int32\<close>, written as the 64 bits of their sign extension. An absent field of bytes is
  the empty string. Shown: each of these messages keeps the contract of the shared code (a locale), so marshalling
  never leaves its buffer and what one side marshals the other unmarshals.
\<close>

unbundle bit_operations_syntax

text \<open>Numbers of fields, and the sign extension of 32 bits.\<close>

lemma ucast_scast: "ucast (scast (k :: 32 word) :: 64 word) = k"
  by (rule bit_word_eqI) (auto simp: bit_simps)

lemma scast_eq_0: "scast (k :: 32 word) = (0 :: 64 word) \<longleftrightarrow> k = 0"
proof
  assume "scast k = (0 :: 64 word)"
  then have "ucast (scast k :: 64 word) = (0 :: 32 word)" by simp
  then show "k = 0" by (simp only: ucast_scast)
qed simp

lemma tags: "tagNum 0x8 = 1" "tagNum 0x10 = 2" "tagNum 0x18 = 3" "tagNum 0xa = 1" "tagNum 0x12 = 2" "tagNum 0x1a = 3"
  "tagNum 0x22 = 4" "tagNum 0x2a = 5" "tagNum 0x32 = 6" "tagNum 0x52 = 10"
  by (simp_all add: tagNum_def drop_bit_eq_div)

lemma ucast_ucast: "ucast (ucast (k :: 32 word) :: 64 word) = k"
  by (rule bit_word_eqI) (auto simp: bit_simps)

lemma ucast_eq_0: "ucast (k :: 32 word) = (0 :: 64 word) \<longleftrightarrow> k = 0"
proof
  assume "ucast k = (0 :: 64 word)"
  then have "ucast (ucast k :: 64 word) = (0 :: 32 word)" by simp
  then show "k = 0" by (simp only: ucast_ucast)
qed simp

lemmas message_simps = ucast_scast scast_eq_0 ucast_ucast ucast_eq_0 tags apply_rules

section \<open>Packets of the runtime protocol\<close>

record packet =
  pk_Kind :: "32 word"
  pk_Payload :: string

definition zeroPacket :: packet where "zeroPacket = \<lparr>pk_Kind = 0, pk_Payload = []\<rparr>"

definition Packet_Size :: "packet \<Rightarrow> nat" where
  "Packet_Size m = sizeVarintField (scast (pk_Kind m)) + sizeBytesField (pk_Payload m)"

definition Packet_MarshalToSizedBuffer :: "packet \<Rightarrow> sizedBuffer \<Rightarrow> sizedBuffer option" where
  "Packet_MarshalToSizedBuffer m st =
     Option.bind (putBytesField 0x12 (pk_Payload m) st) (putVarintField 0x8 (scast (pk_Kind m)))"

definition Packet_Marshal :: "packet \<Rightarrow> string option" where
  "Packet_Marshal m = marshalWith (Packet_Size m) (Packet_MarshalToSizedBuffer m)"

definition packetFields :: "int \<Rightarrow> packet field option" where
  "packetFields n =
     (if n = 1 then Some (Int32Field ''Kind'' (\<lambda>v m. m\<lparr>pk_Kind := v\<rparr>))
      else if n = 2 then Some (BytesField ''Payload'' (\<lambda>s m. m\<lparr>pk_Payload := s\<rparr>))
      else None)"

definition Packet_Unmarshal :: "string \<Rightarrow> packet outcome" where
  "Packet_Unmarshal dAtA = unmarshal ''Packet'' packetFields zeroPacket dAtA"

definition packetParts :: "packet \<Rightarrow> part list" where
  "packetParts m = [VarintPart 0x8 (scast (pk_Kind m)), BytesPart 0x12 (pk_Payload m)]"


interpretation packet: wire_message "''Packet''" packetFields zeroPacket packetParts Packet_Size Packet_MarshalToSizedBuffer
  by unfold_locales
    (simp_all add: packetParts_def packetFields_def zeroPacket_def Packet_Size_def Packet_MarshalToSizedBuffer_def message_simps)

record runtimeInfo =
  ri_Name :: string
  ri_Version :: string
  ri_Os :: string
  ri_OsImage :: string
  ri_Arch :: string
  ri_KernelVersion :: string

definition zeroRuntimeInfo :: runtimeInfo where
  "zeroRuntimeInfo = \<lparr>ri_Name = [], ri_Version = [], ri_Os = [], ri_OsImage = [], ri_Arch = [], ri_KernelVersion = []\<rparr>"

definition RuntimeInfo_Size :: "runtimeInfo \<Rightarrow> nat" where
  "RuntimeInfo_Size m =
     sizeBytesField (ri_Name m) + sizeBytesField (ri_Version m) + sizeBytesField (ri_Os m) + sizeBytesField (ri_OsImage m)
     + sizeBytesField (ri_Arch m) + sizeBytesField (ri_KernelVersion m)"

definition RuntimeInfo_MarshalToSizedBuffer :: "runtimeInfo \<Rightarrow> sizedBuffer \<Rightarrow> sizedBuffer option" where
  "RuntimeInfo_MarshalToSizedBuffer m st =
     Option.bind (putBytesField 0x32 (ri_KernelVersion m) st) (\<lambda>st.
     Option.bind (putBytesField 0x2a (ri_Arch m) st) (\<lambda>st.
     Option.bind (putBytesField 0x22 (ri_OsImage m) st) (\<lambda>st.
     Option.bind (putBytesField 0x1a (ri_Os m) st) (\<lambda>st.
     Option.bind (putBytesField 0x12 (ri_Version m) st) (\<lambda>st.
     putBytesField 0xa (ri_Name m) st)))))"

definition RuntimeInfo_Marshal :: "runtimeInfo \<Rightarrow> string option" where
  "RuntimeInfo_Marshal m = marshalWith (RuntimeInfo_Size m) (RuntimeInfo_MarshalToSizedBuffer m)"

definition runtimeInfoFields :: "int \<Rightarrow> runtimeInfo field option" where
  "runtimeInfoFields n =
     (if n = 1 then Some (BytesField ''Name'' (\<lambda>s m. m\<lparr>ri_Name := s\<rparr>))
      else if n = 2 then Some (BytesField ''Version'' (\<lambda>s m. m\<lparr>ri_Version := s\<rparr>))
      else if n = 3 then Some (BytesField ''Os'' (\<lambda>s m. m\<lparr>ri_Os := s\<rparr>))
      else if n = 4 then Some (BytesField ''OsImage'' (\<lambda>s m. m\<lparr>ri_OsImage := s\<rparr>))
      else if n = 5 then Some (BytesField ''Arch'' (\<lambda>s m. m\<lparr>ri_Arch := s\<rparr>))
      else if n = 6 then Some (BytesField ''KernelVersion'' (\<lambda>s m. m\<lparr>ri_KernelVersion := s\<rparr>))
      else None)"

definition RuntimeInfo_Unmarshal :: "string \<Rightarrow> runtimeInfo outcome" where
  "RuntimeInfo_Unmarshal dAtA = unmarshal ''RuntimeInfo'' runtimeInfoFields zeroRuntimeInfo dAtA"

definition runtimeInfoParts :: "runtimeInfo \<Rightarrow> part list" where
  "runtimeInfoParts m = [BytesPart 0xa (ri_Name m), BytesPart 0x12 (ri_Version m), BytesPart 0x1a (ri_Os m),
     BytesPart 0x22 (ri_OsImage m), BytesPart 0x2a (ri_Arch m), BytesPart 0x32 (ri_KernelVersion m)]"

interpretation runtimeInfo: wire_message "''RuntimeInfo''" runtimeInfoFields zeroRuntimeInfo runtimeInfoParts
    RuntimeInfo_Size RuntimeInfo_MarshalToSizedBuffer
  by unfold_locales
    (simp_all add: runtimeInfoParts_def runtimeInfoFields_def zeroRuntimeInfo_def RuntimeInfo_Size_def
      RuntimeInfo_MarshalToSizedBuffer_def message_simps)

section \<open>Errors and terminal sizes\<close>

record errorMsg =
  em_Kind :: "32 word"
  em_Description :: string
  em_Code :: "64 word"

definition ERR_COMMON :: "32 word" where "ERR_COMMON = 0"

definition zeroErrorMsg :: errorMsg where "zeroErrorMsg = \<lparr>em_Kind = 0, em_Description = [], em_Code = 0\<rparr>"

definition ErrorMsg_Size :: "errorMsg \<Rightarrow> nat" where
  "ErrorMsg_Size m =
     sizeVarintField (scast (em_Kind m)) + sizeBytesField (em_Description m) + sizeVarintField (em_Code m)"

definition ErrorMsg_MarshalToSizedBuffer :: "errorMsg \<Rightarrow> sizedBuffer \<Rightarrow> sizedBuffer option" where
  "ErrorMsg_MarshalToSizedBuffer m st =
     Option.bind (putVarintField 0x18 (em_Code m) st) (\<lambda>st.
     Option.bind (putBytesField 0x12 (em_Description m) st) (\<lambda>st.
     putVarintField 0x8 (scast (em_Kind m)) st))"

definition ErrorMsg_Marshal :: "errorMsg \<Rightarrow> string option" where
  "ErrorMsg_Marshal m = marshalWith (ErrorMsg_Size m) (ErrorMsg_MarshalToSizedBuffer m)"

definition errorMsgFields :: "int \<Rightarrow> errorMsg field option" where
  "errorMsgFields n =
     (if n = 1 then Some (Int32Field ''Kind'' (\<lambda>v m. m\<lparr>em_Kind := v\<rparr>))
      else if n = 2 then Some (BytesField ''Description'' (\<lambda>s m. m\<lparr>em_Description := s\<rparr>))
      else if n = 3 then Some (Int64Field ''Code'' (\<lambda>v m. m\<lparr>em_Code := v\<rparr>))
      else None)"

definition ErrorMsg_Unmarshal :: "string \<Rightarrow> errorMsg outcome" where
  "ErrorMsg_Unmarshal dAtA = unmarshal ''ErrorMsg'' errorMsgFields zeroErrorMsg dAtA"

definition errorMsgParts :: "errorMsg \<Rightarrow> part list" where
  "errorMsgParts m = [VarintPart 0x8 (scast (em_Kind m)), BytesPart 0x12 (em_Description m), VarintPart 0x18 (em_Code m)]"

interpretation errorMsg: wire_message "''ErrorMsg''" errorMsgFields zeroErrorMsg errorMsgParts
    ErrorMsg_Size ErrorMsg_MarshalToSizedBuffer
  by unfold_locales
    (simp_all add: errorMsgParts_def errorMsgFields_def zeroErrorMsg_def ErrorMsg_Size_def
      ErrorMsg_MarshalToSizedBuffer_def message_simps)

record terminalResizeCmd =
  tr_Cols :: "32 word"
  tr_Rows :: "32 word"

definition zeroTerminalResizeCmd :: terminalResizeCmd where
  "zeroTerminalResizeCmd = \<lparr>tr_Cols = 0, tr_Rows = 0\<rparr>"

definition TerminalResizeCmd_Size :: "terminalResizeCmd \<Rightarrow> nat" where
  "TerminalResizeCmd_Size m = sizeVarintField (ucast (tr_Cols m)) + sizeVarintField (ucast (tr_Rows m))"

definition TerminalResizeCmd_MarshalToSizedBuffer :: "terminalResizeCmd \<Rightarrow> sizedBuffer \<Rightarrow> sizedBuffer option" where
  "TerminalResizeCmd_MarshalToSizedBuffer m st =
     Option.bind (putVarintField 0x10 (ucast (tr_Rows m)) st) (putVarintField 0x8 (ucast (tr_Cols m)))"

definition TerminalResizeCmd_Marshal :: "terminalResizeCmd \<Rightarrow> string option" where
  "TerminalResizeCmd_Marshal m = marshalWith (TerminalResizeCmd_Size m) (TerminalResizeCmd_MarshalToSizedBuffer m)"

definition terminalResizeCmdFields :: "int \<Rightarrow> terminalResizeCmd field option" where
  "terminalResizeCmdFields n =
     (if n = 1 then Some (Int32Field ''Cols'' (\<lambda>v m. m\<lparr>tr_Cols := v\<rparr>))
      else if n = 2 then Some (Int32Field ''Rows'' (\<lambda>v m. m\<lparr>tr_Rows := v\<rparr>))
      else None)"

definition TerminalResizeCmd_Unmarshal :: "string \<Rightarrow> terminalResizeCmd outcome" where
  "TerminalResizeCmd_Unmarshal dAtA = unmarshal ''TerminalResizeCmd'' terminalResizeCmdFields zeroTerminalResizeCmd dAtA"

definition terminalResizeCmdParts :: "terminalResizeCmd \<Rightarrow> part list" where
  "terminalResizeCmdParts m = [VarintPart 0x8 (ucast (tr_Cols m)), VarintPart 0x10 (ucast (tr_Rows m))]"

interpretation terminalResizeCmd: wire_message "''TerminalResizeCmd''" terminalResizeCmdFields zeroTerminalResizeCmd
    terminalResizeCmdParts TerminalResizeCmd_Size TerminalResizeCmd_MarshalToSizedBuffer
  by unfold_locales
    (simp_all add: terminalResizeCmdParts_def terminalResizeCmdFields_def zeroTerminalResizeCmd_def
      TerminalResizeCmd_Size_def TerminalResizeCmd_MarshalToSizedBuffer_def message_simps)

section \<open>Commands and messages of the hub\<close>

record hubCmd =
  hc_Kind :: "32 word"
  hc_Id :: "64 word"
  hc_Seq :: "64 word"
  hc_Payload :: string

definition zeroHubCmd :: hubCmd where
  "zeroHubCmd = \<lparr>hc_Kind = 0, hc_Id = 0, hc_Seq = 0, hc_Payload = []\<rparr>"

definition Cmd_Size :: "hubCmd \<Rightarrow> nat" where
  "Cmd_Size m =
     sizeVarintField (scast (hc_Kind m)) + sizeVarintField (hc_Id m) + sizeVarintField (hc_Seq m) + sizeBytesField (hc_Payload m)"

definition Cmd_MarshalToSizedBuffer :: "hubCmd \<Rightarrow> sizedBuffer \<Rightarrow> sizedBuffer option" where
  "Cmd_MarshalToSizedBuffer m st =
     Option.bind (putBytesField 0x52 (hc_Payload m) st) (\<lambda>st.
     Option.bind (putVarintField 0x18 (hc_Seq m) st) (\<lambda>st.
     Option.bind (putVarintField 0x10 (hc_Id m) st) (\<lambda>st.
     putVarintField 0x8 (scast (hc_Kind m)) st)))"

definition Cmd_Marshal :: "hubCmd \<Rightarrow> string option" where
  "Cmd_Marshal m = marshalWith (Cmd_Size m) (Cmd_MarshalToSizedBuffer m)"

definition hubCmdFields :: "int \<Rightarrow> hubCmd field option" where
  "hubCmdFields n =
     (if n = 1 then Some (Int32Field ''Kind'' (\<lambda>v m. m\<lparr>hc_Kind := v\<rparr>))
      else if n = 2 then Some (Int64Field ''Id'' (\<lambda>v m. m\<lparr>hc_Id := v\<rparr>))
      else if n = 3 then Some (Int64Field ''Seq'' (\<lambda>v m. m\<lparr>hc_Seq := v\<rparr>))
      else if n = 10 then Some (BytesField ''Payload'' (\<lambda>s m. m\<lparr>hc_Payload := s\<rparr>))
      else None)"

definition Cmd_Unmarshal :: "string \<Rightarrow> hubCmd outcome" where
  "Cmd_Unmarshal dAtA = unmarshal ''Cmd'' hubCmdFields zeroHubCmd dAtA"

definition hubCmdParts :: "hubCmd \<Rightarrow> part list" where
  "hubCmdParts m =
     [VarintPart 0x8 (scast (hc_Kind m)), VarintPart 0x10 (hc_Id m), VarintPart 0x18 (hc_Seq m), BytesPart 0x52 (hc_Payload m)]"

interpretation hubCmd: wire_message "''Cmd''" hubCmdFields zeroHubCmd hubCmdParts Cmd_Size Cmd_MarshalToSizedBuffer
  by unfold_locales
    (simp_all add: hubCmdParts_def hubCmdFields_def zeroHubCmd_def Cmd_Size_def Cmd_MarshalToSizedBuffer_def message_simps)

record hubMsg =
  hm_Kind :: "32 word"
  hm_Id :: "64 word"
  hm_Ack :: "64 word"
  hm_Payload :: string

definition zeroHubMsg :: hubMsg where
  "zeroHubMsg = \<lparr>hm_Kind = 0, hm_Id = 0, hm_Ack = 0, hm_Payload = []\<rparr>"

definition Msg_Size :: "hubMsg \<Rightarrow> nat" where
  "Msg_Size m =
     sizeVarintField (scast (hm_Kind m)) + sizeVarintField (hm_Id m) + sizeVarintField (hm_Ack m) + sizeBytesField (hm_Payload m)"

definition Msg_MarshalToSizedBuffer :: "hubMsg \<Rightarrow> sizedBuffer \<Rightarrow> sizedBuffer option" where
  "Msg_MarshalToSizedBuffer m st =
     Option.bind (putBytesField 0x52 (hm_Payload m) st) (\<lambda>st.
     Option.bind (putVarintField 0x18 (hm_Ack m) st) (\<lambda>st.
     Option.bind (putVarintField 0x10 (hm_Id m) st) (\<lambda>st.
     putVarintField 0x8 (scast (hm_Kind m)) st)))"

definition Msg_Marshal :: "hubMsg \<Rightarrow> string option" where
  "Msg_Marshal m = marshalWith (Msg_Size m) (Msg_MarshalToSizedBuffer m)"

definition hubMsgFields :: "int \<Rightarrow> hubMsg field option" where
  "hubMsgFields n =
     (if n = 1 then Some (Int32Field ''Kind'' (\<lambda>v m. m\<lparr>hm_Kind := v\<rparr>))
      else if n = 2 then Some (Int64Field ''Id'' (\<lambda>v m. m\<lparr>hm_Id := v\<rparr>))
      else if n = 3 then Some (Int64Field ''Ack'' (\<lambda>v m. m\<lparr>hm_Ack := v\<rparr>))
      else if n = 10 then Some (BytesField ''Payload'' (\<lambda>s m. m\<lparr>hm_Payload := s\<rparr>))
      else None)"

definition Msg_Unmarshal :: "string \<Rightarrow> hubMsg outcome" where
  "Msg_Unmarshal dAtA = unmarshal ''Msg'' hubMsgFields zeroHubMsg dAtA"

definition hubMsgParts :: "hubMsg \<Rightarrow> part list" where
  "hubMsgParts m =
     [VarintPart 0x8 (scast (hm_Kind m)), VarintPart 0x10 (hm_Id m), VarintPart 0x18 (hm_Ack m), BytesPart 0x52 (hm_Payload m)]"

interpretation hubMsg: wire_message "''Msg''" hubMsgFields zeroHubMsg hubMsgParts Msg_Size Msg_MarshalToSizedBuffer
  by unfold_locales
    (simp_all add: hubMsgParts_def hubMsgFields_def zeroHubMsg_def Msg_Size_def Msg_MarshalToSizedBuffer_def message_simps)

section \<open>The properties\<close>

text \<open>Packets survive the wire. Marshalling a packet of the runtime protocol never leaves the buffer whose length was computed before,
  fills it exactly, and unmarshalling the bytes gives the packet back, whatever its kind (negative ones
  are written with ten bytes) and its payload are. (The length of the message is an \<^verbatim>\<open>int\<close>.)\<close>

theorem packet_roundtrip:
  assumes "Packet_Size m < 2 ^ 63"
  shows "\<exists>dAtA. Packet_Marshal m = Some dAtA \<and> length dAtA = Packet_Size m \<and> Packet_Unmarshal dAtA = Ok m"
  using packet.marshal_unmarshal [OF assms] packet.marshal_total [of m]
  by (auto simp: Packet_Marshal_def Packet_Unmarshal_def)


section \<open>Examples\<close>

text \<open>Numbers below 128 take one byte.\<close>

lemma encVarint_small: "v < 128 \<Longrightarrow> encVarint v = [byteChar (ucast v)]"
  by (subst encVarint.simps) (simp only: linorder_not_le [symmetric] if_False)

theorem packet_roundtrip_witness:
  "Packet_Marshal \<lparr>pk_Kind = 32, pk_Payload = ''uid''\<rparr> = Some (CHR 0x08 # CHR 0x20 # CHR 0x12 # CHR 0x03 # ''uid'')
   \<and> Packet_Unmarshal (CHR 0x08 # CHR 0x20 # CHR 0x12 # CHR 0x03 # ''uid'') = Ok \<lparr>pk_Kind = 32, pk_Payload = ''uid''\<rparr>"
proof -
  let ?m = "\<lparr>pk_Kind = 32, pk_Payload = ''uid''\<rparr>"
  have m: "Packet_Marshal ?m = Some (CHR 0x08 # CHR 0x20 # CHR 0x12 # CHR 0x03 # ''uid'')"
    by (simp add: Packet_Marshal_def packet.marshal_parts packetParts_def encVarint_small byteChar_def char_of_def bit_0)
  have "Packet_Size ?m = 7"
    by (simp add: Packet_Size_def sizeVarintField_def sizeBytesField_def encVarint_small flip: length_encVarint)
  then have "Packet_Size ?m < 2 ^ 63" by simp
  from packet_roundtrip [OF this] m show ?thesis by simp
qed


end
