(* ===== verification/Payloads.thy ===== *)
theory Payloads
  imports Messages Protos Logs
begin

text \<open>
  The payloads of packets on the wire: the generated code of the answers about pods and images (\<^verbatim>\<open>runtimepb/msg_pod.pb.go\<close>,
  \<^verbatim>\<open>runtimepb/msg_image.pb.go\<close>), of the commands that list pods and images (\<^verbatim>\<open>runtimepb/cmd_pod.pb.go\<close>, \<^verbatim>\<open>runtimepb/cmd_image.pb.go\<close>) and of
  the session commands \<^verbatim>\<open>LogsCmd\<close>, \<^verbatim>\<open>ExecOrAttachCmd\<close> and \<^verbatim>\<open>PortForwardCmd\<close> (\<^verbatim>\<open>aranyagopb/proto.pb.go\<close>), which have repeated
  fields, messages inside and maps. Integers of the records stand for \<^verbatim>\<open>int32\<close> and \<^verbatim>\<open>int64\<close> when they are in range. The order
  of a map's entries is the order of the iteration that writes them; as it is written from the end, the entries are read in
  the opposite order. Shown: every message is an instance of \<open>encoded_message\<close>, so that it fills its buffer exactly and is read
  back; an answer with a nil entry cannot be written; and an entry of a map with an unknown field can make the reader panic.
\<close>

unbundle bit_operations_syntax

section \<open>Numbers\<close>

definition int32 :: "int \<Rightarrow> 64 word" where
  "int32 i = scast (word_of_int i :: 32 word)"

definition inInt32 :: "int \<Rightarrow> bool" where
  "inInt32 i \<longleftrightarrow> - (2 ^ 31) \<le> i \<and> i < 2 ^ 31"

definition inInt64 :: "int \<Rightarrow> bool" where
  "inInt64 i \<longleftrightarrow> - (2 ^ 63) \<le> i \<and> i < 2 ^ 63"

lemma sint_int32: "inInt32 i \<Longrightarrow> sint (ucast (int32 i) :: 32 word) = i"
proof -
  assume "inInt32 i"
  moreover have "ucast (int32 i) = (word_of_int i :: 32 word)" by (simp only: int32_def ucast_scast)
  ultimately show ?thesis by (simp only: signed_of_int) (simp add: inInt32_def signed_take_bit_int_eq_self)
qed

lemma sint_int64: "inInt64 i \<Longrightarrow> sint (word_of_int i :: 64 word) = i"
  by (simp add: inInt64_def signed_of_int signed_take_bit_int_eq_self)

lemma payload_tags: "tagNum 0x20 = 4" "tagNum 0x28 = 5" "tagNum 0x30 = 6" "tagNum 0x38 = 7" "tagNum 0x40 = 8" "tagNum 0x3a = 7"
  "tagNum 0x42 = 8" "tagNum 0x4a = 9" "tagNum 0x5a = 11" "tagNum 0x62 = 12"
  by (simp_all add: tagNum_def drop_bit_eq_div)

lemmas payload_simps = message_simps payload_tags sint_int32 sint_int64

lemma emits_then: "emits f a \<Longrightarrow> emits g b \<Longrightarrow> c = b @ a \<Longrightarrow> emits (\<lambda>st. Option.bind (f st) g) c"
  by (simp add: emits_andThen)

lemma emits_by_parts:
  "(\<And>st. f st = fold (\<lambda>p r. Option.bind r (putPart p)) (rev ps) (Some st)) \<Longrightarrow> emits f (concat (map encPart ps))"
  using emits_parts [of ps] by presburger

text \<open>Appending to a field of a message, item by item; putting the entries of a map with distinct keys.\<close>

lemma fold_gm_put:
  "distinct (map fst xs) \<Longrightarrow> fst ` set xs \<inter> fst ` set acc = {} \<Longrightarrow>
    fold (\<lambda>(k, v). gm_put k (f v)) xs acc = acc @ map (\<lambda>(k, v). (k, f v)) xs"
proof (induction xs arbitrary: acc)
  case (Cons e xs)
  obtain k v where e: "e = (k, v)" by (cases e)
  have "k \<notin> fst ` set acc" using Cons.prems(2) e by auto
  then have "gm_put k (f v) acc = acc @ [(k, f v)]" unfolding gm_put_def
    by (induction acc) auto
  with Cons e show ?case by auto
qed simp

text \<open>The byte of a boolean is the number 1.\<close>

lemma putBool_varint: "putBoolField tag b = putVarintField tag (if b then 1 else 0)"
proof (rule ext)
  fix st :: sizedBuffer
  have "sovRuntime 1 = 1" by (simp add: sovRuntime_unat bitLen_double bitLen.simps)
  moreover have "putVarint dAtA i 1 = setByte 1 i dAtA" for dAtA i by (subst putVarint.simps) (simp add: word_le_nat_alt)
  ultimately have "encodeVarintRuntime 1 st = putTag 1 st" by (cases st) (simp add: encodeVarintRuntime_def putTag_def Let_def)
  then show "putBoolField tag b st = putVarintField tag (if b then 1 else 0) st" by (simp add: putBoolField_def putVarintField_def)
qed

lemma sizeBool_varint: "sizeBoolField b = sizePart (VarintPart tag (if b then 1 else 0))"
  using encVarint_1 length_encVarint [of 1] by (simp add: sizeBoolField_def sizeVarintField_def)

section \<open>The status of pods\<close>

definition zeroContainerStatus :: containerStatus where
  "zeroContainerStatus = \<lparr>st_ContainerId = [], st_ImageId = [], st_CreatedAt = [], st_StartedAt = [], st_FinishedAt = [],
     st_ExitCode = 0, st_RestartCount = 0, st_Message = [], st_Reason = []\<rparr>"

definition ContainerStatus_Size :: "containerStatus \<Rightarrow> nat" where
  "ContainerStatus_Size m =
     sizeBytesField (st_ContainerId m) + sizeBytesField (st_ImageId m) + sizeBytesField (st_CreatedAt m)
     + sizeBytesField (st_StartedAt m) + sizeBytesField (st_FinishedAt m) + sizeVarintField (int32 (st_ExitCode m))
     + sizeVarintField (int32 (st_RestartCount m)) + sizeBytesField (st_Reason m) + sizeBytesField (st_Message m)"

definition ContainerStatus_MarshalToSizedBuffer :: "containerStatus \<Rightarrow> sizedBuffer \<Rightarrow> sizedBuffer option" where
  "ContainerStatus_MarshalToSizedBuffer m st =
     Option.bind (putBytesField 0x62 (st_Message m) st) (\<lambda>st.
     Option.bind (putBytesField 0x5a (st_Reason m) st) (\<lambda>st.
     Option.bind (putVarintField 0x40 (int32 (st_RestartCount m)) st) (\<lambda>st.
     Option.bind (putVarintField 0x38 (int32 (st_ExitCode m)) st) (\<lambda>st.
     Option.bind (putBytesField 0x32 (st_FinishedAt m) st) (\<lambda>st.
     Option.bind (putBytesField 0x2a (st_StartedAt m) st) (\<lambda>st.
     Option.bind (putBytesField 0x22 (st_CreatedAt m) st) (\<lambda>st.
     Option.bind (putBytesField 0x12 (st_ImageId m) st) (\<lambda>st.
     putBytesField 0xa (st_ContainerId m) st))))))))"

definition containerStatusFields :: "int \<Rightarrow> containerStatus field option" where
  "containerStatusFields n =
     (if n = 1 then Some (BytesField ''ContainerId'' (\<lambda>s m. m\<lparr>st_ContainerId := s\<rparr>))
      else if n = 2 then Some (BytesField ''ImageId'' (\<lambda>s m. m\<lparr>st_ImageId := s\<rparr>))
      else if n = 4 then Some (BytesField ''CreatedAt'' (\<lambda>s m. m\<lparr>st_CreatedAt := s\<rparr>))
      else if n = 5 then Some (BytesField ''StartedAt'' (\<lambda>s m. m\<lparr>st_StartedAt := s\<rparr>))
      else if n = 6 then Some (BytesField ''FinishedAt'' (\<lambda>s m. m\<lparr>st_FinishedAt := s\<rparr>))
      else if n = 7 then Some (Int32Field ''ExitCode'' (\<lambda>v m. m\<lparr>st_ExitCode := sint v\<rparr>))
      else if n = 8 then Some (Int32Field ''RestartCount'' (\<lambda>v m. m\<lparr>st_RestartCount := sint v\<rparr>))
      else if n = 11 then Some (BytesField ''Reason'' (\<lambda>s m. m\<lparr>st_Reason := s\<rparr>))
      else if n = 12 then Some (BytesField ''Message'' (\<lambda>s m. m\<lparr>st_Message := s\<rparr>))
      else None)"

definition ContainerStatus_Unmarshal :: "string \<Rightarrow> containerStatus outcome" where
  "ContainerStatus_Unmarshal dAtA = unmarshal ''ContainerStatus'' containerStatusFields zeroContainerStatus dAtA"

definition containerStatusParts :: "containerStatus \<Rightarrow> part list" where
  "containerStatusParts m = [BytesPart 0xa (st_ContainerId m), BytesPart 0x12 (st_ImageId m), BytesPart 0x22 (st_CreatedAt m),
     BytesPart 0x2a (st_StartedAt m), BytesPart 0x32 (st_FinishedAt m), VarintPart 0x38 (int32 (st_ExitCode m)),
     VarintPart 0x40 (int32 (st_RestartCount m)), BytesPart 0x5a (st_Reason m), BytesPart 0x62 (st_Message m)]"

definition wfContainerStatus :: "containerStatus \<Rightarrow> bool" where
  "wfContainerStatus m \<longleftrightarrow> inInt32 (st_ExitCode m) \<and> inInt32 (st_RestartCount m)"

interpretation containerStatus: encoded_message "''ContainerStatus''" containerStatusFields zeroContainerStatus wfContainerStatus
    "\<lambda>m. m" containerStatusParts ContainerStatus_Size ContainerStatus_MarshalToSizedBuffer
proof
  fix m
  show "emits (ContainerStatus_MarshalToSizedBuffer m) (concat (map encPart (containerStatusParts m)))"
    by (rule emits_by_parts) (simp add: ContainerStatus_MarshalToSizedBuffer_def containerStatusParts_def)
  show "ContainerStatus_Size m = length (concat (map encPart (containerStatusParts m)))"
    by (simp add: ContainerStatus_Size_def containerStatusParts_def length_encPart del: encPart.simps)
  show "list_all (partFits containerStatusFields) (containerStatusParts m)"
    by (simp add: containerStatusParts_def containerStatusFields_def payload_simps)
  assume "wfContainerStatus m"
  then show "fold (applyPart containerStatusFields) (containerStatusParts m) zeroContainerStatus = m"
    by (simp add: containerStatusParts_def containerStatusFields_def zeroContainerStatus_def wfContainerStatus_def payload_simps)
qed


definition ContainerStatus_Marshal :: "containerStatus \<Rightarrow> string option" where
  "ContainerStatus_Marshal m = marshalWith (ContainerStatus_Size m) (ContainerStatus_MarshalToSizedBuffer m)"

definition PodStatusMsg_Size :: "podStatusMsg \<Rightarrow> nat" where
  "PodStatusMsg_Size m =
     sizeBytesField (ps_Uid m) + sizeBytesField (ps_Network m)
     + sum_list (map (\<lambda>(k, v).
         let l = ContainerStatus_Size v;
             l = l + 1 + sovRuntime (of_nat l);
             mapEntrySize = 1 + length k + sovRuntime (of_nat (length k)) + l
         in mapEntrySize + 1 + sovRuntime (of_nat mapEntrySize)) (ps_Containers m))"

definition PodStatusMsg_MarshalToSizedBuffer :: "podStatusMsg \<Rightarrow> sizedBuffer \<Rightarrow> sizedBuffer option" where
  "PodStatusMsg_MarshalToSizedBuffer m st =
     Option.bind (putAll (\<lambda>(k, v). putEntry 0x1a (putMessage 0x12 (ContainerStatus_MarshalToSizedBuffer v)) k) (ps_Containers m) st) (\<lambda>st.
     Option.bind (putBytesField 0x12 (ps_Network m) st) (\<lambda>st.
     putBytesField 0xa (ps_Uid m) st))"

definition PodStatusMsg_Marshal :: "podStatusMsg \<Rightarrow> string option" where
  "PodStatusMsg_Marshal m = marshalWith (PodStatusMsg_Size m) (PodStatusMsg_MarshalToSizedBuffer m)"

text \<open>A status as it is read: an entry without a value has a nil one.\<close>

record podStatusRead =
  pr_Uid :: string
  pr_Network :: string
  pr_Containers :: "(string, containerStatus option) gomap"

definition zeroPodStatus :: podStatusRead where
  "zeroPodStatus = \<lparr>pr_Uid = [], pr_Network = [], pr_Containers = []\<rparr>"

definition podStatusFields :: "int \<Rightarrow> podStatusRead field option" where
  "podStatusFields n =
     (if n = 1 then Some (BytesField ''Uid'' (\<lambda>s m. m\<lparr>pr_Uid := s\<rparr>))
      else if n = 2 then Some (BytesField ''Network'' (\<lambda>s m. m\<lparr>pr_Network := s\<rparr>))
      else if n = 3 then Some (MapField ''Containers'' (\<lambda>s. map_outcome Some (ContainerStatus_Unmarshal s)) None
        (\<lambda>k v m. m\<lparr>pr_Containers := gm_put k v (pr_Containers m)\<rparr>))
      else None)"

definition PodStatusMsg_Unmarshal :: "string \<Rightarrow> podStatusRead outcome" where
  "PodStatusMsg_Unmarshal dAtA = unmarshal ''PodStatusMsg'' podStatusFields zeroPodStatus dAtA"

definition containerStatusBytes :: "containerStatus \<Rightarrow> string" where
  "containerStatusBytes m = concat (map encPart (containerStatusParts m))"

definition podStatusParts :: "podStatusMsg \<Rightarrow> part list" where
  "podStatusParts m = [BytesPart 0xa (ps_Uid m), BytesPart 0x12 (ps_Network m)]
     @ map (entryPart 0x1a containerStatusBytes) (rev (ps_Containers m))"

definition wfPodStatus :: "podStatusMsg \<Rightarrow> bool" where
  "wfPodStatus m \<longleftrightarrow> gm_wf (ps_Containers m) \<and> list_all (\<lambda>(k, v). wfContainerStatus v) (ps_Containers m)"

definition podStatusView :: "podStatusMsg \<Rightarrow> podStatusRead" where
  "podStatusView m = \<lparr>pr_Uid = ps_Uid m, pr_Network = ps_Network m,
     pr_Containers = map (\<lambda>(k, v). (k, Some v)) (rev (ps_Containers m))\<rparr>"

lemma containerStatus_bytes:
  assumes "wfContainerStatus v"
  shows "emits (ContainerStatus_MarshalToSizedBuffer v) (containerStatusBytes v)"
    and "length (containerStatusBytes v) = ContainerStatus_Size v"
    and "length (containerStatusBytes v) < 2 ^ 63 \<Longrightarrow> ContainerStatus_Unmarshal (containerStatusBytes v) = Ok v"
  using containerStatus.writes_bytes [OF assms] containerStatus.size_bytes [OF assms] containerStatus.unmarshal_bytes [OF assms]
  by (simp_all add: containerStatusBytes_def ContainerStatus_Unmarshal_def)

lemma length_entry: "length (enc v) \<le> length (encPart (entryPart tag enc (k, v)))"
  by (simp add: entryPart_def)

lemma fold_containers:
  "fold (\<lambda>(k, v) m. m\<lparr>pr_Containers := gm_put k (Some v) (pr_Containers m)\<rparr>) xs m
    = m\<lparr>pr_Containers := fold (\<lambda>(k, v). gm_put k (Some v)) xs (pr_Containers m)\<rparr>"
  by (induction xs arbitrary: m) auto

interpretation podStatus: encoded_message "''PodStatusMsg''" podStatusFields zeroPodStatus wfPodStatus podStatusView
    podStatusParts PodStatusMsg_Size PodStatusMsg_MarshalToSizedBuffer
proof
  fix m :: podStatusMsg
  let ?entries = "map (entryPart 0x1a containerStatusBytes) (rev (ps_Containers m))"
  assume pw: "wfPodStatus m"
  then have wf: "wfContainerStatus v" if "(k, v) \<in> set (ps_Containers m)" for k v
    using that by (auto simp: wfPodStatus_def list_all_iff)
  have front: "emits (\<lambda>st. Option.bind (putBytesField 0x12 (ps_Network m) st) (putBytesField 0xa (ps_Uid m)))
      (concat (map encPart [BytesPart 0xa (ps_Uid m), BytesPart 0x12 (ps_Network m)]))"
    by (rule emits_by_parts) simp
  have tail: "emits (putAll (\<lambda>(k, v). putEntry 0x1a (putMessage 0x12 (ContainerStatus_MarshalToSizedBuffer v)) k) (ps_Containers m))
      (concat (map encPart ?entries))"
    by (rule putMap_emits, rule putMessage_emits, rule containerStatus_bytes(1)) (rule wf)
  show "emits (PodStatusMsg_MarshalToSizedBuffer m) (concat (map encPart (podStatusParts m)))"
    unfolding PodStatusMsg_MarshalToSizedBuffer_def [abs_def]
    by (rule emits_then [OF tail front]) (simp add: podStatusParts_def del: encPart.simps)
  show s: "PodStatusMsg_Size m = length (concat (map encPart (podStatusParts m)))"
  proof -
    have "length (concat (map encPart ?entries)) = sum_list (map (\<lambda>e. sizePart (entryPart 0x1a containerStatusBytes e)) (ps_Containers m))"
      by (simp add: length_concat o_def length_encPart rev_map [symmetric] del: encPart.simps)
    also have "\<dots> = sum_list (map (\<lambda>(k, v). let l = ContainerStatus_Size v; l = l + 1 + sovRuntime (of_nat l);
        mapEntrySize = 1 + length k + sovRuntime (of_nat (length k)) + l
        in mapEntrySize + 1 + sovRuntime (of_nat mapEntrySize)) (ps_Containers m))"
      using wf containerStatus_bytes(2)
      by (intro arg_cong [where f = sum_list] map_cong)
         (auto simp: entryPart_def sizeItem_def length_encPart Let_def algebra_simps length_encVarint)
    finally show ?thesis
      by (simp add: PodStatusMsg_Size_def podStatusParts_def length_encPart del: encPart.simps map_map)
  qed
  assume "PodStatusMsg_Size m < 2 ^ 63"
  then have le: "length (encPart (entryPart 0x1a containerStatusBytes e)) < 2 ^ 63" if "e \<in> set (ps_Containers m)" for e
    using that length_part_le [of "entryPart 0x1a containerStatusBytes e" "podStatusParts m"] s
    by (auto simp: podStatusParts_def simp del: encPart.simps)
  have rd: "map_outcome Some (ContainerStatus_Unmarshal (containerStatusBytes v)) = Ok (Some v)" if "(k, v) \<in> set (rev (ps_Containers m))" for k v
  proof -
    have "length (containerStatusBytes v) < 2 ^ 63" using le [of "(k, v)"] length_entry [of containerStatusBytes v "0x1a" k] that by simp
    with that containerStatus_bytes(3) [OF wf] show ?thesis by simp
  qed
  have f: "podStatusFields (tagNum 0x1a) = Some (MapField ''Containers'' (\<lambda>s. map_outcome Some (ContainerStatus_Unmarshal s)) None
      (\<lambda>k v m. m\<lparr>pr_Containers := gm_put k v (pr_Containers m)\<rparr>))"
    by (simp add: podStatusFields_def payload_simps)
  have entries: "list_all (partFits podStatusFields) ?entries"
    "fold (applyPart podStatusFields) ?entries r = fold (\<lambda>(k, v) m. m\<lparr>pr_Containers := gm_put k (Some v) (pr_Containers m)\<rparr>) (rev (ps_Containers m)) r" for r
    using MapField_entries [of podStatusFields "0x1a", OF f, of "rev (ps_Containers m)" containerStatusBytes Some] rd le by simp_all
  show "list_all (partFits podStatusFields) (podStatusParts m)"
    using entries(1) by (simp add: podStatusParts_def) (simp add: podStatusFields_def payload_simps)
  show "fold (applyPart podStatusFields) (podStatusParts m) zeroPodStatus = podStatusView m"
  proof -
    let ?m = "\<lparr>pr_Uid = ps_Uid m, pr_Network = ps_Network m, pr_Containers = []\<rparr>"
    have "fold (applyPart podStatusFields) [BytesPart 0xa (ps_Uid m), BytesPart 0x12 (ps_Network m)] zeroPodStatus = ?m"
      by (simp add: podStatusFields_def zeroPodStatus_def payload_simps)
    then have "fold (applyPart podStatusFields) (podStatusParts m) zeroPodStatus = fold (applyPart podStatusFields) ?entries ?m"
      by (simp add: podStatusParts_def)
    also have "\<dots> = ?m\<lparr>pr_Containers := fold (\<lambda>(k, v). gm_put k (Some v)) (rev (ps_Containers m)) []\<rparr>"
      using entries(2) [of ?m] by (simp add: fold_containers)
    also have "\<dots> = podStatusView m"
      using fold_gm_put [of "rev (ps_Containers m)" "[]" Some] pw by (simp add: podStatusView_def wfPodStatus_def gm_wf_def rev_map [symmetric])
    finally show ?thesis .
  qed
qed

text \<open>The list of pods.\<close>

definition PodStatusListMsg_Size :: "podStatusMsg list \<Rightarrow> nat" where
  "PodStatusListMsg_Size pods = sum_list (map (\<lambda>e. sizeItem (PodStatusMsg_Size e)) pods)"

definition PodStatusListMsg_MarshalToSizedBuffer :: "podStatusMsg list \<Rightarrow> sizedBuffer \<Rightarrow> sizedBuffer option" where
  "PodStatusListMsg_MarshalToSizedBuffer pods =
     putRepeated (\<lambda>e. putMessage 0xa (PodStatusMsg_MarshalToSizedBuffer e)) pods"

definition PodStatusListMsg_Marshal :: "podStatusMsg list \<Rightarrow> string option" where
  "PodStatusListMsg_Marshal pods = marshalWith (PodStatusListMsg_Size pods) (PodStatusListMsg_MarshalToSizedBuffer pods)"

definition podStatusListFields :: "int \<Rightarrow> podStatusRead list field option" where
  "podStatusListFields n =
     (if n = 1 then Some (MessageField ''Pods'' PodStatusMsg_Unmarshal (\<lambda>v ms. ms @ [v])) else None)"

definition PodStatusListMsg_Unmarshal :: "string \<Rightarrow> podStatusRead list outcome" where
  "PodStatusListMsg_Unmarshal dAtA = unmarshal ''PodStatusListMsg'' podStatusListFields [] dAtA"

definition podStatusBytes :: "podStatusMsg \<Rightarrow> string" where
  "podStatusBytes m = concat (map encPart (podStatusParts m))"

definition podStatusListParts :: "podStatusMsg list \<Rightarrow> part list" where
  "podStatusListParts pods = map (\<lambda>e. ItemPart 0xa (podStatusBytes e)) pods"

lemma podStatus_bytes:
  assumes "wfPodStatus m"
  shows "emits (PodStatusMsg_MarshalToSizedBuffer m) (podStatusBytes m)"
    and "length (podStatusBytes m) = PodStatusMsg_Size m"
    and "length (podStatusBytes m) < 2 ^ 63 \<Longrightarrow> PodStatusMsg_Unmarshal (podStatusBytes m) = Ok (podStatusView m)"
  using podStatus.writes_bytes [OF assms] podStatus.size_bytes [OF assms] podStatus.unmarshal_bytes [OF assms]
  by (simp_all add: podStatusBytes_def PodStatusMsg_Unmarshal_def)

text \<open>A list of messages.\<close>

lemma fold_append_items: "fold (\<lambda>x ms. ms @ [f x]) xs ms = ms @ map f xs"
  by (induction xs arbitrary: ms) simp_all

lemma items_size:
  "(\<And>x. x \<in> set xs \<Longrightarrow> length (enc x) = sz x) \<Longrightarrow>
    sum_list (map (\<lambda>x. sizeItem (sz x)) xs) = length (concat (map encPart (map (\<lambda>x. ItemPart tag (enc x)) xs)))"
  by (simp add: length_concat o_def length_encPart del: encPart.simps cong: map_cong)

lemma item_length:
  "x \<in> set xs \<Longrightarrow> length (concat (map encPart (map (\<lambda>x. ItemPart tag (enc x)) xs))) < n \<Longrightarrow> length (enc x) < n"
  using length_part_le [of "ItemPart tag (enc x)" "map (\<lambda>x. ItemPart tag (enc x)) xs"] by auto

interpretation podStatusList: encoded_message "''PodStatusListMsg''" podStatusListFields "[]" "list_all wfPodStatus" "map podStatusView"
    podStatusListParts PodStatusListMsg_Size PodStatusListMsg_MarshalToSizedBuffer
proof
  fix pods
  assume "list_all wfPodStatus pods"
  then have wf: "wfPodStatus e" if "e \<in> set pods" for e using that by (simp add: list_all_iff)
  have "emits (putRepeated (\<lambda>e. putMessage 0xa (PodStatusMsg_MarshalToSizedBuffer e)) pods)
      (concat (map (\<lambda>e. encPart (ItemPart 0xa (podStatusBytes e))) pods))"
    by (rule putRepeated_emits, rule putMessage_emits, rule podStatus_bytes(1)) (rule wf)
  then show "emits (PodStatusListMsg_MarshalToSizedBuffer pods) (concat (map encPart (podStatusListParts pods)))"
    by (simp add: PodStatusListMsg_MarshalToSizedBuffer_def podStatusListParts_def o_def del: encPart.simps)
  show s: "PodStatusListMsg_Size pods = length (concat (map encPart (podStatusListParts pods)))"
    unfolding PodStatusListMsg_Size_def podStatusListParts_def by (rule items_size) (rule podStatus_bytes(2) [OF wf])
  assume "PodStatusListMsg_Size pods < 2 ^ 63"
  then have rd: "PodStatusMsg_Unmarshal (podStatusBytes e) = Ok (podStatusView e)" if "e \<in> set pods" for e
    using podStatus_bytes(3) [OF wf [OF that]] item_length [OF that] s by (simp add: podStatusListParts_def)
  have f: "podStatusListFields (tagNum 0xa) = Some (MessageField ''Pods'' PodStatusMsg_Unmarshal (\<lambda>v ms. ms @ [v]))"
    by (simp add: podStatusListFields_def payload_simps)
  have items: "list_all (partFits podStatusListFields) (map (\<lambda>e. ItemPart 0xa (podStatusBytes e)) pods)"
    "fold (applyPart podStatusListFields) (map (\<lambda>e. ItemPart 0xa (podStatusBytes e)) pods) ms = fold (\<lambda>e ms. ms @ [podStatusView e]) pods ms" for ms
    using MessageField_items [of podStatusListFields "0xa", OF f, of pods podStatusBytes podStatusView] rd by simp_all
  show "list_all (partFits podStatusListFields) (podStatusListParts pods)" using items(1) by (simp add: podStatusListParts_def)
  show "fold (applyPart podStatusListFields) (podStatusListParts pods) [] = map podStatusView pods"
    using items(2) by (simp add: podStatusListParts_def fold_append_items)
qed

section \<open>The status of images\<close>

definition zeroImageStatus :: imageStatusMsg where
  "zeroImageStatus = \<lparr>is_Sha256 = [], is_Size = 0, is_Refs = []\<rparr>"

definition ImageStatusMsg_Size :: "imageStatusMsg \<Rightarrow> nat" where
  "ImageStatusMsg_Size m =
     sizeBytesField (is_Sha256 m) + sizeVarintField (is_Size m) + sum_list (map (\<lambda>s. sizeItem (length s)) (is_Refs m))"

definition ImageStatusMsg_MarshalToSizedBuffer :: "imageStatusMsg \<Rightarrow> sizedBuffer \<Rightarrow> sizedBuffer option" where
  "ImageStatusMsg_MarshalToSizedBuffer m st =
     Option.bind (putRepeated (putItem 0x1a) (is_Refs m) st) (\<lambda>st.
     Option.bind (putVarintField 0x10 (is_Size m) st) (\<lambda>st.
     putBytesField 0xa (is_Sha256 m) st))"

definition ImageStatusMsg_Marshal :: "imageStatusMsg \<Rightarrow> string option" where
  "ImageStatusMsg_Marshal m = marshalWith (ImageStatusMsg_Size m) (ImageStatusMsg_MarshalToSizedBuffer m)"

definition imageStatusFields :: "int \<Rightarrow> imageStatusMsg field option" where
  "imageStatusFields n =
     (if n = 1 then Some (BytesField ''Sha256'' (\<lambda>s m. m\<lparr>is_Sha256 := s\<rparr>))
      else if n = 2 then Some (Int64Field ''Size_'' (\<lambda>v m. m\<lparr>is_Size := v\<rparr>))
      else if n = 3 then Some (BytesField ''Refs'' (\<lambda>s m. m\<lparr>is_Refs := is_Refs m @ [s]\<rparr>))
      else None)"

definition ImageStatusMsg_Unmarshal :: "string \<Rightarrow> imageStatusMsg outcome" where
  "ImageStatusMsg_Unmarshal dAtA = unmarshal ''ImageStatusMsg'' imageStatusFields zeroImageStatus dAtA"

definition imageStatusParts :: "imageStatusMsg \<Rightarrow> part list" where
  "imageStatusParts m = [BytesPart 0xa (is_Sha256 m), VarintPart 0x10 (is_Size m)] @ map (ItemPart 0x1a) (is_Refs m)"

lemma fold_refs: "fold (\<lambda>s m. m\<lparr>is_Refs := is_Refs m @ [s]\<rparr>) xs m = m\<lparr>is_Refs := is_Refs m @ xs\<rparr>"
  by (induction xs arbitrary: m) simp_all

lemma emits_strings: "emits (putRepeated (putItem tag) xs) (concat (map encPart (map (ItemPart tag) xs)))"
  using putRepeated_emits [of xs "putItem tag" "\<lambda>s. encPart (ItemPart tag s)"] putItem_emits
  by (simp add: o_def del: encPart.simps)

lemma strings_size: "length (concat (map encPart (map (ItemPart tag) xs))) = sum_list (map (\<lambda>s. sizeItem (length s)) xs)"
  by (simp add: length_concat o_def length_encPart del: encPart.simps)

interpretation imageStatus: encoded_message "''ImageStatusMsg''" imageStatusFields zeroImageStatus "\<lambda>_. True" "\<lambda>m. m"
    imageStatusParts ImageStatusMsg_Size ImageStatusMsg_MarshalToSizedBuffer
proof
  fix m :: imageStatusMsg
  have front: "emits (\<lambda>st. Option.bind (putVarintField 0x10 (is_Size m) st) (putBytesField 0xa (is_Sha256 m)))
      (concat (map encPart [BytesPart 0xa (is_Sha256 m), VarintPart 0x10 (is_Size m)]))"
    by (rule emits_by_parts) simp
  show "emits (ImageStatusMsg_MarshalToSizedBuffer m) (concat (map encPart (imageStatusParts m)))"
    unfolding ImageStatusMsg_MarshalToSizedBuffer_def [abs_def]
    by (rule emits_then [OF emits_strings front]) (simp add: imageStatusParts_def del: encPart.simps)
  show "ImageStatusMsg_Size m = length (concat (map encPart (imageStatusParts m)))"
    using strings_size [of "0x1a" "is_Refs m"]
    by (simp add: ImageStatusMsg_Size_def imageStatusParts_def length_encPart del: encPart.simps)
  have f: "imageStatusFields (tagNum 0x1a) = Some (BytesField ''Refs'' (\<lambda>s m. m\<lparr>is_Refs := is_Refs m @ [s]\<rparr>))"
    by (simp add: imageStatusFields_def payload_simps)
  note items = BytesField_items [of imageStatusFields "0x1a", OF f]
  show "list_all (partFits imageStatusFields) (imageStatusParts m)"
    using items(1) by (simp add: imageStatusParts_def) (simp add: imageStatusFields_def payload_simps)
  have "fold (applyPart imageStatusFields) [BytesPart 0xa (is_Sha256 m), VarintPart 0x10 (is_Size m)] zeroImageStatus
      = \<lparr>is_Sha256 = is_Sha256 m, is_Size = is_Size m, is_Refs = []\<rparr>"
    by (simp add: imageStatusFields_def zeroImageStatus_def payload_simps)
  then show "fold (applyPart imageStatusFields) (imageStatusParts m) zeroImageStatus = m"
    using items(2) by (simp add: imageStatusParts_def fold_refs)
qed

text \<open>The list of images: \<^verbatim>\<open>Size\<close> of a nil entry is 0, but its \<^verbatim>\<open>MarshalToSizedBuffer\<close> dereferences it.\<close>

definition ImageStatusListMsg_Size :: "imageStatusMsg option list \<Rightarrow> nat" where
  "ImageStatusListMsg_Size images =
     sum_list (map (\<lambda>e. sizeItem (case e of None \<Rightarrow> 0 | Some m \<Rightarrow> ImageStatusMsg_Size m)) images)"

definition ImageStatusListMsg_MarshalToSizedBuffer :: "imageStatusMsg option list \<Rightarrow> sizedBuffer \<Rightarrow> sizedBuffer option" where
  "ImageStatusListMsg_MarshalToSizedBuffer images =
     putRepeated (\<lambda>e. putMessage 0xa (case e of None \<Rightarrow> \<lambda>_. None | Some m \<Rightarrow> ImageStatusMsg_MarshalToSizedBuffer m)) images"

definition ImageStatusListMsg_Marshal :: "imageStatusMsg option list \<Rightarrow> string option" where
  "ImageStatusListMsg_Marshal images = marshalWith (ImageStatusListMsg_Size images) (ImageStatusListMsg_MarshalToSizedBuffer images)"

definition imageStatusListFields :: "int \<Rightarrow> imageStatusMsg list field option" where
  "imageStatusListFields n =
     (if n = 1 then Some (MessageField ''Images'' ImageStatusMsg_Unmarshal (\<lambda>v ms. ms @ [v])) else None)"

definition ImageStatusListMsg_Unmarshal :: "string \<Rightarrow> imageStatusMsg list outcome" where
  "ImageStatusListMsg_Unmarshal dAtA = unmarshal ''ImageStatusListMsg'' imageStatusListFields [] dAtA"

definition imageStatusBytes :: "imageStatusMsg option \<Rightarrow> string" where
  "imageStatusBytes e = (case e of None \<Rightarrow> [] | Some m \<Rightarrow> concat (map encPart (imageStatusParts m)))"

definition imageStatusListParts :: "imageStatusMsg option list \<Rightarrow> part list" where
  "imageStatusListParts images = map (\<lambda>e. ItemPart 0xa (imageStatusBytes e)) images"

lemma imageStatus_bytes:
  "emits (ImageStatusMsg_MarshalToSizedBuffer m) (imageStatusBytes (Some m))"
  "length (imageStatusBytes (Some m)) = ImageStatusMsg_Size m"
  "length (imageStatusBytes (Some m)) < 2 ^ 63 \<Longrightarrow> ImageStatusMsg_Unmarshal (imageStatusBytes (Some m)) = Ok m"
  using imageStatus.writes_bytes [of m] imageStatus.size_bytes [of m] imageStatus.unmarshal_bytes [of m]
  by (simp_all add: imageStatusBytes_def ImageStatusMsg_Unmarshal_def)

interpretation imageStatusList: encoded_message "''ImageStatusListMsg''" imageStatusListFields "[]" "\<lambda>images. None \<notin> set images" "map the"
    imageStatusListParts ImageStatusListMsg_Size ImageStatusListMsg_MarshalToSizedBuffer
proof
  fix images :: "imageStatusMsg option list"
  assume "None \<notin> set images"
  then have wf: "\<exists>m. e = Some m" if "e \<in> set images" for e using that by (cases e) auto
  have "emits (putMessage 0xa (case e of None \<Rightarrow> \<lambda>_. None | Some m \<Rightarrow> ImageStatusMsg_MarshalToSizedBuffer m))
      (encPart (ItemPart 0xa (imageStatusBytes e)))" if "e \<in> set images" for e
    using wf [OF that] putMessage_emits [OF imageStatus_bytes(1)] by (auto simp del: encPart.simps)
  from putRepeated_emits [OF this]
  show "emits (ImageStatusListMsg_MarshalToSizedBuffer images) (concat (map encPart (imageStatusListParts images)))"
    by (simp add: ImageStatusListMsg_MarshalToSizedBuffer_def imageStatusListParts_def o_def del: encPart.simps)
  show s: "ImageStatusListMsg_Size images = length (concat (map encPart (imageStatusListParts images)))"
    unfolding ImageStatusListMsg_Size_def imageStatusListParts_def
    by (rule items_size) (use wf imageStatus_bytes(2) in fastforce)
  assume "ImageStatusListMsg_Size images < 2 ^ 63"
  then have rd: "ImageStatusMsg_Unmarshal (imageStatusBytes e) = Ok (the e)" if "e \<in> set images" for e
    using imageStatus_bytes(3) wf [OF that] item_length [OF that] s by (auto simp: imageStatusListParts_def)
  have f: "imageStatusListFields (tagNum 0xa) = Some (MessageField ''Images'' ImageStatusMsg_Unmarshal (\<lambda>v ms. ms @ [v]))"
    by (simp add: imageStatusListFields_def payload_simps)
  have items: "list_all (partFits imageStatusListFields) (map (\<lambda>e. ItemPart 0xa (imageStatusBytes e)) images)"
    "fold (applyPart imageStatusListFields) (map (\<lambda>e. ItemPart 0xa (imageStatusBytes e)) images) ms = fold (\<lambda>e ms. ms @ [the e]) images ms" for ms
    using MessageField_items [of imageStatusListFields "0xa", OF f, of images imageStatusBytes the] rd by simp_all
  show "list_all (partFits imageStatusListFields) (imageStatusListParts images)" using items(1) by (simp add: imageStatusListParts_def)
  show "fold (applyPart imageStatusListFields) (imageStatusListParts images) [] = map the images"
    using items(2) by (simp add: imageStatusListParts_def fold_append_items)
qed

text \<open>A panic of one element is a panic of the list.\<close>

lemma putAll_panics: "x \<in> set xs \<Longrightarrow> (\<And>st. put x st = None) \<Longrightarrow> putAll put xs st = None"
proof -
  assume "x \<in> set xs" and p: "\<And>st. put x st = None"
  then obtain ys zs where xs: "xs = ys @ x # zs" by (auto simp: in_set_conv_decomp)
  have "fold (\<lambda>x r. Option.bind r (put x)) zs None = None" by (induction zs) simp_all
  moreover have "Option.bind r (put x) = None" for r by (cases r) (simp_all add: p)
  ultimately show ?thesis by (simp add: putAll_def xs)
qed

lemma nil_image_panics: "None \<in> set images \<Longrightarrow> ImageStatusListMsg_Marshal images = None"
proof -
  assume "None \<in> set images"
  then have "putAll (\<lambda>e. putMessage 0xa (case e of None \<Rightarrow> \<lambda>_. None | Some m \<Rightarrow> ImageStatusMsg_MarshalToSizedBuffer m)) (rev images) st = None" for st
    by (intro putAll_panics [of None]) (auto simp: putMessage_def)
  then show ?thesis by (simp add: ImageStatusListMsg_Marshal_def marshalWith_def ImageStatusListMsg_MarshalToSizedBuffer_def putRepeated_def)
qed

section \<open>Commands\<close>

definition PodListCmd_Size :: "podListCmd \<Rightarrow> nat" where
  "PodListCmd_Size m = sizeBoolField (pl_All m) + sum_list (map (\<lambda>s. sizeItem (length s)) (pl_Names m))"

definition PodListCmd_MarshalToSizedBuffer :: "podListCmd \<Rightarrow> sizedBuffer \<Rightarrow> sizedBuffer option" where
  "PodListCmd_MarshalToSizedBuffer m st =
     Option.bind (putRepeated (putItem 0x12) (pl_Names m) st) (\<lambda>st.
     putBoolField 0x8 (pl_All m) st)"

definition PodListCmd_Marshal :: "podListCmd \<Rightarrow> string option" where
  "PodListCmd_Marshal m = marshalWith (PodListCmd_Size m) (PodListCmd_MarshalToSizedBuffer m)"

definition zeroPodListCmd :: podListCmd where "zeroPodListCmd = \<lparr>pl_All = False, pl_Names = []\<rparr>"

definition podListFields :: "int \<Rightarrow> podListCmd field option" where
  "podListFields n =
     (if n = 1 then Some (Int64Field ''All'' (\<lambda>v m. m\<lparr>pl_All := (v \<noteq> 0)\<rparr>))
      else if n = 2 then Some (BytesField ''Names'' (\<lambda>s m. m\<lparr>pl_Names := pl_Names m @ [s]\<rparr>))
      else None)"

definition PodListCmd_Unmarshal :: "string \<Rightarrow> podListCmd outcome" where
  "PodListCmd_Unmarshal dAtA = unmarshal ''PodListCmd'' podListFields zeroPodListCmd dAtA"

definition podListParts :: "podListCmd \<Rightarrow> part list" where
  "podListParts m = VarintPart 0x8 (if pl_All m then 1 else 0) # map (ItemPart 0x12) (pl_Names m)"

lemma fold_names: "fold (\<lambda>s m. m\<lparr>pl_Names := pl_Names m @ [s]\<rparr>) xs m = m\<lparr>pl_Names := pl_Names m @ xs\<rparr>"
  by (induction xs arbitrary: m) simp_all

interpretation podListCmd: encoded_message "''PodListCmd''" podListFields zeroPodListCmd "\<lambda>_. True" "\<lambda>m. m"
    podListParts PodListCmd_Size PodListCmd_MarshalToSizedBuffer
proof
  fix m :: podListCmd
  show "emits (PodListCmd_MarshalToSizedBuffer m) (concat (map encPart (podListParts m)))"
    unfolding PodListCmd_MarshalToSizedBuffer_def [abs_def]
    by (rule emits_then [OF emits_strings putBoolField_emits]) (simp add: podListParts_def del: encPart.simps)
  show "PodListCmd_Size m = length (concat (map encPart (podListParts m)))"
    using strings_size [of "0x12" "pl_Names m"]
    by (simp add: PodListCmd_Size_def podListParts_def length_encPart sizeBool_varint [of _ "0x8"] del: encPart.simps)
  have f: "podListFields (tagNum 0x12) = Some (BytesField ''Names'' (\<lambda>s m. m\<lparr>pl_Names := pl_Names m @ [s]\<rparr>))"
    by (simp add: podListFields_def payload_simps)
  note items = BytesField_items [of podListFields "0x12", OF f]
  show "list_all (partFits podListFields) (podListParts m)"
    using items(1) by (simp add: podListParts_def) (simp add: podListFields_def payload_simps)
  have "applyPart podListFields (VarintPart 0x8 (if pl_All m then 1 else 0)) zeroPodListCmd = \<lparr>pl_All = pl_All m, pl_Names = []\<rparr>"
    by (simp add: podListFields_def zeroPodListCmd_def applyPart.simps payload_simps)
  then show "fold (applyPart podListFields) (podListParts m) zeroPodListCmd = m"
    using items(2) by (simp add: podListParts_def fold_names)
qed

text \<open>\<^verbatim>\<open>ImageListCmd\<close> and \<^verbatim>\<open>ImageDeleteCmd\<close> have one field, the references.\<close>

definition ImageRefsCmd_Size :: "string list \<Rightarrow> nat" where
  "ImageRefsCmd_Size refs = sum_list (map (\<lambda>s. sizeItem (length s)) refs)"

definition ImageRefsCmd_MarshalToSizedBuffer :: "string list \<Rightarrow> sizedBuffer \<Rightarrow> sizedBuffer option" where
  "ImageRefsCmd_MarshalToSizedBuffer refs = putRepeated (putItem 0xa) refs"

definition imageRefsFields :: "int \<Rightarrow> string list field option" where
  "imageRefsFields n = (if n = 1 then Some (BytesField ''Refs'' (\<lambda>s refs. refs @ [s])) else None)"

definition ImageListCmd_Unmarshal :: "string \<Rightarrow> string list outcome" where
  "ImageListCmd_Unmarshal dAtA = unmarshal ''ImageListCmd'' imageRefsFields [] dAtA"

definition ImageDeleteCmd_Unmarshal :: "string \<Rightarrow> string list outcome" where
  "ImageDeleteCmd_Unmarshal dAtA = unmarshal ''ImageDeleteCmd'' imageRefsFields [] dAtA"

interpretation imageRefsCmd: encoded_message "''ImageListCmd''" imageRefsFields "[]" "\<lambda>_. True" "\<lambda>refs. refs"
    "map (ItemPart 0xa)" ImageRefsCmd_Size ImageRefsCmd_MarshalToSizedBuffer
proof
  fix refs
  show "emits (ImageRefsCmd_MarshalToSizedBuffer refs) (concat (map encPart (map (ItemPart 0xa) refs)))"
    unfolding ImageRefsCmd_MarshalToSizedBuffer_def by (rule emits_strings)
  show "ImageRefsCmd_Size refs = length (concat (map encPart (map (ItemPart 0xa) refs)))"
    by (simp only: ImageRefsCmd_Size_def strings_size)
  have f: "imageRefsFields (tagNum 0xa) = Some (BytesField ''Refs'' (\<lambda>s refs. refs @ [s]))"
    by (simp add: imageRefsFields_def payload_simps)
  note items = BytesField_items [of imageRefsFields "0xa", OF f]
  show "list_all (partFits imageRefsFields) (map (ItemPart 0xa) refs)" by (rule items(1)) simp_all
  show "fold (applyPart imageRefsFields) (map (ItemPart 0xa) refs) [] = refs"
    using items(2) fold_append_items [of "\<lambda>s. s" refs "[]"] by simp
qed

text \<open>The commands of sessions.\<close>

definition zeroLogsCmd :: logsCmd where
  "zeroLogsCmd = \<lparr>lc_PodUid = [], lc_Container = [], lc_Follow = False, lc_Timestamp = False, lc_Since = [], lc_TailLines = 0,
     lc_BytesLimit = 0, lc_Previous = False, lc_Path = []\<rparr>"

definition LogsCmd_Size :: "logsCmd \<Rightarrow> nat" where
  "LogsCmd_Size m =
     sizeBytesField (lc_PodUid m) + sizeBytesField (lc_Container m) + sizeBoolField (lc_Follow m) + sizeBoolField (lc_Timestamp m)
     + sizeBytesField (lc_Since m) + sizeVarintField (word_of_int (lc_TailLines m)) + sizeVarintField (word_of_int (lc_BytesLimit m))
     + sizeBoolField (lc_Previous m) + sizeBytesField (lc_Path m)"

definition LogsCmd_MarshalToSizedBuffer :: "logsCmd \<Rightarrow> sizedBuffer \<Rightarrow> sizedBuffer option" where
  "LogsCmd_MarshalToSizedBuffer m st =
     Option.bind (putBytesField 0x4a (lc_Path m) st) (\<lambda>st.
     Option.bind (putBoolField 0x40 (lc_Previous m) st) (\<lambda>st.
     Option.bind (putVarintField 0x38 (word_of_int (lc_BytesLimit m)) st) (\<lambda>st.
     Option.bind (putVarintField 0x30 (word_of_int (lc_TailLines m)) st) (\<lambda>st.
     Option.bind (putBytesField 0x2a (lc_Since m) st) (\<lambda>st.
     Option.bind (putBoolField 0x20 (lc_Timestamp m) st) (\<lambda>st.
     Option.bind (putBoolField 0x18 (lc_Follow m) st) (\<lambda>st.
     Option.bind (putBytesField 0x12 (lc_Container m) st) (\<lambda>st.
     putBytesField 0xa (lc_PodUid m) st))))))))"

definition LogsCmd_Marshal :: "logsCmd \<Rightarrow> string option" where
  "LogsCmd_Marshal m = marshalWith (LogsCmd_Size m) (LogsCmd_MarshalToSizedBuffer m)"

definition logsCmdFields :: "int \<Rightarrow> logsCmd field option" where
  "logsCmdFields n =
     (if n = 1 then Some (BytesField ''PodUid'' (\<lambda>s m. m\<lparr>lc_PodUid := s\<rparr>))
      else if n = 2 then Some (BytesField ''Container'' (\<lambda>s m. m\<lparr>lc_Container := s\<rparr>))
      else if n = 3 then Some (Int64Field ''Follow'' (\<lambda>v m. m\<lparr>lc_Follow := (v \<noteq> 0)\<rparr>))
      else if n = 4 then Some (Int64Field ''Timestamp'' (\<lambda>v m. m\<lparr>lc_Timestamp := (v \<noteq> 0)\<rparr>))
      else if n = 5 then Some (BytesField ''Since'' (\<lambda>s m. m\<lparr>lc_Since := s\<rparr>))
      else if n = 6 then Some (Int64Field ''TailLines'' (\<lambda>v m. m\<lparr>lc_TailLines := sint v\<rparr>))
      else if n = 7 then Some (Int64Field ''BytesLimit'' (\<lambda>v m. m\<lparr>lc_BytesLimit := sint v\<rparr>))
      else if n = 8 then Some (Int64Field ''Previous'' (\<lambda>v m. m\<lparr>lc_Previous := (v \<noteq> 0)\<rparr>))
      else if n = 9 then Some (BytesField ''Path'' (\<lambda>s m. m\<lparr>lc_Path := s\<rparr>))
      else None)"

definition LogsCmd_Unmarshal :: "string \<Rightarrow> logsCmd outcome" where
  "LogsCmd_Unmarshal dAtA = unmarshal ''LogsCmd'' logsCmdFields zeroLogsCmd dAtA"

definition boolPart :: "8 word \<Rightarrow> bool \<Rightarrow> part" where
  "boolPart tag b = VarintPart tag (if b then 1 else 0)"

definition logsCmdParts :: "logsCmd \<Rightarrow> part list" where
  "logsCmdParts m = [BytesPart 0xa (lc_PodUid m), BytesPart 0x12 (lc_Container m), boolPart 0x18 (lc_Follow m),
     boolPart 0x20 (lc_Timestamp m), BytesPart 0x2a (lc_Since m), VarintPart 0x30 (word_of_int (lc_TailLines m)),
     VarintPart 0x38 (word_of_int (lc_BytesLimit m)), boolPart 0x40 (lc_Previous m), BytesPart 0x4a (lc_Path m)]"

definition wfLogsCmd :: "logsCmd \<Rightarrow> bool" where
  "wfLogsCmd m \<longleftrightarrow> inInt64 (lc_TailLines m) \<and> inInt64 (lc_BytesLimit m)"

lemma bool_part: "putBoolField tag b = putPart (boolPart tag b)" "sizeBoolField b = sizePart (boolPart tag b)"
  "partFits tbl (boolPart tag b) = partFits tbl (VarintPart tag 1)"
  by (simp_all add: putBool_varint boolPart_def sizeBool_varint [of b tag])

interpretation logsCmd: encoded_message "''LogsCmd''" logsCmdFields zeroLogsCmd wfLogsCmd "\<lambda>m. m"
    logsCmdParts LogsCmd_Size LogsCmd_MarshalToSizedBuffer
proof
  fix m :: logsCmd
  show "emits (LogsCmd_MarshalToSizedBuffer m) (concat (map encPart (logsCmdParts m)))"
    by (rule emits_by_parts) (simp add: LogsCmd_MarshalToSizedBuffer_def logsCmdParts_def bool_part(1))
  show "LogsCmd_Size m = length (concat (map encPart (logsCmdParts m)))"
    by (simp add: LogsCmd_Size_def logsCmdParts_def length_encPart bool_part(2) [of _ "0x18"] boolPart_def del: encPart.simps)
  show "list_all (partFits logsCmdFields) (logsCmdParts m)"
    by (simp add: logsCmdParts_def bool_part(3)) (simp add: logsCmdFields_def payload_simps)
  assume "wfLogsCmd m"
  then show "fold (applyPart logsCmdFields) (logsCmdParts m) zeroLogsCmd = m"
    by (simp add: logsCmdParts_def logsCmdFields_def zeroLogsCmd_def wfLogsCmd_def payload_simps boolPart_def)
qed

record portForwardCmd =
  pf_PodUid :: string
  pf_Port :: int
  pf_Protocol :: string

definition zeroPortForwardCmd :: portForwardCmd where
  "zeroPortForwardCmd = \<lparr>pf_PodUid = [], pf_Port = 0, pf_Protocol = []\<rparr>"

definition PortForwardCmd_Size :: "portForwardCmd \<Rightarrow> nat" where
  "PortForwardCmd_Size m = sizeBytesField (pf_PodUid m) + sizeVarintField (int32 (pf_Port m)) + sizeBytesField (pf_Protocol m)"

definition PortForwardCmd_MarshalToSizedBuffer :: "portForwardCmd \<Rightarrow> sizedBuffer \<Rightarrow> sizedBuffer option" where
  "PortForwardCmd_MarshalToSizedBuffer m st =
     Option.bind (putBytesField 0x1a (pf_Protocol m) st) (\<lambda>st.
     Option.bind (putVarintField 0x10 (int32 (pf_Port m)) st) (\<lambda>st.
     putBytesField 0xa (pf_PodUid m) st))"

definition PortForwardCmd_Marshal :: "portForwardCmd \<Rightarrow> string option" where
  "PortForwardCmd_Marshal m = marshalWith (PortForwardCmd_Size m) (PortForwardCmd_MarshalToSizedBuffer m)"

definition portForwardFields :: "int \<Rightarrow> portForwardCmd field option" where
  "portForwardFields n =
     (if n = 1 then Some (BytesField ''PodUid'' (\<lambda>s m. m\<lparr>pf_PodUid := s\<rparr>))
      else if n = 2 then Some (Int32Field ''Port'' (\<lambda>v m. m\<lparr>pf_Port := sint v\<rparr>))
      else if n = 3 then Some (BytesField ''Protocol'' (\<lambda>s m. m\<lparr>pf_Protocol := s\<rparr>))
      else None)"

definition PortForwardCmd_Unmarshal :: "string \<Rightarrow> portForwardCmd outcome" where
  "PortForwardCmd_Unmarshal dAtA = unmarshal ''PortForwardCmd'' portForwardFields zeroPortForwardCmd dAtA"

definition portForwardParts :: "portForwardCmd \<Rightarrow> part list" where
  "portForwardParts m = [BytesPart 0xa (pf_PodUid m), VarintPart 0x10 (int32 (pf_Port m)), BytesPart 0x1a (pf_Protocol m)]"

interpretation portForwardCmd: encoded_message "''PortForwardCmd''" portForwardFields zeroPortForwardCmd "\<lambda>m. inInt32 (pf_Port m)" "\<lambda>m. m"
    portForwardParts PortForwardCmd_Size PortForwardCmd_MarshalToSizedBuffer
proof
  fix m :: portForwardCmd
  show "emits (PortForwardCmd_MarshalToSizedBuffer m) (concat (map encPart (portForwardParts m)))"
    by (rule emits_by_parts) (simp add: PortForwardCmd_MarshalToSizedBuffer_def portForwardParts_def)
  show "PortForwardCmd_Size m = length (concat (map encPart (portForwardParts m)))"
    by (simp add: PortForwardCmd_Size_def portForwardParts_def length_encPart del: encPart.simps)
  show "list_all (partFits portForwardFields) (portForwardParts m)"
    by (simp add: portForwardParts_def portForwardFields_def payload_simps)
  assume "inInt32 (pf_Port m)"
  then show "fold (applyPart portForwardFields) (portForwardParts m) zeroPortForwardCmd = m"
    by (simp add: portForwardParts_def portForwardFields_def zeroPortForwardCmd_def payload_simps)
qed

record execOrAttachCmd =
  xa_PodUid :: string
  xa_Container :: string
  xa_Stdin :: bool
  xa_Stdout :: bool
  xa_Stderr :: bool
  xa_Tty :: bool
  xa_Command :: "string list"
  xa_Envs :: "(string, string) gomap"

definition zeroExecOrAttachCmd :: execOrAttachCmd where
  "zeroExecOrAttachCmd = \<lparr>xa_PodUid = [], xa_Container = [], xa_Stdin = False, xa_Stdout = False, xa_Stderr = False, xa_Tty = False,
     xa_Command = [], xa_Envs = []\<rparr>"

definition ExecOrAttachCmd_Size :: "execOrAttachCmd \<Rightarrow> nat" where
  "ExecOrAttachCmd_Size m =
     sizeBytesField (xa_PodUid m) + sizeBytesField (xa_Container m) + sizeBoolField (xa_Stdin m) + sizeBoolField (xa_Stdout m)
     + sizeBoolField (xa_Stderr m) + sizeBoolField (xa_Tty m) + sum_list (map (\<lambda>s. sizeItem (length s)) (xa_Command m))
     + sum_list (map (\<lambda>(k, v).
         let mapEntrySize = 1 + length k + sovRuntime (of_nat (length k)) + 1 + length v + sovRuntime (of_nat (length v))
         in mapEntrySize + 1 + sovRuntime (of_nat mapEntrySize)) (xa_Envs m))"

definition ExecOrAttachCmd_MarshalToSizedBuffer :: "execOrAttachCmd \<Rightarrow> sizedBuffer \<Rightarrow> sizedBuffer option" where
  "ExecOrAttachCmd_MarshalToSizedBuffer m st =
     Option.bind (putAll (\<lambda>(k, v). putEntry 0x42 (putItem 0x12 v) k) (xa_Envs m) st) (\<lambda>st.
     Option.bind (putRepeated (putItem 0x3a) (xa_Command m) st) (\<lambda>st.
     Option.bind (putBoolField 0x30 (xa_Tty m) st) (\<lambda>st.
     Option.bind (putBoolField 0x28 (xa_Stderr m) st) (\<lambda>st.
     Option.bind (putBoolField 0x20 (xa_Stdout m) st) (\<lambda>st.
     Option.bind (putBoolField 0x18 (xa_Stdin m) st) (\<lambda>st.
     Option.bind (putBytesField 0x12 (xa_Container m) st) (\<lambda>st.
     putBytesField 0xa (xa_PodUid m) st)))))))"

definition ExecOrAttachCmd_Marshal :: "execOrAttachCmd \<Rightarrow> string option" where
  "ExecOrAttachCmd_Marshal m = marshalWith (ExecOrAttachCmd_Size m) (ExecOrAttachCmd_MarshalToSizedBuffer m)"

definition execOrAttachFields :: "int \<Rightarrow> execOrAttachCmd field option" where
  "execOrAttachFields n =
     (if n = 1 then Some (BytesField ''PodUid'' (\<lambda>s m. m\<lparr>xa_PodUid := s\<rparr>))
      else if n = 2 then Some (BytesField ''Container'' (\<lambda>s m. m\<lparr>xa_Container := s\<rparr>))
      else if n = 3 then Some (Int64Field ''Stdin'' (\<lambda>v m. m\<lparr>xa_Stdin := (v \<noteq> 0)\<rparr>))
      else if n = 4 then Some (Int64Field ''Stdout'' (\<lambda>v m. m\<lparr>xa_Stdout := (v \<noteq> 0)\<rparr>))
      else if n = 5 then Some (Int64Field ''Stderr'' (\<lambda>v m. m\<lparr>xa_Stderr := (v \<noteq> 0)\<rparr>))
      else if n = 6 then Some (Int64Field ''Tty'' (\<lambda>v m. m\<lparr>xa_Tty := (v \<noteq> 0)\<rparr>))
      else if n = 7 then Some (BytesField ''Command'' (\<lambda>s m. m\<lparr>xa_Command := xa_Command m @ [s]\<rparr>))
      else if n = 8 then Some (MapField ''Envs'' Ok [] (\<lambda>k v m. m\<lparr>xa_Envs := gm_put k v (xa_Envs m)\<rparr>))
      else None)"

definition ExecOrAttachCmd_Unmarshal :: "string \<Rightarrow> execOrAttachCmd outcome" where
  "ExecOrAttachCmd_Unmarshal dAtA = unmarshal ''ExecOrAttachCmd'' execOrAttachFields zeroExecOrAttachCmd dAtA"

definition execFrontParts :: "execOrAttachCmd \<Rightarrow> part list" where
  "execFrontParts m = [BytesPart 0xa (xa_PodUid m), BytesPart 0x12 (xa_Container m), boolPart 0x18 (xa_Stdin m),
     boolPart 0x20 (xa_Stdout m), boolPart 0x28 (xa_Stderr m), boolPart 0x30 (xa_Tty m)]"

definition execOrAttachParts :: "execOrAttachCmd \<Rightarrow> part list" where
  "execOrAttachParts m =
     execFrontParts m @ map (ItemPart 0x3a) (xa_Command m) @ map (entryPart 0x42 (\<lambda>s. s)) (rev (xa_Envs m))"

definition execOrAttachView :: "execOrAttachCmd \<Rightarrow> execOrAttachCmd" where
  "execOrAttachView m = m\<lparr>xa_Envs := rev (xa_Envs m)\<rparr>"

lemma fold_command: "fold (\<lambda>s m. m\<lparr>xa_Command := xa_Command m @ [s]\<rparr>) xs m = m\<lparr>xa_Command := xa_Command m @ xs\<rparr>"
  by (induction xs arbitrary: m) simp_all

lemma fold_envs:
  "fold (\<lambda>(k, v) m. m\<lparr>xa_Envs := gm_put k v (xa_Envs m)\<rparr>) xs m = m\<lparr>xa_Envs := fold (\<lambda>(k, v). gm_put k v) xs (xa_Envs m)\<rparr>"
  by (induction xs arbitrary: m) auto

lemma execFront:
  "emits (\<lambda>st. Option.bind (putBoolField 0x30 (xa_Tty m) st) (\<lambda>st. Option.bind (putBoolField 0x28 (xa_Stderr m) st) (\<lambda>st.
     Option.bind (putBoolField 0x20 (xa_Stdout m) st) (\<lambda>st. Option.bind (putBoolField 0x18 (xa_Stdin m) st) (\<lambda>st.
     Option.bind (putBytesField 0x12 (xa_Container m) st) (putBytesField 0xa (xa_PodUid m)))))))
     (concat (map encPart (execFrontParts m)))"
  "list_all (partFits execOrAttachFields) (execFrontParts m)"
  "fold (applyPart execOrAttachFields) (execFrontParts m) zeroExecOrAttachCmd =
     \<lparr>xa_PodUid = xa_PodUid m, xa_Container = xa_Container m, xa_Stdin = xa_Stdin m, xa_Stdout = xa_Stdout m, xa_Stderr = xa_Stderr m,
      xa_Tty = xa_Tty m, xa_Command = [], xa_Envs = []\<rparr>"
    apply (rule emits_by_parts, simp add: execFrontParts_def bool_part(1))
   apply (simp add: execFrontParts_def bool_part(3), simp add: execOrAttachFields_def payload_simps)
  apply (simp add: execFrontParts_def execOrAttachFields_def zeroExecOrAttachCmd_def payload_simps boolPart_def)
  done

interpretation execOrAttachCmd: encoded_message "''ExecOrAttachCmd''" execOrAttachFields zeroExecOrAttachCmd "\<lambda>m. gm_wf (xa_Envs m)"
    execOrAttachView execOrAttachParts ExecOrAttachCmd_Size ExecOrAttachCmd_MarshalToSizedBuffer
proof
  fix m :: execOrAttachCmd
  let ?entries = "map (entryPart 0x42 (\<lambda>s. s)) (rev (xa_Envs m))" and ?command = "map (ItemPart 0x3a) (xa_Command m)"
  assume wf: "gm_wf (xa_Envs m)"
  have envs: "emits (putAll (\<lambda>(k, v). putEntry 0x42 (putItem 0x12 v) k) (xa_Envs m)) (concat (map encPart ?entries))"
    by (rule putMap_emits) (rule putItem_emits)
  show "emits (ExecOrAttachCmd_MarshalToSizedBuffer m) (concat (map encPart (execOrAttachParts m)))"
    unfolding ExecOrAttachCmd_MarshalToSizedBuffer_def [abs_def]
    by (rule emits_then [OF envs emits_then [OF emits_strings execFront(1) refl]])
       (simp add: execOrAttachParts_def del: encPart.simps)
  show s: "ExecOrAttachCmd_Size m = length (concat (map encPart (execOrAttachParts m)))"
  proof -
    have "length (concat (map encPart ?entries)) = sum_list (map (\<lambda>e. sizePart (entryPart 0x42 (\<lambda>s. s) e)) (xa_Envs m))"
      by (simp add: length_concat o_def length_encPart rev_map [symmetric] del: encPart.simps)
    also have "\<dots> = sum_list (map (\<lambda>(k, v).
         let mapEntrySize = 1 + length k + sovRuntime (of_nat (length k)) + 1 + length v + sovRuntime (of_nat (length v))
         in mapEntrySize + 1 + sovRuntime (of_nat mapEntrySize)) (xa_Envs m))"
      by (intro arg_cong [where f = sum_list] map_cong)
         (auto simp: entryPart_def sizeItem_def length_encPart Let_def algebra_simps length_encVarint)
    finally show ?thesis using strings_size [of "0x3a" "xa_Command m"]
      by (simp add: ExecOrAttachCmd_Size_def execOrAttachParts_def execFrontParts_def length_encPart bool_part(2) [of _ "0x18"] boolPart_def
          del: encPart.simps map_map)
  qed
  assume "ExecOrAttachCmd_Size m < 2 ^ 63"
  then have le: "length (encPart (entryPart 0x42 (\<lambda>s. s) e)) < 2 ^ 63" if "e \<in> set (rev (xa_Envs m))" for e
    using that length_part_le [of "entryPart 0x42 (\<lambda>s. s) e" "execOrAttachParts m"] s
    by (auto simp: execOrAttachParts_def simp del: encPart.simps)
  have f: "execOrAttachFields (tagNum 0x3a) = Some (BytesField ''Command'' (\<lambda>s m. m\<lparr>xa_Command := xa_Command m @ [s]\<rparr>))"
    "execOrAttachFields (tagNum 0x42) = Some (MapField ''Envs'' Ok [] (\<lambda>k v m. m\<lparr>xa_Envs := gm_put k v (xa_Envs m)\<rparr>))"
    by (simp_all add: execOrAttachFields_def payload_simps)
  note command = BytesField_items [of execOrAttachFields "0x3a", OF f(1)]
  have entries: "list_all (partFits execOrAttachFields) ?entries"
    "fold (applyPart execOrAttachFields) ?entries r = fold (\<lambda>(k, v) m. m\<lparr>xa_Envs := gm_put k v (xa_Envs m)\<rparr>) (rev (xa_Envs m)) r" for r
    using MapField_entries [of execOrAttachFields "0x42", OF f(2), of "rev (xa_Envs m)" "\<lambda>s. s" "\<lambda>s. s"] le by simp_all
  show "list_all (partFits execOrAttachFields) (execOrAttachParts m)"
    using execFront(2) command(1) entries(1) by (simp add: execOrAttachParts_def)
  have "fold (\<lambda>(k, v). gm_put k v) (rev (xa_Envs m)) [] = rev (xa_Envs m)"
    using fold_gm_put [of "rev (xa_Envs m)" "[]" "\<lambda>v. v"] wf by (simp add: gm_wf_def rev_map [symmetric])
  then show "fold (applyPart execOrAttachFields) (execOrAttachParts m) zeroExecOrAttachCmd = execOrAttachView m"
    using command(2) entries(2) by (simp add: execOrAttachParts_def execFront(3) fold_command fold_envs execOrAttachView_def)
qed

section \<open>Facts for the properties\<close>

lemma map_of_rev: "distinct (map fst xs) \<Longrightarrow> map_of (rev xs) = map_of xs"
  by (subst map_of_inject_set) (simp_all add: rev_map [symmetric])

text \<open>An entry of a map of environment variables whose only field is unknown and has the length \<open>2 ^ 63 - 11\<close>.\<close>

definition overflowEntry :: string where
  "overflowEntry = byteChar 0x42 # byteChar 0x0a # byteChar 0x1a # encVarint 0x7FFFFFFFFFFFFFF5"

lemma overflow_bytes: "overflowEntry = [CHR 0x42, CHR 0x0A, CHR 0x1A, CHR 0xF5, CHR 0xFF, CHR 0xFF, CHR 0xFF, CHR 0xFF, CHR 0xFF, CHR 0xFF,
    CHR 0xFF, CHR 0x7F]"
  by code_simp

lemma length_overflow: "length (encVarint 0x7FFFFFFFFFFFFFF5) = 9"
  using arg_cong [OF overflow_bytes, of length] by (simp add: overflowEntry_def)

lemma overflow_skip:
  "skipRuntime (byteChar 0x1a # encVarint 0x7FFFFFFFFFFFFFF5) 0 0 = Inr (2 ^ 63 - 1)"
proof -
  have "readVarint (byteChar 0x1a # encVarint 0x7FFFFFFFFFFFFFF5) 0 0 0 = Inr (0x1a :: 64 word, 1)"
    using readVarint_tag [of "0x1a" "[]" "encVarint 0x7FFFFFFFFFFFFFF5"] by simp
  moreover have "readVarint (byteChar 0x1a # encVarint 0x7FFFFFFFFFFFFFF5) 1 0 0 = Inr (0x7FFFFFFFFFFFFFF5 :: 64 word, 10)"
    using readVarint_encoded [of "[byteChar 0x1a]" "0x7FFFFFFFFFFFFFF5" "[]", where ?'a = 64] by (simp add: length_overflow)
  ultimately show ?thesis
    by (subst skipRuntime.simps) (simp add: skipValue_def addIndex_def)
qed

lemma calm_fields:
  "packetFields n = Some f1 \<Longrightarrow> calm f1" "hubCmdFields n = Some f2 \<Longrightarrow> calm f2" "hubMsgFields n = Some f3 \<Longrightarrow> calm f3"
  "terminalResizeCmdFields n = Some f4 \<Longrightarrow> calm f4" "logsCmdFields n = Some f5 \<Longrightarrow> calm f5" "portForwardFields n = Some f6 \<Longrightarrow> calm f6"
  "podListFields n = Some f7 \<Longrightarrow> calm f7" "imageRefsFields n = Some f8 \<Longrightarrow> calm f8" "imageStatusFields n = Some f9 \<Longrightarrow> calm f9"
  by (auto simp: packetFields_def hubCmdFields_def hubMsgFields_def terminalResizeCmdFields_def logsCmdFields_def
      portForwardFields_def podListFields_def imageRefsFields_def imageStatusFields_def calm_def split: if_splits)

section \<open>The properties\<close>

text \<open>C24: The answer to a pod list command survives the wire. Marshalling the statuses of pods never leaves the buffer whose length was
  computed before and fills it exactly, whatever the order in which the maps of containers are iterated over, and unmarshalling
  the bytes gives the same pods in the same order, each with its UID, its network data and the same status for every container.\<close>

theorem pod_status_list_roundtrip:
  assumes "list_all wfPodStatus pods" and "PodStatusListMsg_Size pods < 2 ^ 63"
  shows "\<exists>dAtA ms. PodStatusListMsg_Marshal pods = Some dAtA \<and> length dAtA = PodStatusListMsg_Size pods
    \<and> PodStatusListMsg_Unmarshal dAtA = Ok ms
    \<and> list_all2 (\<lambda>m p. pr_Uid m = ps_Uid p \<and> pr_Network m = ps_Network p
        \<and> map_of (pr_Containers m) = (\<lambda>k. map_option Some (map_of (ps_Containers p) k))) ms pods"
proof -
  have "map_of (pr_Containers (podStatusView p)) = (\<lambda>k. map_option Some (map_of (ps_Containers p) k))" if "p \<in> set pods" for p
  proof -
    have d: "distinct (map fst (ps_Containers p))" using assms(1) that by (auto simp: list_all_iff wfPodStatus_def gm_wf_def)
    then have "map_of (rev (ps_Containers p)) = map_of (ps_Containers p)" by (rule map_of_rev)
    then show ?thesis by (simp add: podStatusView_def map_of_map fun_eq_iff)
  qed
  then have "list_all2 (\<lambda>m p. pr_Uid m = ps_Uid p \<and> pr_Network m = ps_Network p
      \<and> map_of (pr_Containers m) = (\<lambda>k. map_option Some (map_of (ps_Containers p) k))) (map podStatusView pods) pods"
    by (auto simp: list_all2_conv_all_nth podStatusView_def)
  with podStatusList.marshal_view [OF assms] show ?thesis
    by (auto simp: PodStatusListMsg_Marshal_def PodStatusListMsg_Unmarshal_def)
qed

text \<open>An exec command survives the wire: what the hub marshals is read back with the same fields, flags and command, and with the same
  environment variables, whatever the order in which they were written.\<close>

theorem exec_command_roundtrip:
  assumes "gm_wf (xa_Envs m)" and "ExecOrAttachCmd_Size m < 2 ^ 63"
  shows "\<exists>dAtA m'. ExecOrAttachCmd_Marshal m = Some dAtA \<and> length dAtA = ExecOrAttachCmd_Size m
    \<and> ExecOrAttachCmd_Unmarshal dAtA = Ok m' \<and> m' = m\<lparr>xa_Envs := xa_Envs m'\<rparr> \<and> map_of (xa_Envs m') = map_of (xa_Envs m)"
  using execOrAttachCmd.marshal_view [OF assms] map_of_rev [of "xa_Envs m"] assms(1)
  by (auto simp: ExecOrAttachCmd_Marshal_def ExecOrAttachCmd_Unmarshal_def execOrAttachView_def gm_wf_def)

text \<open>C25: Twelve bytes make the reader of an exec command panic. The loop over an entry of a map adds the length of an unknown field to its index
  without a look at overflow; behind any marshalled exec command, an entry whose unknown field claims to be almost \<open>2 ^ 63\<close> bytes
  long makes the index negative, and the next byte is read out of range. The same field outside of an entry is an error.\<close>

theorem crafted_exec_command_panics:
  assumes "gm_wf (xa_Envs m)" and "ExecOrAttachCmd_Marshal m = Some dAtA" and "length (dAtA @ overflowEntry) < 2 ^ 63"
  shows "ExecOrAttachCmd_Unmarshal (dAtA @ overflowEntry) = Panic ''index out of range''"
proof -
  let ?l = "encVarint 0x7FFFFFFFFFFFFFF5" and ?n = "length dAtA" and ?d = "dAtA @ overflowEntry"
  have d: "dAtA = concat (map encPart (execOrAttachParts m))"
    using assms(2) execOrAttachCmd.marshal_bytes [OF assms(1)] by (simp add: ExecOrAttachCmd_Marshal_def)
  have sz: "ExecOrAttachCmd_Size m < 2 ^ 63" using assms(3) d execOrAttachCmd.size_bytes [OF assms(1)] by simp
  have "ExecOrAttachCmd_Unmarshal ?d = unmarshalLoop ''ExecOrAttachCmd'' execOrAttachFields ?d (execOrAttachView m) ?n"
    using unmarshal_prefix [OF execOrAttachCmd.parts_read [OF assms(1) sz], of "[]" overflowEntry] assms(3) d
      execOrAttachCmd.parts_view [OF assms(1) sz]
    by (simp add: ExecOrAttachCmd_Unmarshal_def unmarshal_def)
  moreover have "readVarint ?d ?n 0 0 = Inr (0x42 :: 64 word, Suc ?n)"
    using readVarint_tag [of "0x42" dAtA] by (simp add: overflowEntry_def)
  moreover have "readLength ?d (Suc ?n) = Inr (?n + 2, ?n + 12)"
    using readVarint_tag [of "0x0a" "dAtA @ [byteChar 0x42]"] assms(3)
    by (simp add: readLength_def overflowEntry_def addIndex_def length_overflow)
  moreover have "mapEntryLoop Ok ?d (?n + 12) [] [] (?n + 2) = Panic ''index out of range''"
    using readVarint_tag [of "0x1a" "dAtA @ [byteChar 0x42, byteChar 0x0a]" ?l] overflow_skip
    by (subst mapEntryLoop.simps) (simp add: overflowEntry_def)
  moreover have "?n < length ?d" by (simp add: overflowEntry_def)
  moreover have "execOrAttachFields 8 = Some (MapField ''Envs'' Ok [] (\<lambda>k v m. m\<lparr>xa_Envs := gm_put k v (xa_Envs m)\<rparr>))"
    by (simp add: execOrAttachFields_def)
  ultimately show ?thesis
    by (simp add: unmarshalLoop.simps [of _ _ ?d _ ?n] MapField_def)
qed


section \<open>Examples\<close>

text \<open>A pod with one container that has exited.\<close>

definition examplePods :: "podStatusMsg list" where
  "examplePods = [\<lparr>ps_Uid = ''u1'', ps_Network = [], ps_Containers = [(''web'', zeroContainerStatus\<lparr>st_Reason := ''Error''\<rparr>)]\<rparr>]"

theorem pod_status_list_roundtrip_witness:
  "\<exists>dAtA m. PodStatusListMsg_Marshal examplePods = Some dAtA \<and> length dAtA = 22 \<and> PodStatusListMsg_Unmarshal dAtA = Ok [m]
    \<and> pr_Uid m = ''u1'' \<and> map_of (pr_Containers m) ''web'' = Some (Some (zeroContainerStatus\<lparr>st_Reason := ''Error''\<rparr>))"
proof -
  have wf: "list_all wfPodStatus examplePods"
    by (simp add: examplePods_def wfPodStatus_def wfContainerStatus_def zeroContainerStatus_def gm_wf_def inInt32_def)
  have sz: "PodStatusListMsg_Size examplePods = 22" by code_simp
  have "PodStatusListMsg_Size examplePods < 2 ^ 63" by (simp add: sz)
  from pod_status_list_roundtrip [OF wf this] sz show ?thesis
    by (fastforce simp: examplePods_def list_all2_Cons2)
qed

definition exampleExec :: execOrAttachCmd where
  "exampleExec = zeroExecOrAttachCmd\<lparr>xa_PodUid := ''u'', xa_Command := [''ls''], xa_Envs := [(''A'', ''1'')]\<rparr>"

theorem exec_command_roundtrip_witness:
  "\<exists>dAtA m'. ExecOrAttachCmd_Marshal exampleExec = Some dAtA \<and> length dAtA = 15 \<and> ExecOrAttachCmd_Unmarshal dAtA = Ok m'
    \<and> xa_Command m' = [''ls''] \<and> map_of (xa_Envs m') ''A'' = Some ''1''"
proof -
  have wf: "gm_wf (xa_Envs exampleExec)" by (simp add: exampleExec_def gm_wf_def)
  have sz: "ExecOrAttachCmd_Size exampleExec = 15" by code_simp
  have "ExecOrAttachCmd_Size exampleExec < 2 ^ 63" by (simp add: sz)
  from exec_command_roundtrip [OF wf this] obtain dAtA m' where m: "ExecOrAttachCmd_Marshal exampleExec = Some dAtA" "length dAtA = 15"
    "ExecOrAttachCmd_Unmarshal dAtA = Ok m'" "m' = exampleExec\<lparr>xa_Envs := xa_Envs m'\<rparr>" "map_of (xa_Envs m') = map_of (xa_Envs exampleExec)"
    using sz by metis
  have "xa_Command m' = [''ls'']" using arg_cong [OF m(4), of xa_Command] by (simp add: exampleExec_def)
  moreover have "map_of (xa_Envs m') ''A'' = Some ''1''" by (simp add: m(5) exampleExec_def)
  ultimately show ?thesis using m by blast
qed

theorem crafted_exec_command_panics_witness:
  "ExecOrAttachCmd_Unmarshal [CHR 0x42, CHR 0x0A, CHR 0x1A, CHR 0xF5, CHR 0xFF, CHR 0xFF, CHR 0xFF, CHR 0xFF, CHR 0xFF, CHR 0xFF,
    CHR 0xFF, CHR 0x7F] = Panic ''index out of range''"
proof -
  have "gm_wf (xa_Envs zeroExecOrAttachCmd)" "ExecOrAttachCmd_Marshal zeroExecOrAttachCmd = Some []"
    by code_simp+
  from crafted_exec_command_panics [OF this] show ?thesis by (simp add: overflow_bytes)
qed

end
