(* ===== verification/Handler.thy ===== *)
theory Handler
  imports PodOps Images Actions Streams Logs Payloads
begin

text \<open>
  The extension handler: \<^verbatim>\<open>libext/extruntime/{handler,handler_pod,handler_image,handle_action,handler_stream}.go\<close>,
  \<^verbatim>\<open>libext/extutil/handler.go\<close>, and the body of the command loop of \<^verbatim>\<open>libext/controller.go\<close>. It decodes the
  commands of the hub, runs the operation of the runtime engine in a goroutine and sends the answer.
  The engine is a record of operations (the interface \<^verbatim>\<open>RuntimeEngine\<close>), given by the libpod runtime; the
  encoding of the messages is an argument. A goroutine is an action that
  \<^verbatim>\<open>HandleCmd\<close> returns. What is read from the output pipes of a stream operation is an
  argument too: the reads in the order in which they took their sequence numbers.
\<close>

section \<open>Commands and messages\<close>

definition CMD_DATA_INPUT :: int where "CMD_DATA_INPUT = 0"
definition CMD_DATA_CLOSE :: int where "CMD_DATA_CLOSE = 10"
definition CMD_RUNTIME_ARANYA_PROTO :: int where "CMD_RUNTIME_ARANYA_PROTO = 20"

definition MSG_DATA_OUTPUT :: int where "MSG_DATA_OUTPUT = 0"
definition MSG_ERROR :: int where "MSG_ERROR = 2"
definition MSG_RUNTIME_ARANYA_PROTO :: int where "MSG_RUNTIME_ARANYA_PROTO = 20"
definition MSG_RUNTIME_DATA_STDERR :: int where "MSG_RUNTIME_DATA_STDERR = 21"

text \<open>The packet types of \<^verbatim>\<open>runtimepb\<close>.\<close>

definition CMD_GET_INFO :: int where "CMD_GET_INFO = 1"
definition CMD_EXEC :: int where "CMD_EXEC = 2"
definition CMD_ATTACH :: int where "CMD_ATTACH = 3"
definition CMD_LOGS :: int where "CMD_LOGS = 4"
definition CMD_TTY_RESIZE :: int where "CMD_TTY_RESIZE = 5"
definition CMD_PORT_FORWARD :: int where "CMD_PORT_FORWARD = 6"
definition MSG_RUNTIME_INFO :: int where "MSG_RUNTIME_INFO = 9"
definition CMD_IMAGE_LIST :: int where "CMD_IMAGE_LIST = 11"
definition CMD_IMAGE_ENSURE :: int where "CMD_IMAGE_ENSURE = 12"
definition CMD_IMAGE_DELETE :: int where "CMD_IMAGE_DELETE = 13"
definition MSG_IMAGE_STATUS_LIST :: int where "MSG_IMAGE_STATUS_LIST = 22"
definition CMD_POD_LIST :: int where "CMD_POD_LIST = 31"
definition CMD_POD_ENSURE :: int where "CMD_POD_ENSURE = 32"
definition CMD_POD_DELETE :: int where "CMD_POD_DELETE = 33"
definition MSG_POD_STATUS :: int where "MSG_POD_STATUS = 41"
definition MSG_POD_STATUS_LIST :: int where "MSG_POD_STATUS_LIST = 42"

lemmas kind_defs = CMD_DATA_INPUT_def CMD_DATA_CLOSE_def CMD_RUNTIME_ARANYA_PROTO_def MSG_DATA_OUTPUT_def MSG_ERROR_def
  MSG_RUNTIME_ARANYA_PROTO_def MSG_RUNTIME_DATA_STDERR_def CMD_GET_INFO_def CMD_EXEC_def CMD_ATTACH_def CMD_LOGS_def
  CMD_TTY_RESIZE_def CMD_PORT_FORWARD_def MSG_RUNTIME_INFO_def CMD_IMAGE_LIST_def CMD_IMAGE_ENSURE_def
  CMD_IMAGE_DELETE_def MSG_IMAGE_STATUS_LIST_def CMD_POD_LIST_def CMD_POD_ENSURE_def CMD_POD_DELETE_def
  MSG_POD_STATUS_def MSG_POD_STATUS_LIST_def

record msg =
  m_Kind :: int
  m_Id :: "64 word"
  m_Ack :: "64 word"
  m_Payload :: "string option"

text \<open>The generated encoding: decoders of commands and encoders of messages. Decoders and the encoders of payloads may panic; those of
  packets and errors do not.\<close>

record wire =
  wi_Packet :: "string \<Rightarrow> (int \<times> string) outcome"
  wi_PodListCmd :: "string \<Rightarrow> podListCmd outcome"
  wi_PodEnsureCmd :: "string \<Rightarrow> podEnsureCmd outcome"
  wi_PodDeleteCmd :: "string \<Rightarrow> podDeleteCmd outcome"
  wi_ImageListCmd :: "string \<Rightarrow> unit outcome"
  wi_ImageEnsureCmd :: "string \<Rightarrow> imageEnsureCmd outcome"
  wi_ImageDeleteCmd :: "string \<Rightarrow> unit outcome"
  wi_ExecOrAttachCmd :: "string \<Rightarrow> execOrAttachCmd outcome"
  wi_LogsCmd :: "string \<Rightarrow> logsCmd outcome"
  wi_PortForwardCmd :: "string \<Rightarrow> portForwardCmd outcome"
  wi_TerminalResizeCmd :: "string \<Rightarrow> (32 word \<times> 32 word) outcome"
  wi_encPacket :: "int \<Rightarrow> string \<Rightarrow> goerr + string"
  wi_encPodStatus :: "podStatusMsg \<Rightarrow> string outcome"
  wi_encPodStatusList :: "podStatusMsg list \<Rightarrow> string outcome"
  wi_encImageStatusList :: "imageStatusMsg option list \<Rightarrow> string outcome"
  wi_encRuntimeInfo :: "runtimeInfo \<Rightarrow> string outcome"
  wi_encErrorMsg :: "string \<times> int \<Rightarrow> goerr + string"
  wi_encHubError :: "string \<Rightarrow> goerr + string"

text \<open>The interface \<^verbatim>\<open>RuntimeEngine\<close>, and the libpod runtime as such an engine. The stream operations get what
  the session sends as input and give the errors of their channel.\<close>

record 'w runtimeEngine =
  re_info :: runtimeInfo
  re_Exec :: "execOrAttachCmd \<Rightarrow> string option \<Rightarrow> ('w, (string \<times> int) list) act"
  re_Attach :: "execOrAttachCmd \<Rightarrow> string option \<Rightarrow> ('w, (string \<times> int) list) act"
  re_Logs :: "logsCmd \<Rightarrow> ('w, unit) act"
  re_PortForward :: "portForwardCmd \<Rightarrow> ('w, goerr list) act"
  re_EnsurePod :: "podEnsureCmd \<Rightarrow> ('w, podStatusMsg) act"
  re_DeletePod :: "podDeleteCmd \<Rightarrow> ('w, podStatusMsg) act"
  re_ListPods :: "podListCmd \<Rightarrow> ('w, podStatusMsg list) act"
  re_EnsureImages :: "imageEnsureCmd \<Rightarrow> ('w, imageStatusMsg option list) act"
  re_DeleteImages :: "('w, imageStatusMsg option list) act"
  re_ListImages :: "('w, imageStatusMsg option list) act"

text \<open>What is received from an error channel that carries at most one message.\<close>

fun errChan :: "goerr option \<Rightarrow> (string \<times> int) list" where
  "errChan None = []"
| "errChan (Some (ErrorMsg description code)) = [(description, code)]"
| "errChan (Some e) = [(err_Error e, 0)]"

definition libpodEngine :: "'w engine \<Rightarrow> libpodRuntime \<Rightarrow> (portForwardCmd \<Rightarrow> goerr list) \<Rightarrow> 'w runtimeEngine" where
  "libpodEngine lp r forwardErrs =
     \<lparr>re_info = \<lparr>ri_Name = br_name (rt_base r), ri_Version = br_version (rt_base r), ri_Os = br_os (rt_base r),
        ri_OsImage = br_osImage (rt_base r), ri_Arch = br_arch (rt_base r), ri_KernelVersion = br_kernelVersion (rt_base r)\<rparr>,
      re_Exec = (\<lambda>opts stdin. andThen (Exec lp (xa_PodUid opts) (xa_Container opts) stdin (xa_Stdout opts) (xa_Stderr opts)
          (xa_Command opts) (xa_Tty opts)) (\<lambda>(err, _, _). ret (errChan err))),
      re_Attach = (\<lambda>opts stdin. andThen (Attach lp (xa_PodUid opts) (xa_Container opts) stdin (xa_Stdout opts)
          (xa_Stderr opts)) (\<lambda>err. ret (errChan err))),
      re_Logs = (\<lambda>opts. andThen (Logs lp opts) (\<lambda>(err, _). case err of None \<Rightarrow> ret () | Some e \<Rightarrow> throw e)),
      re_PortForward = (\<lambda>opts. andThen (PortForward lp (pf_PodUid opts) (pf_Protocol opts) (pf_Port opts))
          (\<lambda>_. ret (forwardErrs opts))),
      re_EnsurePod = EnsurePod lp r, re_DeletePod = DeletePod lp r, re_ListPods = ListPods lp r,
      re_EnsureImages = EnsureImages lp r, re_DeleteImages = DeleteImages, re_ListImages = ListImages\<rparr>"

section \<open>The handler\<close>

text \<open>The arguments of the handler: the engine, the encoding, the input of a session, what is read
  from the output pipes of a session, and whether the context has ended.\<close>

record 'w handlerEnv =
  he_impl :: "'w runtimeEngine"
  he_wire :: wire
  he_input :: "64 word \<Rightarrow> string"
  he_reads :: "64 word \<Rightarrow> (int \<times> string) list"
  he_ctxDone :: bool

text \<open>The world of the handler: the world of the engine, the stored send function, the messages given to
  it, the sessions of the stream manager and the calls made on it.\<close>

record 'w hworld =
  hw_w :: 'w
  hw_sendFunc :: "(msg \<Rightarrow> goerr option) option"
  hw_sent :: "msg list"
  hw_sessions :: "64 word list"
  hw_calls :: "smCall list"

definition onEngine :: "('w, 'a) act \<Rightarrow> ('w hworld, 'a) act" where
  "onEngine m hw = (case m (hw_w hw) of (r, w) \<Rightarrow> (r, hw\<lparr>hw_w := w\<rparr>))"

definition decoded :: "'a outcome \<Rightarrow> ('w hworld, 'a) act" where
  "decoded r hw = (r, hw)"

definition streamCall :: "smCall \<Rightarrow> ('w hworld, unit) act" where
  "streamCall c hw = (Ok (), hw\<lparr>hw_calls := hw_calls hw @ [c]\<rparr>)"

definition SetMsgSendFunc :: "(msg \<Rightarrow> goerr option) \<Rightarrow> ('w hworld, unit) act" where
  "SetMsgSendFunc f hw = (Ok (), hw\<lparr>hw_sendFunc := Some f\<rparr>)"

definition SendMsg :: "msg \<Rightarrow> ('w hworld, unit) act" where
  "SendMsg m hw =
     (case hw_sendFunc hw of
        None \<Rightarrow> (Err (ErrNew ''message send func not set''), hw)
      | Some f \<Rightarrow> ((case f m of None \<Rightarrow> Ok () | Some e \<Rightarrow> Err e), hw\<lparr>hw_sent := hw_sent hw @ [m]\<rparr>))"

text \<open>\<^verbatim>\<open>data, _ := msg.Marshal()\<close>: without an encoding the payload is \<^verbatim>\<open>nil\<close>.\<close>

definition errorPayload :: "wire \<Rightarrow> string \<times> int \<Rightarrow> string option" where
  "errorPayload wi e = (case wi_encErrorMsg wi e of Inl _ \<Rightarrow> None | Inr data \<Rightarrow> Some data)"

section \<open>The commands with one answer\<close>

type_synonym 'w cmdHandleFunc = "('w hworld, (int \<times> string) option) act"

definition handleGetInfo :: "'w handlerEnv \<Rightarrow> 'w cmdHandleFunc" where
  "handleGetInfo env =
     andThen (decoded (wi_encRuntimeInfo (he_wire env) (re_info (he_impl env)))) (\<lambda>data. ret (Some (MSG_RUNTIME_INFO, data)))"

definition handlePodList :: "'w handlerEnv \<Rightarrow> string \<Rightarrow> 'w cmdHandleFunc" where
  "handlePodList env payload =
     andThen (decoded (wi_PodListCmd (he_wire env) payload)) (\<lambda>opts.
     andThen (onEngine (re_ListPods (he_impl env) opts)) (\<lambda>m.
     andThen (decoded (wi_encPodStatusList (he_wire env) m)) (\<lambda>data. ret (Some (MSG_POD_STATUS_LIST, data)))))"

definition handlePodEnsure :: "'w handlerEnv \<Rightarrow> string \<Rightarrow> 'w cmdHandleFunc" where
  "handlePodEnsure env payload =
     andThen (decoded (wi_PodEnsureCmd (he_wire env) payload)) (\<lambda>opts.
     andThen (onEngine (re_EnsurePod (he_impl env) opts)) (\<lambda>m.
     andThen (decoded (wi_encPodStatus (he_wire env) m)) (\<lambda>data. ret (Some (MSG_POD_STATUS, data)))))"

definition handlePodDelete :: "'w handlerEnv \<Rightarrow> string \<Rightarrow> 'w cmdHandleFunc" where
  "handlePodDelete env payload =
     andThen (decoded (wi_PodDeleteCmd (he_wire env) payload)) (\<lambda>opts.
     andThen (onEngine (re_DeletePod (he_impl env) opts)) (\<lambda>m.
     andThen (decoded (wi_encPodStatus (he_wire env) m)) (\<lambda>data. ret (Some (MSG_POD_STATUS, data)))))"

definition handleImageList :: "'w handlerEnv \<Rightarrow> string \<Rightarrow> 'w cmdHandleFunc" where
  "handleImageList env payload =
     andThen (decoded (wi_ImageListCmd (he_wire env) payload)) (\<lambda>opts.
     andThen (onEngine (re_ListImages (he_impl env))) (\<lambda>m.
     andThen (decoded (wi_encImageStatusList (he_wire env) m)) (\<lambda>data. ret (Some (MSG_IMAGE_STATUS_LIST, data)))))"

definition handleImageEnsure :: "'w handlerEnv \<Rightarrow> string \<Rightarrow> 'w cmdHandleFunc" where
  "handleImageEnsure env payload =
     andThen (decoded (wi_ImageEnsureCmd (he_wire env) payload)) (\<lambda>opts.
     andThen (onEngine (re_EnsureImages (he_impl env) opts)) (\<lambda>m.
     andThen (decoded (wi_encImageStatusList (he_wire env) m)) (\<lambda>data. ret (Some (MSG_IMAGE_STATUS_LIST, data)))))"

definition handleImageDelete :: "'w handlerEnv \<Rightarrow> string \<Rightarrow> 'w cmdHandleFunc" where
  "handleImageDelete env payload =
     andThen (decoded (wi_ImageDeleteCmd (he_wire env) payload)) (\<lambda>opts.
     andThen (onEngine (re_DeleteImages (he_impl env))) (\<lambda>m.
     andThen (decoded (wi_encImageStatusList (he_wire env) m)) (\<lambda>data. ret (Some (MSG_IMAGE_STATUS_LIST, data)))))"

definition handleTtyResize :: "'w handlerEnv \<Rightarrow> 64 word \<Rightarrow> string \<Rightarrow> 'w cmdHandleFunc" where
  "handleTtyResize env sid payload =
     andThen (decoded (wi_TerminalResizeCmd (he_wire env) payload)) (\<lambda>(cols, rows).
     andThen (streamCall (CallResize sid cols rows)) (\<lambda>_. ret None))"

section \<open>The stream operations\<close>

text \<open>\<^verbatim>\<open>collectStreamErrors\<close>: the messages of the channel are merged into the first one, which gets the first exit code
  that is not zero.\<close>

fun mergeErrors :: "(string \<times> int) option \<Rightarrow> (string \<times> int) list \<Rightarrow> (string \<times> int) option" where
  "mergeErrors errMsg [] = errMsg"
| "mergeErrors None (e # es) = mergeErrors (Some e) es"
| "mergeErrors (Some (description, code)) ((d, c) # es) =
     mergeErrors (Some (description @ ''; '' @ d, if c \<noteq> 0 \<and> code = 0 then c else code)) es"

definition DefaultExitCodeOnError :: int where "DefaultExitCodeOnError = 128"

definition collectStreamErrors :: "bool \<Rightarrow> (string \<times> int) list \<Rightarrow> (string \<times> int) option" where
  "collectStreamErrors ctxDone errs =
     (if ctxDone then Some (err_Error CtxErr, DefaultExitCodeOnError) else mergeErrors None errs)"

text \<open>\<^verbatim>\<open>uploadDataOutput\<close> for both pipes: every read is sent with the next number; the goroutine of a pipe ends with
  the first message it cannot send.\<close>

fun uploadDataOutput :: "64 word \<Rightarrow> int list \<Rightarrow> 64 word \<Rightarrow> (int \<times> string) list \<Rightarrow> ('w hworld, 64 word) act" where
  "uploadDataOutput sid stopped seq [] = ret seq"
| "uploadDataOutput sid stopped seq ((kind, data) # reads) =
     (if kind \<in> set stopped then uploadDataOutput sid stopped seq reads
      else andThen (attempt (SendMsg \<lparr>m_Kind = kind, m_Id = sid, m_Ack = seq, m_Payload = Some data\<rparr>)) (\<lambda>res.
        uploadDataOutput sid (case res of Inl _ \<Rightarrow> kind # stopped | Inr _ \<Rightarrow> stopped) (seq + 1) reads))"

definition pipeReads :: "bool \<Rightarrow> bool \<Rightarrow> (int \<times> string) list \<Rightarrow> (int \<times> string) list" where
  "pipeReads useStdout useStderr reads =
     filter (\<lambda>(kind, _). kind = MSG_DATA_OUTPUT \<and> useStdout \<or> kind = MSG_RUNTIME_DATA_STDERR \<and> useStderr) reads"

definition lastMsg :: "wire \<Rightarrow> 64 word \<Rightarrow> 64 word \<Rightarrow> (string \<times> int) option \<Rightarrow> msg" where
  "lastMsg wi sid seq err =
     (case err of
        None \<Rightarrow> \<lparr>m_Kind = MSG_DATA_OUTPUT, m_Id = sid, m_Ack = seq, m_Payload = None\<rparr>
      | Some e \<Rightarrow> \<lparr>m_Kind = MSG_ERROR, m_Id = sid, m_Ack = seq, m_Payload = errorPayload wi e\<rparr>)"

definition streams_Del :: "64 word \<Rightarrow> ('w hworld, unit) act" where
  "streams_Del sid hw =
     (Ok (), hw\<lparr>hw_sessions := removeAll sid (hw_sessions hw), hw_calls := hw_calls hw @ [CallDel sid]\<rparr>)"

text \<open>\<^verbatim>\<open>h.streams.Add\<close> with the function that creates the writer.\<close>

definition streams_Add :: "64 word \<Rightarrow> bool \<Rightarrow> ('w hworld, 'a) act \<Rightarrow> ('w hworld, 'a) act" where
  "streams_Add sid rF create hw =
     (if sid \<in> set (hw_sessions hw) then (Err ErrAlreadyExists, hw\<lparr>hw_calls := hw_calls hw @ [CallAdd sid (Inr rF)]\<rparr>)
      else case create hw of
        (Ok a, hw') \<Rightarrow> (Ok a, hw'\<lparr>hw_sessions := sid # hw_sessions hw', hw_calls := hw_calls hw' @ [CallAdd sid (Inr rF)]\<rparr>)
      | (Err e, hw') \<Rightarrow> (Err e, hw'\<lparr>hw_calls := hw_calls hw' @ [CallAdd sid (Inl e)]\<rparr>)
      | (Panic s, hw') \<Rightarrow> (Panic s, hw'))"

definition handleStreamOperation ::
  "'w handlerEnv \<Rightarrow> 64 word \<Rightarrow> bool \<Rightarrow> bool \<Rightarrow> ('w hworld, (string \<times> int) option) act \<Rightarrow> ('w hworld, unit) act" where
  "handleStreamOperation env sid useStdout useStderr run =
     andThen run (\<lambda>err.
     andThen (uploadDataOutput sid [] 0 (pipeReads useStdout useStderr (he_reads env sid))) (\<lambda>seq.
     andThen (ignore (SendMsg (lastMsg (he_wire env) sid seq err))) (\<lambda>_.
     streams_Del sid)))"

text \<open>The run functions of exec and attach differ in the engine operation only.\<close>

definition runInContainer ::
  "'w handlerEnv \<Rightarrow> 64 word \<Rightarrow> bool \<Rightarrow> (string option \<Rightarrow> ('w, (string \<times> int) list) act) \<Rightarrow>
   ('w hworld, (string \<times> int) option) act" where
  "runInContainer env sid useStdin exec =
     andThen (attempt (if useStdin then streams_Add sid True (onEngine (exec (Some (he_input env sid)))) else onEngine (exec None)))
       (\<lambda>res. case res of
          Inl err \<Rightarrow> ret (Some (err_Error err, 0))
        | Inr errs \<Rightarrow> ret (collectStreamErrors (he_ctxDone env) errs))"

definition handleExec :: "'w handlerEnv \<Rightarrow> 64 word \<Rightarrow> string \<Rightarrow> 'w cmdHandleFunc" where
  "handleExec env sid payload =
     andThen (decoded (wi_ExecOrAttachCmd (he_wire env) payload)) (\<lambda>opts.
     andThen (handleStreamOperation env sid (xa_Stdout opts) (xa_Stderr opts)
        (runInContainer env sid (xa_Stdin opts) (re_Exec (he_impl env) opts))) (\<lambda>_. ret None))"

definition handleAttach :: "'w handlerEnv \<Rightarrow> 64 word \<Rightarrow> string \<Rightarrow> 'w cmdHandleFunc" where
  "handleAttach env sid payload =
     andThen (decoded (wi_ExecOrAttachCmd (he_wire env) payload)) (\<lambda>opts.
     andThen (handleStreamOperation env sid (xa_Stdout opts) (xa_Stderr opts)
        (runInContainer env sid (xa_Stdin opts) (re_Attach (he_impl env) opts))) (\<lambda>_. ret None))"

definition handleLogs :: "'w handlerEnv \<Rightarrow> 64 word \<Rightarrow> string \<Rightarrow> 'w cmdHandleFunc" where
  "handleLogs env sid payload =
     andThen (decoded (wi_LogsCmd (he_wire env) payload)) (\<lambda>opts.
     andThen (handleStreamOperation env sid True True
        (andThen (attempt (onEngine (re_Logs (he_impl env) opts))) (\<lambda>res.
           ret (case res of Inl err \<Rightarrow> Some (err_Error err, 0) | Inr _ \<Rightarrow> None)))) (\<lambda>_. ret None))"

text \<open>\<^verbatim>\<open>handlePortForward\<close>: the deferred function sends the last message, with the error in the variable \<^verbatim>\<open>err\<close>, on
  every exit after the decoding.\<close>

fun joinErrors :: "goerr option \<Rightarrow> goerr list \<Rightarrow> goerr option" where
  "joinErrors err [] = err"
| "joinErrors None (e # es) = joinErrors (Some e) es"
| "joinErrors (Some err) (e # es) = joinErrors (Some (ErrMulti [err, e])) es"

definition handlePortForward :: "'w handlerEnv \<Rightarrow> 64 word \<Rightarrow> string \<Rightarrow> 'w cmdHandleFunc" where
  "handlePortForward env sid payload =
     andThen (decoded (wi_PortForwardCmd (he_wire env) payload)) (\<lambda>opts.
     andThen (attempt (streams_Add sid False (onEngine (re_PortForward (he_impl env) opts)))) (\<lambda>res.
       let finish = (\<lambda>seq err. andThen (ignore (SendMsg (lastMsg (he_wire env) sid seq (map_option (\<lambda>e. (err_Error e, 0)) err))))
                      (\<lambda>_. streams_Del sid)) in
       case res of
         Inl err \<Rightarrow> andThen (finish 0 (Some err)) (\<lambda>_. throw err)
       | Inr errs \<Rightarrow>
           andThen (uploadDataOutput sid [] 0 (pipeReads True False (he_reads env sid))) (\<lambda>seq.
           andThen (finish seq (if he_ctxDone env then None else joinErrors None errs)) (\<lambda>_. ret None))))"

section \<open>Dispatch\<close>

text \<open>The table of \<^verbatim>\<open>NewHandler\<close>.\<close>

definition funcMap :: "'w handlerEnv \<Rightarrow> 64 word \<Rightarrow> string \<Rightarrow> (int \<times> 'w cmdHandleFunc) list" where
  "funcMap env sid payload =
     [(CMD_GET_INFO, handleGetInfo env),
      (CMD_EXEC, handleExec env sid payload), (CMD_ATTACH, handleAttach env sid payload),
      (CMD_LOGS, handleLogs env sid payload), (CMD_TTY_RESIZE, handleTtyResize env sid payload),
      (CMD_PORT_FORWARD, handlePortForward env sid payload),
      (CMD_IMAGE_LIST, handleImageList env payload), (CMD_IMAGE_ENSURE, handleImageEnsure env payload),
      (CMD_IMAGE_DELETE, handleImageDelete env payload),
      (CMD_POD_LIST, handlePodList env payload), (CMD_POD_ENSURE, handlePodEnsure env payload),
      (CMD_POD_DELETE, handlePodDelete env payload)]"

text \<open>The goroutine that runs a command and sends its answer.\<close>

definition answerCmd :: "'w handlerEnv \<Rightarrow> 64 word \<Rightarrow> 64 word \<Rightarrow> 'w cmdHandleFunc \<Rightarrow> ('w hworld, unit) act" where
  "answerCmd env sid seq do =
     andThen (attempt do) (\<lambda>res.
       case res of
         Inl err \<Rightarrow> ignore (SendMsg \<lparr>m_Kind = MSG_RUNTIME_ARANYA_PROTO, m_Id = sid, m_Ack = seq,
                                 m_Payload = errorPayload (he_wire env) (err_Error err, 0)\<rparr>)
       | Inr None \<Rightarrow> ret ()
       | Inr (Some (kind, payload)) \<Rightarrow>
           (case wi_encPacket (he_wire env) kind payload of
              Inl _ \<Rightarrow> ret ()
            | Inr data \<Rightarrow> ignore (SendMsg \<lparr>m_Kind = MSG_RUNTIME_ARANYA_PROTO, m_Id = sid, m_Ack = seq,
                                         m_Payload = Some data\<rparr>)))"

text \<open>\<^verbatim>\<open>HandleCmd\<close> gives back the goroutine it starts, if any.\<close>

definition HandleCmd ::
  "'w handlerEnv \<Rightarrow> 64 word \<Rightarrow> 64 word \<Rightarrow> int \<Rightarrow> string option \<Rightarrow> ('w hworld, ('w hworld, unit) act option) act" where
  "HandleCmd env sid seq kind payload =
     (let bytes = (case payload of None \<Rightarrow> [] | Some b \<Rightarrow> b) in
      if kind = CMD_DATA_INPUT then andThen (streamCall (CallWrite sid seq (Some bytes))) (\<lambda>_. ret None)
      else if kind = CMD_DATA_CLOSE then andThen (streamCall (CallWrite sid seq None)) (\<lambda>_. ret None)
      else if kind = CMD_RUNTIME_ARANYA_PROTO then
        andThen (decoded (wi_Packet (he_wire env) bytes)) (\<lambda>(pktKind, pktPayload).
          case map_of (funcMap env sid pktPayload) pktKind of
            None \<Rightarrow> throw (ErrNew (''unknown runtime cmd type '' @ FormatInt kind))
          | Some do \<Rightarrow> ret (Some (answerCmd env sid seq do)))
      else throw (ErrNew (''unknown cmd type '' @ FormatInt kind)))"

text \<open>The body of the command loop of \<^verbatim>\<open>handleSession\<close>: an error of \<^verbatim>\<open>HandleCmd\<close> is sent with the kind \<^verbatim>\<open>HandleCmd\<close> returned. The
  result is an error when the session has to be closed, else the goroutine that was started.\<close>

definition sessionCmd ::
  "'w handlerEnv \<Rightarrow> 64 word \<Rightarrow> 64 word \<Rightarrow> int \<Rightarrow> string option \<Rightarrow> ('w hworld, ('w hworld, unit) act option) act" where
  "sessionCmd env cid seq kind payload =
     andThen (attempt (HandleCmd env cid seq kind payload)) (\<lambda>res.
       case res of
         Inr started \<Rightarrow> ret started
       | Inl err \<Rightarrow>
           (case wi_encHubError (he_wire env) (err_Error err) of
              Inl _ \<Rightarrow> throw (ErrNew ''failed to marshal response msg'')
            | Inr data \<Rightarrow>
                andThen (SendMsg \<lparr>m_Kind = 0, m_Id = cid, m_Ack = seq, m_Payload = Some data\<rparr>) (\<lambda>_. ret None)))"

section \<open>What is sent\<close>

definition sameMsgs :: "'w hworld \<Rightarrow> 'w hworld \<Rightarrow> bool" where
  "sameMsgs hw hw' \<longleftrightarrow> hw_sent hw' = hw_sent hw \<and> hw_sendFunc hw' = hw_sendFunc hw"

interpretation quiet: world_rel sameMsgs
  by unfold_locales (simp_all add: sameMsgs_def)

lemma quiet_onEngine: "keeps sameMsgs (onEngine m)"
  by (simp add: keeps_def onEngine_def sameMsgs_def split: prod.splits)

lemma quiet_decoded: "keeps sameMsgs (decoded r)"
  by (cases r) (simp_all add: decoded_def keeps_def sameMsgs_def)

lemma quiet_Add: "keeps sameMsgs create \<Longrightarrow> keeps sameMsgs (streams_Add sid rF create)"
  by (auto simp: keeps_def streams_Add_def sameMsgs_def split: outcome.splits prod.splits) (metis snd_conv)+

lemmas quiet_rules = quiet.keeps_rules quiet_onEngine quiet_decoded quiet_Add

text \<open>What the goroutine of a command relies on in the handler of a command with one answer: it sends nothing
  itself, and when it succeeds it gives a packet. Then exactly one message is sent.\<close>

locale answering =
  fixes handle :: "'w cmdHandleFunc"
  assumes handle_quiet: "keeps sameMsgs handle"
    and handle_answers: "handle hw \<noteq> (Ok None, hw')"
begin

lemma answered_once:
  assumes run: "answerCmd env sid seq handle hw = (Ok (), hw')" and f: "hw_sendFunc hw = Some f"
    and enc: "\<And>kind payload. \<exists>data. wi_encPacket (he_wire env) kind payload = Inr data"
  shows "\<exists>r hw1 data. handle hw = (r, hw1) \<and> hw' = hw1\<lparr>hw_sent := hw_sent hw @
      [\<lparr>m_Kind = MSG_RUNTIME_ARANYA_PROTO, m_Id = sid, m_Ack = seq, m_Payload = data\<rparr>]\<rparr>
    \<and> (case r of
         Ok (Some (kind, payload)) \<Rightarrow> data = (case wi_encPacket (he_wire env) kind payload of Inl _ \<Rightarrow> None | Inr b \<Rightarrow> Some b)
       | Err e \<Rightarrow> data = errorPayload (he_wire env) (err_Error e, 0)
       | _ \<Rightarrow> False)"
proof -
  obtain r hw1 where h: "handle hw = (r, hw1)" by fastforce
  have q: "hw_sent hw1 = hw_sent hw" "hw_sendFunc hw1 = Some f"
    using keepsD [OF handle_quiet h] f by (simp_all add: sameMsgs_def)
  show ?thesis
  proof (cases r)
    case (Ok p)
    with handle_answers h obtain kind payload where p: "p = Some (kind, payload)" by (cases p) auto
    obtain data where "wi_encPacket (he_wire env) kind payload = Inr data" using enc by blast
    with run h Ok p q show ?thesis
      by (auto simp: answerCmd_def andThen_def attempt_def ignore_def SendMsg_def split: option.splits)
  next
    case (Err e)
    with run h q show ?thesis
      by (auto simp: answerCmd_def andThen_def attempt_def ignore_def SendMsg_def split: option.splits)
  next
    case (Panic m)
    with run h show ?thesis by (simp add: answerCmd_def andThen_def attempt_def)
  qed
qed

end

text \<open>A handler that ends by giving a packet never succeeds without one.\<close>

lemma andThen_answers:
  "(\<And>a hw hw'. f a hw \<noteq> (Ok None, hw')) \<Longrightarrow> andThen m f hw \<noteq> (Ok None, hw')"
  by (auto simp: andThen_def split: outcome.splits prod.splits)

lemmas handler_defs = handleGetInfo_def handlePodList_def handlePodEnsure_def handlePodDelete_def
  handleImageList_def handleImageEnsure_def handleImageDelete_def

interpretation getInfo: answering "handleGetInfo env" for env
  by unfold_locales (auto simp: handler_defs intro!: quiet_rules andThen_answers)

interpretation podList: answering "handlePodList env payload" for env payload
  by unfold_locales (auto simp: handler_defs intro!: quiet_rules andThen_answers)

interpretation podEnsure: answering "handlePodEnsure env payload" for env payload
  by unfold_locales (auto simp: handler_defs intro!: quiet_rules andThen_answers)

interpretation podDelete: answering "handlePodDelete env payload" for env payload
  by unfold_locales (auto simp: handler_defs intro!: quiet_rules andThen_answers)

interpretation imageList: answering "handleImageList env payload" for env payload
  by unfold_locales (auto simp: handler_defs intro!: quiet_rules andThen_answers)

interpretation imageEnsure: answering "handleImageEnsure env payload" for env payload
  by unfold_locales (auto simp: handler_defs intro!: quiet_rules andThen_answers)

interpretation imageDelete: answering "handleImageDelete env payload" for env payload
  by unfold_locales (auto simp: handler_defs intro!: quiet_rules andThen_answers)

definition answeredKinds :: "int list" where
  "answeredKinds = [CMD_GET_INFO, CMD_IMAGE_LIST, CMD_IMAGE_ENSURE, CMD_IMAGE_DELETE, CMD_POD_LIST, CMD_POD_ENSURE, CMD_POD_DELETE]"

lemma answered_handler:
  "k \<in> set answeredKinds \<Longrightarrow> \<exists>handle. map_of (funcMap env sid p) k = Some handle \<and> answering handle"
  by (auto simp: answeredKinds_def funcMap_def kind_defs getInfo.answering_axioms podList.answering_axioms
      podEnsure.answering_axioms podDelete.answering_axioms imageList.answering_axioms imageEnsure.answering_axioms
      imageDelete.answering_axioms)

lemma HandleCmd_runtime:
  "wi_Packet (he_wire env) bytes = Ok (k, p) \<Longrightarrow>
   HandleCmd env sid seq CMD_RUNTIME_ARANYA_PROTO (Some bytes) hw =
     (case map_of (funcMap env sid p) k of
        None \<Rightarrow> (Err (ErrNew (''unknown runtime cmd type '' @ FormatInt CMD_RUNTIME_ARANYA_PROTO)), hw)
      | Some do \<Rightarrow> (Ok (Some (answerCmd env sid seq do)), hw))"
  by (simp add: HandleCmd_def decoded_def andThen_def CMD_RUNTIME_ARANYA_PROTO_def CMD_DATA_INPUT_def CMD_DATA_CLOSE_def
      split: option.splits)

text \<open>The messages of the output of a stream operation.\<close>

definition outputMsgs :: "64 word \<Rightarrow> nat \<Rightarrow> (int \<times> string) list \<Rightarrow> msg list" where
  "outputMsgs sid n reads =
     map (\<lambda>(i, kind, data). \<lparr>m_Kind = kind, m_Id = sid, m_Ack = word_of_nat i, m_Payload = Some data\<rparr>) (enumerate n reads)"

lemma upload_all:
  "hw_sendFunc hw = Some (\<lambda>_. None) \<Longrightarrow>
   uploadDataOutput sid [] (word_of_nat n) reads hw =
     (Ok (word_of_nat (n + length reads)), hw\<lparr>hw_sent := hw_sent hw @ outputMsgs sid n reads\<rparr>)"
proof (induction reads arbitrary: n hw)
  case (Cons rd reads)
  obtain kind data where rd: "rd = (kind, data)" by fastforce
  let ?m = "\<lparr>m_Kind = kind, m_Id = sid, m_Ack = word_of_nat n, m_Payload = Some data\<rparr>"
  from Cons.prems Cons.IH [of "hw\<lparr>hw_sent := hw_sent hw @ [?m]\<rparr>" "Suc n"] show ?case
    by (simp add: rd andThen_def attempt_def SendMsg_def outputMsgs_def add.commute)
qed (simp add: outputMsgs_def)

lemma quiet_runInContainer: "keeps sameMsgs (runInContainer env sid useStdin exec)"
  unfolding runInContainer_def by (auto intro!: quiet_rules split: sum.split)

lemma streamOperation_messages:
  assumes run: "run hw = (Ok err, hw1)" and q: "keeps sameMsgs run" and f: "hw_sendFunc hw = Some (\<lambda>_. None)"
    and reads: "reads = pipeReads useStdout useStderr (he_reads env sid)"
  shows "\<exists>hw'. handleStreamOperation env sid useStdout useStderr run hw = (Ok (), hw')
    \<and> hw_sent hw' = hw_sent hw @ outputMsgs sid 0 reads @ [lastMsg (he_wire env) sid (word_of_nat (length reads)) err]
    \<and> sid \<notin> set (hw_sessions hw')"
proof -
  have "hw_sent hw1 = hw_sent hw" "hw_sendFunc hw1 = Some (\<lambda>_. None)"
    using keepsD [OF q run] f by (simp_all add: sameMsgs_def)
  with run upload_all [of hw1 sid 0 reads] show ?thesis
    by (simp add: handleStreamOperation_def andThen_def reads ignore_def attempt_def SendMsg_def streams_Del_def)
qed

lemma podEnsure_answer:
  assumes "wi_Packet (he_wire env) bytes = Ok (CMD_POD_ENSURE, p)" and "wi_PodEnsureCmd (he_wire env) p = Ok cmd"
    and "he_impl env = libpodEngine lp r errs" and "EnsurePod lp r cmd (hw_w hw) = (res, w')" and "\<And>s. res \<noteq> Panic s"
    and "hw_sendFunc hw = Some f"
    and "\<And>m. wi_encPodStatus (he_wire env) m = Ok (encStatus m)" and "\<And>k d. wi_encPacket (he_wire env) k d = Inr (encPacket k d)"
  shows "\<exists>g. HandleCmd env sid seq CMD_RUNTIME_ARANYA_PROTO (Some bytes) hw = (Ok (Some g), hw)
    \<and> g hw = (Ok (), hw\<lparr>hw_w := w', hw_sent := hw_sent hw @
        [\<lparr>m_Kind = MSG_RUNTIME_ARANYA_PROTO, m_Id = sid, m_Ack = seq,
          m_Payload = (case res of Ok m \<Rightarrow> Some (encPacket MSG_POD_STATUS (encStatus m))
                       | Err e \<Rightarrow> errorPayload (he_wire env) (err_Error e, 0) | Panic _ \<Rightarrow> None)\<rparr>]\<rparr>)"
proof -
  have f: "map_of (funcMap env sid p) CMD_POD_ENSURE = Some (handlePodEnsure env p)"
    by (simp add: funcMap_def kind_defs)
  have "HandleCmd env sid seq CMD_RUNTIME_ARANYA_PROTO (Some bytes) hw
      = (Ok (Some (answerCmd env sid seq (handlePodEnsure env p))), hw)"
    by (simp add: HandleCmd_runtime [OF assms(1)] f)
  moreover have "re_EnsurePod (he_impl env) = EnsurePod lp r" by (simp add: assms(3) libpodEngine_def)
  ultimately show ?thesis
    using assms(2,4-8)
    by (cases res) (auto simp: answerCmd_def handlePodEnsure_def andThen_def decoded_def onEngine_def attempt_def
        ignore_def SendMsg_def split: option.splits)
qed

section \<open>The properties\<close>


text \<open>A command the handler does not know is answered with output data. The controller sends the error of
  \<^verbatim>\<open>HandleCmd\<close> with the kind that came with it, which is 0: \<^verbatim>\<open>MSG_DATA_OUTPUT\<close>, not \<^verbatim>\<open>MSG_ERROR\<close>, so the hub gets the
  encoded error as output of the session.\<close>

theorem unknown_command_answered_as_data:
  assumes "kind \<notin> {CMD_DATA_INPUT, CMD_DATA_CLOSE, CMD_RUNTIME_ARANYA_PROTO}" and "hw_sendFunc hw = Some f" and "\<And>m. f m = None"
    and "wi_encHubError (he_wire env) (''unknown cmd type '' @ FormatInt kind) = Inr data"
  shows "sessionCmd env cid seq kind payload hw = (Ok None, hw\<lparr>hw_sent := hw_sent hw @
      [\<lparr>m_Kind = MSG_DATA_OUTPUT, m_Id = cid, m_Ack = seq, m_Payload = Some data\<rparr>]\<rparr>)"
  using assms by (simp add: sessionCmd_def HandleCmd_def andThen_def attempt_def SendMsg_def MSG_DATA_OUTPUT_def)


text \<open>A port forward that cannot be set up is reported twice: once as an error of the session, with sequence number 0,
  and once more as the answer of the command.\<close>

theorem port_forward_failure_reported_twice:
  assumes "wi_Packet (he_wire env) bytes = Ok (CMD_PORT_FORWARD, p)" and "wi_PortForwardCmd (he_wire env) p = Ok opts"
    and "sid \<notin> set (hw_sessions hw)" and "re_PortForward (he_impl env) opts (hw_w hw) = (Err e, w')"
    and "hw_sendFunc hw = Some (\<lambda>_. None)"
  shows "\<exists>g hw'. HandleCmd env sid seq CMD_RUNTIME_ARANYA_PROTO (Some bytes) hw = (Ok (Some g), hw) \<and> g hw = (Ok (), hw')
    \<and> hw_sent hw' = hw_sent hw @
        [\<lparr>m_Kind = MSG_ERROR, m_Id = sid, m_Ack = 0, m_Payload = errorPayload (he_wire env) (err_Error e, 0)\<rparr>,
         \<lparr>m_Kind = MSG_RUNTIME_ARANYA_PROTO, m_Id = sid, m_Ack = seq, m_Payload = errorPayload (he_wire env) (err_Error e, 0)\<rparr>]"
proof -
  have "map_of (funcMap env sid p) CMD_PORT_FORWARD = Some (handlePortForward env sid p)"
    by (simp add: funcMap_def kind_defs)
  with assms show ?thesis
    by (auto simp: HandleCmd_runtime [OF assms(1)] answerCmd_def handlePortForward_def andThen_def decoded_def onEngine_def
        attempt_def ignore_def SendMsg_def streams_Add_def streams_Del_def lastMsg_def Let_def)
qed

section \<open>Examples\<close>

text \<open>A simple encoding: the first byte of a packet is its kind.\<close>

definition exampleWire :: wire where
  "exampleWire =
     \<lparr>wi_Packet = (\<lambda>b. case b of [] \<Rightarrow> Err (ErrExt ''unexpected EOF'') | c # p \<Rightarrow> Ok (int (of_char c), p)),
      wi_PodListCmd = (\<lambda>_. Ok \<lparr>pl_All = True, pl_Names = []\<rparr>), wi_PodEnsureCmd = (\<lambda>_. Ok exampleCmd),
      wi_PodDeleteCmd = (\<lambda>b. Ok \<lparr>pd_PodUid = b, pd_Containers = []\<rparr>), wi_ImageListCmd = (\<lambda>_. Ok ()),
      wi_ImageEnsureCmd = (\<lambda>_. Ok \<lparr>ie_Images = []\<rparr>), wi_ImageDeleteCmd = (\<lambda>_. Ok ()),
      wi_ExecOrAttachCmd = (\<lambda>b. Ok \<lparr>xa_PodUid = b, xa_Container = ''web'', xa_Stdin = False, xa_Stdout = True,
         xa_Stderr = False, xa_Tty = False, xa_Command = [''ls''], xa_Envs = []\<rparr>),
      wi_LogsCmd = (\<lambda>b. Ok ((exampleLogsCmd False (- 1) (- 1))\<lparr>lc_PodUid := b\<rparr>)),
      wi_PortForwardCmd = (\<lambda>b. Ok \<lparr>pf_PodUid = b, pf_Port = 80, pf_Protocol = ''tcp''\<rparr>),
      wi_TerminalResizeCmd = (\<lambda>_. Ok (80, 24)), wi_encPacket = (\<lambda>k d. Inr (char_of (nat k) # d)),
      wi_encPodStatus = (\<lambda>m. Ok (ps_Uid m)), wi_encPodStatusList = (\<lambda>ms. Ok (concat (map ps_Uid ms))),
      wi_encImageStatusList = (\<lambda>_. Ok []), wi_encRuntimeInfo = (\<lambda>i. Ok (ri_Name i)), wi_encErrorMsg = (\<lambda>(d, c). Inr d),
      wi_encHubError = (\<lambda>d. Inr d)\<rparr>"

definition exampleEnv :: "store handlerEnv" where
  "exampleEnv =
     \<lparr>he_impl = libpodEngine (store_engine []) exampleRuntime (\<lambda>_. []), he_wire = exampleWire, he_input = (\<lambda>_. []),
      he_reads = (\<lambda>_. [(MSG_DATA_OUTPUT, ''a''), (MSG_RUNTIME_DATA_STDERR, ''x''), (MSG_DATA_OUTPUT, ''b'')]),
      he_ctxDone = False\<rparr>"

definition exampleHw :: "store hworld" where
  "exampleHw = \<lparr>hw_w = withCtrs [] [], hw_sendFunc = Some (\<lambda>_. None), hw_sent = [], hw_sessions = [], hw_calls = []\<rparr>"

lemma exampleHw_send: "hw_sendFunc exampleHw = Some (\<lambda>_. None)" "hw_sent exampleHw = []" "hw_sessions exampleHw = []"
  by (simp_all add: exampleHw_def)

lemma exampleEnv_wire: "he_wire exampleEnv = exampleWire"
  by (simp add: exampleEnv_def)


theorem unknown_command_answered_as_data_witness:
  "hw_sent (snd (sessionCmd exampleEnv 5 9 1 None exampleHw)) =
    [\<lparr>m_Kind = MSG_DATA_OUTPUT, m_Id = 5, m_Ack = 9, m_Payload = Some ''unknown cmd type 1''\<rparr>]"
proof -
  have "(1::int) \<notin> {CMD_DATA_INPUT, CMD_DATA_CLOSE, CMD_RUNTIME_ARANYA_PROTO}" by (simp add: kind_defs)
  moreover have "wi_encHubError (he_wire exampleEnv) (''unknown cmd type '' @ FormatInt 1) = Inr ''unknown cmd type 1''"
    by code_simp
  ultimately show ?thesis
    by (subst unknown_command_answered_as_data [OF _ exampleHw_send(1)]) (simp_all add: exampleHw_send)
qed


theorem port_forward_failure_reported_twice_witness:
  "\<exists>g hw'. HandleCmd exampleEnv 5 9 CMD_RUNTIME_ARANYA_PROTO (Some (CHR 0x06 # ''u9'')) exampleHw = (Ok (Some g), exampleHw)
    \<and> g exampleHw = (Ok (), hw') \<and> map m_Kind (hw_sent hw') = [MSG_ERROR, MSG_RUNTIME_ARANYA_PROTO]"
proof -
  let ?opts = "\<lparr>pf_PodUid = ''u9'', pf_Port = 80, pf_Protocol = ''tcp''\<rparr>"
  let ?run = "re_PortForward (he_impl exampleEnv) ?opts (hw_w exampleHw)"
  have p: "wi_Packet (he_wire exampleEnv) (CHR 0x06 # ''u9'') = Ok (CMD_PORT_FORWARD, ''u9'')" by code_simp
  have d: "wi_PortForwardCmd (he_wire exampleEnv) ''u9'' = Ok ?opts" by (simp add: exampleEnv_wire exampleWire_def)
  have "fst ?run = Err ErrNotFound" by code_simp
  then have "?run = (Err ErrNotFound, snd ?run)" by (simp add: prod_eq_iff)
  from port_forward_failure_reported_twice [OF p d _ this exampleHw_send(1), of 5 9] show ?thesis
    by (auto simp: exampleHw_send)
qed

end
