(* ===== verification/ImageCmds.thy ===== *)
theory ImageCmds
  imports Payloads
begin

text \<open>
  The command that ensures images on the wire (\<^verbatim>\<open>runtimepb/cmd_image.pb.go\<close>): credentials, the specification of a pull with the
  credentials inside, and the command with its map from image names to specifications. Credentials that are sent twice are
  merged, and an entry of the map may lack its value: the writer omits a nil one, and the reader leaves a nil one. Shown: each of the three is an instance of
  \<open>encoded_message\<close>, and the maps that are read have distinct keys, whatever the bytes.
\<close>

unbundle bit_operations_syntax

section \<open>Credentials\<close>

definition zeroImageAuthConfig :: imageAuthConfig where
  "zeroImageAuthConfig = \<lparr>ia_Username = [], ia_Password = [], ia_Auth = [], ia_ServerAddress = [], ia_IdentityToken = [],
     ia_RegistryToken = [], ia_Email = []\<rparr>"

definition ImageAuthConfig_Size :: "imageAuthConfig \<Rightarrow> nat" where
  "ImageAuthConfig_Size m =
     sizeBytesField (ia_Username m) + sizeBytesField (ia_Password m) + sizeBytesField (ia_Auth m) + sizeBytesField (ia_ServerAddress m)
     + sizeBytesField (ia_IdentityToken m) + sizeBytesField (ia_RegistryToken m) + sizeBytesField (ia_Email m)"

definition ImageAuthConfig_MarshalToSizedBuffer :: "imageAuthConfig \<Rightarrow> sizedBuffer \<Rightarrow> sizedBuffer option" where
  "ImageAuthConfig_MarshalToSizedBuffer m st =
     Option.bind (putBytesField 0x3a (ia_Email m) st) (\<lambda>st.
     Option.bind (putBytesField 0x32 (ia_RegistryToken m) st) (\<lambda>st.
     Option.bind (putBytesField 0x2a (ia_IdentityToken m) st) (\<lambda>st.
     Option.bind (putBytesField 0x22 (ia_ServerAddress m) st) (\<lambda>st.
     Option.bind (putBytesField 0x1a (ia_Auth m) st) (\<lambda>st.
     Option.bind (putBytesField 0x12 (ia_Password m) st) (\<lambda>st.
     putBytesField 0xa (ia_Username m) st))))))"

definition imageAuthConfigFields :: "int \<Rightarrow> imageAuthConfig field option" where
  "imageAuthConfigFields n =
     (if n = 1 then Some (BytesField ''Username'' (\<lambda>s m. m\<lparr>ia_Username := s\<rparr>))
      else if n = 2 then Some (BytesField ''Password'' (\<lambda>s m. m\<lparr>ia_Password := s\<rparr>))
      else if n = 3 then Some (BytesField ''Auth'' (\<lambda>s m. m\<lparr>ia_Auth := s\<rparr>))
      else if n = 4 then Some (BytesField ''ServerAddress'' (\<lambda>s m. m\<lparr>ia_ServerAddress := s\<rparr>))
      else if n = 5 then Some (BytesField ''IdentityToken'' (\<lambda>s m. m\<lparr>ia_IdentityToken := s\<rparr>))
      else if n = 6 then Some (BytesField ''RegistryToken'' (\<lambda>s m. m\<lparr>ia_RegistryToken := s\<rparr>))
      else if n = 7 then Some (BytesField ''Email'' (\<lambda>s m. m\<lparr>ia_Email := s\<rparr>))
      else None)"

text \<open>Reading into credentials that are there already.\<close>

definition ImageAuthConfig_Unmarshal :: "imageAuthConfig \<Rightarrow> string \<Rightarrow> imageAuthConfig outcome" where
  "ImageAuthConfig_Unmarshal m dAtA = unmarshal ''ImageAuthConfig'' imageAuthConfigFields m dAtA"

definition imageAuthConfigParts :: "imageAuthConfig \<Rightarrow> part list" where
  "imageAuthConfigParts m = [BytesPart 0xa (ia_Username m), BytesPart 0x12 (ia_Password m), BytesPart 0x1a (ia_Auth m),
     BytesPart 0x22 (ia_ServerAddress m), BytesPart 0x2a (ia_IdentityToken m), BytesPart 0x32 (ia_RegistryToken m),
     BytesPart 0x3a (ia_Email m)]"

interpretation imageAuthConfig: wire_message "''ImageAuthConfig''" imageAuthConfigFields zeroImageAuthConfig imageAuthConfigParts
    ImageAuthConfig_Size ImageAuthConfig_MarshalToSizedBuffer
proof
  fix m st
  show "ImageAuthConfig_MarshalToSizedBuffer m st = fold (\<lambda>p r. Option.bind r (putPart p)) (rev (imageAuthConfigParts m)) (Some st)"
    by (simp add: ImageAuthConfig_MarshalToSizedBuffer_def imageAuthConfigParts_def)
  show "ImageAuthConfig_Size m = sum_list (map sizePart (imageAuthConfigParts m))"
    by (simp add: ImageAuthConfig_Size_def imageAuthConfigParts_def)
  show "list_all (partFits imageAuthConfigFields) (imageAuthConfigParts m)"
    by (simp add: imageAuthConfigParts_def imageAuthConfigFields_def payload_simps)
  show "fold (applyPart imageAuthConfigFields) (imageAuthConfigParts m) zeroImageAuthConfig = m"
    by (simp add: imageAuthConfigParts_def imageAuthConfigFields_def zeroImageAuthConfig_def payload_simps)
qed

definition imageAuthConfigBytes :: "imageAuthConfig \<Rightarrow> string" where
  "imageAuthConfigBytes m = concat (map encPart (imageAuthConfigParts m))"

lemma imageAuthConfig_bytes:
  "emits (ImageAuthConfig_MarshalToSizedBuffer m) (imageAuthConfigBytes m)"
  "length (imageAuthConfigBytes m) = ImageAuthConfig_Size m"
  "length (imageAuthConfigBytes m) < 2 ^ 63 \<Longrightarrow>
    ImageAuthConfig_Unmarshal m0 (imageAuthConfigBytes m) = Ok (fold (applyPart imageAuthConfigFields) (imageAuthConfigParts m) m0)"
  "fold (applyPart imageAuthConfigFields) (imageAuthConfigParts m) zeroImageAuthConfig = m"
  using imageAuthConfig.writes_bytes [of m] imageAuthConfig.size_bytes [of m] unmarshal_parts [OF imageAuthConfig.parts_fit [of m]]
    imageAuthConfig.parts_rebuild [of m]
  by (simp_all add: imageAuthConfigBytes_def ImageAuthConfig_Unmarshal_def)

section \<open>The specification of a pull\<close>

definition zeroImagePullSpec :: imagePullSpec where
  "zeroImagePullSpec = \<lparr>ip_AuthConfig = None, ip_PullPolicy = 0\<rparr>"

definition ImagePullSpec_Size :: "imagePullSpec \<Rightarrow> nat" where
  "ImagePullSpec_Size m =
     (case ip_AuthConfig m of None \<Rightarrow> 0 | Some au \<Rightarrow> sizeItem (ImageAuthConfig_Size au)) + sizeVarintField (int32 (ip_PullPolicy m))"

definition ImagePullSpec_MarshalToSizedBuffer :: "imagePullSpec \<Rightarrow> sizedBuffer \<Rightarrow> sizedBuffer option" where
  "ImagePullSpec_MarshalToSizedBuffer m st =
     Option.bind (putVarintField 0x10 (int32 (ip_PullPolicy m)) st) (\<lambda>st.
     case ip_AuthConfig m of None \<Rightarrow> Some st | Some au \<Rightarrow> putMessage 0xa (ImageAuthConfig_MarshalToSizedBuffer au) st)"

text \<open>The credentials of the message, or new ones, are read into.\<close>

definition readAuthConfig :: "string \<Rightarrow> nat \<Rightarrow> nat \<Rightarrow> imagePullSpec \<Rightarrow> imagePullSpec outcome" where
  "readAuthConfig dAtA i j m =
     (let au = (case ip_AuthConfig m of None \<Rightarrow> zeroImageAuthConfig | Some au \<Rightarrow> au) in
      map_outcome (\<lambda>au. m\<lparr>ip_AuthConfig := Some au\<rparr>) (ImageAuthConfig_Unmarshal au (sliceOf dAtA i j)))"

definition imagePullSpecFields :: "int \<Rightarrow> imagePullSpec field option" where
  "imagePullSpecFields n =
     (if n = 1 then Some (SubField ''AuthConfig'' readAuthConfig)
      else if n = 2 then Some (Int32Field ''PullPolicy'' (\<lambda>v m. m\<lparr>ip_PullPolicy := sint v\<rparr>))
      else None)"

definition ImagePullSpec_Unmarshal :: "string \<Rightarrow> imagePullSpec outcome" where
  "ImagePullSpec_Unmarshal dAtA = unmarshal ''ImagePullSpec'' imagePullSpecFields zeroImagePullSpec dAtA"

definition imagePullSpecParts :: "imagePullSpec \<Rightarrow> part list" where
  "imagePullSpecParts m =
     (case ip_AuthConfig m of None \<Rightarrow> [] | Some au \<Rightarrow> [ItemPart 0xa (imageAuthConfigBytes au)])
     @ [VarintPart 0x10 (int32 (ip_PullPolicy m))]"

definition wfImagePullSpec :: "imagePullSpec \<Rightarrow> bool" where
  "wfImagePullSpec m \<longleftrightarrow> inInt32 (ip_PullPolicy m)"

lemma readAuthConfig_fits:
  assumes "length (imageAuthConfigBytes au) < 2 ^ 63"
  shows "subFits readAuthConfig (imageAuthConfigBytes au)"
    and "ip_AuthConfig m = None \<Longrightarrow>
      readAuthConfig (imageAuthConfigBytes au) 0 (length (imageAuthConfigBytes au)) m = Ok (m\<lparr>ip_AuthConfig := Some au\<rparr>)"
  using imageAuthConfig_bytes(3) [OF assms] imageAuthConfig_bytes(4) [of au] sliceOf_middle [of "[]" "imageAuthConfigBytes au" "[]"]
  by (simp_all add: readAuthConfig_def subFits_def Let_def)

interpretation imagePullSpec: encoded_message "''ImagePullSpec''" imagePullSpecFields zeroImagePullSpec wfImagePullSpec
    "\<lambda>m. m" imagePullSpecParts ImagePullSpec_Size ImagePullSpec_MarshalToSizedBuffer
proof
  fix m :: imagePullSpec
  let ?policy = "VarintPart 0x10 (int32 (ip_PullPolicy m))"
  have policy: "emits (putVarintField 0x10 (int32 (ip_PullPolicy m))) (encPart ?policy)"
    using putPart_emits [of ?policy] by simp
  show "emits (ImagePullSpec_MarshalToSizedBuffer m) (concat (map encPart (imagePullSpecParts m)))"
  proof (cases "ip_AuthConfig m")
    case None
    with policy show ?thesis by (simp add: ImagePullSpec_MarshalToSizedBuffer_def [abs_def] imagePullSpecParts_def del: encPart.simps)
  next
    case (Some au)
    with emits_andThen [OF policy putMessage_emits [OF imageAuthConfig_bytes(1)]] show ?thesis
      by (simp add: ImagePullSpec_MarshalToSizedBuffer_def [abs_def] imagePullSpecParts_def del: encPart.simps)
  qed
  show s: "ImagePullSpec_Size m = length (concat (map encPart (imagePullSpecParts m)))"
    by (cases "ip_AuthConfig m")
       (simp_all add: ImagePullSpec_Size_def imagePullSpecParts_def length_encPart imageAuthConfig_bytes(2) del: encPart.simps)
  assume "wfImagePullSpec m" and sz: "ImagePullSpec_Size m < 2 ^ 63"
  then have i: "inInt32 (ip_PullPolicy m)" by (simp add: wfImagePullSpec_def)
  have l: "length (imageAuthConfigBytes au) < 2 ^ 63" if "ip_AuthConfig m = Some au" for au
    using that sz by (simp add: ImagePullSpec_Size_def sizeItem_def imageAuthConfig_bytes(2))
  show "list_all (partFits imagePullSpecFields) (imagePullSpecParts m)"
    using readAuthConfig_fits(1) [OF l]
    by (simp add: imagePullSpecParts_def imagePullSpecFields_def payload_simps split: option.split)
  show "fold (applyPart imagePullSpecFields) (imagePullSpecParts m) zeroImagePullSpec = m"
  proof (cases "ip_AuthConfig m")
    case None
    then show ?thesis using i
      by (simp add: imagePullSpecParts_def imagePullSpecFields_def zeroImagePullSpec_def payload_simps)
  next
    case (Some au)
    have "applyPart imagePullSpecFields (ItemPart 0xa (imageAuthConfigBytes au)) zeroImagePullSpec
        = zeroImagePullSpec\<lparr>ip_AuthConfig := Some au\<rparr>"
      using readAuthConfig_fits(2) [OF l [OF Some], of zeroImagePullSpec]
      by (simp add: applyPart.simps imagePullSpecFields_def zeroImagePullSpec_def payload_simps)
    then show ?thesis using Some i
      by (simp add: imagePullSpecParts_def) (simp add: imagePullSpecFields_def zeroImagePullSpec_def payload_simps)
  qed
qed

definition imagePullSpecBytes :: "imagePullSpec \<Rightarrow> string" where
  "imagePullSpecBytes m = concat (map encPart (imagePullSpecParts m))"

lemma imagePullSpec_bytes:
  assumes "wfImagePullSpec m"
  shows "emits (ImagePullSpec_MarshalToSizedBuffer m) (imagePullSpecBytes m)"
    and "length (imagePullSpecBytes m) = ImagePullSpec_Size m"
    and "length (imagePullSpecBytes m) < 2 ^ 63 \<Longrightarrow> ImagePullSpec_Unmarshal (imagePullSpecBytes m) = Ok m"
  using imagePullSpec.writes_bytes [OF assms] imagePullSpec.size_bytes [OF assms] imagePullSpec.unmarshal_bytes [OF assms]
  by (simp_all add: imagePullSpecBytes_def ImagePullSpec_Unmarshal_def)

section \<open>The command\<close>

definition ImageEnsureCmd_Size :: "imageEnsureCmd \<Rightarrow> nat" where
  "ImageEnsureCmd_Size m =
     sum_list (map (\<lambda>(k, v).
       let l = (case v of None \<Rightarrow> 0 | Some spec \<Rightarrow> let l = ImagePullSpec_Size spec in l + 1 + sovRuntime (of_nat l));
           mapEntrySize = 1 + length k + sovRuntime (of_nat (length k)) + l
       in mapEntrySize + 1 + sovRuntime (of_nat mapEntrySize)) (ie_Images m))"

definition putPullSpec :: "imagePullSpec option \<Rightarrow> sizedBuffer \<Rightarrow> sizedBuffer option" where
  "putPullSpec v = (case v of None \<Rightarrow> Some | Some spec \<Rightarrow> putMessage 0x12 (ImagePullSpec_MarshalToSizedBuffer spec))"

definition ImageEnsureCmd_MarshalToSizedBuffer :: "imageEnsureCmd \<Rightarrow> sizedBuffer \<Rightarrow> sizedBuffer option" where
  "ImageEnsureCmd_MarshalToSizedBuffer m = putAll (\<lambda>(k, v). putEntry 0xa (putPullSpec v) k) (ie_Images m)"

definition ImageEnsureCmd_Marshal :: "imageEnsureCmd \<Rightarrow> string option" where
  "ImageEnsureCmd_Marshal m = marshalWith (ImageEnsureCmd_Size m) (ImageEnsureCmd_MarshalToSizedBuffer m)"

definition imageEnsureFields :: "int \<Rightarrow> imageEnsureCmd field option" where
  "imageEnsureFields n =
     (if n = 1 then Some (MapField ''Images'' (\<lambda>s. map_outcome Some (ImagePullSpec_Unmarshal s)) None
        (\<lambda>k v m. m\<lparr>ie_Images := gm_put k v (ie_Images m)\<rparr>))
      else None)"

definition ImageEnsureCmd_Unmarshal :: "string \<Rightarrow> imageEnsureCmd outcome" where
  "ImageEnsureCmd_Unmarshal dAtA = unmarshal ''ImageEnsureCmd'' imageEnsureFields \<lparr>ie_Images = []\<rparr> dAtA"

definition pullSpecPart :: "imagePullSpec option \<Rightarrow> string" where
  "pullSpecPart v = (case v of None \<Rightarrow> [] | Some spec \<Rightarrow> encPart (ItemPart 0x12 (imagePullSpecBytes spec)))"

definition imageEntryPart :: "string \<times> imagePullSpec option \<Rightarrow> part" where
  "imageEntryPart e = ItemPart 0xa (encPart (ItemPart 0xa (fst e)) @ pullSpecPart (snd e))"

definition imageEnsureParts :: "imageEnsureCmd \<Rightarrow> part list" where
  "imageEnsureParts m = map imageEntryPart (rev (ie_Images m))"

definition wfImageEnsure :: "imageEnsureCmd \<Rightarrow> bool" where
  "wfImageEnsure m \<longleftrightarrow> gm_wf (ie_Images m) \<and> list_all (\<lambda>(k, v). pred_option wfImagePullSpec v) (ie_Images m)"

definition imageEnsureView :: "imageEnsureCmd \<Rightarrow> imageEnsureCmd" where
  "imageEnsureView m = \<lparr>ie_Images = rev (ie_Images m)\<rparr>"

text \<open>An entry with a key and nothing else.\<close>

lemma mapEntry_key:
  assumes "s = encPart (ItemPart 0xa k)" and "length (pre @ s @ rest) < 2 ^ 63"
  shows "mapEntryLoop readValue (pre @ s @ rest) (length pre + length s) k0 v0 (length pre) = Ok (k, v0)"
proof -
  have "tagNum 0xa = 1" "(0xa :: 8 word) < 128" by (simp_all add: tagNum_def drop_bit_eq_div)
  then have "mapEntryLoop readValue (pre @ s @ rest) (length pre + length s) k0 v0 (length pre)
      = mapEntryLoop readValue (pre @ s @ rest) (length pre + length s) k v0 (length pre + length s)"
    using mapEntry_field [of pre "length pre + length s" "0xa" k rest k v0 v0 k0 readValue] assms by simp
  also have "\<dots> = Ok (k, v0)" by (subst mapEntryLoop.simps) simp
  finally show ?thesis .
qed

lemma imageEntry_fits:
  assumes "pred_option wfImagePullSpec v" and "length (encPart (imageEntryPart (k, v))) < 2 ^ 63"
  shows "partFits imageEnsureFields (imageEntryPart (k, v))"
    and "applyPart imageEnsureFields (imageEntryPart (k, v)) m = m\<lparr>ie_Images := gm_put k v (ie_Images m)\<rparr>"
proof -
  let ?read = "\<lambda>s. map_outcome Some (ImagePullSpec_Unmarshal s)" and ?s = "encPart (ItemPart 0xa k) @ pullSpecPart v"
  have e: "mapEntryLoop ?read (pre @ ?s @ rest) (length pre + length ?s) [] None (length pre) = Ok (k, v)"
    if l: "length (pre @ ?s @ rest) < 2 ^ 63" for pre rest
  proof (cases v)
    case None
    then show ?thesis using mapEntry_key [of ?s k pre rest] l by (simp add: pullSpecPart_def del: encPart.simps)
  next
    case (Some spec)
    then have "length (imagePullSpecBytes spec) < 2 ^ 63" using l by (simp add: pullSpecPart_def)
    then have "?read (imagePullSpecBytes spec) = Ok (Some spec)" using assms(1) Some imagePullSpec_bytes(3) by simp
    with mapEntry_encoded [of ?s k "imagePullSpecBytes spec" ?read "Some spec" pre rest] l Some show ?thesis
      by (simp add: pullSpecPart_def del: encPart.simps)
  qed
  have "length ?s < 2 ^ 63" using assms(2) by (simp add: imageEntryPart_def)
  with e [of "[]" "[]"] e
  show "partFits imageEnsureFields (imageEntryPart (k, v))"
    "applyPart imageEnsureFields (imageEntryPart (k, v)) m = m\<lparr>ie_Images := gm_put k v (ie_Images m)\<rparr>"
    by (simp_all add: imageEntryPart_def imageEnsureFields_def MapField_def subFits_def applyPart.simps payload_simps del: encPart.simps)
qed

lemma fold_images:
  "fold (\<lambda>(k, v) m. m\<lparr>ie_Images := gm_put k v (ie_Images m)\<rparr>) xs m = m\<lparr>ie_Images := fold (\<lambda>(k, v). gm_put k v) xs (ie_Images m)\<rparr>"
  by (induction xs arbitrary: m) auto

interpretation imageEnsure: encoded_message "''ImageEnsureCmd''" imageEnsureFields "\<lparr>ie_Images = []\<rparr>" wfImageEnsure imageEnsureView
    imageEnsureParts ImageEnsureCmd_Size ImageEnsureCmd_MarshalToSizedBuffer
proof
  fix m :: imageEnsureCmd
  assume w: "wfImageEnsure m"
  then have d: "distinct (map fst (rev (ie_Images m)))" by (simp add: wfImageEnsure_def gm_wf_def rev_map [symmetric])
  have wf: "pred_option wfImagePullSpec v" if "(k, v) \<in> set (ie_Images m)" for k v
    using w that by (auto simp: wfImageEnsure_def list_all_iff)
  have put: "emits (case e of (k, v) \<Rightarrow> putEntry 0xa (putPullSpec v) k) (encPart (imageEntryPart e))" if "e \<in> set (ie_Images m)" for e
  proof (cases e)
    case (Pair k v)
    have "emits (putPullSpec v) (pullSpecPart v)"
      using wf [of k v] that Pair emits_nothing putMessage_emits [OF imagePullSpec_bytes(1)]
      by (cases v) (simp_all add: putPullSpec_def pullSpecPart_def del: encPart.simps)
    from putEntry_emits [OF this] Pair show ?thesis by (simp add: imageEntryPart_def del: encPart.simps)
  qed
  from putAll_emits [OF put] show "emits (ImageEnsureCmd_MarshalToSizedBuffer m) (concat (map encPart (imageEnsureParts m)))"
    by (simp add: ImageEnsureCmd_MarshalToSizedBuffer_def imageEnsureParts_def o_def del: encPart.simps)
  show s: "ImageEnsureCmd_Size m = length (concat (map encPart (imageEnsureParts m)))"
  proof -
    have "length (concat (map encPart (imageEnsureParts m))) = sum_list (map (\<lambda>e. sizePart (imageEntryPart e)) (ie_Images m))"
      by (simp add: imageEnsureParts_def length_concat o_def length_encPart rev_map [symmetric] del: encPart.simps)
    also have "\<dots> = ImageEnsureCmd_Size m" unfolding ImageEnsureCmd_Size_def
    proof (intro arg_cong [where f = sum_list] map_cong refl)
      fix e
      assume "e \<in> set (ie_Images m)"
      moreover obtain k v where "e = (k, v)" by (cases e)
      ultimately have "e = (k, v)" "pred_option wfImagePullSpec v" using wf by auto
      then show "sizePart (imageEntryPart e) = (case e of (k, v) \<Rightarrow>
          let l = (case v of None \<Rightarrow> 0 | Some spec \<Rightarrow> let l = ImagePullSpec_Size spec in l + 1 + sovRuntime (of_nat l));
              mapEntrySize = 1 + length k + sovRuntime (of_nat (length k)) + l
          in mapEntrySize + 1 + sovRuntime (of_nat mapEntrySize))"
        by (cases v)
           (simp_all add: imageEntryPart_def pullSpecPart_def sizeItem_def Let_def algebra_simps length_encVarint imagePullSpec_bytes(2))
    qed
    finally show ?thesis ..
  qed
  assume "ImageEnsureCmd_Size m < 2 ^ 63"
  then have le: "length (encPart (imageEntryPart e)) < 2 ^ 63" if "e \<in> set (ie_Images m)" for e
    using that length_part_le [of "imageEntryPart e" "imageEnsureParts m"] s by (auto simp: imageEnsureParts_def simp del: encPart.simps)
  note fits = imageEntry_fits [OF wf le]
  show "list_all (partFits imageEnsureFields) (imageEnsureParts m)"
    using fits(1) by (auto simp: imageEnsureParts_def list_all_iff)
  have "fold (applyPart imageEnsureFields) (imageEnsureParts m) r
      = fold (\<lambda>(k, v) m. m\<lparr>ie_Images := gm_put k v (ie_Images m)\<rparr>) (rev (ie_Images m)) r" for r
    unfolding imageEnsureParts_def fold_map using fits(2) by (intro fold_cong) auto
  then show "fold (applyPart imageEnsureFields) (imageEnsureParts m) \<lparr>ie_Images = []\<rparr> = imageEnsureView m"
    using fold_gm_put [of "rev (ie_Images m)" "[]" "\<lambda>v. v"] d
    by (simp add: fold_images imageEnsureView_def)
qed

text \<open>The maps that are read have distinct keys, as the fields only ever put entries.\<close>

lemma images_read_wf:
  assumes "ImageEnsureCmd_Unmarshal dAtA = Ok m"
  shows "gm_wf (ie_Images m)"
  using assms unfolding ImageEnsureCmd_Unmarshal_def
proof (rule unmarshal_inv [where P = "\<lambda>m. gm_wf (ie_Images m)"])
  fix n f
  assume "imageEnsureFields n = Some f"
  then show "keepsField (\<lambda>m. gm_wf (ie_Images m)) f"
    by (auto simp: imageEnsureFields_def keepsField_def MapField_def gm.wf_put split: if_splits outcome.splits)
qed simp

section \<open>The property\<close>

text \<open>The command that ensures images survives the wire: what the hub marshals fills its buffer exactly and is read back with the same
  specification for every image, credentials included, whatever the order in which the map was written; an entry with a
  nil specification is read back as one.\<close>

theorem image_ensure_roundtrip:
  assumes "wfImageEnsure m" and "ImageEnsureCmd_Size m < 2 ^ 63"
  shows "\<exists>dAtA m'. ImageEnsureCmd_Marshal m = Some dAtA \<and> length dAtA = ImageEnsureCmd_Size m
    \<and> ImageEnsureCmd_Unmarshal dAtA = Ok m' \<and> map_of (ie_Images m') = map_of (ie_Images m)"
  using imageEnsure.marshal_view [OF assms] map_of_rev [of "ie_Images m"] assms(1)
  by (auto simp: ImageEnsureCmd_Marshal_def ImageEnsureCmd_Unmarshal_def imageEnsureView_def wfImageEnsure_def gm_wf_def)

definition exampleEnsure :: imageEnsureCmd where
  "exampleEnsure = \<lparr>ie_Images = [(''n'', Some \<lparr>ip_AuthConfig = Some (zeroImageAuthConfig\<lparr>ia_Username := ''u''\<rparr>), ip_PullPolicy = 1\<rparr>), ([], None)]\<rparr>"

theorem image_ensure_roundtrip_witness:
  "\<exists>dAtA m'. ImageEnsureCmd_Marshal exampleEnsure = Some dAtA \<and> length dAtA = 18 \<and> ImageEnsureCmd_Unmarshal dAtA = Ok m'
    \<and> map_of (ie_Images m') [] = Some None"
proof -
  have wf: "wfImageEnsure exampleEnsure"
    by (simp add: exampleEnsure_def wfImageEnsure_def wfImagePullSpec_def gm_wf_def inInt32_def)
  have sz: "ImageEnsureCmd_Size exampleEnsure = 18" by code_simp
  have "ImageEnsureCmd_Size exampleEnsure < 2 ^ 63" by (simp add: sz)
  from image_ensure_roundtrip [OF wf this] sz show ?thesis by (fastforce simp: exampleEnsure_def)
qed

end
