(* ===== verification/Wire.thy ===== *)
theory Wire
  imports Handler ImageCmds
begin

text \<open>
  The handler on the wire: the handler of \<^verbatim>\<open>libext/extruntime\<close> with the generated encoding of packets, errors, answers and of the
  commands but for those that ensure or delete pods, whose decoders are arguments. What the hub marshals as a packet is dispatched by its kind, and the answer
  that is sent unmarshals to the packet the handler of the command gave.
\<close>

text \<open>The results of \<^verbatim>\<open>Marshal\<close>, which dereferences nil when it panics. For packets and errors it never does, so the first case of
  \<open>marshalled\<close> does not arise.\<close>

definition encoded :: "string option \<Rightarrow> string outcome" where
  "encoded r = (case r of None \<Rightarrow> Panic ''nil pointer dereference'' | Some dAtA \<Rightarrow> Ok dAtA)"

definition marshalled :: "string option \<Rightarrow> goerr + string" where
  "marshalled r = (case r of None \<Rightarrow> Inl (ErrNew ''panic'') | Some dAtA \<Rightarrow> Inr dAtA)"

definition generatedWire :: "wire \<Rightarrow> wire" where
  "generatedWire wi = wi\<lparr>
     wi_Packet := (\<lambda>dAtA. map_outcome (\<lambda>m. (sint (pk_Kind m), pk_Payload m)) (Packet_Unmarshal dAtA)),
     wi_PodListCmd := PodListCmd_Unmarshal, wi_ImageEnsureCmd := ImageEnsureCmd_Unmarshal,
     wi_ImageListCmd := (\<lambda>dAtA. map_outcome (\<lambda>_. ()) (ImageListCmd_Unmarshal dAtA)),
     wi_ImageDeleteCmd := (\<lambda>dAtA. map_outcome (\<lambda>_. ()) (ImageDeleteCmd_Unmarshal dAtA)),
     wi_ExecOrAttachCmd := ExecOrAttachCmd_Unmarshal, wi_LogsCmd := LogsCmd_Unmarshal, wi_PortForwardCmd := PortForwardCmd_Unmarshal,
     wi_TerminalResizeCmd := (\<lambda>dAtA. map_outcome (\<lambda>m. (tr_Cols m, tr_Rows m)) (TerminalResizeCmd_Unmarshal dAtA)),
     wi_encPacket := (\<lambda>kind payload. marshalled (Packet_Marshal \<lparr>pk_Kind = word_of_int kind, pk_Payload = payload\<rparr>)),
     wi_encPodStatus := (\<lambda>m. encoded (PodStatusMsg_Marshal m)),
     wi_encPodStatusList := (\<lambda>pods. encoded (PodStatusListMsg_Marshal pods)),
     wi_encImageStatusList := (\<lambda>images. encoded (ImageStatusListMsg_Marshal images)),
     wi_encRuntimeInfo := (\<lambda>info. encoded (RuntimeInfo_Marshal info)),
     wi_encErrorMsg := (\<lambda>(description, code).
       marshalled (ErrorMsg_Marshal \<lparr>em_Kind = ERR_COMMON, em_Description = description, em_Code = word_of_int code\<rparr>))\<rparr>"

lemma Packet_Marshal_bytes:
  "\<exists>dAtA. Packet_Marshal m = Some dAtA \<and> length dAtA = Packet_Size m \<and> (length dAtA < 2 ^ 63 \<longrightarrow> Packet_Unmarshal dAtA = Ok m)"
  using packet.marshal_unmarshal [of m] packet.marshal_total [of m]
  by (auto simp: Packet_Marshal_def Packet_Unmarshal_def)

lemma ErrorMsg_Marshal_bytes:
  "\<exists>dAtA. ErrorMsg_Marshal m = Some dAtA \<and> length dAtA = ErrorMsg_Size m
    \<and> (em_Kind m = ERR_COMMON \<and> length dAtA < 2 ^ 63 \<longrightarrow> Packet_Unmarshal dAtA = Ok \<lparr>pk_Kind = 0, pk_Payload = em_Description m\<rparr>)"
proof -
  have "list_all (partFits packetFields) (errorMsgParts m)"
    by (simp add: errorMsgParts_def packetFields_def message_simps)
  from errorMsg.marshal_read_as [OF TrueI _ this, of "''Packet''" zeroPacket] errorMsg.marshal_total [of m]
  show ?thesis
    by (auto simp: ErrorMsg_Marshal_def Packet_Unmarshal_def errorMsgParts_def packetFields_def zeroPacket_def
        ERR_COMMON_def applyPart.simps tags)
qed

text \<open>A packet of the hub starts the function of its kind.\<close>

lemma packet_dispatched:
  assumes "he_wire env = generatedWire wi" and "Packet_Size pkt < 2 ^ 63" and "Packet_Marshal pkt = Some bytes"
    and "map_of (funcMap env sid (pk_Payload pkt)) (sint (pk_Kind pkt)) = Some handle"
  shows "HandleCmd env sid seq CMD_RUNTIME_ARANYA_PROTO (Some bytes) hw = (Ok (Some (answerCmd env sid seq handle)), hw)"
proof -
  have "Packet_Unmarshal bytes = Ok pkt" using Packet_Marshal_bytes [of pkt] assms(2,3) by auto
  then have "wi_Packet (he_wire env) bytes = Ok (sint (pk_Kind pkt), pk_Payload pkt)" by (simp add: assms(1) generatedWire_def)
  from HandleCmd_runtime [OF this] assms(4) show ?thesis by simp
qed

text \<open>The answer of a function is sent as a packet.\<close>

lemma answer_packet_sent:
  assumes "he_wire env = generatedWire wi" and "hw_sendFunc hw = Some f" and "answering handle"
    and "handle hw = (Ok (Some (kind, payload)), hw1)"
  shows "\<exists>data. answerCmd env sid seq handle hw = (Ok (), hw1\<lparr>hw_sent := hw_sent hw @
        [\<lparr>m_Kind = MSG_RUNTIME_ARANYA_PROTO, m_Id = sid, m_Ack = seq, m_Payload = Some data\<rparr>]\<rparr>)
    \<and> length payload \<le> length data
    \<and> (length data < 2 ^ 63 \<longrightarrow> Packet_Unmarshal data = Ok \<lparr>pk_Kind = word_of_int kind, pk_Payload = payload\<rparr>)"
proof -
  have "length payload \<le> Packet_Size \<lparr>pk_Kind = word_of_int kind, pk_Payload = payload\<rparr>"
    by (simp add: Packet_Size_def sizeBytesField_def Let_def)
  moreover have "hw_sent hw1 = hw_sent hw" "hw_sendFunc hw1 = Some f"
    using keepsD [OF answering.handle_quiet [OF assms(3)] assms(4)] assms(2) by (simp_all add: sameMsgs_def)
  ultimately show ?thesis using assms(1,4) Packet_Marshal_bytes [of "\<lparr>pk_Kind = word_of_int kind, pk_Payload = payload\<rparr>"]
    by (auto simp: answerCmd_def andThen_def attempt_def ignore_def SendMsg_def generatedWire_def marshalled_def split: option.splits)
qed

text \<open>The packet an answer stands for.\<close>

definition answerPacket :: "(int \<times> string) option outcome \<Rightarrow> packet" where
  "answerPacket r =
     (case r of
        Ok (Some (kind, payload)) \<Rightarrow> \<lparr>pk_Kind = word_of_int kind, pk_Payload = payload\<rparr>
      | Err e \<Rightarrow> \<lparr>pk_Kind = 0, pk_Payload = err_Error e\<rparr>
      | _ \<Rightarrow> zeroPacket)"

text \<open>C9: A command and its answer survive the wire. When the hub marshals a packet with a command that
  has an answer, the handler runs the function of that command on the payload of the packet, and
  unless that panics, its goroutine sends one message, whose payload unmarshals to the packet the function gave; for
  an error it unmarshals, too, to a packet of no kind with the text of the error.\<close>

theorem answers_on_the_wire:
  assumes "he_wire env = generatedWire wi" and "Packet_Size pkt < 2 ^ 63" and "Packet_Marshal pkt = Some bytes"
    and "sint (pk_Kind pkt) \<in> set answeredKinds" and "hw_sendFunc hw = Some f"
    and "map_of (funcMap env sid (pk_Payload pkt)) (sint (pk_Kind pkt)) = Some handle"
    and "handle hw = (r, hw1)" and "\<And>s. r \<noteq> Panic s"
  shows "\<exists>g data. HandleCmd env sid seq CMD_RUNTIME_ARANYA_PROTO (Some bytes) hw = (Ok (Some g), hw)
    \<and> g hw = (Ok (), hw1\<lparr>hw_sent := hw_sent hw @
        [\<lparr>m_Kind = MSG_RUNTIME_ARANYA_PROTO, m_Id = sid, m_Ack = seq, m_Payload = Some data\<rparr>]\<rparr>)
    \<and> (length data < 2 ^ 63 \<longrightarrow> Packet_Unmarshal data = Ok (answerPacket r))"
proof -
  have g: "HandleCmd env sid seq CMD_RUNTIME_ARANYA_PROTO (Some bytes) hw = (Ok (Some (answerCmd env sid seq handle)), hw)"
    by (rule packet_dispatched [OF assms(1-3,6)])
  have a: "answering handle" using answered_handler [OF assms(4), of env sid "pk_Payload pkt"] assms(6) by auto
  show ?thesis
  proof (cases r)
    case (Ok res)
    with answering.handle_answers [OF a] assms(7) obtain kind payload where res: "res = Some (kind, payload)" by (cases res) auto
    from answer_packet_sent [OF assms(1,5) a, of kind payload hw1 sid seq] g Ok res assms(7) show ?thesis
      by (auto simp: answerPacket_def)
  next
    case (Err e)
    have "hw_sent hw1 = hw_sent hw" "hw_sendFunc hw1 = Some f"
      using keepsD [OF answering.handle_quiet [OF a] assms(7)] assms(5) by (simp_all add: sameMsgs_def)
    with Err g assms(1,7) ErrorMsg_Marshal_bytes [of "\<lparr>em_Kind = ERR_COMMON, em_Description = err_Error e, em_Code = 0\<rparr>"] show ?thesis
      by (auto simp: answerCmd_def andThen_def attempt_def ignore_def SendMsg_def errorPayload_def generatedWire_def marshalled_def
          answerPacket_def split: option.splits)
  next
    case (Panic s)
    with assms(8) show ?thesis by blast
  qed
qed

text \<open>C11: Listing pods over the wire: when the hub marshals a pod list command in a packet and the runtime lists the pods, the goroutine of the
  command sends one message, and what a receiver unmarshals from it, first the packet and then its payload, are the statuses
  the runtime gave, pod by pod.\<close>

theorem pod_list_on_the_wire:
  assumes "he_wire env = generatedWire wi" and "he_impl env = libpodEngine lp r errs" and "hw_sendFunc hw = Some f"
    and "PodListCmd_Marshal opts = Some cmd"
    and "Packet_Marshal \<lparr>pk_Kind = word_of_int CMD_POD_LIST, pk_Payload = cmd\<rparr> = Some bytes" and "length bytes < 2 ^ 63"
    and "ListPods lp r opts (hw_w hw) = (Ok pods, w')" and "list_all wfPodStatus pods"
  shows "\<exists>g data. HandleCmd env sid seq CMD_RUNTIME_ARANYA_PROTO (Some bytes) hw = (Ok (Some g), hw)
    \<and> g hw = (Ok (), hw\<lparr>hw_w := w', hw_sent := hw_sent hw @
        [\<lparr>m_Kind = MSG_RUNTIME_ARANYA_PROTO, m_Id = sid, m_Ack = seq, m_Payload = Some data\<rparr>]\<rparr>)
    \<and> (length data < 2 ^ 63 \<longrightarrow> (\<exists>answer. Packet_Unmarshal data = Ok \<lparr>pk_Kind = word_of_int MSG_POD_STATUS_LIST, pk_Payload = answer\<rparr>
         \<and> PodStatusListMsg_Unmarshal answer = Ok (map podStatusView pods)))"
proof -
  let ?pkt = "\<lparr>pk_Kind = word_of_int CMD_POD_LIST, pk_Payload = cmd\<rparr>" and ?handle = "handlePodList env cmd"
  have k: "sint (pk_Kind ?pkt) = CMD_POD_LIST" by (simp add: CMD_POD_LIST_def)
  have sz: "Packet_Size ?pkt < 2 ^ 63" using Packet_Marshal_bytes [of ?pkt] assms(5,6) by auto
  have "length cmd \<le> Packet_Size ?pkt" by (simp add: Packet_Size_def sizeBytesField_def Let_def)
  then have c: "PodListCmd_Unmarshal cmd = Ok opts" using podListCmd.marshal_view [of opts] podListCmd.marshal_bytes [of opts]
      podListCmd.size_bytes [of opts] sz assms(4)
    by (auto simp: PodListCmd_Marshal_def PodListCmd_Unmarshal_def)
  obtain answer where an: "PodStatusListMsg_Marshal pods = Some answer"
    and rd: "length answer < 2 ^ 63 \<Longrightarrow> PodStatusListMsg_Unmarshal answer = Ok (map podStatusView pods)"
    using podStatusList.marshal_bytes [OF assms(8)] podStatusList.size_bytes [OF assms(8)] podStatusList.unmarshal_bytes [OF assms(8)]
    by (simp add: PodStatusListMsg_Marshal_def PodStatusListMsg_Unmarshal_def)
  have h: "?handle hw = (Ok (Some (MSG_POD_STATUS_LIST, answer)), hw\<lparr>hw_w := w'\<rparr>)"
    using c an assms(1,2,7)
    by (simp add: handlePodList_def decoded_def andThen_def onEngine_def generatedWire_def encoded_def libpodEngine_def)
  have "map_of (funcMap env sid (pk_Payload ?pkt)) (sint (pk_Kind ?pkt)) = Some ?handle"
    unfolding k by (simp add: funcMap_def kind_defs)
  note g = packet_dispatched [OF assms(1) sz assms(5) this]
  obtain data where "answerCmd env sid seq ?handle hw = (Ok (), hw\<lparr>hw_w := w', hw_sent := hw_sent hw @
        [\<lparr>m_Kind = MSG_RUNTIME_ARANYA_PROTO, m_Id = sid, m_Ack = seq, m_Payload = Some data\<rparr>]\<rparr>)" "length answer \<le> length data"
    "length data < 2 ^ 63 \<longrightarrow> Packet_Unmarshal data = Ok \<lparr>pk_Kind = word_of_int MSG_POD_STATUS_LIST, pk_Payload = answer\<rparr>"
    using answer_packet_sent [OF assms(1,3) podList.answering_axioms h, of sid seq] by auto
  with g rd show ?thesis by fastforce
qed

text \<open>C10: A successful image command crashes the program. \<^verbatim>\<open>EnsureImages\<close> puts a nil entry in front of its answer for every image it
  ensured, and the pause image is always one; marshalling the answer dereferences that entry in the goroutine of the command, so
  whatever images the hub asks for, once they are all there the goroutine panics, and no answer is sent.\<close>

theorem image_ensure_panics:
  assumes "he_wire env = generatedWire wi" and "he_impl env = libpodEngine lp r errs"
    and "Packet_Marshal \<lparr>pk_Kind = word_of_int CMD_IMAGE_ENSURE, pk_Payload = cmd\<rparr> = Some bytes" and "length bytes < 2 ^ 63"
    and "ImageEnsureCmd_Unmarshal cmd = Ok options" and "EnsureImages lp r options (hw_w hw) = (Ok res, w')"
  shows "\<exists>g. HandleCmd env sid seq CMD_RUNTIME_ARANYA_PROTO (Some bytes) hw = (Ok (Some g), hw)
    \<and> g hw = (Panic ''nil pointer dereference'', hw\<lparr>hw_w := w'\<rparr>)"
proof -
  let ?pkt = "\<lparr>pk_Kind = word_of_int CMD_IMAGE_ENSURE, pk_Payload = cmd\<rparr>" and ?handle = "handleImageEnsure env cmd"
  have k: "sint (pk_Kind ?pkt) = CMD_IMAGE_ENSURE" by (simp add: CMD_IMAGE_ENSURE_def)
  have sz: "Packet_Size ?pkt < 2 ^ 63" using Packet_Marshal_bytes [of ?pkt] assms(3,4) by auto
  let ?n = "card (insert (rt_pauseImage r) (fst ` set (ie_Images options)))"
  have "0 < ?n" by (simp add: card_gt_0_iff)
  with ensure_images_nil_prefix [OF images_read_wf [OF assms(5)] assms(6)] have "None \<in> set res" by auto
  then have "ImageStatusListMsg_Marshal res = None" by (rule nil_image_panics)
  then have h: "?handle hw = (Panic ''nil pointer dereference'', hw\<lparr>hw_w := w'\<rparr>)"
    using assms(1,2,5,6)
    by (simp add: handleImageEnsure_def decoded_def andThen_def onEngine_def generatedWire_def encoded_def libpodEngine_def)
  have "map_of (funcMap env sid (pk_Payload ?pkt)) (sint (pk_Kind ?pkt)) = Some ?handle"
    unfolding k by (simp add: funcMap_def kind_defs)
  from packet_dispatched [OF assms(1) sz assms(3) this] h show ?thesis
    by (auto simp: answerCmd_def andThen_def attempt_def)
qed

text \<open>A request for information, in two bytes.\<close>

theorem answers_on_the_wire_witness:
  "\<exists>g data. HandleCmd (exampleEnv\<lparr>he_wire := generatedWire exampleWire\<rparr>) 5 9 CMD_RUNTIME_ARANYA_PROTO
      (Some [CHR 0x08, CHR 0x01]) exampleHw = (Ok (Some g), exampleHw)
    \<and> g exampleHw = (Ok (), exampleHw\<lparr>hw_sent :=
        [\<lparr>m_Kind = MSG_RUNTIME_ARANYA_PROTO, m_Id = 5, m_Ack = 9, m_Payload = Some data\<rparr>]\<rparr>)"
proof -
  let ?env = "exampleEnv\<lparr>he_wire := generatedWire exampleWire\<rparr>" and ?pkt = "\<lparr>pk_Kind = 1, pk_Payload = []\<rparr>"
  have w: "he_wire ?env = generatedWire exampleWire" by simp
  have "Packet_Size ?pkt = 2"
    by (simp add: Packet_Size_def sizeVarintField_def sizeBytesField_def encVarint_small flip: length_encVarint)
  then have sz: "Packet_Size ?pkt < 2 ^ 63" by simp
  have m: "Packet_Marshal ?pkt = Some [CHR 0x08, CHR 0x01]"
    by (simp add: Packet_Marshal_def packet.marshal_parts packetParts_def encVarint_small byteChar_def char_of_def bit_0)
  have k: "sint (pk_Kind ?pkt) \<in> set answeredKinds" by (simp add: answeredKinds_def CMD_GET_INFO_def)
  have h: "map_of (funcMap ?env 5 (pk_Payload ?pkt)) (sint (pk_Kind ?pkt)) = Some (handleGetInfo ?env)"
    by (simp add: funcMap_def kind_defs)
  obtain dAtA where "RuntimeInfo_Marshal (re_info (he_impl ?env)) = Some dAtA"
    using runtimeInfo.marshal_total by (auto simp: RuntimeInfo_Marshal_def)
  then have r: "handleGetInfo ?env exampleHw = (Ok (Some (MSG_RUNTIME_INFO, dAtA)), exampleHw)"
    by (simp add: handleGetInfo_def generatedWire_def encoded_def decoded_def andThen_def)
  from answers_on_the_wire [OF w sz m k exampleHw_send(1) h r, of 9] show ?thesis
    by (auto simp: exampleHw_send)
qed

text \<open>The pods of the example world, asked for with six bytes.\<close>

theorem pod_list_on_the_wire_witness:
  "\<exists>g data w' pods. ListPods goodEngine exampleRuntime \<lparr>pl_All = True, pl_Names = []\<rparr> exampleWorld = (Ok pods, w')
    \<and> ''u1'' \<in> set (map ps_Uid pods)
    \<and> HandleCmd (exampleEnv\<lparr>he_wire := generatedWire exampleWire\<rparr>) 5 9 CMD_RUNTIME_ARANYA_PROTO
      (Some [CHR 0x08, CHR 0x1F, CHR 0x12, CHR 0x02, CHR 0x08, CHR 0x01]) (exampleHw\<lparr>hw_w := exampleWorld\<rparr>) = (Ok (Some g), exampleHw\<lparr>hw_w := exampleWorld\<rparr>)
    \<and> g (exampleHw\<lparr>hw_w := exampleWorld\<rparr>) = (Ok (), exampleHw\<lparr>hw_w := w', hw_sent :=
        [\<lparr>m_Kind = MSG_RUNTIME_ARANYA_PROTO, m_Id = 5, m_Ack = 9, m_Payload = Some data\<rparr>]\<rparr>)"
proof -
  let ?env = "exampleEnv\<lparr>he_wire := generatedWire exampleWire\<rparr>" and ?opts = "\<lparr>pl_All = True, pl_Names = []\<rparr>"
  let ?r = "ListPods goodEngine exampleRuntime ?opts exampleWorld"
  let ?pods = "case fst ?r of Ok pods \<Rightarrow> pods | _ \<Rightarrow> []"
  have w: "he_wire ?env = generatedWire exampleWire" "he_impl ?env = libpodEngine goodEngine exampleRuntime (\<lambda>_. [])"
    by (simp_all add: exampleEnv_def)
  have c: "PodListCmd_Marshal ?opts = Some [CHR 0x08, CHR 0x01]" by code_simp
  have b: "Packet_Marshal \<lparr>pk_Kind = word_of_int CMD_POD_LIST, pk_Payload = [CHR 0x08, CHR 0x01]\<rparr>
      = Some [CHR 0x08, CHR 0x1F, CHR 0x12, CHR 0x02, CHR 0x08, CHR 0x01]" by code_simp
  have l: "length [CHR 0x08, CHR 0x1F, CHR 0x12, CHR 0x02, CHR 0x08, CHR 0x01] < 2 ^ 63" by simp
  have "?r = (Ok ?pods, snd ?r)" "''u1'' \<in> set (map ps_Uid ?pods)" "list_all wfPodStatus ?pods" by code_simp+
  then obtain pods w' where p: "?r = (Ok pods, w')" "''u1'' \<in> set (map ps_Uid pods)" "list_all wfPodStatus pods" by blast
  let ?hw = "exampleHw\<lparr>hw_w := exampleWorld\<rparr>"
  have hw: "hw_sendFunc ?hw = Some (\<lambda>_. None)" "hw_sent ?hw = []" by (simp_all add: exampleHw_send)
  have "ListPods goodEngine exampleRuntime ?opts (hw_w ?hw) = (Ok pods, w')" using p(1) by simp
  from pod_list_on_the_wire [OF w hw(1) c b l this p(3), of 5 9] obtain g data
    where "HandleCmd ?env 5 9 CMD_RUNTIME_ARANYA_PROTO (Some [CHR 0x08, CHR 0x1F, CHR 0x12, CHR 0x02, CHR 0x08, CHR 0x01]) ?hw = (Ok (Some g), ?hw)"
      and "g ?hw = (Ok (), ?hw\<lparr>hw_w := w', hw_sent := hw_sent ?hw @
        [\<lparr>m_Kind = MSG_RUNTIME_ARANYA_PROTO, m_Id = 5, m_Ack = 9, m_Payload = Some data\<rparr>]\<rparr>)"
    by blast
  with p hw show ?thesis by auto
qed

text \<open>The pause image alone.\<close>

theorem image_ensure_panics_witness:
  "\<exists>g hw'. HandleCmd (exampleEnv\<lparr>he_wire := generatedWire exampleWire\<rparr>) 5 9 CMD_RUNTIME_ARANYA_PROTO
      (Some [CHR 0x08, CHR 0x0C]) exampleHw = (Ok (Some g), exampleHw)
    \<and> g exampleHw = (Panic ''nil pointer dereference'', hw')"
proof -
  let ?env = "exampleEnv\<lparr>he_wire := generatedWire exampleWire\<rparr>"
  let ?r = "EnsureImages goodEngine exampleRuntime \<lparr>ie_Images = []\<rparr> (hw_w exampleHw)"
  have w: "he_wire ?env = generatedWire exampleWire" "he_impl ?env = libpodEngine goodEngine exampleRuntime (\<lambda>_. [])"
    by (simp_all add: exampleEnv_def)
  have b: "Packet_Marshal \<lparr>pk_Kind = word_of_int CMD_IMAGE_ENSURE, pk_Payload = []\<rparr> = Some [CHR 0x08, CHR 0x0C]" by code_simp
  have l: "length [CHR 0x08, CHR 0x0C] < 2 ^ 63" by simp
  have d: "ImageEnsureCmd_Unmarshal [] = Ok \<lparr>ie_Images = []\<rparr>" by code_simp
  let ?res = "case fst ?r of Ok res \<Rightarrow> res | _ \<Rightarrow> []"
  have e: "?r = (Ok ?res, snd ?r)" by code_simp
  from image_ensure_panics [OF w b l d e, of 5 9] show ?thesis by blast
qed

end
