(* ===== verification/Uploads.thy ===== *)
theory Uploads
  imports Handler Steps "HOL-Library.Multiset"
begin

text \<open>
  The output of a running command, \<^verbatim>\<open>libext/extruntime/handler_stream.go\<close>, step by step: one goroutine
  per output pipe (\<^verbatim>\<open>uploadDataOutput\<close>), all of them taking sequence numbers from one variable with
  \<^verbatim>\<open>nextSeq\<close>, a load and a loop of compare-and-swap. An event is a read of a pipe, an atomic operation or a call of
  \<^verbatim>\<open>SendMsg\<close>. Shown: whatever the interleaving, the messages are those of the
  sequential definition in \<open>Handler\<close>, and \<^verbatim>\<open>nextSeq\<close> returns.
\<close>

section \<open>The goroutines\<close>

text \<open>Where a goroutine is: waiting for data; with data, before the load of \<^verbatim>\<open>nextSeq\<close>; in the loop of \<^verbatim>\<open>nextSeq\<close>, with the
  value of \<^verbatim>\<open>seq\<close>; with a number, before \<^verbatim>\<open>SendMsg\<close>; ended.\<close>

datatype upPhase = UWait | ULoad string | UTry string "64 word" | USend string "64 word" | UDone

record upPipe =
  up_kind :: int
  up_phase :: upPhase
  up_reads :: "string list"

text \<open>The shared variable, the goroutines and the messages; \<^term>\<open>up_reads\<close> and \<open>up_taken\<close> record what each pipe gave and which
  data got a number, in the order of the numbers.\<close>

record upState =
  up_seq :: "64 word"
  up_pipes :: "upPipe list"
  up_taken :: "(int \<times> string) list"
  up_sent :: "msg list"

datatype upEvent = EvRead nat string | EvEnd nat | EvLoad nat | EvCas nat | EvSent nat bool

definition setPhase :: "nat \<Rightarrow> upPhase \<Rightarrow> upState \<Rightarrow> upState" where
  "setPhase i ph st = st\<lparr>up_pipes := (up_pipes st)[i := (up_pipes st ! i)\<lparr>up_phase := ph\<rparr>]\<rparr>"

definition nextSeq_load :: "nat \<Rightarrow> string \<Rightarrow> upState \<Rightarrow> upState" where
  "nextSeq_load i data st = setPhase i (UTry data (up_seq st)) st"

definition nextSeq_cas :: "nat \<Rightarrow> string \<Rightarrow> 64 word \<Rightarrow> upState \<Rightarrow> upState" where
  "nextSeq_cas i data seq st =
     (if up_seq st = seq
      then setPhase i (USend data seq) (st\<lparr>up_seq := seq + 1, up_taken := up_taken st @ [(up_kind (up_pipes st ! i), data)]\<rparr>)
      else setPhase i (UTry data (seq + 1)) st)"

definition outputMsg :: "64 word \<Rightarrow> int \<Rightarrow> 64 word \<Rightarrow> string \<Rightarrow> msg" where
  "outputMsg sid kind seq data = \<lparr>m_Kind = kind, m_Id = sid, m_Ack = seq, m_Payload = Some data\<rparr>"

fun upStep :: "64 word \<Rightarrow> upEvent \<Rightarrow> upState \<Rightarrow> upState option" where
  "upStep sid (EvRead i data) st =
     (if i < length (up_pipes st) \<and> up_phase (up_pipes st ! i) = UWait
      then Some (st\<lparr>up_pipes := (up_pipes st)[i := (up_pipes st ! i)\<lparr>up_phase := ULoad data,
                      up_reads := up_reads (up_pipes st ! i) @ [data]\<rparr>]\<rparr>)
      else None)"
| "upStep sid (EvEnd i) st =
     (if i < length (up_pipes st) \<and> up_phase (up_pipes st ! i) = UWait then Some (setPhase i UDone st) else None)"
| "upStep sid (EvLoad i) st =
     (if i < length (up_pipes st)
      then (case up_phase (up_pipes st ! i) of ULoad data \<Rightarrow> Some (nextSeq_load i data st) | _ \<Rightarrow> None) else None)"
| "upStep sid (EvCas i) st =
     (if i < length (up_pipes st)
      then (case up_phase (up_pipes st ! i) of UTry data seq \<Rightarrow> Some (nextSeq_cas i data seq st) | _ \<Rightarrow> None) else None)"
| "upStep sid (EvSent i ok) st =
     (if i < length (up_pipes st)
      then (case up_phase (up_pipes st ! i) of
              USend data seq \<Rightarrow> Some (setPhase i (if ok then UWait else UDone)
                (st\<lparr>up_sent := up_sent st @ [outputMsg sid (up_kind (up_pipes st ! i)) seq data]\<rparr>))
            | _ \<Rightarrow> None)
      else None)"

text \<open>\<^verbatim>\<open>createTerminalStream\<close>: a goroutine for every pipe in use.\<close>

definition createTerminalStream :: "bool \<Rightarrow> bool \<Rightarrow> upState" where
  "createTerminalStream useStdout useStderr =
     \<lparr>up_seq = 0,
      up_pipes = (if useStdout then [\<lparr>up_kind = MSG_DATA_OUTPUT, up_phase = UWait, up_reads = []\<rparr>] else [])
        @ (if useStderr then [\<lparr>up_kind = MSG_RUNTIME_DATA_STDERR, up_phase = UWait, up_reads = []\<rparr>] else []),
      up_taken = [], up_sent = []\<rparr>"

abbreviation upReaches :: "64 word \<Rightarrow> upState \<Rightarrow> upState \<Rightarrow> bool" where
  "upReaches sid \<equiv> stepReaches (upStep sid)"

section \<open>Invariants\<close>

text \<open>What a goroutine holds: a message that has its number but was not sent, data that has no number yet.\<close>

definition heldMsgs :: "64 word \<Rightarrow> upPipe \<Rightarrow> msg list" where
  "heldMsgs sid p = (case up_phase p of USend data seq \<Rightarrow> [outputMsg sid (up_kind p) seq data] | _ \<Rightarrow> [])"

definition pendingData :: "upPipe \<Rightarrow> string list" where
  "pendingData p = (case up_phase p of ULoad data \<Rightarrow> [data] | UTry data _ \<Rightarrow> [data] | _ \<Rightarrow> [])"

definition triedBelow :: "nat \<Rightarrow> upPipe \<Rightarrow> bool" where
  "triedBelow n p = (case up_phase p of UTry _ seq \<Rightarrow> \<exists>k \<le> n. seq = word_of_nat k | _ \<Rightarrow> True)"

definition upInv :: "64 word \<Rightarrow> upState \<Rightarrow> bool" where
  "upInv sid st \<longleftrightarrow> up_seq st = word_of_nat (length (up_taken st))
     \<and> mset (up_sent st) + mset (concat (map (heldMsgs sid) (up_pipes st))) = mset (outputMsgs sid 0 (up_taken st))
     \<and> distinct (map up_kind (up_pipes st))
     \<and> (\<forall>p \<in> set (up_pipes st). triedBelow (length (up_taken st)) p
          \<and> up_reads p = map snd (filter (\<lambda>(k, d). k = up_kind p) (up_taken st)) @ pendingData p)"

lemma mset_concat_update:
  "i < length xs \<Longrightarrow> mset (concat (map f (xs[i := y]))) + mset (f (xs ! i)) = mset (concat (map f xs)) + mset (f y)"
  by (induction xs arbitrary: i) (auto simp: nth_Cons' list_update_append split: nat.splits)

lemma outputMsgs_snoc:
  "outputMsgs sid 0 (xs @ [(k, d)]) = outputMsgs sid 0 xs @ [outputMsg sid k (word_of_nat (length xs)) d]"
  by (simp add: outputMsgs_def enumerate_append_eq outputMsg_def)

lemma triedBelow_mono: "triedBelow m p \<Longrightarrow> m \<le> n \<Longrightarrow> triedBelow n p"
  by (auto simp: triedBelow_def split: upPhase.splits intro: order_trans)

lemma mset_balance:
  fixes s :: "'a multiset"
  assumes "s + c = t" and "c' + h = c + h'" and "out + h' = h + m"
  shows "s + out + c' = t + m"
proof -
  have "s + out + c' + h = s + out + (c' + h)" by (simp add: add.assoc)
  also have "\<dots> = (s + c) + (out + h')" unfolding assms(2) by (simp only: ac_simps)
  also have "\<dots> = t + m + h" unfolding assms(1,3) by (simp only: ac_simps)
  finally show ?thesis by simp
qed

text \<open>One goroutine moves: what it has to keep so that all keep the invariant.\<close>

lemma upInv_move:
  assumes inv: "upInv sid st" and i: "i < length (up_pipes st)" and p: "p = up_pipes st ! i" "up_kind p' = up_kind p"
    and seq: "seq' = word_of_nat (length (up_taken st @ new))"
    and ms: "outputMsgs sid 0 (up_taken st @ new) = outputMsgs sid 0 (up_taken st) @ ms"
      "mset out + mset (heldMsgs sid p') = mset (heldMsgs sid p) + mset ms"
    and new: "list_all (\<lambda>(k, d). k = up_kind p) new" "triedBelow (length (up_taken st @ new)) p'"
      "up_reads p' = map snd (filter (\<lambda>(k, d). k = up_kind p) (up_taken st)) @ map snd new @ pendingData p'"
  shows "upInv sid (st\<lparr>up_seq := seq', up_taken := up_taken st @ new, up_sent := up_sent st @ out, up_pipes := (up_pipes st)[i := p']\<rparr>)"
proof -
  let ?pipes = "(up_pipes st)[i := p']"
  have sent: "mset (up_sent st) + mset (concat (map (heldMsgs sid) (up_pipes st))) = mset (outputMsgs sid 0 (up_taken st))"
    using inv by (simp add: upInv_def)
  have "mset (up_sent st @ out) + mset (concat (map (heldMsgs sid) ?pipes)) = mset (outputMsgs sid 0 (up_taken st @ new))"
    using mset_balance [OF sent mset_concat_update [OF i] ms(2) [unfolded p(1)]] by (simp add: ms(1))
  moreover have kinds: "map up_kind ?pipes = map up_kind (up_pipes st)"
    using i p by (simp add: map_update list_update_same_conv)
  moreover have "triedBelow (length (up_taken st @ new)) q \<and>
      up_reads q = map snd (filter (\<lambda>(k, d). k = up_kind q) (up_taken st @ new)) @ pendingData q" if q: "q \<in> set ?pipes" for q
  proof -
    obtain j where j: "j < length (up_pipes st)" "q = ?pipes ! j" using q by (auto simp: in_set_conv_nth)
    show ?thesis
    proof (cases "j = i")
      case True
      then have "filter (\<lambda>(k, d). k = up_kind p) new = new" using new(1) by (simp add: list_all_iff filter_id_conv)
      with True j i new(2,3) p(2) show ?thesis by simp
    next
      case False
      then have q': "q = up_pipes st ! j" using j by simp
      then have "up_kind q \<noteq> up_kind p"
        using inv i j(1) False p(1) nth_eq_iff_index_eq [of "map up_kind (up_pipes st)" j i] by (simp add: upInv_def)
      then have "filter (\<lambda>(k, d). k = up_kind q) new = []" using new(1) by (auto simp: list_all_iff filter_empty_conv)
      moreover have "q \<in> set (up_pipes st)" using q' j by simp
      ultimately show ?thesis using inv triedBelow_mono [of "length (up_taken st)" q] by (auto simp: upInv_def)
    qed
  qed
  ultimately show ?thesis using inv seq by (simp add: upInv_def)
qed

lemma upInv_quiet:
  assumes "upInv sid st" and "i < length (up_pipes st)" and "up_kind p' = up_kind (up_pipes st ! i)"
    and "mset out + mset (heldMsgs sid p') = mset (heldMsgs sid (up_pipes st ! i))" and "triedBelow (length (up_taken st)) p'"
    and "up_reads p' = map snd (filter (\<lambda>(k, d). k = up_kind (up_pipes st ! i)) (up_taken st)) @ pendingData p'"
  shows "upInv sid (st\<lparr>up_sent := up_sent st @ out, up_pipes := (up_pipes st)[i := p']\<rparr>)"
proof -
  have "up_seq st = word_of_nat (length (up_taken st))" using assms(1) by (simp add: upInv_def)
  from upInv_move [OF assms(1,2) refl assms(3), of "up_seq st" "[]" "[]" out] this assms(4-6) show ?thesis
    by (cases st) simp
qed

lemma upInv_pipe:
  assumes "upInv sid st" and "i < length (up_pipes st)"
  shows "up_seq st = word_of_nat (length (up_taken st))" "triedBelow (length (up_taken st)) (up_pipes st ! i)"
    "up_reads (up_pipes st ! i) = map snd (filter (\<lambda>(k, d). k = up_kind (up_pipes st ! i)) (up_taken st)) @ pendingData (up_pipes st ! i)"
  using assms by (auto simp: upInv_def)

lemmas phase_defs = heldMsgs_def pendingData_def triedBelow_def setPhase_def nextSeq_load_def nextSeq_cas_def

lemma upInv_step: "upStep sid ev st = Some st' \<Longrightarrow> upInv sid st \<Longrightarrow> upInv sid st'"
proof -
  assume step: "upStep sid ev st = Some st'" and inv: "upInv sid st"
  define i where "i = (case ev of EvRead i _ \<Rightarrow> i | EvEnd i \<Rightarrow> i | EvLoad i \<Rightarrow> i | EvCas i \<Rightarrow> i | EvSent i _ \<Rightarrow> i)"
  have i: "i < length (up_pipes st)" using step by (cases ev) (auto simp: i_def split: if_splits)
  note inv_i = upInv_pipe [OF inv i]
  note quiet = upInv_quiet [OF inv i]
  show ?thesis
  proof (cases ev)
    case (EvRead j data)
    with step quiet [of "(up_pipes st ! i)\<lparr>up_phase := ULoad data, up_reads := up_reads (up_pipes st ! i) @ [data]\<rparr>" "[]"] inv_i(2,3)
    show ?thesis by (auto simp: i_def phase_defs split: if_splits)
  next
    case (EvEnd j)
    with step quiet [of "(up_pipes st ! i)\<lparr>up_phase := UDone\<rparr>" "[]"] inv_i(2,3)
    show ?thesis by (auto simp: i_def phase_defs split: if_splits)
  next
    case (EvLoad j)
    then obtain data where "up_phase (up_pipes st ! i) = ULoad data" "st' = nextSeq_load i data st"
      using step by (auto simp: i_def split: if_splits upPhase.splits)
    with quiet [of "(up_pipes st ! i)\<lparr>up_phase := UTry data (up_seq st)\<rparr>" "[]"] inv_i
    show ?thesis by (auto simp: phase_defs)
  next
    case (EvCas j)
    then obtain data seq where ph: "up_phase (up_pipes st ! i) = UTry data seq" and st': "st' = nextSeq_cas i data seq st"
      using step by (auto simp: i_def split: if_splits upPhase.splits)
    show ?thesis
    proof (cases "up_seq st = seq")
      case True
      with ph st' inv_i upInv_move [OF inv i refl, of "(up_pipes st ! i)\<lparr>up_phase := USend data seq\<rparr>" "seq + 1"
          "[(up_kind (up_pipes st ! i), data)]" "[outputMsg sid (up_kind (up_pipes st ! i)) seq data]" "[]"]
      show ?thesis by (simp add: phase_defs outputMsgs_snoc)
    next
      case False
      then obtain k where "k < length (up_taken st)" "seq = word_of_nat k"
        using ph inv_i(1,2) by (auto simp: triedBelow_def le_less)
      then have "triedBelow (length (up_taken st)) ((up_pipes st ! i)\<lparr>up_phase := UTry data (seq + 1)\<rparr>)"
        by (auto simp: triedBelow_def intro: exI [of _ "Suc k"])
      with False ph st' inv_i(3) quiet [of "(up_pipes st ! i)\<lparr>up_phase := UTry data (seq + 1)\<rparr>" "[]"]
      show ?thesis by (simp add: setPhase_def nextSeq_cas_def heldMsgs_def pendingData_def)
    qed
  next
    case (EvSent j ok)
    then obtain data seq where ph: "up_phase (up_pipes st ! i) = USend data seq"
      and st': "st' = setPhase i (if ok then UWait else UDone)
                (st\<lparr>up_sent := up_sent st @ [outputMsg sid (up_kind (up_pipes st ! i)) seq data]\<rparr>)"
      using step by (auto simp: i_def split: if_splits upPhase.splits)
    with inv_i(2,3) quiet [of "(up_pipes st ! i)\<lparr>up_phase := if ok then UWait else UDone\<rparr>"
        "[outputMsg sid (up_kind (up_pipes st ! i)) seq data]"]
    show ?thesis by (simp add: phase_defs)
  qed
qed

lemma upInv_start: "upInv sid (createTerminalStream useStdout useStderr)"
  by (simp add: upInv_def createTerminalStream_def phase_defs outputMsgs_def kind_defs)

lemma upReaches_inv: "upReaches sid (createTerminalStream useStdout useStderr) st \<Longrightarrow> upInv sid st"
  by (erule stepReaches_inv [where P = "upInv sid"]) (use upInv_start upInv_step in blast)+

text \<open>A goroutine alone in the loop of \<^verbatim>\<open>nextSeq\<close> catches up with the variable.\<close>

lemma cas_catches_up:
  assumes "i < length (up_pipes st)" and "up_phase (up_pipes st ! i) = UTry data (word_of_nat k)"
    and "up_seq st = word_of_nat (k + n)"
  shows "\<exists>m st'. m \<le> Suc n \<and> runSteps (upStep sid) (replicate m (EvCas i)) st = Some st'
    \<and> up_phase (up_pipes st' ! i) = USend data (up_seq st) \<and> up_seq st' = up_seq st + 1"
  using assms
proof (induction n arbitrary: k st)
  case 0
  then show ?case
    by (intro exI [of _ "Suc 0"] exI [of _ "nextSeq_cas i data (word_of_nat k) st"]) (simp add: nextSeq_cas_def setPhase_def)
next
  case (Suc n)
  show ?case
  proof (cases "up_seq st = word_of_nat k")
    case True
    with Suc.prems show ?thesis
      by (intro exI [of _ "Suc 0"] exI [of _ "nextSeq_cas i data (word_of_nat k) st"]) (simp add: nextSeq_cas_def setPhase_def)
  next
    case False
    let ?st = "setPhase i (UTry data (word_of_nat (Suc k))) st"
    have step: "upStep sid (EvCas i) st = Some ?st"
      using False Suc.prems by (simp add: nextSeq_cas_def add.commute)
    have "i < length (up_pipes ?st)" "up_phase (up_pipes ?st ! i) = UTry data (word_of_nat (Suc k))"
      "up_seq ?st = word_of_nat (Suc k + n)"
      using Suc.prems by (simp_all add: setPhase_def)
    from Suc.IH [OF this] obtain m st' where "m \<le> Suc n" "runSteps (upStep sid) (replicate m (EvCas i)) ?st = Some st'"
      "up_phase (up_pipes st' ! i) = USend data (up_seq ?st)" "up_seq st' = up_seq ?st + 1" by blast
    with step show ?thesis by (intro exI [of _ "Suc m"] exI [of _ st']) (simp add: setPhase_def)
  qed
qed

section \<open>The properties\<close>

text \<open>C14: Concurrent uploads refine the sequential one. Whenever no goroutine is between reading data and sending it, the
  messages sent so far are, but for their order, those which the sequential definition of the upload sends for the
  data in the order of their numbers, consecutive from 0; and that order has the data of each pipe in the order in which
  they were read, none missing. (The data are those that reads give without an error; theory \<open>TimeoutReader\<close> has the reads.)\<close>

theorem upload_refines_sequential:
  assumes "upReaches sid (createTerminalStream useStdout useStderr) st"
    and "list_all (\<lambda>p. up_phase p = UWait \<or> up_phase p = UDone) (up_pipes st)" and "hw_sendFunc hw = Some (\<lambda>_. None)"
  shows "\<exists>ms. uploadDataOutput sid [] 0 (up_taken st) hw = (Ok (up_seq st), hw\<lparr>hw_sent := hw_sent hw @ ms\<rparr>)
      \<and> mset ms = mset (up_sent st)
    \<and> (\<forall>p \<in> set (up_pipes st). up_reads p = map snd (filter (\<lambda>(k, d). k = up_kind p) (up_taken st)))"
proof -
  note inv = upReaches_inv [OF assms(1)]
  have q: "heldMsgs sid p = [] \<and> pendingData p = []" if "p \<in> set (up_pipes st)" for p
    using assms(2) that by (auto simp: list_all_iff heldMsgs_def pendingData_def split: upPhase.splits)
  then have "concat (map (heldMsgs sid) (up_pipes st)) = []" by simp
  with inv have "mset (outputMsgs sid 0 (up_taken st)) = mset (up_sent st)" by (simp add: upInv_def)
  moreover have "\<forall>p \<in> set (up_pipes st). up_reads p = map snd (filter (\<lambda>(k, d). k = up_kind p) (up_taken st))"
    using inv q by (simp add: upInv_def)
  moreover have "up_seq st = word_of_nat (length (up_taken st))" using inv by (simp add: upInv_def)
  ultimately show ?thesis using upload_all [OF assms(3), of sid 0 "up_taken st"] by auto
qed

text \<open>\<^verbatim>\<open>nextSeq\<close> returns. A goroutine in its loop, however far the variable went on meanwhile, gets the value of the variable
  after at most one more attempt than numbers were given, if it runs alone; the variable is one higher then.\<close>

theorem next_seq_returns:
  assumes "upReaches sid (createTerminalStream useStdout useStderr) st" and "i < length (up_pipes st)"
    and "up_phase (up_pipes st ! i) = UTry data seq"
  shows "\<exists>m st'. m \<le> Suc (length (up_taken st)) \<and> runSteps (upStep sid) (replicate m (EvCas i)) st = Some st'
    \<and> up_phase (up_pipes st' ! i) = USend data (up_seq st) \<and> up_seq st' = up_seq st + 1"
proof -
  note inv = upInv_pipe [OF upReaches_inv [OF assms(1)] assms(2)]
  then obtain k where k: "k \<le> length (up_taken st)" "seq = word_of_nat k" using assms(3) by (auto simp: triedBelow_def)
  then have "up_seq st = word_of_nat (k + (length (up_taken st) - k))" using inv(1) by simp
  from cas_catches_up [OF assms(2) assms(3) [unfolded k(2)] this] show ?thesis
    by (metis (no_types, lifting) Suc_le_mono diff_le_self le_trans)
qed

section \<open>Examples\<close>

text \<open>Both pipes have data; the number of the second is taken while the first is between its load and its compare-and-swap,
  and the second message is sent first.\<close>

definition exampleRace :: "upEvent list" where
  "exampleRace = [EvRead 0 ''a'', EvRead 1 ''x'', EvLoad 0, EvLoad 1, EvCas 1, EvCas 0]"

definition exampleRaceDone :: "upEvent list" where
  "exampleRaceDone = [EvCas 0, EvSent 0 True, EvSent 1 True]"

theorem next_seq_returns_witness:
  "\<exists>st m st'. runSteps (upStep 5) (butlast exampleRace) (createTerminalStream True True) = Some st
    \<and> up_phase (up_pipes st ! 0) = UTry ''a'' 0 \<and> up_seq st = 1
    \<and> runSteps (upStep 5) (replicate m (EvCas 0)) st = Some st' \<and> up_phase (up_pipes st' ! 0) = USend ''a'' 1"
proof -
  let ?st = "the (runSteps (upStep 5) (butlast exampleRace) (createTerminalStream True True))"
  have r: "runSteps (upStep 5) (butlast exampleRace) (createTerminalStream True True) = Some ?st" by code_simp
  have f: "0 < length (up_pipes ?st)" "up_phase (up_pipes ?st ! 0) = UTry ''a'' 0" "up_seq ?st = 1" by code_simp+
  from next_seq_returns [OF runSteps_reaches [OF r] f(1,2)] obtain m st' where
    "runSteps (upStep 5) (replicate m (EvCas 0)) ?st = Some st'" "up_phase (up_pipes st' ! 0) = USend ''a'' (up_seq ?st)" by blast
  with r f show ?thesis by metis
qed

theorem upload_refines_sequential_witness:
  "\<exists>st ms. runSteps (upStep 5) (exampleRace @ exampleRaceDone) (createTerminalStream True True) = Some st
    \<and> up_sent st = [outputMsg 5 MSG_DATA_OUTPUT 1 ''a'', outputMsg 5 MSG_RUNTIME_DATA_STDERR 0 ''x'']
    \<and> uploadDataOutput 5 [] 0 (up_taken st) exampleHw = (Ok (up_seq st), exampleHw\<lparr>hw_sent := ms\<rparr>)
    \<and> mset ms = mset (up_sent st)"
proof -
  let ?st = "the (runSteps (upStep 5) (exampleRace @ exampleRaceDone) (createTerminalStream True True))"
  have r: "runSteps (upStep 5) (exampleRace @ exampleRaceDone) (createTerminalStream True True) = Some ?st" by code_simp
  have f: "list_all (\<lambda>p. up_phase p = UWait \<or> up_phase p = UDone) (up_pipes ?st)"
    "up_sent ?st = [outputMsg 5 MSG_DATA_OUTPUT 1 ''a'', outputMsg 5 MSG_RUNTIME_DATA_STDERR 0 ''x'']" by code_simp+
  from upload_refines_sequential [OF runSteps_reaches [OF r] f(1) exampleHw_send(1)] obtain ms where
    "uploadDataOutput 5 [] 0 (up_taken ?st) exampleHw = (Ok (up_seq ?st), exampleHw\<lparr>hw_sent := hw_sent exampleHw @ ms\<rparr>)"
    "mset ms = mset (up_sent ?st)" by blast
  with r f(2) show ?thesis unfolding exampleHw_send append_Nil by metis
qed

end
