(* ===== verification/TimeoutReader.thy ===== *)
theory TimeoutReader
  imports Steps
begin

text \<open>
  \<^verbatim>\<open>arhat.dev/pkg/iohelper/timeout_reader.go\<close> and its use in \<^verbatim>\<open>uploadDataOutput\<close>: the output of a command is read from a pipe
  with a timeout, so that what comes within it makes one message. Two goroutines share the reader: the background reader
  (\<^verbatim>\<open>FallbackReading\<close>) and the uploader (\<^verbatim>\<open>WaitForData\<close>, \<^verbatim>\<open>Read\<close>, then \<^verbatim>\<open>SendMsg\<close>). While deadlines can be set on the
  pipe, the background reader reads the first byte of a message and hands it over, and \<^verbatim>\<open>Read\<close> reads the rest; else
  the background reader fills a buffer byte by byte. Every channel operation, critical section and read is one step;
  timers and deadlines fire at any time. (Where \<^verbatim>\<open>Read\<close> takes data out of the buffer, the length, the error and the data are
  taken in one step: in between, the buffer only grows.) A panic stops the program. Shown: what is uploaded is what was written, in
  order, up to what is read together with an error, which is dropped; and what follows from that at the end
  of the output.
\<close>

section \<open>State\<close>

text \<open>Errors of reads. \<^verbatim>\<open>io.EOF\<close> and the error for a closed file are values of different types.\<close>

datatype rdErr = EofErr | PathErr | DeadlineErr

text \<open>Where the background reader is: in its loop; before \<^verbatim>\<open>setReadDeadline\<close>; in the read of the first byte; sending on
  \<^verbatim>\<open>firstByteReady\<close> and then on \<^verbatim>\<open>firstByte\<close>; closing \<^verbatim>\<open>hasData\<close> after a failed read; at the end of the loop; in the read
  of no bytes; in the loop of single bytes, before and after \<^verbatim>\<open>stopSig\<close> is looked at; storing an error; ended.\<close>

datatype fbPhase = FLoop | FSet | FRead | FReady char | FByte char | FHas rdErr | FClose | FCheck | FOne | FNext
  | FStore rdErr | FDone

text \<open>Where the uploader is. In \<^verbatim>\<open>WaitForData\<close>: the first select, the second one, the test for an error, the wait for
  \<^verbatim>\<open>hasData\<close>. In \<^verbatim>\<open>Read\<close>: its start, the receive of the first byte, with that byte before \<^verbatim>\<open>setReadDeadline\<close> and before the
  read of the rest, with the buffer, the wait for more data, the end of it (by timeout or not). Then with the result of
  \<^verbatim>\<open>Read\<close>, about to return, ended.\<close>

datatype upPoint = WTop | WFirst | WMode | WHas | RStart | RFirst | RGot char | RRest char | RBuf | RWait | RTake bool
  | UGot string "rdErr option" | UReturn | UEnd

record trState =
  tr_pipe :: string
  tr_writerClosed :: bool
  tr_readerClosed :: bool
  tr_stop :: bool
  tr_cannotSetDeadline :: bool
  tr_firstClosed :: bool
  tr_hasData :: bool
  tr_dataFull :: bool
  tr_maxRead :: nat
  tr_buf :: string
  tr_err :: "rdErr option"
  tr_fb :: fbPhase
  tr_up :: upPoint
  tr_panic :: bool
  tr_written :: string
  tr_chunks :: "(bool \<times> string) list"

text \<open>Of a channel that is only closed to give a signal the state is whether it is closed. \<^const>\<open>tr_written\<close> and \<^const>\<open>tr_chunks\<close>
  record what was written to the pipe and what was taken from the reader, with \<^term>\<open>True\<close> for what was sent.\<close>

definition NewTimeoutReader :: "bool \<Rightarrow> trState" where
  "NewTimeoutReader canSetDeadline =
     \<lparr>tr_pipe = [], tr_writerClosed = False, tr_readerClosed = False, tr_stop = False,
      tr_cannotSetDeadline = (\<not> canSetDeadline), tr_firstClosed = False, tr_hasData = False, tr_dataFull = False,
      tr_maxRead = 0, tr_buf = [], tr_err = None, tr_fb = FLoop, tr_up = WTop, tr_panic = False,
      tr_written = [], tr_chunks = []\<rparr>"

section \<open>Operations\<close>

text \<open>Closing a channel twice panics, and so does storing a value of another type in an \<^verbatim>\<open>atomic.Value\<close>.\<close>

definition close_cannotSetDeadline :: "trState \<Rightarrow> trState" where
  "close_cannotSetDeadline st =
     (if tr_cannotSetDeadline st then st\<lparr>tr_panic := True\<rparr> else st\<lparr>tr_cannotSetDeadline := True\<rparr>)"

definition close_hasData :: "trState \<Rightarrow> trState" where
  "close_hasData st = (if tr_hasData st then st\<lparr>tr_panic := True\<rparr> else st\<lparr>tr_hasData := True\<rparr>)"

definition store_err :: "rdErr \<Rightarrow> trState \<Rightarrow> trState" where
  "store_err e st = (if tr_err st \<in> {None, Some e} then st\<lparr>tr_err := Some e\<rparr> else st\<lparr>tr_panic := True\<rparr>)"

text \<open>A read of the pipe: it gives bytes when there are any, and an error at the end or when the reader was closed;
  otherwise it blocks.\<close>

definition readable :: "trState \<Rightarrow> bool" where
  "readable st \<longleftrightarrow> \<not> tr_readerClosed st \<and> tr_pipe st \<noteq> []"

definition readError :: "trState \<Rightarrow> rdErr option" where
  "readError st =
     (if tr_readerClosed st then Some PathErr else if tr_pipe st = [] \<and> tr_writerClosed st then Some EofErr else None)"

text \<open>\<^verbatim>\<open>FallbackReading\<close>. The choice is the result of \<^verbatim>\<open>setReadDeadline\<close>, and in the loop between \<^verbatim>\<open>cannotSetDeadline\<close> and
  \<^verbatim>\<open>stopSig\<close>.\<close>

definition FallbackReading :: "bool \<Rightarrow> trState \<Rightarrow> trState option" where
  "FallbackReading ok st =
     (case tr_fb st of
        FLoop \<Rightarrow>
          if ok then (if tr_cannotSetDeadline st then Some (st\<lparr>tr_fb := FClose\<rparr>) else None)
          else (if tr_stop st then Some (st\<lparr>tr_fb := FDone\<rparr>) else None)
      | FSet \<Rightarrow> Some (if ok then st\<lparr>tr_fb := FRead\<rparr> else (close_cannotSetDeadline st)\<lparr>tr_fb := FClose\<rparr>)
      | FRead \<Rightarrow>
          if readable st then Some (st\<lparr>tr_pipe := tl (tr_pipe st), tr_fb := FReady (hd (tr_pipe st))\<rparr>)
          else map_option (\<lambda>e. (close_cannotSetDeadline st)\<lparr>tr_fb := FHas e\<rparr>) (readError st)
      | FReady _ \<Rightarrow> None
      | FByte _ \<Rightarrow> None
      | FHas e \<Rightarrow> Some ((close_hasData st)\<lparr>tr_fb := FStore e\<rparr>)
      | FClose \<Rightarrow> Some (st\<lparr>tr_firstClosed := True, tr_fb := FCheck\<rparr>)
      | FCheck \<Rightarrow> Some (if tr_readerClosed st then st\<lparr>tr_fb := FHas PathErr\<rparr> else st\<lparr>tr_fb := FOne\<rparr>)
      | FOne \<Rightarrow>
          if readable st then
            let buf = tr_buf st @ [hd (tr_pipe st)] in
            Some (st\<lparr>tr_pipe := tl (tr_pipe st), tr_buf := buf, tr_hasData := True,
                     tr_dataFull := (tr_dataFull st \<or> tr_maxRead st \<le> length buf), tr_fb := FNext\<rparr>)
          else map_option (\<lambda>e. st\<lparr>tr_hasData := True, tr_fb := FStore e\<rparr>) (readError st)
      | FNext \<Rightarrow> Some (st\<lparr>tr_fb := (if tr_stop st then FDone else FOne)\<rparr>)
      | FStore e \<Rightarrow> Some ((store_err e st)\<lparr>tr_fb := FDone\<rparr>)
      | FDone \<Rightarrow> None)"

text \<open>\<^verbatim>\<open>WaitForData\<close>; the choice is the branch of \<^verbatim>\<open>stopSig\<close>.\<close>

definition WaitForData :: "bool \<Rightarrow> trState \<Rightarrow> trState option" where
  "WaitForData stop st =
     (let stopped = (if tr_stop st then Some (st\<lparr>tr_up := UReturn\<rparr>) else None);
          hasDataInBuf = st\<lparr>tr_up := (if tr_buf st \<noteq> [] then RStart else UReturn)\<rparr>
      in case tr_up st of
           WTop \<Rightarrow> if stop then stopped else if tr_cannotSetDeadline st then Some (st\<lparr>tr_up := WMode\<rparr>) else None
         | WFirst \<Rightarrow>
             if stop then stopped
             else if tr_cannotSetDeadline st \<or> tr_firstClosed st then Some (st\<lparr>tr_up := WMode\<rparr>) else None
         | WMode \<Rightarrow> Some (if tr_err st \<noteq> None then hasDataInBuf else st\<lparr>tr_up := WHas\<rparr>)
         | WHas \<Rightarrow>
             if stop then stopped
             else if tr_hasData st then Some (if tr_err st \<noteq> None then hasDataInBuf else st\<lparr>tr_up := RStart\<rparr>)
             else None
         | _ \<Rightarrow> None)"

text \<open>\<^verbatim>\<open>Read\<close> with a buffer of \<open>m\<close> bytes. The choices: the result of \<^verbatim>\<open>setReadDeadline\<close>, how many bytes a read gives, whether the
  deadline passes, whether the timer fires.\<close>

datatype rdChoice = RcGo | RcFail | RcBytes nat | RcTimeout

definition tr_Read :: "nat \<Rightarrow> rdChoice \<Rightarrow> trState \<Rightarrow> trState option" where
  "tr_Read m c st =
     (case tr_up st of
        RStart \<Rightarrow>
          Some (if m = 0 then st\<lparr>tr_up := UGot [] (tr_err st)\<rparr>
                else if tr_cannotSetDeadline st then st\<lparr>tr_up := RBuf\<rparr> else st\<lparr>tr_up := RFirst\<rparr>)
      | RFirst \<Rightarrow> if tr_firstClosed st then Some (st\<lparr>tr_up := UGot [] (tr_err st)\<rparr>) else None
      | RGot b \<Rightarrow>
          if c \<noteq> RcFail then Some (st\<lparr>tr_up := RRest b\<rparr>)
          else
            let st = (close_cannotSetDeadline st)\<lparr>tr_chunks := tr_chunks st @ [(False, [b])]\<rparr> in
            Some (if tr_readerClosed st then (store_err PathErr st)\<lparr>tr_up := UGot [] (Some PathErr)\<rparr> else st\<lparr>tr_up := RBuf\<rparr>)
      | RRest b \<Rightarrow>
          if m = 1 then Some (st\<lparr>tr_up := UGot [b] None\<rparr>)
          else (case c of
                  RcBytes k \<Rightarrow>
                    if readable st \<and> 0 < k \<and> k \<le> length (tr_pipe st) \<and> k < m
                    then Some (st\<lparr>tr_pipe := drop k (tr_pipe st), tr_up := UGot (b # take k (tr_pipe st)) None\<rparr>) else None
                | RcTimeout \<Rightarrow> Some (st\<lparr>tr_up := UGot [b] (Some DeadlineErr)\<rparr>)
                | _ \<Rightarrow>
                    if readable st then None
                    else map_option (\<lambda>e. (close_cannotSetDeadline (store_err e st))\<lparr>tr_up := UGot [b] (Some e)\<rparr>) (readError st))
      | RBuf \<Rightarrow>
          Some (if m < length (tr_buf st)
                then st\<lparr>tr_buf := drop m (tr_buf st), tr_up := UGot (take m (tr_buf st)) (tr_err st)\<rparr>
                else st\<lparr>tr_maxRead := m, tr_dataFull := False, tr_up := RWait\<rparr>)
      | RWait \<Rightarrow>
          if c = RcTimeout then Some (st\<lparr>tr_up := RTake True\<rparr>)
          else if tr_dataFull st then Some (st\<lparr>tr_up := RTake False\<rparr>) else None
      | RTake isTimeout \<Rightarrow>
          let err = (if tr_err st = None \<and> isTimeout then Some DeadlineErr else tr_err st) in
          Some (if tr_buf st = [] then st\<lparr>tr_up := UGot [] err\<rparr>
                else st\<lparr>tr_buf := drop m (tr_buf st), tr_up := UGot (take m (tr_buf st)) err,
                        tr_hasData := (tr_hasData st \<and> \<not> (drop m (tr_buf st) = [] \<and> err = Some DeadlineErr))\<rparr>)
      | _ \<Rightarrow> None)"

text \<open>The rest of the loop of \<^verbatim>\<open>uploadDataOutput\<close>, and the deferred \<^verbatim>\<open>Close\<close> of the reading end. Data that comes with an
  error other than the deadline is not sent.\<close>

definition uploadRead :: "bool \<Rightarrow> trState \<Rightarrow> trState option" where
  "uploadRead ok st =
     (case tr_up st of
        UGot data err \<Rightarrow>
          Some (if err \<in> {None, Some DeadlineErr}
                then st\<lparr>tr_chunks := tr_chunks st @ [(True, data)], tr_up := (if ok then WTop else UReturn)\<rparr>
                else st\<lparr>tr_chunks := tr_chunks st @ [(False, data)], tr_up := UReturn\<rparr>)
      | UReturn \<Rightarrow> Some (st\<lparr>tr_readerClosed := True, tr_up := UEnd\<rparr>)
      | _ \<Rightarrow> None)"

text \<open>Events: the command writes or ends, the context ends, the three operations on unbuffered channels in which both
  goroutines take part, and the steps of either. (A goroutine whose select has a closed channel does not wait there, so the
  request for a byte is not received any more once \<^verbatim>\<open>cannotSetDeadline\<close> is closed.)\<close>

datatype trEvent = EvWrite string | EvCloseWriter | EvCtxDone | EvRequest | EvReady | EvFirstByte
  | EvBackground bool | EvWait bool | EvRead rdChoice | EvUpload bool

definition trStep :: "nat \<Rightarrow> trEvent \<Rightarrow> trState \<Rightarrow> trState option" where
  "trStep m ev st =
     (if tr_panic st then None
      else case ev of
        EvWrite s \<Rightarrow>
          if tr_writerClosed st then None
          else Some (st\<lparr>tr_pipe := tr_pipe st @ s, tr_written := tr_written st @ s\<rparr>)
      | EvCloseWriter \<Rightarrow> Some (st\<lparr>tr_writerClosed := True\<rparr>)
      | EvCtxDone \<Rightarrow> Some (st\<lparr>tr_stop := True\<rparr>)
      | EvRequest \<Rightarrow>
          if tr_up st = WTop \<and> tr_fb st = FLoop \<and> \<not> tr_cannotSetDeadline st then Some (st\<lparr>tr_up := WFirst, tr_fb := FSet\<rparr>) else None
      | EvReady \<Rightarrow>
          (case tr_fb st of
             FReady b \<Rightarrow> if tr_up st = WFirst then Some (st\<lparr>tr_up := RStart, tr_fb := FByte b\<rparr>) else None
           | _ \<Rightarrow> None)
      | EvFirstByte \<Rightarrow>
          (case tr_fb st of
             FByte b \<Rightarrow> if tr_up st = RFirst then Some (st\<lparr>tr_up := RGot b, tr_fb := FLoop\<rparr>) else None
           | _ \<Rightarrow> None)
      | EvBackground ok \<Rightarrow> FallbackReading ok st
      | EvWait stop \<Rightarrow> WaitForData stop st
      | EvRead c \<Rightarrow> tr_Read m c st
      | EvUpload ok \<Rightarrow> uploadRead ok st)"

abbreviation trReaches :: "nat \<Rightarrow> trState \<Rightarrow> trState \<Rightarrow> bool" where
  "trReaches m \<equiv> stepReaches (trStep m)"

abbreviation trRun :: "nat \<Rightarrow> trEvent list \<Rightarrow> trState \<Rightarrow> trState option" where
  "trRun m \<equiv> runSteps (trStep m)"

section \<open>Invariants\<close>

lemmas tr_op_defs = trStep_def FallbackReading_def WaitForData_def tr_Read_def uploadRead_def close_cannotSetDeadline_def
  close_hasData_def store_err_def readable_def readError_def

text \<open>What either goroutine has in its hands.\<close>

definition heldUp :: "trState \<Rightarrow> string" where
  "heldUp st = (case tr_up st of RGot b \<Rightarrow> [b] | RRest b \<Rightarrow> [b] | UGot data _ \<Rightarrow> data | _ \<Rightarrow> [])"

definition heldFb :: "trState \<Rightarrow> string" where
  "heldFb st = (case tr_fb st of FReady b \<Rightarrow> [b] | FByte b \<Rightarrow> [b] | _ \<Rightarrow> [])"

definition nothingLost :: "trState \<Rightarrow> bool" where
  "nothingLost st \<longleftrightarrow>
     tr_written st = concat (map snd (tr_chunks st)) @ heldUp st @ tr_buf st @ heldFb st @ tr_pipe st"

text \<open>Which places of the goroutines go together: outside the handing over of the first byte the uploader reads the pipe only while the
  background reader waits in its loop.\<close>

definition readsPipe :: "upPoint \<Rightarrow> bool" where
  "readsPipe u = (case u of RFirst \<Rightarrow> True | RGot _ \<Rightarrow> True | RRest _ \<Rightarrow> True | _ \<Rightarrow> False)"

fun isAsked :: "fbPhase \<Rightarrow> bool" where
  "isAsked FSet = True" | "isAsked FRead = True" | "isAsked (FReady _) = True" | "isAsked _ = False"

fun isIdle :: "fbPhase \<Rightarrow> bool" where
  "isIdle FLoop = True" | "isIdle FDone = True" | "isIdle _ = False"

fun isByte :: "fbPhase \<Rightarrow> bool" where
  "isByte (FByte _) = True" | "isByte _ = False"

fun together :: "upPoint \<Rightarrow> fbPhase \<Rightarrow> bool" where
  "together WTop fb = isIdle fb"
| "together WFirst fb = isAsked fb"
| "together RStart fb = isByte fb"
| "together RFirst fb = isByte fb"
| "together (RGot _) fb = isIdle fb"
| "together (RRest _) fb = isIdle fb"
| "together (UGot _ _) fb = isIdle fb"
| "together UReturn fb = (isAsked fb \<or> isIdle fb)"
| "together UEnd fb = (isAsked fb \<or> isIdle fb)"
| "together _ fb = False"

definition inStep :: "trState \<Rightarrow> bool" where
  "inStep st \<longleftrightarrow>
     (if tr_cannotSetDeadline st then \<not> readsPipe (tr_up st) \<and> \<not> isAsked (tr_fb st) \<and> \<not> isByte (tr_fb st)
      else tr_buf st = [] \<and> \<not> tr_firstClosed st \<and> tr_err st = None \<and> together (tr_up st) (tr_fb st))"

lemma together_fb:
  "together u FRead = together u FSet" "together u (FReady b) = together u FSet" "together u FDone = together u FLoop"
  "together u FSet \<Longrightarrow> \<not> readsPipe u"
  "\<not> together u (FHas e)" "\<not> together u FClose" "\<not> together u FCheck" "\<not> together u FOne" "\<not> together u FNext" "\<not> together u (FStore e)"
  by (cases u; simp add: readsPipe_def)+

lemma inStep_background:
  "FallbackReading ok st = Some st' \<Longrightarrow> inStep st \<Longrightarrow> inStep st'"
  by (cases "tr_fb st")
     (auto simp: FallbackReading_def close_cannotSetDeadline_def close_hasData_def store_err_def inStep_def together_fb Let_def
       split: if_splits)

lemma inStep_wait: "WaitForData stop st = Some st' \<Longrightarrow> inStep st \<Longrightarrow> inStep st'"
  by (cases "tr_up st") (auto simp: WaitForData_def inStep_def readsPipe_def Let_def split: if_splits)

lemma isIdle_not: "isIdle fb \<Longrightarrow> \<not> isAsked fb \<and> \<not> isByte fb"
  by (cases fb) auto

lemma inStep_read: "tr_Read m c st = Some st' \<Longrightarrow> 0 < m \<Longrightarrow> inStep st \<Longrightarrow> inStep st'"
  by (cases "tr_up st")
     (auto simp: tr_Read_def close_cannotSetDeadline_def store_err_def inStep_def readsPipe_def Let_def isIdle_not
       split: if_splits rdChoice.splits)

lemma inStep_upload: "uploadRead ok st = Some st' \<Longrightarrow> inStep st \<Longrightarrow> inStep st'"
  by (cases "tr_up st") (auto simp: uploadRead_def inStep_def readsPipe_def split: if_splits)

lemma inStep_step: "trStep m ev st = Some st' \<Longrightarrow> 0 < m \<Longrightarrow> inStep st \<Longrightarrow> inStep st'"
  by (cases ev)
     (auto simp: trStep_def inStep_background inStep_wait inStep_read inStep_upload split: if_splits fbPhase.splits,
      auto simp: inStep_def readsPipe_def split: if_splits)

lemmas kept_defs = nothingLost_def heldUp_def heldFb_def

lemma kept_background: "FallbackReading ok st = Some st' \<Longrightarrow> nothingLost st \<Longrightarrow> nothingLost st'"
  by (cases "tr_fb st")
     (auto simp: FallbackReading_def close_cannotSetDeadline_def close_hasData_def store_err_def readable_def kept_defs Let_def
       split: if_splits)

lemma kept_wait: "WaitForData stop st = Some st' \<Longrightarrow> nothingLost st \<Longrightarrow> nothingLost st'"
  by (cases "tr_up st") (auto simp: WaitForData_def kept_defs Let_def split: if_splits)

lemma idle_holds_nothing: "isIdle (tr_fb st) \<Longrightarrow> heldFb st = []"
  by (cases "tr_fb st") (simp_all add: heldFb_def)

lemma kept_read:
  assumes "tr_Read m c st = Some st'" and "inStep st" and "nothingLost st"
  shows "nothingLost st'"
proof (cases "readsPipe (tr_up st)")
  case True
  with assms(2) have e: "tr_buf st = []" "tr_up st \<noteq> RFirst \<Longrightarrow> heldFb st = []"
    by (auto simp: inStep_def readsPipe_def split: if_splits upPoint.splits intro!: idle_holds_nothing)
  have fb: "heldFb st' = heldFb st" using assms(1) True
    by (cases "tr_up st")
       (auto simp: readsPipe_def tr_Read_def heldFb_def close_cannotSetDeadline_def store_err_def Let_def split: if_splits rdChoice.splits)
  from True assms(1,3) e fb show ?thesis
    by (cases "tr_up st")
       (auto simp: readsPipe_def tr_Read_def nothingLost_def heldUp_def close_cannotSetDeadline_def store_err_def readable_def Let_def
         split: if_splits rdChoice.splits)
next
  case False
  with assms(1,3) show ?thesis
    by (cases "tr_up st") (auto simp: readsPipe_def tr_Read_def kept_defs Let_def split: if_splits)
qed

lemma kept_upload: "uploadRead ok st = Some st' \<Longrightarrow> nothingLost st \<Longrightarrow> nothingLost st'"
  by (cases "tr_up st") (auto simp: uploadRead_def kept_defs split: if_splits)

lemma kept_step: "trStep m ev st = Some st' \<Longrightarrow> inStep st \<Longrightarrow> nothingLost st \<Longrightarrow> nothingLost st'"
proof (cases ev)
  case EvFirstByte
  assume *: "trStep m ev st = Some st'" "inStep st" "nothingLost st"
  then have "tr_buf st = []" using EvFirstByte
    by (auto simp: trStep_def inStep_def readsPipe_def split: if_splits fbPhase.splits)
  with * EvFirstByte show ?thesis by (auto simp: trStep_def kept_defs split: if_splits fbPhase.splits)
next
  case EvReady
  assume "trStep m ev st = Some st'" "nothingLost st"
  with EvReady show ?thesis by (auto simp: trStep_def kept_defs split: if_splits fbPhase.splits)
next
  case EvRequest
  assume "trStep m ev st = Some st'" "nothingLost st"
  with EvRequest show ?thesis by (auto simp: trStep_def kept_defs split: if_splits)
qed (auto simp: trStep_def intro: kept_background kept_wait kept_read kept_upload split: if_splits, auto simp: kept_defs)

lemma inv_start: "inStep (NewTimeoutReader dl)" "nothingLost (NewTimeoutReader dl)"
  by (simp_all add: NewTimeoutReader_def inStep_def kept_defs readsPipe_def)

lemma trReaches_inv:
  assumes "trReaches m (NewTimeoutReader dl) st" and "0 < m"
  shows "inStep st" "nothingLost st"
proof -
  have "inStep st \<and> nothingLost st"
    using assms(1) by (rule stepReaches_inv [where P = "\<lambda>st. inStep st \<and> nothingLost st"])
      (use inv_start inStep_step [OF _ assms(2)] kept_step in blast)+
  then show "inStep st" "nothingLost st" by simp_all
qed

section \<open>What is sent\<close>

definition sentOutput :: "trState \<Rightarrow> string" where
  "sentOutput st = concat (map snd (filter fst (tr_chunks st)))"

text \<open>The uploader has not dropped anything yet, or it is about to end.\<close>

definition allSent :: "trState \<Rightarrow> bool" where
  "allSent st \<longleftrightarrow> list_all fst (butlast (tr_chunks st))
     \<and> (tr_chunks st \<noteq> [] \<and> \<not> fst (last (tr_chunks st)) \<longrightarrow> tr_up st = UReturn \<or> tr_up st = UEnd)"

lemma chunks_kept:
  "FallbackReading ok st = Some st' \<Longrightarrow> tr_chunks st' = tr_chunks st \<and> tr_up st' = tr_up st"
  "WaitForData stop st = Some st' \<Longrightarrow> tr_chunks st' = tr_chunks st \<and> tr_up st \<noteq> UReturn \<and> tr_up st \<noteq> UEnd"
  by (auto simp: FallbackReading_def WaitForData_def close_cannotSetDeadline_def close_hasData_def store_err_def Let_def
      split: fbPhase.splits upPoint.splits if_splits)

lemma chunks_read:
  "tr_Read m c st = Some st' \<Longrightarrow> c \<noteq> RcFail \<Longrightarrow> tr_chunks st' = tr_chunks st \<and> tr_up st \<noteq> UReturn \<and> tr_up st \<noteq> UEnd"
  by (auto simp: tr_Read_def close_cannotSetDeadline_def store_err_def Let_def
      split: upPoint.splits if_splits rdChoice.splits)

lemma allSent_end: "allSent st \<Longrightarrow> tr_up st \<noteq> UReturn \<Longrightarrow> tr_up st \<noteq> UEnd \<Longrightarrow> list_all fst (tr_chunks st)"
  by (cases "tr_chunks st" rule: rev_cases) (auto simp: allSent_def)

lemma allSent_same: "list_all fst (tr_chunks st) \<Longrightarrow> allSent st"
  by (cases "tr_chunks st" rule: rev_cases) (auto simp: allSent_def)

lemma allSent_step:
  assumes "trStep m ev st = Some st'" and "ev \<noteq> EvRead RcFail" and "allSent st"
  shows "allSent st'"
proof (cases "tr_up st = UReturn \<or> tr_up st = UEnd")
  case True
  with assms show ?thesis
    by (cases ev) (auto simp: trStep_def uploadRead_def allSent_def dest!: chunks_kept chunks_read split: if_splits fbPhase.splits)
next
  case False
  with assms(3) have a: "list_all fst (tr_chunks st)" by (auto intro: allSent_end)
  then have "list_all fst (butlast (tr_chunks st))" "tr_chunks st \<noteq> [] \<Longrightarrow> fst (last (tr_chunks st))"
    by (auto simp: list_all_iff dest: in_set_butlastD)
  with a assms(1,2) False show ?thesis
    by (cases ev)
       (auto simp: trStep_def uploadRead_def butlast_append allSent_def dest!: chunks_kept chunks_read
         split: if_splits fbPhase.splits upPoint.splits)
qed

text \<open>The reading end is closed last, and the deadline is never stored as the error of the reader.\<close>

definition soundEnd :: "trState \<Rightarrow> bool" where
  "soundEnd st \<longleftrightarrow> (tr_readerClosed st \<longrightarrow> tr_up st = UEnd) \<and> tr_err st \<noteq> Some DeadlineErr
     \<and> tr_fb st \<noteq> FHas DeadlineErr \<and> tr_fb st \<noteq> FStore DeadlineErr"

lemma soundEnd_step: "trStep m ev st = Some st' \<Longrightarrow> soundEnd st \<Longrightarrow> soundEnd st'"
proof (cases ev)
  case (EvBackground ok)
  assume "trStep m ev st = Some st'" "soundEnd st"
  with EvBackground show ?thesis
    by (cases "tr_fb st") (auto simp: tr_op_defs soundEnd_def Let_def split: if_splits)
next
  case (EvWait stop)
  assume "trStep m ev st = Some st'" "soundEnd st"
  with EvWait show ?thesis by (cases "tr_up st") (auto simp: trStep_def WaitForData_def soundEnd_def Let_def split: if_splits)
next
  case (EvRead c)
  assume "trStep m ev st = Some st'" "soundEnd st"
  with EvRead show ?thesis
    by (cases "tr_up st") (auto simp: trStep_def tr_Read_def store_err_def close_cannotSetDeadline_def readError_def soundEnd_def Let_def
        split: if_splits rdChoice.splits)
next
  case (EvUpload ok)
  assume "trStep m ev st = Some st'" "soundEnd st"
  with EvUpload show ?thesis by (cases "tr_up st") (auto simp: trStep_def uploadRead_def soundEnd_def split: if_splits)
qed (auto simp: trStep_def soundEnd_def split: if_splits fbPhase.splits)

lemma trReaches_soundEnd: "trReaches m (NewTimeoutReader dl) st \<Longrightarrow> soundEnd st"
  by (erule stepReaches_inv [where P = soundEnd])
     (use soundEnd_step in \<open>auto simp: soundEnd_def NewTimeoutReader_def\<close>)

text \<open>The reader has an error, and what the uploader holds, if anything, comes with it.\<close>

definition failed :: "trState \<Rightarrow> bool" where
  "failed st \<longleftrightarrow> tr_err st \<noteq> None \<and> tr_cannotSetDeadline st \<and> \<not> readsPipe (tr_up st)
     \<and> (case tr_up st of UGot _ err \<Rightarrow> err \<notin> {None, Some DeadlineErr} | _ \<Rightarrow> True)"

lemma failed_step:
  assumes "trStep m ev st = Some st'" and "0 < m" and "soundEnd st" and "failed st"
  shows "failed st' \<and> sentOutput st' = sentOutput st"
proof (cases ev)
  case (EvBackground ok)
  with assms show ?thesis
    by (cases "tr_fb st") (auto simp: tr_op_defs failed_def sentOutput_def Let_def split: if_splits)
next
  case (EvWait stop)
  with assms show ?thesis
    by (cases "tr_up st") (auto simp: trStep_def WaitForData_def failed_def sentOutput_def readsPipe_def Let_def split: if_splits)
next
  case (EvRead c)
  with assms show ?thesis
    by (cases "tr_up st") (auto simp: trStep_def tr_Read_def failed_def sentOutput_def soundEnd_def readsPipe_def Let_def split: if_splits)
next
  case (EvUpload ok)
  with assms show ?thesis
    by (cases "tr_up st") (auto simp: trStep_def uploadRead_def failed_def sentOutput_def readsPipe_def split: if_splits)
qed (use assms in \<open>auto simp: trStep_def failed_def sentOutput_def readsPipe_def split: if_splits fbPhase.splits\<close>)

section \<open>The properties\<close>

text \<open>What was read but dropped, because it came with an error.\<close>

definition droppedOutput :: "trState \<Rightarrow> string" where
  "droppedOutput st = (if tr_chunks st \<noteq> [] \<and> \<not> fst (last (tr_chunks st)) then snd (last (tr_chunks st)) else [])"

text \<open>C15: What is uploaded of the output of a command is a prefix of what the command wrote, without gaps, repetitions or
  changes of order, with and without deadlines on the pipe and for every interleaving of the two goroutines: what was written is
  what was sent, followed by what was dropped, by what the goroutines hold and by what is still in the buffer and the pipe. (Setting
  a deadline does not fail in between, and the size of messages is not zero.)\<close>

theorem uploaded_output_is_prefix:
  assumes "trRun m evs (NewTimeoutReader dl) = Some st" and "0 < m" and "EvRead RcFail \<notin> set evs"
  shows "tr_written st = sentOutput st @ droppedOutput st @ heldUp st @ tr_buf st @ heldFb st @ tr_pipe st"
proof -
  have "allSent st"
    using assms(1) by (rule runSteps_inv) (use allSent_step assms(3) in \<open>auto simp: allSent_def NewTimeoutReader_def\<close>)
  then have "concat (map snd (tr_chunks st)) = sentOutput st @ droppedOutput st"
    by (cases "tr_chunks st" rule: rev_cases)
       (auto simp: allSent_def sentOutput_def droppedOutput_def list_all_iff filter_id_conv)
  with trReaches_inv(2) [OF runSteps_reaches [OF assms(1)] assms(2)] show ?thesis by (simp add: nothingLost_def)
qed

text \<open>C16: The end of the output of a command may be lost. As soon as the reader has stored an error, which is what happens at the end of
  the output, and the uploader is not already about to send something, nothing is sent any more: what is in the
  buffer and what the uploader has read together with the error is dropped.\<close>

theorem output_lost_after_error:
  assumes "trReaches m (NewTimeoutReader dl) st" and "0 < m" and "tr_err st \<noteq> None"
    and "\<And>data. tr_up st \<noteq> UGot data None \<and> tr_up st \<noteq> UGot data (Some DeadlineErr)" and "trReaches m st st'"
  shows "sentOutput st' = sentOutput st"
proof -
  have "failed st"
    using trReaches_inv(1) [OF assms(1,2)] assms(3,4) by (auto simp: failed_def inStep_def split: upPoint.splits if_splits)
  then have "soundEnd st \<and> failed st \<and> sentOutput st = sentOutput st" using trReaches_soundEnd [OF assms(1)] by simp
  with assms(5) have "soundEnd st' \<and> failed st' \<and> sentOutput st' = sentOutput st"
    by (rule stepReaches_inv [where P = "\<lambda>s. soundEnd s \<and> failed s \<and> sentOutput s = sentOutput st"])
       (use soundEnd_step failed_step [OF _ assms(2)] in force)
  then show ?thesis by simp
qed

text \<open>A command writes one byte and ends before the deadline; then the uploader returns and the background reader goes on with a
  closed file.\<close>

definition oneByteRun :: "char \<Rightarrow> trEvent list" where
  "oneByteRun b = [EvWrite [b], EvCloseWriter, EvRequest, EvBackground True, EvBackground True, EvReady, EvRead RcGo, EvFirstByte,
     EvRead RcGo, EvRead RcGo]"

definition crashRun :: "trEvent list" where
  "crashRun = [EvUpload True, EvUpload True, EvBackground True, EvBackground True, EvBackground True, EvBackground True,
     EvBackground True]"

text \<open>C17: A command that writes a single byte can crash the program. The uploader reads the byte together with the end of the output, stores
  \<^verbatim>\<open>io.EOF\<close>, drops the byte and closes the pipe; the background reader then gets the error of a closed file, which has
  another type, and storing it in the same \<^verbatim>\<open>atomic.Value\<close> panics. Nothing was sent.\<close>

theorem single_byte_output_may_panic:
  assumes "1 < m"
  shows "\<exists>st. trRun m (oneByteRun b @ crashRun) (NewTimeoutReader True) = Some st
    \<and> tr_panic st \<and> tr_written st = [b] \<and> sentOutput st = []"
  using assms by (simp add: oneByteRun_def crashRun_def NewTimeoutReader_def tr_op_defs sentOutput_def)

text \<open>Output that waits in the pipe can be sent: while deadlines can be set and both goroutines are at the start of their
  loops, a few steps of theirs, which nothing else has to enable, send what is in the pipe, up to the size of a message, and both
  are at the start again.\<close>

theorem waiting_output_can_be_sent:
  assumes "trReaches m (NewTimeoutReader dl) st" and "0 < m" and "\<not> tr_panic st" and "\<not> tr_cannotSetDeadline st"
    and "tr_up st = WTop" and "tr_fb st = FLoop" and "tr_pipe st = b # rest"
  shows "\<exists>evs st'. trRun m evs st = Some st' \<and> tr_chunks st' = tr_chunks st @ [(True, take m (tr_pipe st))]
    \<and> tr_pipe st' = drop m (tr_pipe st) \<and> tr_up st' = WTop \<and> tr_fb st' = FLoop \<and> \<not> tr_cannotSetDeadline st' \<and> \<not> tr_panic st'"
proof -
  let ?k = "min (m - 1) (length rest)"
  let ?c = "if ?k = 0 then RcTimeout else RcBytes ?k"
  let ?evs = "[EvRequest, EvBackground True, EvBackground True, EvReady, EvRead RcGo, EvFirstByte, EvRead RcGo, EvRead ?c, EvUpload True]"
  have "\<not> tr_readerClosed st" using trReaches_soundEnd [OF assms(1)] assms(5) by (auto simp: soundEnd_def)
  moreover have "take m (tr_pipe st) = b # take ?k rest" "drop m (tr_pipe st) = drop ?k rest"
    using assms(2,7) by (cases m; auto simp: min_def)+
  ultimately have "\<exists>st'. trRun m ?evs st = Some st' \<and> tr_chunks st' = tr_chunks st @ [(True, take m (tr_pipe st))]
      \<and> tr_pipe st' = drop m (tr_pipe st) \<and> tr_up st' = WTop \<and> tr_fb st' = FLoop \<and> \<not> tr_cannotSetDeadline st' \<and> \<not> tr_panic st'"
    using assms(2-7) by (cases "m = 1"; cases "rest = []") (auto simp: tr_op_defs)
  then show ?thesis by blast
qed

section \<open>Examples\<close>

theorem uploaded_output_is_prefix_witness:
  "\<exists>st. trRun 4 ([EvWrite ''hello'', EvRequest, EvBackground True, EvBackground True, EvReady, EvRead RcGo, EvFirstByte,
      EvRead RcGo, EvRead (RcBytes 2), EvUpload True]) (NewTimeoutReader True) = Some st
    \<and> sentOutput st = ''hel'' \<and> tr_pipe st = ''lo''
    \<and> tr_written st = sentOutput st @ droppedOutput st @ heldUp st @ tr_buf st @ heldFb st @ tr_pipe st"
proof -
  let ?evs = "[EvWrite ''hello'', EvRequest, EvBackground True, EvBackground True, EvReady, EvRead RcGo, EvFirstByte,
      EvRead RcGo, EvRead (RcBytes 2), EvUpload True]"
  let ?st = "the (trRun 4 ?evs (NewTimeoutReader True))"
  have r: "trRun 4 ?evs (NewTimeoutReader True) = Some ?st" and s: "sentOutput ?st = ''hel''" "tr_pipe ?st = ''lo''" by code_simp+
  have "EvRead RcFail \<notin> set ?evs" by simp
  from uploaded_output_is_prefix [OF r _ this] r s show ?thesis by (intro exI [of _ ?st]) simp
qed

text \<open>The only byte of a command is dropped.\<close>

theorem output_lost_after_error_witness:
  "\<exists>st st'. trRun 2 (oneByteRun (CHR ''x'')) (NewTimeoutReader True) = Some st \<and> tr_up st = UGot ''x'' (Some EofErr)
    \<and> trRun 2 [EvUpload True, EvUpload True] st = Some st' \<and> tr_up st' = UEnd \<and> sentOutput st' = []"
proof -
  let ?st = "the (trRun 2 (oneByteRun (CHR ''x'')) (NewTimeoutReader True))"
  let ?st' = "the (trRun 2 [EvUpload True, EvUpload True] ?st)"
  have r: "trRun 2 (oneByteRun (CHR ''x'')) (NewTimeoutReader True) = Some ?st"
    and u: "tr_up ?st = UGot ''x'' (Some EofErr)" "tr_err ?st = Some EofErr" "sentOutput ?st = []"
    and r': "trRun 2 [EvUpload True, EvUpload True] ?st = Some ?st'" and u': "tr_up ?st' = UEnd" by code_simp+
  have "sentOutput ?st' = sentOutput ?st"
    by (rule output_lost_after_error [OF runSteps_reaches [OF r] _ _ _ runSteps_reaches [OF r']]) (simp_all add: u)
  with r u r' u' show ?thesis by metis
qed

theorem single_byte_output_may_panic_witness:
  "\<exists>st. trRun 65535 (oneByteRun (CHR ''x'') @ crashRun) (NewTimeoutReader True) = Some st \<and> tr_panic st"
  using single_byte_output_may_panic [of 65535 "CHR ''x''"] by auto

theorem waiting_output_can_be_sent_witness:
  "\<exists>evs st'. trRun 3 evs (NewTimeoutReader True\<lparr>tr_pipe := ''hello'', tr_written := ''hello''\<rparr>) = Some st'
    \<and> tr_chunks st' = [(True, ''hel'')] \<and> tr_pipe st' = ''lo''"
proof -
  let ?st = "NewTimeoutReader True\<lparr>tr_pipe := ''hello'', tr_written := ''hello''\<rparr>"
  have "trRun 3 [EvWrite ''hello''] (NewTimeoutReader True) = Some ?st" by (simp add: trStep_def NewTimeoutReader_def)
  moreover have "\<not> tr_panic ?st" "\<not> tr_cannotSetDeadline ?st" "tr_up ?st = WTop" "tr_fb ?st = FLoop" "tr_pipe ?st = CHR ''h'' # ''ello''"
    "tr_chunks ?st = []"
    by (simp_all add: NewTimeoutReader_def)
  ultimately show ?thesis using waiting_output_can_be_sent [OF runSteps_reaches, of 3 _ True ?st] by fastforce
qed

end
