(* ===== verification/Forward.thy ===== *)
theory Forward
  imports Prelude Steps
begin

text \<open>
  Port forwarding below \<^verbatim>\<open>PortForward\<close>: the table of networks and the dial functions of \<^verbatim>\<open>arhat.dev/pkg/nethelper\<close> (with \<^verbatim>\<open>stdnet\<close>,
  \<^verbatim>\<open>pipenet\<close> and \<^verbatim>\<open>piondtls\<close>), and a forwarded connection as a state machine: the goroutine of \<^verbatim>\<open>nethelper.Forward\<close> that copies the
  input pipe to the connection, and \<^verbatim>\<open>handlePortForward\<close> of \<^verbatim>\<open>libext/extruntime/handle_action.go\<close>, which uploads what the
  connection sends, then waits for the errors of the copying goroutine, closes the pipe and deletes the session, which calls
  the close function of the session's writer. Shown: which networks can be dialled, that input reaches the connection in order,
  and that a session does not end by itself and leaves its connection open.
\<close>

section \<open>Networks\<close>

datatype tlsCfg = NoTLS | StdTLS | DtlsTLS | OtherTLS

text \<open>The type of an optional dialer: none, \<^verbatim>\<open>*net.Dialer\<close>, \<^verbatim>\<open>*pipenet.Dialer\<close>, another one.\<close>

datatype dialerArg = NoDialer | NetDialer | PipeDialer | OtherDialer

datatype netDriver = StdNet | PipeNet | PionDtls

type_synonym networkTable = "(string \<times> bool) \<rightharpoonup> netDriver"

definition nethelper_Register :: "string \<Rightarrow> bool \<Rightarrow> netDriver \<Rightarrow> networkTable \<Rightarrow> networkTable" where
  "nethelper_Register network supportTLS d supportedNetwork = supportedNetwork((network, supportTLS) \<mapsto> d)"

definition stdnet_init :: "networkTable \<Rightarrow> networkTable" where
  "stdnet_init t =
     fold (\<lambda>n. nethelper_Register n False StdNet) [''udp'', ''udp4'', ''udp6'', ''unixpacket'', ''unixgram'']
       (fold (\<lambda>n t. nethelper_Register n False StdNet (nethelper_Register n True StdNet t)) [''tcp'', ''tcp4'', ''tcp6'', ''unix''] t)"

definition pipenet_init :: "networkTable \<Rightarrow> networkTable" where
  "pipenet_init t = nethelper_Register ''pipe'' True PipeNet (nethelper_Register ''pipe'' False PipeNet t)"

definition piondtls_init :: "networkTable \<Rightarrow> networkTable" where
  "piondtls_init t = fold (\<lambda>n. nethelper_Register n True PionDtls) [''udp'', ''udp4'', ''udp6''] t"

text \<open>The imports of \<^verbatim>\<open>main.go\<close>.\<close>

definition supportedNetwork :: networkTable where
  "supportedNetwork = stdnet_init (pipenet_init (piondtls_init (\<lambda>_. None)))"

definition ErrDialerInvalid :: goerr where "ErrDialerInvalid = ErrNew ''invalid dialer''"
definition ErrTLSConfigInvalid :: goerr where "ErrTLSConfigInvalid = ErrNew ''invalid tls config''"

text \<open>The connections of the operating system, of the pipe library and of the DTLS library are arguments.\<close>

record 'c dialers =
  di_net :: "string \<Rightarrow> string \<Rightarrow> goerr + 'c"
  di_pipe :: "string \<Rightarrow> goerr + 'c"
  di_tlsClient :: "'c \<Rightarrow> 'c"
  di_dtlsClient :: "'c \<Rightarrow> goerr + 'c"

definition stdnet_dial :: "'c dialers \<Rightarrow> dialerArg \<Rightarrow> string \<Rightarrow> string \<Rightarrow> tlsCfg \<Rightarrow> goerr + 'c" where
  "stdnet_dial di dialer network addr tls =
     (if tls \<notin> {NoTLS, StdTLS} then Inl ErrTLSConfigInvalid
      else if dialer \<notin> {NoDialer, NetDialer} then Inl ErrDialerInvalid
      else case di_net di network addr of
        Inl e \<Rightarrow> Inl e
      | Inr conn \<Rightarrow> Inr (if tls = NoTLS then conn else di_tlsClient di conn))"

definition pipenet_dial :: "'c dialers \<Rightarrow> dialerArg \<Rightarrow> string \<Rightarrow> string \<Rightarrow> tlsCfg \<Rightarrow> goerr + 'c" where
  "pipenet_dial di dialer network addr tls =
     (if tls \<notin> {NoTLS, StdTLS} then Inl ErrTLSConfigInvalid
      else if dialer \<notin> {NoDialer, PipeDialer} then Inl ErrDialerInvalid
      else case di_pipe di addr of
        Inl e \<Rightarrow> Inl e
      | Inr conn \<Rightarrow> Inr (if tls = NoTLS then conn else di_tlsClient di conn))"

definition piondtls_dial :: "'c dialers \<Rightarrow> dialerArg \<Rightarrow> string \<Rightarrow> string \<Rightarrow> tlsCfg \<Rightarrow> goerr + 'c" where
  "piondtls_dial di dialer network addr tls =
     (if tls \<notin> {StdTLS, DtlsTLS} then Inl ErrTLSConfigInvalid
      else if dialer \<notin> {NoDialer, NetDialer} then Inl ErrDialerInvalid
      else case di_net di network addr of Inl e \<Rightarrow> Inl e | Inr conn \<Rightarrow> di_dtlsClient di conn)"

definition Dial :: "'c dialers \<Rightarrow> dialerArg \<Rightarrow> string \<Rightarrow> string \<Rightarrow> tlsCfg \<Rightarrow> goerr + 'c" where
  "Dial di dialer network addr tls =
     (case supportedNetwork (network, tls \<noteq> NoTLS) of
        None \<Rightarrow> Inl ErrNotSupported
      | Some StdNet \<Rightarrow> stdnet_dial di dialer network addr tls
      | Some PipeNet \<Rightarrow> pipenet_dial di dialer network addr tls
      | Some PionDtls \<Rightarrow> piondtls_dial di dialer network addr tls)"

section \<open>A forwarded connection\<close>

text \<open>Where the copying goroutine and the handler are. The copying goroutine sends its error, if any, on an unbuffered
  channel and closes that.\<close>

datatype copyPhase = Copying | CopyErr goerr | CopyDone
datatype fwPhase = HUpload | HDrain "goerr option" | HDone "goerr option"

record fwState =
  fw_pipe :: string
  fw_pwClosed :: bool
  fw_delivered :: string
  fw_writeClosed :: bool
  fw_connClosed :: bool
  fw_remoteEnd :: bool
  fw_ctxDone :: bool
  fw_sleeping :: bool
  fw_copy :: copyPhase
  fw_handler :: fwPhase
  fw_input :: string

text \<open>After a successful dial. \<^const>\<open>fw_input\<close> records what the session wrote.\<close>

definition forwardStart :: fwState where
  "forwardStart = \<lparr>fw_pipe = [], fw_pwClosed = False, fw_delivered = [], fw_writeClosed = False, fw_connClosed = False,
     fw_remoteEnd = False, fw_ctxDone = False, fw_sleeping = False, fw_copy = Copying, fw_handler = HUpload, fw_input = []\<rparr>"

text \<open>The close function of the session's writer. For a pipe of the operating system the wait is the time for the bytes in it, in whole
  seconds at 100 KB/s (\<^verbatim>\<open>time.Duration(n) / 1024 / 100 * time.Second\<close>), and without a wait nothing is closed.\<close>

definition closeFunc :: "bool \<Rightarrow> fwState \<Rightarrow> fwState" where
  "closeFunc isFile st =
     (if \<not> isFile \<or> 0 < length (fw_pipe st) div 1024 div 100 then st\<lparr>fw_sleeping := True\<rparr> else st)"

text \<open>The deferred function of \<^verbatim>\<open>handlePortForward\<close>: close the pipe, send the last message, delete the session.\<close>

definition finishForward :: "bool \<Rightarrow> goerr option \<Rightarrow> fwState \<Rightarrow> fwState" where
  "finishForward isFile err st = closeFunc isFile (st\<lparr>fw_pwClosed := True, fw_handler := HDone err\<rparr>)"

text \<open>\<^verbatim>\<open>err = e\<close>, or \<^verbatim>\<open>err = fmt.Errorf("%v; %w", err, e)\<close>.\<close>

definition drainErr :: "goerr option \<Rightarrow> goerr \<Rightarrow> goerr option" where
  "drainErr err e = (case err of None \<Rightarrow> Some e | Some e' \<Rightarrow> Some (ErrMulti [e', e]))"

text \<open>The events: input of the session, the other side ends or the context does, the closing goroutine wakes up; the copying goroutine copies, sees the end of
  the pipe, or fails to write some bytes; the upload ends; the handler receives an error, sees the channel closed or the context ended.\<close>

datatype fwEvent = FInput string | FRemoteEnd | FCtxDone | FWake | FCopy nat | FCopyEnd | FCopyFail goerr nat | FCopyCtx | FUploadEnd
  | FRecvErr | FRecvClosed | FDrainCtx

fun fwStep :: "bool \<Rightarrow> fwEvent \<Rightarrow> fwState \<Rightarrow> fwState option" where
  "fwStep isFile (FInput s) st =
     (if fw_pwClosed st then None else Some (st\<lparr>fw_pipe := fw_pipe st @ s, fw_input := fw_input st @ s\<rparr>))"
| "fwStep isFile FRemoteEnd st = Some (st\<lparr>fw_remoteEnd := True\<rparr>)"
| "fwStep isFile FCtxDone st = Some (st\<lparr>fw_ctxDone := True\<rparr>)"
| "fwStep isFile FWake st =
     (if fw_sleeping st
      then Some (st\<lparr>fw_sleeping := False, fw_pwClosed := True, fw_writeClosed := True, fw_connClosed := True\<rparr>) else None)"
| "fwStep isFile (FCopy n) st =
     (if fw_copy st = Copying \<and> \<not> fw_connClosed st \<and> 0 < n \<and> n \<le> length (fw_pipe st)
      then Some (st\<lparr>fw_pipe := drop n (fw_pipe st), fw_delivered := fw_delivered st @ take n (fw_pipe st)\<rparr>) else None)"
| "fwStep isFile FCopyEnd st =
     (if fw_copy st = Copying \<and> fw_pipe st = [] \<and> fw_pwClosed st then Some (st\<lparr>fw_copy := CopyDone\<rparr>) else None)"
| "fwStep isFile (FCopyFail e n) st =
     (if fw_copy st = Copying \<and> 0 < n \<and> n \<le> length (fw_pipe st) \<and> (fw_connClosed st \<or> fw_remoteEnd st)
      then Some (st\<lparr>fw_pipe := drop n (fw_pipe st), fw_copy := CopyErr e\<rparr>) else None)"
| "fwStep isFile FCopyCtx st =
     (case fw_copy st of CopyErr _ \<Rightarrow> if fw_ctxDone st then Some (st\<lparr>fw_copy := CopyDone\<rparr>) else None | _ \<Rightarrow> None)"
| "fwStep isFile FUploadEnd st =
     (if fw_handler st = HUpload \<and> (fw_remoteEnd st \<or> fw_connClosed st \<or> fw_ctxDone st)
      then Some (st\<lparr>fw_handler := HDrain None\<rparr>) else None)"
| "fwStep isFile FRecvErr st =
     (case (fw_handler st, fw_copy st) of
        (HDrain err, CopyErr e) \<Rightarrow> Some (st\<lparr>fw_handler := HDrain (drainErr err e), fw_copy := CopyDone\<rparr>)
      | _ \<Rightarrow> None)"
| "fwStep isFile FRecvClosed st =
     (case (fw_handler st, fw_copy st) of
        (HDrain err, CopyDone) \<Rightarrow> Some (finishForward isFile err st)
      | _ \<Rightarrow> None)"
| "fwStep isFile FDrainCtx st =
     (case fw_handler st of
        HDrain err \<Rightarrow> if fw_ctxDone st then Some (finishForward isFile err st) else None
      | _ \<Rightarrow> None)"

abbreviation fwReaches :: "bool \<Rightarrow> fwState \<Rightarrow> fwState \<Rightarrow> bool" where
  "fwReaches isFile \<equiv> stepReaches (fwStep isFile)"

abbreviation fwRun :: "bool \<Rightarrow> fwEvent list \<Rightarrow> fwState \<Rightarrow> fwState option" where
  "fwRun isFile \<equiv> runSteps (fwStep isFile)"

section \<open>Invariants\<close>

definition inputKept :: "fwState \<Rightarrow> bool" where
  "inputKept st \<longleftrightarrow> (\<exists>lost. fw_input st = fw_delivered st @ lost @ fw_pipe st \<and> (fw_copy st = Copying \<longrightarrow> lost = []))"

lemma inputKept_step: "fwStep isFile ev st = Some st' \<Longrightarrow> inputKept st \<Longrightarrow> inputKept st'"
proof (cases ev)
  case (FCopyFail e n)
  assume step: "fwStep isFile ev st = Some st'" and "inputKept st"
  then have "fw_input st = fw_delivered st @ fw_pipe st" using FCopyFail by (auto simp: inputKept_def split: if_splits)
  with step FCopyFail show ?thesis
    by (auto simp: inputKept_def split: if_splits intro!: exI [of _ "take n (fw_pipe st)"])
next
  case (FCopy n)
  assume step: "fwStep isFile ev st = Some st'" and "inputKept st"
  then have "fw_input st = fw_delivered st @ fw_pipe st" using FCopy by (auto simp: inputKept_def split: if_splits)
  with step FCopy show ?thesis by (auto simp: inputKept_def split: if_splits)
qed (auto simp: inputKept_def finishForward_def closeFunc_def split: if_splits copyPhase.splits fwPhase.splits prod.splits)

text \<open>The pipe is closed, and the closing goroutine started, only when the handler ends.\<close>

definition handlerEnded :: "fwState \<Rightarrow> bool" where
  "handlerEnded st = (case fw_handler st of HDone _ \<Rightarrow> True | _ \<Rightarrow> False)"

definition closedLast :: "fwState \<Rightarrow> bool" where
  "closedLast st \<longleftrightarrow>
     (\<not> handlerEnded st \<longrightarrow> \<not> fw_pwClosed st \<and> \<not> fw_sleeping st \<and> \<not> fw_connClosed st \<and> \<not> fw_writeClosed st)"

lemma closedLast_step: "fwStep isFile ev st = Some st' \<Longrightarrow> closedLast st \<Longrightarrow> closedLast st'"
  by (cases ev)
     (auto simp: closedLast_def handlerEnded_def finishForward_def closeFunc_def split: if_splits copyPhase.splits fwPhase.splits)

lemma fwReaches_closedLast: "fwReaches isFile forwardStart st \<Longrightarrow> closedLast st"
  by (erule stepReaches_inv [where P = closedLast]) (use closedLast_step in \<open>auto simp: closedLast_def forwardStart_def\<close>)

text \<open>The state of a session that waits for its copying goroutine, which waits for input.\<close>

definition waitsForInput :: "fwState \<Rightarrow> bool" where
  "waitsForInput st \<longleftrightarrow> closedLast st \<and> \<not> handlerEnded st \<and> \<not> fw_ctxDone st \<and> fw_copy st = Copying \<and> fw_pipe st = []"

lemma waitsForInput_step:
  "fwStep isFile ev st = Some st' \<Longrightarrow> ev \<noteq> FCtxDone \<Longrightarrow> (\<And>s. ev \<noteq> FInput s) \<Longrightarrow> waitsForInput st \<Longrightarrow> waitsForInput st'"
  by (cases ev)
     (auto simp: waitsForInput_def closedLast_def handlerEnded_def split: if_splits copyPhase.splits fwPhase.splits)

text \<open>The session has ended and nothing will close the connection.\<close>

definition leftOpen :: "fwState \<Rightarrow> bool" where
  "leftOpen st \<longleftrightarrow> handlerEnded st \<and> \<not> fw_sleeping st \<and> \<not> fw_connClosed st \<and> \<not> fw_writeClosed st"

lemma leftOpen_step: "fwStep isFile ev st = Some st' \<Longrightarrow> leftOpen st \<Longrightarrow> leftOpen st'"
  by (cases ev) (auto simp: leftOpen_def handlerEnded_def split: if_splits copyPhase.splits fwPhase.splits)

section \<open>The properties\<close>

text \<open>Which network is dialled how. Without TLS, as port forwarding dials, the networks of the operating system and pipes can be
  dialled and every other network is refused as not supported; with TLS the stream networks and pipes get a TLS client and UDP a
  DTLS one, and Unix datagram and packet sockets are refused.\<close>

theorem dial_by_network:
  "Dial di NoDialer network addr NoTLS =
     (if network \<in> set [''tcp'', ''tcp4'', ''tcp6'', ''unix'', ''udp'', ''udp4'', ''udp6'', ''unixpacket'', ''unixgram'']
      then di_net di network addr else if network = ''pipe'' then di_pipe di addr else Inl ErrNotSupported)
   \<and> Dial di NoDialer network addr StdTLS =
     (if network \<in> set [''tcp'', ''tcp4'', ''tcp6'', ''unix'']
      then (case di_net di network addr of Inl e \<Rightarrow> Inl e | Inr conn \<Rightarrow> Inr (di_tlsClient di conn))
      else if network \<in> set [''udp'', ''udp4'', ''udp6'']
      then (case di_net di network addr of Inl e \<Rightarrow> Inl e | Inr conn \<Rightarrow> di_dtlsClient di conn)
      else if network = ''pipe'' then (case di_pipe di addr of Inl e \<Rightarrow> Inl e | Inr conn \<Rightarrow> Inr (di_tlsClient di conn))
      else Inl ErrNotSupported)"
  by (auto simp: Dial_def supportedNetwork_def stdnet_init_def pipenet_init_def piondtls_init_def nethelper_Register_def
      stdnet_dial_def pipenet_dial_def piondtls_dial_def split: sum.splits)

text \<open>Forwarded input arrives in order: what the connection got is a prefix of what the session wrote, and as long as the copying
  goroutine has not failed, the rest is in the pipe.\<close>

theorem forwarded_input_in_order:
  assumes "fwReaches isFile forwardStart st"
  shows "\<exists>lost. fw_input st = fw_delivered st @ lost @ fw_pipe st \<and> (fw_copy st = Copying \<longrightarrow> lost = [])"
proof -
  from assms have "inputKept st"
    by (rule stepReaches_inv [where P = inputKept]) (use inputKept_step in \<open>auto simp: inputKept_def forwardStart_def\<close>)
  then show ?thesis by (simp add: inputKept_def)
qed

text \<open>C18: A port forward does not end when the forwarded connection does. The handler waits for the copying goroutine, that one for
  the end of the input pipe, and the pipe is closed by the handler when it ends; so once all input has been copied, the
  handler does not return, even after the other side has closed the connection, unless more input comes or the context ends.\<close>

theorem port_forward_waits_for_input:
  assumes "fwReaches isFile forwardStart st" and "\<not> handlerEnded st" and "\<not> fw_ctxDone st" and "fw_copy st = Copying"
    and "fw_pipe st = []" and "fwRun isFile evs st = Some st'" and "FCtxDone \<notin> set evs" and "\<And>s. FInput s \<notin> set evs"
  shows "\<not> handlerEnded st' \<and> \<not> fw_pwClosed st' \<and> \<not> fw_writeClosed st'"
proof -
  have "waitsForInput st" using assms(2-5) fwReaches_closedLast [OF assms(1)] by (simp add: waitsForInput_def)
  with assms(6) have "waitsForInput st'" by (rule runSteps_inv) (use waitsForInput_step assms(7,8) in blast)
  then show ?thesis by (simp add: waitsForInput_def closedLast_def)
qed

text \<open>C19: A port forward leaves its connection open. When the handler returns with less than 100 KB of input in the pipe, which is
  always so unless the copying was interrupted, the wait is rounded to zero seconds and nothing ever closes the connection, nor
  its writing side.\<close>

theorem port_forward_leaves_connection_open:
  assumes "fwReaches True forwardStart st" and "fwStep True ev st = Some st1" and "\<not> handlerEnded st" and "handlerEnded st1"
    and "length (fw_pipe st) < 102400" and "fwReaches True st1 st'"
  shows "\<not> fw_connClosed st' \<and> \<not> fw_writeClosed st'"
proof -
  have "closedLast st" by (rule fwReaches_closedLast [OF assms(1)])
  with assms(2-5) have "leftOpen st1"
    by (cases ev)
       (auto simp: leftOpen_def closedLast_def handlerEnded_def finishForward_def closeFunc_def
         split: if_splits copyPhase.splits fwPhase.splits)
  with assms(6) have "leftOpen st'" by (rule stepReaches_inv) (use leftOpen_step in blast)
  then show ?thesis by (simp add: leftOpen_def)
qed

section \<open>Examples\<close>

text \<open>Input is copied, the other side answers and ends; the handler waits until the context ends.\<close>

definition exampleForward :: "fwEvent list" where
  "exampleForward = [FInput ''GET /'', FCopy 3, FCopy 2]"

theorem forwarded_input_in_order_witness:
  "\<exists>st. fwRun True [FInput ''GET /'', FCopy 3] forwardStart = Some st \<and> fw_delivered st = ''GET''
    \<and> fw_input st = fw_delivered st @ fw_pipe st"
proof -
  let ?st = "the (fwRun True [FInput ''GET /'', FCopy 3] forwardStart)"
  have r: "fwRun True [FInput ''GET /'', FCopy 3] forwardStart = Some ?st" and f: "fw_delivered ?st = ''GET''" "fw_copy ?st = Copying"
    by code_simp+
  from forwarded_input_in_order [OF runSteps_reaches [OF r]] f r show ?thesis by (intro exI [of _ ?st]) auto
qed

theorem port_forward_waits_for_input_witness:
  "\<exists>st st'. fwRun True exampleForward forwardStart = Some st \<and> fwRun True [FRemoteEnd, FUploadEnd] st = Some st'
    \<and> fw_handler st' = HDrain None \<and> \<not> handlerEnded st' \<and> \<not> fw_writeClosed st'"
proof -
  let ?st = "the (fwRun True exampleForward forwardStart)"
  let ?st' = "the (fwRun True [FRemoteEnd, FUploadEnd] ?st)"
  have r: "fwRun True exampleForward forwardStart = Some ?st" "fwRun True [FRemoteEnd, FUploadEnd] ?st = Some ?st'"
    and f: "\<not> handlerEnded ?st" "\<not> fw_ctxDone ?st" "fw_copy ?st = Copying" "fw_pipe ?st = []" "fw_handler ?st' = HDrain None"
    by code_simp+
  from port_forward_waits_for_input [OF runSteps_reaches [OF r(1)] f(1-4) r(2)] have "\<not> handlerEnded ?st' \<and> \<not> fw_writeClosed ?st'" by simp
  with r f(5) show ?thesis by blast
qed

theorem port_forward_leaves_connection_open_witness:
  "\<exists>st st1. fwRun True (exampleForward @ [FCtxDone, FUploadEnd]) forwardStart = Some st \<and> fwStep True FDrainCtx st = Some st1
    \<and> handlerEnded st1 \<and> \<not> fw_connClosed st1"
proof -
  let ?st = "the (fwRun True (exampleForward @ [FCtxDone, FUploadEnd]) forwardStart)"
  let ?st1 = "the (fwStep True FDrainCtx ?st)"
  have r: "fwRun True (exampleForward @ [FCtxDone, FUploadEnd]) forwardStart = Some ?st" "fwStep True FDrainCtx ?st = Some ?st1"
    and f: "\<not> handlerEnded ?st" "handlerEnded ?st1" "length (fw_pipe ?st) < 102400"
    by (simp_all add: exampleForward_def forwardStart_def finishForward_def closeFunc_def handlerEnded_def)
  from port_forward_leaves_connection_open [OF runSteps_reaches [OF r(1)] r(2) f reaches_refl] r f(2) show ?thesis by blast
qed

end
