(* ===== verification/RemoveAll.thy ===== *)
theory RemoveAll
  imports GoStd
begin

text \<open>
  \<^verbatim>\<open>RemoveAllOneFilesystem\<close> (\<^verbatim>\<open>storageutil/remove.go\<close>) with \<^verbatim>\<open>IsLikelyNotMountPoint\<close>
  (\<^verbatim>\<open>remove_check_unix.go\<close>) over a file tree. A node carries the number of the device it
  is stored on; a directory can be a mount point. Removing an entry or opening a
  directory may be refused for any set of paths.
\<close>

section \<open>File trees\<close>

datatype fnode =
    FFile nat
  | FDir nat bool "(string \<times> fnode) list"

record fsPerm =
  fp_denyRemove :: "string \<Rightarrow> bool"
  fp_denyOpen :: "string \<Rightarrow> bool"

fun dev_of :: "fnode \<Rightarrow> nat" where
  "dev_of (FFile d) = d"
| "dev_of (FDir d m es) = d"

text \<open>\<^verbatim>\<open>os.Remove\<close>: a file, or a directory that is empty and not a mount point.\<close>

fun os_Remove :: "fsPerm \<Rightarrow> string \<Rightarrow> fnode \<Rightarrow> goerr option" where
  "os_Remove pm path (FFile d) = (if fp_denyRemove pm path then Some (ErrExt ''permission denied'') else None)"
| "os_Remove pm path (FDir d m es) =
     (if fp_denyRemove pm path then Some (ErrExt ''permission denied'')
      else if m then Some (ErrExt ''device or resource busy'')
      else if es \<noteq> [] then Some (ErrExt ''directory not empty'')
      else None)"

text \<open>Only a directory on another device than its parent is recognised as a mount point.\<close>

definition IsLikelyNotMountPoint :: "nat \<Rightarrow> fnode \<Rightarrow> bool" where
  "IsLikelyNotMountPoint parentDev x \<longleftrightarrow> dev_of x = parentDev"

section \<open>Removal\<close>

text \<open>
  The result is what is left at the path and the error. The second function is the loop
  over the names of a directory, which keeps the first error.
\<close>

fun removeNode :: "fsPerm \<Rightarrow> nat \<Rightarrow> string \<Rightarrow> fnode \<Rightarrow> fnode option \<times> goerr option"
and removeEntries :: "fsPerm \<Rightarrow> nat \<Rightarrow> string \<Rightarrow> (string \<times> fnode) list \<Rightarrow> (string \<times> fnode) list \<times> goerr option" where
  "removeNode pm parentDev path (FFile d) =
     (case os_Remove pm path (FFile d) of None \<Rightarrow> (None, None) | Some err \<Rightarrow> (Some (FFile d), Some err))"
| "removeNode pm parentDev path (FDir d m es) =
     (case os_Remove pm path (FDir d m es) of
        None \<Rightarrow> (None, None)
      | Some _ \<Rightarrow>
          if \<not> IsLikelyNotMountPoint parentDev (FDir d m es) then
            (Some (FDir d m es), Some (ErrNew (''cannot delete directory '' @ path @ '': it is a mount point'')))
          else if fp_denyOpen pm path then (Some (FDir d m es), Some (ErrExt ''permission denied''))
          else case removeEntries pm d path es of
            (es', err) \<Rightarrow>
              (case os_Remove pm path (FDir d m es') of
                 None \<Rightarrow> (None, None)
               | Some err1 \<Rightarrow> (Some (FDir d m es'), Some (case err of None \<Rightarrow> err1 | Some e \<Rightarrow> e))))"
| "removeEntries pm dev path [] = ([], None)"
| "removeEntries pm dev path ((name, x) # es) =
     (case removeNode pm dev (path @ ''/'' @ name) x of
        (x', err) \<Rightarrow>
          (case removeEntries pm dev path es of
             (es', err') \<Rightarrow>
               ((case x' of None \<Rightarrow> es' | Some y \<Rightarrow> (name, y) # es'),
                (case err of Some e \<Rightarrow> Some e | None \<Rightarrow> err'))))"

text \<open>A path that does not exist is a success.\<close>

definition RemoveAllOneFilesystem ::
  "fsPerm \<Rightarrow> nat \<Rightarrow> string \<Rightarrow> fnode option \<Rightarrow> fnode option \<times> goerr option" where
  "RemoveAllOneFilesystem pm parentDev path root =
     (case root of None \<Rightarrow> (None, None) | Some x \<Rightarrow> removeNode pm parentDev path x)"

section \<open>What must survive\<close>

text \<open>
  A tree as the kernel builds it: a node is on the device of its parent unless it is a
  mount point, and a mount point is on another device (mounts of one part of a device
  onto another are what \<^verbatim>\<open>IsLikelyNotMountPoint\<close> documents not to see).
\<close>

fun wf_fs :: "nat \<Rightarrow> fnode \<Rightarrow> bool" where
  "wf_fs parentDev (FFile d) = (d = parentDev)"
| "wf_fs parentDev (FDir d m es) = ((m \<longleftrightarrow> d \<noteq> parentDev) \<and> (\<forall>(n, x) \<in> set es. wf_fs d x))"

text \<open>The mounted trees at or below a path, each with the path it is mounted at.\<close>

fun mounts_at :: "string \<Rightarrow> fnode \<Rightarrow> (string \<times> fnode) list" where
  "mounts_at path (FFile d) = []"
| "mounts_at path (FDir d m es) =
     (if m then [(path, FDir d m es)] else concat (map (\<lambda>(n, x). mounts_at (path @ ''/'' @ n) x) es))"

abbreviation mounts_opt :: "string \<Rightarrow> fnode option \<Rightarrow> (string \<times> fnode) list" where
  "mounts_opt path x \<equiv> (case x of None \<Rightarrow> [] | Some y \<Rightarrow> mounts_at path y)"

abbreviation mounts_in :: "string \<Rightarrow> (string \<times> fnode) list \<Rightarrow> (string \<times> fnode) list" where
  "mounts_in path es \<equiv> concat (map (\<lambda>(n, x). mounts_at (path @ ''/'' @ n) x) es)"

text \<open>Nothing is refused.\<close>

definition allowAll :: fsPerm where
  "allowAll = \<lparr>fp_denyRemove = (\<lambda>_. False), fp_denyOpen = (\<lambda>_. False)\<rparr>"

lemma os_Remove_DirD: "os_Remove pm path (FDir d m es) = None \<Longrightarrow> \<not> m \<and> es = []"
  by (simp split: if_splits)

declare os_Remove.simps [simp del]

lemma removeNode_error_iff:
  "snd (removeNode pm pd path x) = None \<longleftrightarrow> fst (removeNode pm pd path x) = None"
  by (cases x) (auto split: option.split prod.split)

lemma removal_keeps_mounts:
  "wf_fs pd x \<Longrightarrow> mounts_opt path (fst (removeNode pm pd path x)) = mounts_at path x"
  "(\<forall>(n, x)\<in>set es. wf_fs d x) \<Longrightarrow> mounts_in path (fst (removeEntries pm d path es)) = mounts_in path es"
proof (induction pm pd path x and pm d path es rule: removeNode_removeEntries.induct)
  case (1 pm pd path d)
  then show ?case by (simp split: option.split)
next
  case (2 pm pd path d m es)
  show ?case
  proof (cases "os_Remove pm path (FDir d m es)")
    case None
    with os_Remove_DirD [OF None] show ?thesis by simp
  next
    case (Some err0)
    show ?thesis
    proof (cases "d \<noteq> pd \<or> fp_denyOpen pm path")
      case True
      with Some show ?thesis by (auto simp: IsLikelyNotMountPoint_def)
    next
      case False
      with "2.prems" have nm: "\<not> m" and sub: "\<forall>(n, x)\<in>set es. wf_fs d x" by auto
      obtain es' err where r: "removeEntries pm d path es = (es', err)" by fastforce
      have same: "mounts_in path es' = mounts_in path es"
        using "2.IH" [OF Some] False sub r by (auto simp: IsLikelyNotMountPoint_def)
      show ?thesis
      proof (cases "os_Remove pm path (FDir d m es')")
        case None
        with os_Remove_DirD [OF None] same have "mounts_in path es = []" by simp
        with None nm False Some r show ?thesis by (simp add: IsLikelyNotMountPoint_def)
      next
        case (Some e)
        with \<open>os_Remove pm path (FDir d m es) = Some err0\<close> nm False r same show ?thesis
          by (simp add: IsLikelyNotMountPoint_def)
      qed
    qed
  qed
next
  case (3 pm dev path)
  then show ?case by simp
next
  case (4 pm dev path name x es)
  obtain x' err where x: "removeNode pm dev (path @ ''/'' @ name) x = (x', err)" by fastforce
  obtain es' err' where es: "removeEntries pm dev path es = (es', err')" by fastforce
  from 4 x es show ?case by (cases x') auto
qed

text \<open>Without mount points and refusals everything goes.\<close>

lemma removal_complete:
  "wf_fs pd x \<Longrightarrow> mounts_at path x = [] \<Longrightarrow> pm = allowAll \<Longrightarrow> removeNode pm pd path x = (None, None)"
  "(\<forall>(n, x)\<in>set es. wf_fs d x) \<Longrightarrow> mounts_in path es = [] \<Longrightarrow> pm = allowAll \<Longrightarrow> removeEntries pm d path es = ([], None)"
proof (induction pm pd path x and pm d path es rule: removeNode_removeEntries.induct)
  case (1 pm pd path d)
  then show ?case by (simp add: os_Remove.simps allowAll_def)
next
  case (2 pm pd path d m es)
  then have nm: "\<not> m" by (auto split: if_splits)
  show ?case
  proof (cases "os_Remove pm path (FDir d m es)")
    case (Some err0)
    have "removeEntries pm d path es = ([], None)"
      using "2.IH" [OF Some] "2.prems" nm by (auto simp: IsLikelyNotMountPoint_def allowAll_def)
    with Some nm "2.prems" show ?thesis
      by (auto simp: IsLikelyNotMountPoint_def allowAll_def os_Remove.simps)
  qed simp
qed auto

section \<open>Properties\<close>

text \<open>C39: removal never crosses into another file system: whatever it may or may not remove, every tree that is
  mounted at or below the path is still mounted at the same place, with everything in it.\<close>

theorem remove_all_keeps_mounted_trees:
  assumes "wf_fs parentDev x"
  shows "mounts_opt path (fst (RemoveAllOneFilesystem pm parentDev path (Some x))) = mounts_at path x"
  using removal_keeps_mounts(1) [OF assms] by (simp add: RemoveAllOneFilesystem_def)

text \<open>Witness: a pod directory with a file and a remote volume that is still mounted; the file goes, the volume stays.\<close>

definition examplePodTree :: fnode where
  "examplePodTree = FDir 1 False [(''resolv.conf'', FFile 1), (''remote'', FDir 1 False [(''vol'', FDir 2 True [(''data'', FFile 2)])])]"

theorem remove_all_keeps_mounted_trees_witness:
  "mounts_opt ''/p'' (fst (RemoveAllOneFilesystem allowAll 1 ''/p'' (Some examplePodTree))) =
     [(''/p/remote/vol'', FDir 2 True [(''data'', FFile 2)])]
   \<and> fst (RemoveAllOneFilesystem allowAll 1 ''/p'' (Some examplePodTree)) =
     Some (FDir 1 False [(''remote'', FDir 1 False [(''vol'', FDir 2 True [(''data'', FFile 2)])])])"
proof
  show "mounts_opt ''/p'' (fst (RemoveAllOneFilesystem allowAll 1 ''/p'' (Some examplePodTree))) =
     [(''/p/remote/vol'', FDir 2 True [(''data'', FFile 2)])]"
    using remove_all_keeps_mounted_trees [of 1 examplePodTree "''/p''" allowAll] by (simp add: examplePodTree_def)
  show "fst (RemoveAllOneFilesystem allowAll 1 ''/p'' (Some examplePodTree)) =
     Some (FDir 1 False [(''remote'', FDir 1 False [(''vol'', FDir 2 True [(''data'', FFile 2)])])])"
    by code_simp
qed

text \<open>Removal reports the truth: it returns no error exactly when nothing is left at the path, and when there is no
  mount point below the path and nothing is refused, it succeeds.\<close>

theorem remove_all_error_iff_left:
  "(snd (RemoveAllOneFilesystem pm parentDev path root) = None
     \<longleftrightarrow> fst (RemoveAllOneFilesystem pm parentDev path root) = None)
   \<and> (\<forall>x. root = Some x \<and> wf_fs parentDev x \<and> mounts_at path x = [] \<longrightarrow>
         RemoveAllOneFilesystem allowAll parentDev path root = (None, None))"
  using removeNode_error_iff [of pm parentDev path] removal_complete(1) [of parentDev _ path allowAll]
  by (auto simp: RemoveAllOneFilesystem_def split: option.split)

text \<open>Witness: a tree without mount points.\<close>

theorem remove_all_error_iff_left_witness:
  "RemoveAllOneFilesystem allowAll 1 ''/p'' (Some (FDir 1 False [(''a'', FFile 1), (''b'', FDir 1 False [(''c'', FFile 1)])])) = (None, None)"
  using remove_all_error_iff_left [of allowAll 1 "''/p''" "Some (FDir 1 False [(''a'', FFile 1), (''b'', FDir 1 False [(''c'', FFile 1)])])"]
  by simp

end
