(* ===== verification/Flags.thy ===== *)
theory Flags
  imports GoStd
begin

text \<open>
  Command line flags: the part of \<^verbatim>\<open>github.com/spf13/pflag\<close> the program uses. A flag knows how its
  constructor initialises the variable it is bound to and how \<^verbatim>\<open>Value.Set\<close> changes that variable;
  the variables of all flags are one value \<open>'c\<close>. Shown: parsing a command line is setting the flags
  it gives, in order, whatever the variables held before.
\<close>

section \<open>Flag sets\<close>

text \<open>
  The first argument of \<open>fl_Value_Set\<close> is the \<^verbatim>\<open>changed\<close> field of the value, which is set together
  with \<^verbatim>\<open>Flag.Changed\<close>.
\<close>

record 'c flagDef =
  fl_Name :: string
  fl_Shorthand :: "char option"
  fl_NoOptDefVal :: string
  fl_Init :: "'c \<Rightarrow> 'c"
  fl_Value_Set :: "bool \<Rightarrow> string \<Rightarrow> 'c \<Rightarrow> goerr + 'c"

record 'c flagSet =
  fs_formal :: "'c flagDef list"
  fs_changed :: "string list"
  fs_args :: "string list"
  fs_vars :: 'c

definition fs_Lookup :: "'c flagSet \<Rightarrow> string \<Rightarrow> 'c flagDef option" where
  "fs_Lookup f name = find (\<lambda>fl. fl_Name fl = name) (fs_formal f)"

definition fs_Changed :: "'c flagSet \<Rightarrow> string \<Rightarrow> bool" where
  "fs_Changed f name \<longleftrightarrow> name \<in> set (fs_changed f)"

definition NewFlagSet :: "'c \<Rightarrow> 'c flagSet" where
  "NewFlagSet c = \<lparr>fs_formal = [], fs_changed = [], fs_args = [], fs_vars = c\<rparr>"

text \<open>
  Flags are defined (their variables initialised) and then merged; a flag whose name is taken is
  left out. The order of the flags in a set only matters for help texts.
\<close>

definition AddFlagSet :: "'c flagDef list \<Rightarrow> 'c flagSet \<Rightarrow> 'c flagSet" where
  "AddFlagSet newSet f =
     f\<lparr>fs_formal := fs_formal f @ filter (\<lambda>fl. fs_Lookup f (fl_Name fl) = None) newSet,
       fs_vars := fold fl_Init newSet (fs_vars f)\<rparr>"

section \<open>Kinds of flags\<close>

definition StringVarP :: "(string \<Rightarrow> 'c \<Rightarrow> 'c) \<Rightarrow> string \<Rightarrow> char option \<Rightarrow> string \<Rightarrow> 'c flagDef" where
  "StringVarP put name short def =
     \<lparr>fl_Name = name, fl_Shorthand = short, fl_NoOptDefVal = [], fl_Init = put def,
      fl_Value_Set = (\<lambda>_ v c. Inr (put v c))\<rparr>"

definition StringVar :: "(string \<Rightarrow> 'c \<Rightarrow> 'c) \<Rightarrow> string \<Rightarrow> string \<Rightarrow> 'c flagDef" where
  "StringVar put name def = StringVarP put name None def"

definition ParseBool :: "string \<Rightarrow> goerr + bool" where
  "ParseBool s =
     (if s \<in> set [''1'', ''t'', ''T'', ''true'', ''TRUE'', ''True''] then Inr True
      else if s \<in> set [''0'', ''f'', ''F'', ''false'', ''FALSE'', ''False''] then Inr False
      else Inl (ErrNew (''strconv.ParseBool: parsing '' @ goQuote s @ '': invalid syntax'')))"

definition BoolVarP :: "(bool \<Rightarrow> 'c \<Rightarrow> 'c) \<Rightarrow> string \<Rightarrow> char option \<Rightarrow> bool \<Rightarrow> 'c flagDef" where
  "BoolVarP put name short def =
     \<lparr>fl_Name = name, fl_Shorthand = short, fl_NoOptDefVal = ''true'', fl_Init = put def,
      fl_Value_Set = (\<lambda>_ v c. case ParseBool v of Inl e \<Rightarrow> Inl e | Inr b \<Rightarrow> Inr (put b c))\<rparr>"

definition BoolVar :: "(bool \<Rightarrow> 'c \<Rightarrow> 'c) \<Rightarrow> string \<Rightarrow> bool \<Rightarrow> 'c flagDef" where
  "BoolVar put name def = BoolVarP put name None def"

text \<open>Integers and durations: the parser is a parameter (\<^verbatim>\<open>strconv.ParseInt\<close>, \<^verbatim>\<open>time.ParseDuration\<close>).\<close>

definition NumVar ::
  "(string \<Rightarrow> goerr + int) \<Rightarrow> (int \<Rightarrow> 'c \<Rightarrow> 'c) \<Rightarrow> string \<Rightarrow> int \<Rightarrow> 'c flagDef" where
  "NumVar parse put name def =
     \<lparr>fl_Name = name, fl_Shorthand = None, fl_NoOptDefVal = [], fl_Init = put def,
      fl_Value_Set = (\<lambda>_ v c. case parse v of Inl e \<Rightarrow> Inl e | Inr i \<Rightarrow> Inr (put i c))\<rparr>"

text \<open>
  String slices: one record of comma separated values, read by \<^verbatim>\<open>encoding/csv\<close> (a parameter); the
  first value replaces what the variable holds, every later one is appended to what it holds then.
\<close>

definition readAsCSV :: "(string \<Rightarrow> goerr + string list) \<Rightarrow> string \<Rightarrow> goerr + string list" where
  "readAsCSV csv val = (if val = [] then Inr [] else csv val)"

definition StringSliceVar ::
  "(string \<Rightarrow> goerr + string list) \<Rightarrow> ((string list \<Rightarrow> string list) \<Rightarrow> 'c \<Rightarrow> 'c) \<Rightarrow> string \<Rightarrow>
   string list \<Rightarrow> 'c flagDef" where
  "StringSliceVar csv upd name def =
     \<lparr>fl_Name = name, fl_Shorthand = None, fl_NoOptDefVal = [], fl_Init = upd (\<lambda>_. def),
      fl_Value_Set = (\<lambda>changed val c.
        case readAsCSV csv val of
          Inl e \<Rightarrow> Inl e
        | Inr v \<Rightarrow> Inr (upd (if \<not> changed then (\<lambda>_. v) else (\<lambda>old. old @ v)) c))\<rparr>"

section \<open>Setting and parsing\<close>

definition flagLabel :: "'c flagDef \<Rightarrow> string" where
  "flagLabel fl =
     (case fl_Shorthand fl of
        Some c \<Rightarrow> ''-'' @ [c] @ '', --'' @ fl_Name fl
      | None \<Rightarrow> ''--'' @ fl_Name fl)"

definition fs_Set :: "'c flagDef \<Rightarrow> string \<Rightarrow> 'c flagSet \<Rightarrow> goerr + 'c flagSet" where
  "fs_Set fl value f =
     (case fl_Value_Set fl (fs_Changed f (fl_Name fl)) value (fs_vars f) of
        Inl err \<Rightarrow>
          Inl (ErrNew (''invalid argument '' @ goQuote value @ '' for '' @ goQuote (flagLabel fl) @ '' flag: ''
                       @ err_Error err))
      | Inr c \<Rightarrow>
          Inr (f\<lparr>fs_vars := c,
                 fs_changed := (if fs_Changed f (fl_Name fl) then fs_changed f
                                else fs_changed f @ [fl_Name fl])\<rparr>))"

definition ErrHelp :: goerr where
  "ErrHelp = ErrNew ''pflag: help requested''"

definition parseLongArg :: "string \<Rightarrow> string list \<Rightarrow> 'c flagSet \<Rightarrow> goerr + (string list \<times> 'c flagSet)" where
  "parseLongArg s a f =
     (let name = drop 2 s in
      if name = [] \<or> hd name = CHR ''-'' \<or> hd name = CHR ''='' then Inl (ErrNew (''bad flag syntax: '' @ s))
      else
        (let split = split_first (CHR ''='') name; name = split ! 0 in
         case fs_Lookup f name of
           None \<Rightarrow>
             if name = ''help'' then Inl ErrHelp else Inl (ErrNew (''unknown flag: --'' @ name))
         | Some flag \<Rightarrow>
             (if length split = 2 then map_sum id (Pair a) (fs_Set flag (split ! 1) f)
              else if fl_NoOptDefVal flag \<noteq> [] then map_sum id (Pair a) (fs_Set flag (fl_NoOptDefVal flag) f)
              else (case a of
                      v # a' \<Rightarrow> map_sum id (Pair a') (fs_Set flag v f)
                    | [] \<Rightarrow> Inl (ErrNew (''flag needs an argument: '' @ s))))))"

text \<open>Short flags: the remaining letters, the remaining arguments and the set.\<close>

definition parseSingleShortArg ::
  "string \<Rightarrow> string list \<Rightarrow> 'c flagSet \<Rightarrow> goerr + (string \<times> string list \<times> 'c flagSet)" where
  "parseSingleShortArg shorthands args f =
     (if has_prefix shorthands ''test.'' then Inr ([], args, f)
      else
        (let c = hd shorthands; outShorts = tl shorthands in
         case find (\<lambda>fl. fl_Shorthand fl = Some c) (fs_formal f) of
           None \<Rightarrow>
             if c = CHR ''h'' then Inl ErrHelp
             else Inl (ErrNew (''unknown shorthand flag: '' @ [CHR 0x27, c, CHR 0x27] @ '' in -'' @ shorthands))
         | Some flag \<Rightarrow>
             (if length shorthands > 2 \<and> shorthands ! 1 = CHR ''=''
              then map_sum id (\<lambda>f'. ([], args, f')) (fs_Set flag (drop 2 shorthands) f)
              else if fl_NoOptDefVal flag \<noteq> []
              then map_sum id (\<lambda>f'. (outShorts, args, f')) (fs_Set flag (fl_NoOptDefVal flag) f)
              else if length shorthands > 1
              then map_sum id (\<lambda>f'. ([], args, f')) (fs_Set flag (tl shorthands) f)
              else (case args of
                      v # args' \<Rightarrow> map_sum id (\<lambda>f'. (outShorts, args', f')) (fs_Set flag v f)
                    | [] \<Rightarrow> Inl (ErrNew (''flag needs an argument: '' @ [CHR 0x27, c, CHR 0x27] @ '' in -''
                                         @ shorthands))))))"

lemma parseSingleShortArg_shorter:
  "shorthands \<noteq> [] \<Longrightarrow> parseSingleShortArg shorthands args f = Inr (out, args', f') \<Longrightarrow> length out < length shorthands"
  by (auto simp: parseSingleShortArg_def Let_def split: if_splits option.splits list.splits sum.splits)
     (auto simp: map_sum_def split: sum.splits)

text \<open>
  Every letter is looked at with the same remaining arguments; the arguments that are left come
  from the last one.
\<close>

function parseShortLoop ::
  "string \<Rightarrow> string list \<Rightarrow> string list \<Rightarrow> 'c flagSet \<Rightarrow> goerr + (string list \<times> 'c flagSet)" where
  "parseShortLoop shorthands args a f =
     (if shorthands = [] then Inr (a, f)
      else case parseSingleShortArg shorthands args f of
             Inl e \<Rightarrow> Inl e
           | Inr (shorthands', a', f') \<Rightarrow> parseShortLoop shorthands' args a' f')"
  by pat_completeness auto
termination
  by (relation "measure (\<lambda>(s, _). length s)") (auto dest: parseSingleShortArg_shorter)

declare parseShortLoop.simps [simp del]

definition parseShortArg :: "string \<Rightarrow> string list \<Rightarrow> 'c flagSet \<Rightarrow> goerr + (string list \<times> 'c flagSet)" where
  "parseShortArg s args f = parseShortLoop (tl s) args args f"

lemma map_sum_Inr: "map_sum id g x = Inr y \<longleftrightarrow> (\<exists>z. x = Inr z \<and> y = g z)"
  by (cases x) auto

lemma parseLongArg_length: "parseLongArg s a f = Inr (a', f') \<Longrightarrow> length a' \<le> length a"
  by (auto simp: parseLongArg_def Let_def map_sum_Inr split: if_splits option.splits list.splits)

lemma parseSingleShortArg_args:
  "parseSingleShortArg shorthands args f = Inr (out, args', f') \<Longrightarrow> length args' \<le> length args"
  by (auto simp: parseSingleShortArg_def Let_def map_sum_Inr split: if_splits option.splits list.splits)

lemma parseShortLoop_length:
  "parseShortLoop s args a f = Inr (a', f') \<Longrightarrow> length a \<le> length args \<Longrightarrow> length a' \<le> length args"
proof (induction s args a f rule: parseShortLoop.induct)
  case (1 shorthands args a f)
  show ?case
    using 1 parseShortLoop.simps [of shorthands args a f]
    by (auto split: if_splits sum.splits prod.splits dest: parseSingleShortArg_args)
qed

lemma parseShortArg_length: "parseShortArg s args f = Inr (a', f') \<Longrightarrow> length a' \<le> length args"
  by (simp add: parseShortArg_def parseShortLoop_length)

definition parseFlagArg :: "string \<Rightarrow> string list \<Rightarrow> 'c flagSet \<Rightarrow> goerr + (string list \<times> 'c flagSet)" where
  "parseFlagArg s args f = (if s ! 1 = CHR ''-'' then parseLongArg s args f else parseShortArg s args f)"

lemma parseFlagArg_length: "parseFlagArg s args f = Inr (a', f') \<Longrightarrow> length a' \<le> length args"
  by (auto simp: parseFlagArg_def parseLongArg_length parseShortArg_length split: if_splits)

function parseArgs :: "string list \<Rightarrow> 'c flagSet \<Rightarrow> goerr + 'c flagSet" where
  "parseArgs [] f = Inr f"
| "parseArgs (s # args) f =
     (if s = [] \<or> hd s \<noteq> CHR ''-'' \<or> length s = 1 then parseArgs args (f\<lparr>fs_args := fs_args f @ [s]\<rparr>)
      else if s = ''--'' then Inr (f\<lparr>fs_args := fs_args f @ args\<rparr>)
      else case parseFlagArg s args f of
             Inl e \<Rightarrow> Inl e
           | Inr (args', f') \<Rightarrow> parseArgs args' f')"
  by pat_completeness auto
termination
  by (relation "measure (\<lambda>(a, _). length a)") (auto dest!: parseFlagArg_length)

definition fs_Parse :: "string list \<Rightarrow> 'c flagSet \<Rightarrow> goerr + 'c flagSet" where
  "fs_Parse arguments f = parseArgs arguments (f\<lparr>fs_args := []\<rparr>)"

section \<open>Parsing is setting\<close>

text \<open>The settings of a command line: what parsing does to variables that only record the calls of
  \<^verbatim>\<open>Value.Set\<close>.\<close>

definition recordFlag :: "'c flagDef \<Rightarrow> (string \<times> string) list flagDef" where
  "recordFlag fl =
     \<lparr>fl_Name = fl_Name fl, fl_Shorthand = fl_Shorthand fl, fl_NoOptDefVal = fl_NoOptDefVal fl, fl_Init = id,
      fl_Value_Set = (\<lambda>_ v log. Inr (log @ [(fl_Name fl, v)]))\<rparr>"

text \<open>A recording set for \<open>f\<close> with the settings made so far.\<close>

definition recordOf :: "'c flagSet \<Rightarrow> (string \<times> string) list flagSet \<Rightarrow> (string \<times> string) list \<Rightarrow> bool" where
  "recordOf f g log \<longleftrightarrow> fs_formal g = map recordFlag (fs_formal f) \<and> fs_vars g = log"

text \<open>The values a command line gives, in order.\<close>

definition givenFlags :: "'c flagDef list \<Rightarrow> string list \<Rightarrow> (string \<times> string) list" where
  "givenFlags formal args =
     (case parseArgs args \<lparr>fs_formal = map recordFlag formal, fs_changed = [], fs_args = [], fs_vars = []\<rparr> of
        Inl _ \<Rightarrow> [] | Inr f \<Rightarrow> fs_vars f)"

text \<open>Setting flags by name, one after the other.\<close>

fun setAll :: "(string \<times> string) list \<Rightarrow> 'c flagSet \<Rightarrow> goerr + 'c flagSet" where
  "setAll [] f = Inr f"
| "setAll ((name, v) # l) f =
     (case fs_Lookup f name of
        None \<Rightarrow> Inl (ErrNew (''no such flag -'' @ name))
      | Some fl \<Rightarrow> (case fs_Set fl v f of Inl e \<Rightarrow> Inl e | Inr f' \<Rightarrow> setAll l f'))"

definition uniqueNames :: "'c flagSet \<Rightarrow> bool" where
  "uniqueNames f \<longleftrightarrow> distinct (map fl_Name (fs_formal f))"

lemma setAll_append: "setAll (l @ l') f = (case setAll l f of Inl e \<Rightarrow> Inl e | Inr f' \<Rightarrow> setAll l' f')"
  by (induction l f rule: setAll.induct) (auto split: option.splits sum.splits)

lemma fs_Set_formal: "fs_Set fl v f = Inr f' \<Longrightarrow> fs_formal f' = fs_formal f"
  and fs_Set_args: "fs_Set fl v f = Inr f' \<Longrightarrow> fs_args f' = fs_args f"
  by (auto simp: fs_Set_def split: sum.splits)

lemma setAll_formal: "setAll l f = Inr f' \<Longrightarrow> fs_formal f' = fs_formal f"
proof (induction l f rule: setAll.induct)
  case (2 name v l f)
  from 2(2) obtain fl g where fl: "fs_Lookup f name = Some fl" and g: "fs_Set fl v f = Inr g" and "setAll l g = Inr f'"
    by (simp split: option.splits sum.splits)
  from 2(1) [OF this] show ?case using fs_Set_formal [OF g] by simp
qed simp

lemma find_unique: "distinct (map g xs) \<Longrightarrow> x \<in> set xs \<Longrightarrow> find (\<lambda>y. g y = g x) xs = Some x"
  by (induction xs) (auto simp: image_iff)

lemma lookup_member:
  "uniqueNames f \<Longrightarrow> fl \<in> set (fs_formal f) \<Longrightarrow> fs_Lookup f (fl_Name fl) = Some fl"
  unfolding fs_Lookup_def uniqueNames_def by (rule find_unique)

lemma find_member: "find P xs = Some x \<Longrightarrow> x \<in> set xs"
  by (metis find_Some_iff nth_mem)

lemma find_record: "find P (map recordFlag xs) = map_option recordFlag (find (P \<circ> recordFlag) xs)"
  by (induction xs) auto

lemma recordFlag_sels [simp]:
  "fl_Name (recordFlag fl) = fl_Name fl" "fl_Shorthand (recordFlag fl) = fl_Shorthand fl"
  "fl_NoOptDefVal (recordFlag fl) = fl_NoOptDefVal fl"
  by (simp_all add: recordFlag_def)

lemma fs_Set_InrE:
  assumes "fs_Set fl v f = Inr f'"
  obtains c where "fl_Value_Set fl (fs_Changed f (fl_Name fl)) v (fs_vars f) = Inr c"
    and "f' = f\<lparr>fs_vars := c, fs_changed := (if fs_Changed f (fl_Name fl) then fs_changed f
                                            else fs_changed f @ [fl_Name fl])\<rparr>"
  using assms
  by (cases "fl_Value_Set fl (fs_Changed f (fl_Name fl)) v (fs_vars f)") (simp_all add: fs_Set_def)

lemma fs_Set_record:
  assumes "fs_Set fl v f = Inr f'" and "recordOf f g log"
  shows "\<exists>g'. fs_Set (recordFlag fl) v g = Inr g' \<and> recordOf f' g' (log @ [(fl_Name fl, v)])"
  using assms by (elim fs_Set_InrE) (simp add: fs_Set_def recordOf_def recordFlag_def)

text \<open>
  What parsing means: the same parse on the recording set succeeds with the settings \<open>l\<close>, and
  doing them one by one gives the same set. The positional arguments are not touched by settings.
\<close>

definition parsedAs :: "'c flagSet \<Rightarrow> 'c flagSet \<Rightarrow> (string \<times> string) list \<Rightarrow> bool" where
  "parsedAs f f' l \<longleftrightarrow> setAll l (f\<lparr>fs_args := fs_args f'\<rparr>) = Inr f'"

lemma fs_Set_setAll:
  "uniqueNames f \<Longrightarrow> fl \<in> set (fs_formal f) \<Longrightarrow> fs_Set fl v f = Inr f' \<Longrightarrow> setAll [(fl_Name fl, v)] f = Inr f'"
  by (simp add: lookup_member)

lemma fs_Changed_args: "fs_Changed (f\<lparr>fs_args := a\<rparr>) n = fs_Changed f n"
  by (simp add: fs_Changed_def)

lemma setAll_args:
  "setAll l (f\<lparr>fs_args := a\<rparr>) = map_sum id (\<lambda>f'. f'\<lparr>fs_args := a\<rparr>) (setAll l f)"
proof (induction l f rule: setAll.induct)
  case (2 name v l f)
  have "fs_Lookup (f\<lparr>fs_args := a\<rparr>) name = fs_Lookup f name" by (simp add: fs_Lookup_def)
  moreover have "fs_Set fl v (f\<lparr>fs_args := a\<rparr>) = map_sum id (\<lambda>f'. f'\<lparr>fs_args := a\<rparr>) (fs_Set fl v f)" for fl
    by (cases "fl_Value_Set fl (fs_Changed f (fl_Name fl)) v (fs_vars f)") (simp_all add: fs_Set_def fs_Changed_args)
  ultimately show ?case using 2 by (simp split: option.splits sum.splits)
qed simp

lemma parsedAs_refl: "parsedAs f f []"
  by (simp add: parsedAs_def)

lemma parsedAs_trans:
  assumes "parsedAs f g l" and "parsedAs g h l'"
  shows "parsedAs f h (l @ l')"
proof -
  from assms(1) have "setAll l (f\<lparr>fs_args := fs_args h\<rparr>) = Inr (g\<lparr>fs_args := fs_args h\<rparr>)"
    unfolding parsedAs_def using setAll_args [of l "fs_args h" "f\<lparr>fs_args := fs_args g\<rparr>"] by simp
  with assms(2) show ?thesis by (simp add: parsedAs_def setAll_append)
qed

lemma parsedAs_formal: "parsedAs f f' l \<Longrightarrow> fs_formal f' = fs_formal f"
  by (auto simp: parsedAs_def dest: setAll_formal)

lemma parsedAs_unique: "parsedAs f f' l \<Longrightarrow> uniqueNames f \<Longrightarrow> uniqueNames f'"
  by (simp add: uniqueNames_def parsedAs_formal)

lemma parsedAs_args: "parsedAs f (f\<lparr>fs_args := a\<rparr>) []"
  by (simp add: parsedAs_def)

lemma parsedAs_Set:
  "uniqueNames f \<Longrightarrow> fl \<in> set (fs_formal f) \<Longrightarrow> fs_Set fl v f = Inr f' \<Longrightarrow> parsedAs f f' [(fl_Name fl, v)]"
  by (simp add: parsedAs_def fs_Set_args lookup_member)

lemma lookup_record: "recordOf f g log \<Longrightarrow> fs_Lookup g name = map_option recordFlag (fs_Lookup f name)"
  by (simp add: fs_Lookup_def recordOf_def find_record comp_def)

lemma short_record:
  "recordOf f g log \<Longrightarrow>
   find (\<lambda>fl. fl_Shorthand fl = Some c) (fs_formal g) =
   map_option recordFlag (find (\<lambda>fl. fl_Shorthand fl = Some c) (fs_formal f))"
  by (simp add: recordOf_def find_record comp_def)

text \<open>A part of the parser that turns \<open>f\<close> into \<open>f'\<close> by the settings \<open>l\<close>, and does the same to every
  recording set.\<close>

definition replays :: "'c flagSet \<Rightarrow> 'c flagSet \<Rightarrow> (string \<times> string) list \<Rightarrow>
    ((string \<times> string) list flagSet \<Rightarrow> (string \<times> string) list flagSet \<Rightarrow> bool) \<Rightarrow> bool" where
  "replays f f' l run \<longleftrightarrow>
     parsedAs f f' l \<and> (\<forall>g log. recordOf f g log \<longrightarrow> (\<exists>g'. run g g' \<and> recordOf f' g' (log @ l)))"

lemma replays_refl: "(\<And>g. run g g) \<Longrightarrow> replays f f [] run"
  by (auto simp: replays_def parsedAs_refl)

lemma replays_trans:
  assumes "replays f f1 l run1" and "replays f1 f' l' run2"
    and "\<And>g g1 g'. run1 g g1 \<Longrightarrow> run2 g1 g' \<Longrightarrow> run g g'"
  shows "replays f f' (l @ l') run"
  using assms parsedAs_trans [of f f1 l f' l'] by (fastforce simp: replays_def)

lemma replays_unique: "replays f f' l run \<Longrightarrow> uniqueNames f \<Longrightarrow> uniqueNames f'"
  by (auto simp: replays_def intro: parsedAs_unique)

text \<open>One call of \<^verbatim>\<open>Set\<close>, as the parsers make it.\<close>

lemma replays_Set:
  assumes "uniqueNames f" and "fl \<in> set (fs_formal f)" and "fs_Set fl v f = Inr f'"
    and "\<And>g g' log. recordOf f g log \<Longrightarrow> fs_Set (recordFlag fl) v g = Inr g' \<Longrightarrow> run g g'"
  shows "\<exists>l. replays f f' l run"
  unfolding replays_def
  using parsedAs_Set [OF assms(1-3)] fs_Set_record [OF assms(3)] assms(4) by blast

lemma parseLongArg_record:
  assumes "uniqueNames f" and "parseLongArg s a f = Inr (a', f')"
  shows "\<exists>l. replays f f' l (\<lambda>g g'. parseLongArg s a g = Inr (a', g'))"
proof -
  define name where "name = split_first (CHR ''='') (drop 2 s) ! 0"
  from assms(2) obtain fl where fl: "fs_Lookup f name = Some fl"
    by (auto simp: parseLongArg_def Let_def name_def split: if_splits option.splits)
  then have m: "fl \<in> set (fs_formal f)" by (auto simp: fs_Lookup_def dest: find_member)
  from assms(2) fl obtain v where v: "fs_Set fl v f = Inr f'"
    and *: "\<And>g :: (string \<times> string) list flagSet. fs_Lookup g name = Some (recordFlag fl) \<Longrightarrow>
       parseLongArg s a g = map_sum id (Pair a') (fs_Set (recordFlag fl) v g)"
    by (auto simp: parseLongArg_def Let_def name_def map_sum_Inr split: if_splits option.splits list.splits)
  show ?thesis
    by (rule replays_Set [OF assms(1) m v]) (simp add: * lookup_record fl)
qed

lemma parseSingleShortArg_record:
  assumes "uniqueNames f" and "parseSingleShortArg s a f = Inr (out, a', f')"
  shows "\<exists>l. replays f f' l (\<lambda>g g'. parseSingleShortArg s a g = Inr (out, a', g'))"
proof (cases "has_prefix s ''test.''")
  case True
  with assms(2) have "out = []" "a' = a" "f' = f" by (simp_all add: parseSingleShortArg_def)
  with True show ?thesis by (intro exI [of _ "[]"]) (simp add: parseSingleShortArg_def replays_refl)
next
  case False
  from assms(2) False obtain fl where fl: "find (\<lambda>fl. fl_Shorthand fl = Some (hd s)) (fs_formal f) = Some fl"
    by (auto simp: parseSingleShortArg_def Let_def split: if_splits option.splits)
  then have m: "fl \<in> set (fs_formal f)" by (rule find_member)
  from assms(2) fl False obtain v where v: "fs_Set fl v f = Inr f'"
    and *: "\<And>g :: (string \<times> string) list flagSet.
       find (\<lambda>fl. fl_Shorthand fl = Some (hd s)) (fs_formal g) = Some (recordFlag fl) \<Longrightarrow>
       parseSingleShortArg s a g = map_sum id (\<lambda>g'. (out, a', g')) (fs_Set (recordFlag fl) v g)"
    by (auto simp: parseSingleShortArg_def Let_def map_sum_Inr split: if_splits option.splits list.splits)
  show ?thesis
    by (rule replays_Set [OF assms(1) m v]) (simp add: * short_record fl)
qed

lemma parseShortLoop_record:
  assumes "uniqueNames f" and "parseShortLoop s args a f = Inr (a', f')"
  shows "\<exists>l. replays f f' l (\<lambda>g g'. parseShortLoop s args a g = Inr (a', g'))"
  using assms
proof (induction "length s" arbitrary: s a f rule: less_induct)
  case less
  show ?case
  proof (cases "s = []")
    case True
    with less.prems show ?thesis by (intro exI [of _ "[]"]) (simp add: parseShortLoop.simps replays_refl)
  next
    case False
    with less.prems(2) obtain s1 a1 f1 where one: "parseSingleShortArg s args f = Inr (s1, a1, f1)"
      and rest: "parseShortLoop s1 args a1 f1 = Inr (a', f')"
      by (subst (asm) parseShortLoop.simps) (auto split: sum.splits)
    obtain l where l: "replays f f1 l (\<lambda>g g'. parseSingleShortArg s args g = Inr (s1, a1, g'))"
      using parseSingleShortArg_record [OF less.prems(1) one] by blast
    obtain l' where l': "replays f1 f' l' (\<lambda>g g'. parseShortLoop s1 args a1 g = Inr (a', g'))"
      using less.hyps [OF parseSingleShortArg_shorter [OF False one] replays_unique [OF l less.prems(1)] rest] by blast
    show ?thesis
      by (rule exI, rule replays_trans [OF l l']) (simp add: parseShortLoop.simps [of s] False)
  qed
qed

lemma parseFlagArg_record:
  assumes "uniqueNames f" and "parseFlagArg s a f = Inr (a', f')"
  shows "\<exists>l. replays f f' l (\<lambda>g g'. parseFlagArg s a g = Inr (a', g'))"
  using assms parseLongArg_record [of f s a a' f'] parseShortLoop_record [of f "tl s" a a a' f']
  by (auto simp: parseFlagArg_def parseShortArg_def split: if_splits)

lemma parseArgs_record:
  assumes "uniqueNames f" and "parseArgs args f = Inr f'"
  shows "\<exists>l. replays f f' l (\<lambda>g g'. parseArgs args g = Inr g')"
  using assms
proof (induction "length args" arbitrary: args f rule: less_induct)
  case less
  show ?case
  proof (cases args)
    case Nil
    with less.prems show ?thesis by (intro exI [of _ "[]"]) (simp add: replays_refl)
  next
    case (Cons s as)
    consider (positional) "s = [] \<or> hd s \<noteq> CHR ''-'' \<or> length s = 1" | (dashes) "s = ''--''"
      | (flag) "\<not> (s = [] \<or> hd s \<noteq> CHR ''-'' \<or> length s = 1)" "s \<noteq> ''--''" by blast
    then show ?thesis
    proof cases
      case positional
      let ?f = "f\<lparr>fs_args := fs_args f @ [s]\<rparr>"
      have one: "replays f ?f [] (\<lambda>g g'. g' = g\<lparr>fs_args := fs_args g @ [s]\<rparr>)"
        by (auto simp: replays_def recordOf_def parsedAs_args)
      from less.prems(2) positional Cons have "parseArgs as ?f = Inr f'" by auto
      with less.hyps [of as ?f] Cons replays_unique [OF one less.prems(1)] obtain l
        where l: "replays ?f f' l (\<lambda>g g'. parseArgs as g = Inr g')" by auto
      show ?thesis by (rule exI, rule replays_trans [OF one l]) (use positional Cons in auto)
    next
      case dashes
      with less.prems Cons have "f' = f\<lparr>fs_args := fs_args f @ as\<rparr>" by simp
      with dashes Cons show ?thesis
        by (intro exI [of _ "[]"]) (auto simp: replays_def recordOf_def parsedAs_args)
    next
      case flag
      with less.prems(2) Cons obtain as' f1 where one: "parseFlagArg s as f = Inr (as', f1)"
        and rest: "parseArgs as' f1 = Inr f'"
        by (auto split: sum.splits)
      obtain l where l: "replays f f1 l (\<lambda>g g'. parseFlagArg s as g = Inr (as', g'))"
        using parseFlagArg_record [OF less.prems(1) one] by blast
      have "length as' < length args" using parseFlagArg_length [OF one] Cons by simp
      from less.hyps [OF this replays_unique [OF l less.prems(1)] rest] obtain l'
        where l': "replays f1 f' l' (\<lambda>g g'. parseArgs as' g = Inr g')" by blast
      show ?thesis by (rule exI, rule replays_trans [OF l l']) (use flag Cons in auto)
    qed
  qed
qed

text \<open>
  A command line that parses does exactly the settings it gives, whatever was set before; arguments
  that are not flags in front of it do not matter.
\<close>

lemma fs_Parse_given:
  assumes "uniqueNames f" and "fs_Parse args f = Inr f'"
  shows "parsedAs f f' (givenFlags (fs_formal f) args)"
    and "prog = [] \<or> hd prog \<noteq> CHR ''-'' \<Longrightarrow> givenFlags (fs_formal f) (prog # args) = givenFlags (fs_formal f) args"
proof -
  let ?g = "\<lambda>a. \<lparr>fs_formal = map recordFlag (fs_formal f), fs_changed = [], fs_args = a, fs_vars = []\<rparr>"
  have "uniqueNames (f\<lparr>fs_args := []\<rparr>)" using assms(1) by (simp add: uniqueNames_def)
  from parseArgs_record [OF this assms(2) [unfolded fs_Parse_def]] obtain l
    where l: "replays (f\<lparr>fs_args := []\<rparr>) f' l (\<lambda>g g'. parseArgs args g = Inr g')" by blast
  have g: "recordOf (f\<lparr>fs_args := []\<rparr>) (?g a) []" for a by (simp add: recordOf_def)
  have run: "\<exists>g'. parseArgs args (?g a) = Inr g' \<and> fs_vars g' = l" for a
    using l g [of a] by (force simp: replays_def recordOf_def)
  from run [of "[]"] have eq: "givenFlags (fs_formal f) args = l" by (auto simp: givenFlags_def)
  have "parsedAs f f' ([] @ l)"
    by (rule parsedAs_trans [OF parsedAs_args [where a = "[]"]]) (use l in \<open>simp add: replays_def\<close>)
  with eq show "parsedAs f f' (givenFlags (fs_formal f) args)" by simp
  show "givenFlags (fs_formal f) (prog # args) = givenFlags (fs_formal f) args"
    if "prog = [] \<or> hd prog \<noteq> CHR ''-''"
    unfolding eq using run [of "[prog]"] that by (auto simp: givenFlags_def)
qed

section \<open>The variable of a flag\<close>

definition valuesOf :: "string \<Rightarrow> (string \<times> string) list \<Rightarrow> string list" where
  "valuesOf name l = map snd (filter (\<lambda>(n, _). n = name) l)"

lemma valuesOf_simps [simp]:
  "valuesOf name [] = []"
  "valuesOf name ((n, v) # l) = (if n = name then v # valuesOf name l else valuesOf name l)"
  by (simp_all add: valuesOf_def)

text \<open>A variable only the flags of one name write to.\<close>

locale flag_var =
  fixes formal :: "'c flagDef list"
    and name :: string
    and get :: "'c \<Rightarrow> 'v"
  assumes other_flags: "fl \<in> set formal \<Longrightarrow> fl_Name fl \<noteq> name \<Longrightarrow> fl_Value_Set fl ch v c = Inr c' \<Longrightarrow> get c' = get c"
begin

lemma fs_Set_other:
  assumes "fs_formal f = formal" and "fs_Lookup f n = Some fl" and "n \<noteq> name" and "fs_Set fl v f = Inr f'"
  shows "get (fs_vars f') = get (fs_vars f)" and "fs_Changed f' name = fs_Changed f name"
proof -
  from assms(1,2) have "fl \<in> set formal" "fl_Name fl = n"
    by (auto simp: fs_Lookup_def find_Some_iff)
  with assms(3,4) show "get (fs_vars f') = get (fs_vars f)" "fs_Changed f' name = fs_Changed f name"
    by (auto elim!: fs_Set_InrE intro!: other_flags simp: fs_Changed_def split: if_splits)
qed

end

context flag_var
begin

text \<open>A variable that belongs to no flag is not touched.\<close>

lemma untouched:
  "setAll l f = Inr f' \<Longrightarrow> fs_formal f = formal \<Longrightarrow> name \<notin> fl_Name ` set formal \<Longrightarrow> get (fs_vars f') = get (fs_vars f)"
proof (induction l arbitrary: f)
  case (Cons p l)
  obtain n v where p: "p = (n, v)" by (cases p)
  from Cons.prems(1) p obtain fl g where fl: "fs_Lookup f n = Some fl" and g: "fs_Set fl v f = Inr g"
    and rest: "setAll l g = Inr f'" by (auto split: option.splits sum.splits)
  have "n \<noteq> name" using fl Cons.prems(2,3) by (auto simp: fs_Lookup_def find_Some_iff)
  from fs_Set_other(1) [OF Cons.prems(2) fl this g] Cons.IH [OF rest _ Cons.prems(3)] fs_Set_formal [OF g] Cons.prems(2)
  show ?case by simp
qed simp

end

lemma fs_Set_own:
  assumes "fs_Lookup f n = Some fl" and "fs_Set fl v f = Inr f'"
  shows "fs_Changed f' n"
    and "fl \<in> set (fs_formal f) \<and> fl_Name fl = n \<and> fl_Value_Set fl (fs_Changed f n) v (fs_vars f) = Inr (fs_vars f')"
proof -
  have n: "fl \<in> set (fs_formal f) \<and> fl_Name fl = n" using assms(1) by (auto simp: fs_Lookup_def find_Some_iff)
  with assms(2) show "fs_Changed f' n"
    and "fl \<in> set (fs_formal f) \<and> fl_Name fl = n \<and> fl_Value_Set fl (fs_Changed f n) v (fs_vars f) = Inr (fs_vars f')"
    by (auto elim!: fs_Set_InrE simp: fs_Changed_def)
qed

text \<open>A string: the last value given wins.\<close>

locale string_flag = flag_var formal name get
  for formal :: "'c flagDef list" and name and get :: "'c \<Rightarrow> string" +
  assumes own_flag: "fl \<in> set formal \<Longrightarrow> fl_Name fl = name \<Longrightarrow> fl_Value_Set fl ch v c = Inr c' \<Longrightarrow> get c' = v"
begin

lemma last_wins:
  "setAll l f = Inr f' \<Longrightarrow> fs_formal f = formal \<Longrightarrow>
   get (fs_vars f') = last (get (fs_vars f) # valuesOf name l)"
proof (induction l arbitrary: f)
  case Nil
  then show ?case by simp
next
  case (Cons p l)
  obtain n v where p: "p = (n, v)" by (cases p)
  from Cons.prems(1) p obtain fl g where fl: "fs_Lookup f n = Some fl" and g: "fs_Set fl v f = Inr g"
    and rest: "setAll l g = Inr f'" by (auto split: option.splits sum.splits)
  have IH: "get (fs_vars f') = last (get (fs_vars g) # valuesOf name l)"
    using Cons.IH [OF rest] fs_Set_formal [OF g] Cons.prems(2) by simp
  show ?case
  proof (cases "n = name")
    case True
    with fs_Set_own [OF fl g] Cons.prems(2) have "get (fs_vars g) = v" by (auto intro: own_flag)
    with IH True p show ?thesis by simp
  next
    case False
    with IH p fs_Set_other(1) [OF Cons.prems(2) fl False g] show ?thesis by simp
  qed
qed

end

text \<open>A string slice: the first value replaces, the others are appended.\<close>

definition csvValues :: "(string \<Rightarrow> goerr + string list) \<Rightarrow> string list \<Rightarrow> string list" where
  "csvValues csv vs = concat (map (\<lambda>v. case readAsCSV csv v of Inl _ \<Rightarrow> [] | Inr xs \<Rightarrow> xs) vs)"

locale slice_flag = flag_var formal name get
  for formal :: "'c flagDef list" and name and get :: "'c \<Rightarrow> string list" +
  fixes csv :: "string \<Rightarrow> goerr + string list"
  assumes own_flag: "fl \<in> set formal \<Longrightarrow> fl_Name fl = name \<Longrightarrow> fl_Value_Set fl ch v c = Inr c' \<Longrightarrow>
    get c' = (if ch then get c else []) @ csvValues csv [v]"
begin

lemma appended:
  "setAll l f = Inr f' \<Longrightarrow> fs_formal f = formal \<Longrightarrow>
   get (fs_vars f') =
     (if fs_Changed f name \<or> valuesOf name l = [] then get (fs_vars f) else []) @ csvValues csv (valuesOf name l)
   \<and> fs_Changed f' name = (fs_Changed f name \<or> valuesOf name l \<noteq> [])"
proof (induction l arbitrary: f)
  case Nil
  then show ?case by (simp add: csvValues_def)
next
  case (Cons p l)
  obtain n v where p: "p = (n, v)" by (cases p)
  from Cons.prems(1) p obtain fl g where fl: "fs_Lookup f n = Some fl" and g: "fs_Set fl v f = Inr g"
    and rest: "setAll l g = Inr f'" by (auto split: option.splits sum.splits)
  note IH = Cons.IH [OF rest trans [OF fs_Set_formal [OF g] Cons.prems(2)]]
  show ?case
  proof (cases "n = name")
    case True
    with fs_Set_own [OF fl g] Cons.prems(2)
    have "fs_Changed g name" "fl \<in> set formal" "fl_Name fl = name"
      and "fl_Value_Set fl (fs_Changed f name) v (fs_vars f) = Inr (fs_vars g)" by auto
    note this(1) own_flag [OF this(2-4)]
    with IH True p show ?thesis by (simp add: csvValues_def)
  next
    case False
    with IH p fs_Set_other [OF Cons.prems(2) fl False g] show ?thesis by simp
  qed
qed

end

end
