(* ===== verification/Drivers.thy ===== *)
theory Drivers
  imports GoStd
begin

text \<open>
  Storage drivers: \<^verbatim>\<open>envhelper.Expand\<close> (\<^verbatim>\<open>arhat.dev/pkg/envhelper\<close>), the commands of
  \<^verbatim>\<open>storageutil/exec.go\<close>, the drivers \<^verbatim>\<open>nop\<close>, \<^verbatim>\<open>general\<close> and \<^verbatim>\<open>sshfs\<close>, the registry and the
  driver part of the client configuration. The lookup of binaries is a parameter.
\<close>

section \<open>Variable references\<close>

definition isShellSpecialVar :: "char \<Rightarrow> bool" where
  "isShellSpecialVar c \<longleftrightarrow> c \<in> set ''*#$@!?-0123456789''"

definition isAlphaNum :: "char \<Rightarrow> bool" where
  "isAlphaNum c \<longleftrightarrow> c = CHR ''_'' \<or> (48 \<le> (of_char c :: nat) \<and> (of_char c :: nat) \<le> 57)
     \<or> (97 \<le> (of_char c :: nat) \<and> (of_char c :: nat) \<le> 122) \<or> (65 \<le> (of_char c :: nat) \<and> (of_char c :: nat) \<le> 90)"

text \<open>The text after an opening bracket: the name and the number of bytes used, the bracket included.\<close>

definition bracedName :: "char \<Rightarrow> string \<Rightarrow> string \<times> nat" where
  "bracedName close rest =
     (case rest of
        c # d # _ \<Rightarrow>
          if isShellSpecialVar c \<and> d = close then ([c], 3)
          else (let name = takeWhile (\<lambda>x. x \<noteq> close) rest in
                if length name < length rest then (if name = [] then ([], 2) else (name, length name + 2))
                else ([], 1))
      | _ \<Rightarrow>
          (let name = takeWhile (\<lambda>x. x \<noteq> close) rest in
           if length name < length rest then (if name = [] then ([], 2) else (name, length name + 2))
           else ([], 1)))"

text \<open>The flag says whether round brackets count too, as in \<^verbatim>\<open>envhelper\<close> but not in \<^verbatim>\<open>os.Expand\<close>.\<close>

definition getShellName :: "bool \<Rightarrow> string \<Rightarrow> string \<times> nat" where
  "getShellName parens s =
     (case s of
        [] \<Rightarrow> ([], 0)
      | c # rest \<Rightarrow>
          if parens \<and> c = CHR ''('' then bracedName (CHR '')'') rest
          else if c = CHR ''{'' then bracedName (CHR ''}'') rest
          else if isShellSpecialVar c then ([c], 1)
          else (let name = takeWhile isAlphaNum s in (name, length name)))"

function expandWith :: "bool \<Rightarrow> (string \<Rightarrow> string \<Rightarrow> string) \<Rightarrow> string \<Rightarrow> string" where
  "expandWith parens mapping [] = []"
| "expandWith parens mapping (c # cs) =
     (if c = CHR ''$'' \<and> cs \<noteq> [] then
        (let (name, w) = getShellName parens cs in
         (if name = [] \<and> w > 0 then []
          else if name = [] then [c]
          else mapping name (c # take w cs)) @ expandWith parens mapping (drop w cs))
      else c # expandWith parens mapping cs)"
  by pat_completeness auto
termination
  by (relation "measure (\<lambda>(_, _, s). length s)") auto

text \<open>The names a string refers to, in the order the mapping is called.\<close>

function refNames :: "bool \<Rightarrow> string \<Rightarrow> string list" where
  "refNames parens [] = []"
| "refNames parens (c # cs) =
     (if c = CHR ''$'' \<and> cs \<noteq> [] then
        (let (name, w) = getShellName parens cs in
         (if name = [] then [] else [name]) @ refNames parens (drop w cs))
      else refNames parens cs)"
  by pat_completeness auto
termination
  by (relation "measure (\<lambda>(_, s). length s)") auto

definition Expand :: "(string \<Rightarrow> string \<Rightarrow> string) \<Rightarrow> string \<Rightarrow> string" where
  "Expand mapping s = expandWith True mapping s"

definition os_Expand :: "(string \<Rightarrow> string) \<Rightarrow> string \<Rightarrow> string" where
  "os_Expand mapping s = expandWith False (\<lambda>name _. mapping name) s"

section \<open>Commands\<close>

definition StorageArgEnvRemotePath :: string where
  "StorageArgEnvRemotePath = ''ARHAT_STORAGE_REMOTE_PATH''"
definition StorageArgEnvMountpoint :: string where
  "StorageArgEnvMountpoint = ''ARHAT_STORAGE_MOUNTPOINT''"

text \<open>The file look up of the operating system, and the operating system name.\<close>

record osEnv =
  oe_GOOS :: string
  oe_Lookup :: "string \<Rightarrow> string list \<Rightarrow> goerr + string"

definition LookupUnmountUtil :: "osEnv \<Rightarrow> string list \<Rightarrow> bool \<Rightarrow> goerr + string" where
  "LookupUnmountUtil oe extraLookupPaths fuse =
     oe_Lookup oe (if oe_GOOS oe = ''linux'' then (if fuse then ''fusermount'' else ''umount'') else ''umount'')
       extraLookupPaths"

definition GenerateUnmountCmd :: "osEnv \<Rightarrow> string \<Rightarrow> string \<Rightarrow> string list" where
  "GenerateUnmountCmd oe binPath mountPoint =
     (let command = [binPath] in
      if path_Base binPath = ''fusermount'' then command @ [''-z'', ''-u'', mountPoint]
      else if path_Base binPath = ''umount'' then
        command @ [if oe_GOOS oe = ''linux'' then ''-l'' else ''-f''] @ [mountPoint]
      else [])"

definition storageMapping :: "string \<Rightarrow> string \<Rightarrow> string \<Rightarrow> string \<Rightarrow> string" where
  "storageMapping remotePath localPath s orig =
     (case map_of [(StorageArgEnvMountpoint, localPath), (StorageArgEnvRemotePath, remotePath)] s of
        Some v \<Rightarrow> v | None \<Rightarrow> orig)"

definition ResolveStorageCommand :: "string \<Rightarrow> string list \<Rightarrow> string \<Rightarrow> string \<Rightarrow> string list" where
  "ResolveStorageCommand bin args remotePath localPath =
     (let remotePath = path_Clean remotePath in
      bin # map (Expand (storageMapping remotePath localPath)) args)"

section \<open>The drivers\<close>

record generalConfig =
  gc_Command :: string
  gc_Args :: "string list"
  gc_Fuse :: bool

record sshfsConfig =
  sf_Args :: "string list"

text \<open>A value of type \<^verbatim>\<open>interface{}\<close> in the place of a driver configuration.\<close>

datatype driverCfg = CfgNil | CfgNop | CfgGeneral generalConfig | CfgSshfs sshfsConfig | CfgOther

datatype driver = NopDriver | GeneralDriver generalConfig | SshfsDriver "string list"

definition general_New :: "driverCfg \<Rightarrow> goerr + driver" where
  "general_New cfg = (case cfg of CfgGeneral config \<Rightarrow> Inr (GeneralDriver config) | _ \<Rightarrow> Inl (ErrNew ''invalid config''))"

text \<open>The loop over the arguments from the third on.\<close>

fun sshfs_checkArgs :: "string list \<Rightarrow> goerr option" where
  "sshfs_checkArgs [] = None"
| "sshfs_checkArgs (arg # args) =
     (if refNames False arg \<noteq> [] then Some (ErrNew (''invalid arg '' @ arg @ '': should not contain env ref''))
      else if contains_str arg ''password_stdin'' \<or> contains_str arg ''slave''
      then Some (ErrNew (''option '' @ arg @ '' is not allowed''))
      else sshfs_checkArgs args)"

definition sshfs_New :: "driverCfg \<Rightarrow> goerr + driver" where
  "sshfs_New cfg =
     (case cfg of
        CfgSshfs config \<Rightarrow>
          (let args = sf_Args config in
           if length args < 2 then Inl (ErrNew ''expect at least 2 args'')
           else
             (let names0 = refNames False (args ! 0); valid0 = list_all (\<lambda>s. s = StorageArgEnvRemotePath) names0 in
              if \<not> valid0 \<or> length names0 > 1
              then Inl (ErrNew (''first arg invalid, must include exactly one $'' @ StorageArgEnvRemotePath))
              else
                (let names1 = refNames False (args ! 1); valid1 = list_all (\<lambda>s. s = StorageArgEnvMountpoint) names1;
                     localPath = os_Expand (\<lambda>_. []) (args ! 1) in
                 if \<not> valid1 \<or> length names1 > 1 \<or> localPath \<noteq> []
                 then Inl (ErrNew (''second arg invalid, must be $'' @ StorageArgEnvMountpoint))
                 else
                   (case sshfs_checkArgs (drop 2 args) of
                      Some err \<Rightarrow> Inl err
                    | None \<Rightarrow> Inr (SshfsDriver (args @ [''-f'', ''-o'', ''reconnect'']))))))
      | _ \<Rightarrow> Inl (ErrNew ''invalid config''))"

definition GetMountCmd :: "driver \<Rightarrow> string \<Rightarrow> string \<Rightarrow> string list" where
  "GetMountCmd d remotePath mountPoint =
     (case d of
        NopDriver \<Rightarrow> []
      | GeneralDriver config \<Rightarrow> ResolveStorageCommand (gc_Command config) (gc_Args config) remotePath mountPoint
      | SshfsDriver args \<Rightarrow> ResolveStorageCommand ''sshfs'' args remotePath mountPoint)"

definition unmountWith :: "osEnv \<Rightarrow> bool \<Rightarrow> string \<Rightarrow> string list" where
  "unmountWith oe fuse mountPoint =
     (case LookupUnmountUtil oe [] fuse of Inl _ \<Rightarrow> [] | Inr umountBin \<Rightarrow> GenerateUnmountCmd oe umountBin mountPoint)"

definition GetUnmountCmd :: "osEnv \<Rightarrow> driver \<Rightarrow> string \<Rightarrow> string list" where
  "GetUnmountCmd oe d mountPoint =
     (case d of
        NopDriver \<Rightarrow> []
      | GeneralDriver config \<Rightarrow> unmountWith oe (gc_Fuse config) mountPoint
      | SshfsDriver args \<Rightarrow> unmountWith oe True mountPoint)"

section \<open>Registry and configuration\<close>

record driverBundle =
  bu_f :: "driverCfg \<Rightarrow> goerr + driver"
  bu_cf :: driverCfg

definition nopBundle :: driverBundle where
  "nopBundle = \<lparr>bu_f = (\<lambda>_. Inr NopDriver), bu_cf = CfgNop\<rparr>"

text \<open>Nil functions are \<open>None\<close>; the empty name is reserved.\<close>

definition Register ::
  "string \<Rightarrow> (driverCfg \<Rightarrow> goerr + driver) option \<Rightarrow> driverCfg option \<Rightarrow> (string, driverBundle) gomap \<Rightarrow> (string, driverBundle) gomap" where
  "Register name f cf drivers =
     (case (f, cf) of
        (Some f', Some cf') \<Rightarrow> if name = [] then drivers else gm_put name \<lparr>bu_f = f', bu_cf = cf'\<rparr> drivers
      | _ \<Rightarrow> drivers)"

text \<open>The registry of the program: \<^verbatim>\<open>main\<close> imports the drivers \<^verbatim>\<open>general\<close> and \<^verbatim>\<open>sshfs\<close>.\<close>

definition supportedDrivers :: "(string, driverBundle) gomap" where
  "supportedDrivers =
     Register ''sshfs'' (Some sshfs_New) (Some (CfgSshfs \<lparr>sf_Args = []\<rparr>))
       (Register ''general'' (Some general_New) (Some (CfgGeneral \<lparr>gc_Command = [], gc_Args = [], gc_Fuse = False\<rparr>))
         [([], nopBundle)])"

definition NewConfig :: "string \<Rightarrow> goerr + driverCfg" where
  "NewConfig name =
     (case map_of supportedDrivers name of
        None \<Rightarrow> Inl (ErrNew (''driver '' @ goQuote name @ '' not found''))
      | Some b \<Rightarrow> Inr (bu_cf b))"

definition NewDriver :: "string \<Rightarrow> driverCfg \<Rightarrow> goerr + driver" where
  "NewDriver name config =
     (case map_of supportedDrivers name of
        None \<Rightarrow> Inl (ErrNew (''driver '' @ goQuote name @ '' not found''))
      | Some b \<Rightarrow> bu_f b config)"

record driverConfig =
  dc_Driver :: string
  dc_Config :: driverCfg

record clientConfig =
  cl_Driver :: driverConfig
  cl_StdoutFile :: string
  cl_StderrFile :: string
  cl_SuccessTimeWait :: int
  cl_ExtraLookupPaths :: "string list"

text \<open>
  The decoded document: the value under \<^verbatim>\<open>driver\<close> (absent, a string, or something else), the
  error of encoding the value under \<^verbatim>\<open>config\<close> again, and a function that decodes it strictly
  into a fresh configuration.
\<close>

datatype docValue = DocString string | DocOther

definition unmarshalClientConfig ::
  "docValue option \<Rightarrow> goerr option \<Rightarrow> (driverCfg \<Rightarrow> goerr + driverCfg) \<Rightarrow> driverConfig \<Rightarrow> goerr + driverConfig" where
  "unmarshalClientConfig d marshalErr decode c =
     (case d of
        None \<Rightarrow> Inr c
      | Some DocOther \<Rightarrow> Inl (ErrNew ''driver type must be a string'')
      | Some (DocString driverName) \<Rightarrow>
          (case NewConfig driverName of
             Inl err \<Rightarrow> Inl (ErrWrap (''unknown driver '' @ goQuote driverName) err)
           | Inr fresh \<Rightarrow>
               (case marshalErr of
                  Some err \<Rightarrow> Inl (ErrWrap ''failed to get driver config bytes'' err)
                | None \<Rightarrow>
                    (case decode fresh of
                       Inl err \<Rightarrow> Inl (ErrWrap (''failed to resolve driver config '' @ driverName) err)
                     | Inr config \<Rightarrow> Inr (c\<lparr>dc_Config := config\<rparr>)))))"

section \<open>The interface of a driver\<close>

text \<open>
  What the storage client relies on: a mount command is never empty, and an unmount command, when
  there is one, ends with the mount point.
\<close>

locale storage_driver =
  fixes getMount :: "string \<Rightarrow> string \<Rightarrow> string list"
    and getUnmount :: "string \<Rightarrow> string list"
  assumes mount_nonempty: "getMount rp mp \<noteq> []"
    and unmount_target: "getUnmount mp \<noteq> [] \<Longrightarrow> last (getUnmount mp) = mp"
begin

lemma unmount_injective:
  "getUnmount mp \<noteq> [] \<Longrightarrow> getUnmount mp = getUnmount mp' \<Longrightarrow> mp = mp'"
  using unmount_target by metis

end

lemma unmountWith_target: "unmountWith oe fuse mp \<noteq> [] \<Longrightarrow> last (unmountWith oe fuse mp) = mp"
  by (auto simp: unmountWith_def GenerateUnmountCmd_def Let_def split: sum.splits if_splits)

interpretation general: storage_driver "GetMountCmd (GeneralDriver config)" "GetUnmountCmd oe (GeneralDriver config)"
  for config oe
  by unfold_locales
     (simp_all add: GetMountCmd_def GetUnmountCmd_def ResolveStorageCommand_def Let_def unmountWith_target)

interpretation sshfs: storage_driver "GetMountCmd (SshfsDriver args)" "GetUnmountCmd oe (SshfsDriver args)"
  for args oe
  by unfold_locales
     (simp_all add: GetMountCmd_def GetUnmountCmd_def ResolveStorageCommand_def Let_def unmountWith_target)

section \<open>Facts about expansion\<close>

lemma expandWith_plain: "CHR ''$'' \<notin> set s \<Longrightarrow> expandWith parens m s = s"
  by (induction s) auto

lemma refNames_plain: "CHR ''$'' \<notin> set s \<Longrightarrow> refNames parens s = []"
  by (induction s) auto

text \<open>A string that expands to nothing when every reference is dropped.\<close>

lemma takeWhile_isAlphaNum_all: "list_all isAlphaNum s \<Longrightarrow> takeWhile isAlphaNum s = s"
  by (induction s) simp_all

lemma expand_reference:
  assumes "name \<noteq> []" and "list_all isAlphaNum name" and "\<not> isShellSpecialVar (hd name)"
    and "hd name \<noteq> CHR ''('' " and "hd name \<noteq> CHR ''{''"
  shows "expandWith parens m (CHR ''$'' # name) = m name (CHR ''$'' # name)"
proof -
  obtain c rest where n: "name = c # rest" using assms(1) by (cases name) auto
  have "takeWhile isAlphaNum name = name" using assms(2) by (rule takeWhile_isAlphaNum_all)
  then have "getShellName parens name = (name, length name)"
    using assms(3-5) n by (simp add: getShellName_def Let_def)
  then show ?thesis using assms(1) by simp
qed

lemma sshfs_NewE:
  assumes "sshfs_New cfg = Inr d"
  obtains a b rest where "cfg = CfgSshfs \<lparr>sf_Args = a # b # rest\<rparr>"
    "d = SshfsDriver (a # b # rest @ [''-f'', ''-o'', ''reconnect''])"
    "set (refNames False a) \<subseteq> {StorageArgEnvRemotePath}" "length (refNames False a) \<le> 1"
    "set (refNames False b) \<subseteq> {StorageArgEnvMountpoint}" "os_Expand (\<lambda>_. []) b = []"
    "sshfs_checkArgs rest = None"
proof -
  from assms obtain c where c: "cfg = CfgSshfs c" by (auto simp: sshfs_New_def split: driverCfg.splits)
  with assms have "\<not> length (sf_Args c) < 2" by (auto simp: sshfs_New_def Let_def split: if_splits)
  then obtain a b rest where args: "sf_Args c = a # b # rest"
    by (cases "sf_Args c" rule: remdups_adj.cases) auto
  with assms c show thesis
    by (intro that [of a b rest])
       (auto simp: sshfs_New_def Let_def list_all_iff split: if_splits option.splits)
qed

lemma sshfs_checkArgs_None:
  "sshfs_checkArgs args = None \<longleftrightarrow>
   (\<forall>a\<in>set args. refNames False a = [] \<and> \<not> contains_str a ''password_stdin'' \<and> \<not> contains_str a ''slave'')"
  by (induction args) auto

end
