(* ===== verification/Runtime.thy ===== *)
theory Runtime
  imports PodOps
begin

text \<open>
  \<^verbatim>\<open>pkg/runtime/runtime.go\<close> (construction and start-up of the runtime) with the defaults
  of \<^verbatim>\<open>pkg/constant/defaults.go\<close> and the flags of \<^verbatim>\<open>pkg/conf/runtime.go\<close>.
\<close>

section \<open>Configuration\<close>

record runtimeConfig =
  rc_DataDir :: string
  rc_ManagementNamespace :: string
  rc_PauseImage :: string
  rc_PauseCommand :: "string list"
  rc_ImageActionTimeout :: int
  rc_PodActionTimeout :: int
  rc_AbbotRequestSubCmd :: string

definition DefaultPauseCommand :: string where
  "DefaultPauseCommand = ''/pause''"

text \<open>Durations are in nanoseconds, as \<^verbatim>\<open>time.Duration\<close>.\<close>

definition time_Minute :: int where
  "time_Minute = 60 * 1000000000"

text \<open>What \<^verbatim>\<open>FlagsForRuntime\<close> leaves in the configuration before any flag is parsed.\<close>

definition FlagsForRuntime_defaults :: "runtimeConfig \<Rightarrow> runtimeConfig" where
  "FlagsForRuntime_defaults config =
     config\<lparr>rc_DataDir := ''/var/lib/arhat/podman/data'',
            rc_PauseImage := ''k8s.gcr.io/pause:3.3'',
            rc_PauseCommand := [DefaultPauseCommand],
            rc_ImageActionTimeout := 15 * time_Minute,
            rc_PodActionTimeout := 10 * time_Minute,
            rc_AbbotRequestSubCmd := ''process''\<rparr>"

section \<open>Construction\<close>

record libpodOptions =
  lo_Namespace :: string
  lo_InfraImage :: string
  lo_InfraCommand :: string
  lo_Transport :: string

text \<open>The constructors of libpod, the process environment and the build information.\<close>

record 'w libpodCtors =
  ctor_LookupEnv :: "string \<Rightarrow> string option"
  ctor_NewConfig :: "string \<Rightarrow> ('w, unit) act"
  ctor_NewRuntimeFromConfig :: "string \<Rightarrow> ('w, unit) act"
  ctor_NewRuntime :: "libpodOptions \<Rightarrow> ('w, unit) act"
  ctor_HasImageRuntime :: bool
  ctor_LibpodVersion :: string
  ctor_GOOS :: string
  ctor_Arch :: string

definition libpodOpts :: "runtimeConfig \<Rightarrow> libpodOptions" where
  "libpodOpts config =
     \<lparr>lo_Namespace = rc_ManagementNamespace config,
      lo_InfraImage = rc_PauseImage config,
      lo_InfraCommand = (if length (rc_PauseCommand config) > 0 then rc_PauseCommand config ! 0
                         else DefaultPauseCommand),
      lo_Transport = ''docker://''\<rparr>"

text \<open>
  The context stored in the object is derived from the caller's and cancelled by
  \<^verbatim>\<open>defer cancel()\<close> when the constructor returns; \<^verbatim>\<open>abbotSubCmd\<close> is not set.
\<close>

definition NewPodmanRuntime :: "'w libpodCtors \<Rightarrow> runtimeConfig \<Rightarrow> ('w, libpodRuntime) act" where
  "NewPodmanRuntime ctors config =
     andThen
       (case ctor_LookupEnv ctors ''ARHAT_LIBPOD_CONFIG'' of
          Some configFile \<Rightarrow>
            if configFile \<noteq> [] then
              andThen (wrapErr ''failed to load custom libpod config'' (ctor_NewConfig ctors configFile))
                (\<lambda>_. ctor_NewRuntimeFromConfig ctors configFile)
            else ctor_NewRuntime ctors (libpodOpts config)
        | None \<Rightarrow> ctor_NewRuntime ctors (libpodOpts config)) (\<lambda>_.
     if \<not> ctor_HasImageRuntime ctors then throw (ErrNew ''empty image client'')
     else ret
       \<lparr>rt_base = NewBaseRuntime (rc_DataDir config) (rc_ImageActionTimeout config) (rc_PodActionTimeout config)
            ''podman'' (ctor_LibpodVersion ctors) (ctor_GOOS ctors) [] (ctor_Arch ctors) [],
        rt_pauseImage = rc_PauseImage config,
        rt_pauseCommand = rc_PauseCommand config,
        rt_abbotSubCmd = [],
        rt_ctxCancelled = True\<rparr>)"

section \<open>Start-up\<close>

definition podStartErr :: "'w engine \<Rightarrow> pod \<Rightarrow> ('w, goerr option) act" where
  "podStartErr lp p =
     andThen (attempt (lp_PodStart lp p)) (\<lambda>res. ret (case res of Inl e \<Rightarrow> Some e | Inr (_, err) \<Rightarrow> err))"

definition initAbbot :: "'w engine \<Rightarrow> ('w, unit) act" where
  "initAbbot lp =
     andThen (attempt (findAbbotContainer lp)) (\<lambda>res.
       case res of
         Inl _ \<Rightarrow> ret ()
       | Inr abbotCtr \<Rightarrow>
           andThen (ignore (lp_Sync lp abbotCtr)) (\<lambda>_.
           andThen (wrapErr ''failed to inspect abbot container state'' (lp_State lp abbotCtr)) (\<lambda>status.
           wrapErr ''failed to start abbot container''
             (if status = ContainerStatePaused then lp_Unpause lp abbotCtr
              else if status = ContainerStateRunning then ret ()
              else lp_Start lp abbotCtr True))))"

text \<open>One turn of the loop over all pods; everything in it is best effort.\<close>

definition initPod :: "'w engine \<Rightarrow> libpodRuntime \<Rightarrow> pod \<Rightarrow> ('w, unit) act" where
  "initPod lp r p =
     (case map_of (pod_Labels p) ContainerLabelPodUID of
        None \<Rightarrow> ignore (deletePod lp r p)
      | Some _ \<Rightarrow>
          andThen (podStartErr lp p) (\<lambda>err.
            if err \<noteq> None then ret ()
            else if IsHostNetwork (pod_Labels p) then ret ()
            else andThen (attempt (lp_PodContainers lp p)) (\<lambda>res.
              case res of
                Inl _ \<Rightarrow> ret ()
              | Inr containers \<Rightarrow>
                  (case find (\<lambda>c. gm_str (ctr_Labels c) ContainerLabelPodContainerRole = ContainerRoleInfra) containers of
                     None \<Rightarrow> ret ()
                   | Some c \<Rightarrow>
                       andThen (ignore (lp_Sync lp c)) (\<lambda>_.
                       andThen (pidOf lp c) (\<lambda>pid.
                       ignore (network_Restore (handleAbbotExec lp r) pid (ctr_ID c))))))))"

definition InitRuntime :: "'w engine \<Rightarrow> libpodRuntime \<Rightarrow> ('w, unit) act" where
  "InitRuntime lp r =
     andThen (initAbbot lp) (\<lambda>_.
     andThen (Pods lp (\<lambda>_. True)) (\<lambda>allPods.
     andThen (forEach allPods (initPod lp r)) (\<lambda>_. ret ())))"

section \<open>Facts about start-up\<close>

lemma ignore_not_Err: "fst (ignore m w) \<noteq> Err e"
  by (simp add: ignore_def andThen_def attempt_def split: outcome.splits prod.splits)

text \<open>Actions that never end in an error; a panic is still possible.\<close>

definition noErr :: "('w, 'a) act \<Rightarrow> bool" where
  "noErr m \<longleftrightarrow> (\<forall>w e. fst (m w) \<noteq> Err e)"

lemma noErr_rules:
  "noErr (ret a)" "noErr (Pair (Ok a))" "noErr (attempt m)" "noErr (ignore m)"
  "noErr m \<Longrightarrow> (\<And>a. noErr (f a)) \<Longrightarrow> noErr (andThen m f)"
proof -
  show "noErr m \<Longrightarrow> (\<And>a. noErr (f a)) \<Longrightarrow> noErr (andThen m f)"
    by (auto simp: noErr_def andThen_def split: outcome.splits prod.splits) (metis fst_conv)+
qed (simp_all add: noErr_def attempt_never_Err ignore_not_Err)

lemma noErr_pidOf: "noErr (pidOf lp c)"
  unfolding pidOf_def by (auto intro!: noErr_rules split: sum.splits)

lemma noErr_initPod: "noErr (initPod lp r p)"
  unfolding initPod_def podStartErr_def
  by (auto intro!: noErr_rules noErr_pidOf split: option.splits sum.splits)

lemma noErr_forEach: "(\<And>x. noErr (f x)) \<Longrightarrow> noErr (forEach xs f)"
  by (induction xs) (auto intro!: noErr_rules)

context libpod_api
begin

lemma keeps_initAbbot: "keeps (same_regs ctrs pods) (initAbbot lp)"
  unfolding initAbbot_def by (auto split: sum.splits intro!: quiet_rules keeps_findAbbotContainer)

lemma keeps_initPod_labelled:
  assumes "map_of (pod_Labels p) ContainerLabelPodUID \<noteq> None"
  shows "keeps (same_regs ctrs pods) (initPod lp r p)"
  using assms unfolding initPod_def podStartErr_def
  by (auto split: option.splits sum.splits intro!: quiet_rules keeps_pidOf keeps_network)

lemma initPod_frame:
  assumes "p \<in> pods w"
  shows "keeps (pod_frame ctrs pods {pod_ID q | q. q \<in> pods w \<and> map_of (pod_Labels q) ContainerLabelPodUID = None})
           (initPod lp r p)"
proof (cases "map_of (pod_Labels p) ContainerLabelPodUID")
  case None
  have "keeps (pod_frame ctrs pods {pod_ID p}) (initPod lp r p)"
    unfolding initPod_def using None by (auto intro: pf.keeps_ignore deletePod_frame)
  moreover have "{pod_ID p} \<subseteq> {pod_ID q | q. q \<in> pods w \<and> map_of (pod_Labels q) ContainerLabelPodUID = None}"
    using assms None by auto
  ultimately show ?thesis by (rule keeps_frame_mono)
next
  case (Some u)
  then show ?thesis using keeps_same_frame [OF keeps_initPod_labelled] by simp
qed

lemma InitRuntime_frame:
  "pod_frame ctrs pods {pod_ID q | q. q \<in> pods w \<and> map_of (pod_Labels q) ContainerLabelPodUID = None}
     w (snd (InitRuntime lp r w))"
proof -
  let ?P = "{pod_ID q | q. q \<in> pods w \<and> map_of (pod_Labels q) ContainerLabelPodUID = None}"
  obtain x w1 where a: "initAbbot lp w = (x, w1)" by fastforce
  have s1: "same_regs ctrs pods w w1" using keeps_initAbbot a by (rule keepsD)
  obtain y w2 where P: "Pods lp (\<lambda>_. True) w1 = (y, w2)" by fastforce
  have s2: "same_regs ctrs pods w1 w2" using keeps_Pods P by (rule keepsD)
  have w2: "pod_frame ctrs pods ?P w w2" using sr.rel_trans [OF s1 s2] by (rule same_regs_frame)
  show ?thesis
  proof (cases x)
    case (Ok _)
    note x = this
    show ?thesis
    proof (cases y)
      case (Ok ps)
      have "set ps \<subseteq> pods w" using Pods_Ok [OF P [unfolded Ok]] s1 by (auto simp: same_regs_def)
      then have "keeps (pod_frame ctrs pods ?P) (andThen (forEach ps (initPod lp r)) (\<lambda>_. ret ()))"
        by (intro pf.keeps_rules initPod_frame) auto
      then have "pod_frame ctrs pods ?P w2 (snd (InitRuntime lp r w))"
        using a x P Ok by (simp add: InitRuntime_def andThen_Ok keeps_def)
      then show ?thesis by (rule pf.rel_trans [OF w2])
    qed (use a x P w2 in \<open>simp_all add: InitRuntime_def andThen_def\<close>)
  qed (use a same_regs_frame [OF s1] in \<open>simp_all add: InitRuntime_def andThen_def\<close>)
qed

end

section \<open>Properties\<close>

text \<open>C36: start-up keeps every managed pod: whatever the outcome, \<^verbatim>\<open>InitRuntime\<close> registers nothing new, and the pods and
  containers it may remove are only those of pods without a UID label.\<close>

theorem init_runtime_keeps_managed:
  assumes "libpod_api lp ctrs pods" and "inj_on pod_ID (pods w)"
    and "p \<in> pods w" and "map_of (pod_Labels p) ContainerLabelPodUID \<noteq> None"
  shows "p \<in> pods (snd (InitRuntime lp r w))
    \<and> (\<forall>c\<in>ctrs w. ctr_Pod c = pod_ID p \<longrightarrow> c \<in> ctrs (snd (InitRuntime lp r w)))
    \<and> pods (snd (InitRuntime lp r w)) \<subseteq> pods w \<and> ctrs (snd (InitRuntime lp r w)) \<subseteq> ctrs w"
proof -
  have "pod_ID p \<notin> {pod_ID q | q. q \<in> pods w \<and> map_of (pod_Labels q) ContainerLabelPodUID = None}"
    using assms(2-4) by (auto dest: inj_onD)
  with libpod_api.InitRuntime_frame [OF assms(1), of w r] assms(3) show ?thesis
    unfolding pod_frame_def by auto
qed

text \<open>Witness: a foreign pod without labels is removed, the example pod stays.\<close>

theorem init_runtime_keeps_managed_witness:
  "examplePod \<in> sto_pod_set (snd (InitRuntime goodEngine exampleRuntime
     (withCtrs [examplePause] [\<lparr>pod_ID = ''p5'', pod_Name = ''foreign'', pod_Labels = []\<rparr>, examplePod])))
   \<and> sto_pods (snd (InitRuntime goodEngine exampleRuntime
     (withCtrs [examplePause] [\<lparr>pod_ID = ''p5'', pod_Name = ''foreign'', pod_Labels = []\<rparr>, examplePod]))) = [examplePod]"
proof
  let ?w = "withCtrs [examplePause] [\<lparr>pod_ID = ''p5'', pod_Name = ''foreign'', pod_Labels = []\<rparr>, examplePod]"
  show "examplePod \<in> sto_pod_set (snd (InitRuntime goodEngine exampleRuntime ?w))"
    using init_runtime_keeps_managed [OF sto.libpod_api_axioms, where w = ?w and p = examplePod and r = exampleRuntime and fails1 = "[]"]
    by (simp add: withCtrs_def sto_pod_set_def examplePod_def mkPod_def)
  show "sto_pods (snd (InitRuntime goodEngine exampleRuntime ?w)) = [examplePod]" by code_simp
qed

text \<open>Start-up is best effort for pods: once abbot is up (or absent) and the pods could be listed, \<^verbatim>\<open>InitRuntime\<close> never
  returns an error, whatever fails for single pods.\<close>

theorem init_runtime_only_fatal_errors:
  assumes "InitRuntime lp r w = (Err e, w')"
  shows "(\<exists>v. initAbbot lp w = (Err e, v)) \<or> (\<exists>v v' x. initAbbot lp w = (Ok x, v) \<and> lp_AllPods lp v = (Err e, v'))"
proof -
  have "noErr (forEach ps (initPod lp r))" for ps
    by (intro noErr_forEach noErr_initPod)
  then have "forEach ps (initPod lp r) v \<noteq> (Err e, w')" for ps v
    unfolding noErr_def by (metis fst_conv)
  with assms show ?thesis by (auto simp: InitRuntime_def Pods_def elim!: andThen_ErrE)
qed

text \<open>Witness: the pods cannot be listed.\<close>

theorem init_runtime_only_fatal_errors_witness:
  "\<exists>v v' x. initAbbot (store_engine [''AllPods'']) exampleWorld = (Ok x, v)
     \<and> lp_AllPods (store_engine [''AllPods'']) v = (Err (ErrExt ''AllPods''), v')"
proof -
  have i: "InitRuntime (store_engine [''AllPods'']) exampleRuntime exampleWorld = (Err (ErrExt ''AllPods''), exampleWorld)"
    by code_simp
  have "initAbbot (store_engine [''AllPods'']) exampleWorld = (Ok (), exampleWorld)" by code_simp
  with init_runtime_only_fatal_errors [OF i] show ?thesis by auto
qed

text \<open>The configured abbot sub command has no effect: the constructor gives the same runtime whatever
  \<^verbatim>\<open>abbotRequestSubCmd\<close> is, and the command executed in the abbot container ends with an empty argument.\<close>

theorem abbot_sub_command_ignored:
  "NewPodmanRuntime ctors (config\<lparr>rc_AbbotRequestSubCmd := s\<rparr>) = NewPodmanRuntime ctors config
   \<and> (\<forall>w r w'. NewPodmanRuntime ctors config w = (Ok r, w') \<longrightarrow> rt_abbotSubCmd r = [] \<and> rt_ctxCancelled r)"
  by (auto simp: NewPodmanRuntime_def libpodOpts_def elim!: andThen_OkE split: if_splits option.splits)

text \<open>Witness: constructors that succeed, with the default configuration.\<close>

definition exampleCtors :: "store libpodCtors" where
  "exampleCtors = \<lparr>ctor_LookupEnv = (\<lambda>_. None), ctor_NewConfig = (\<lambda>_. ret ()), ctor_NewRuntimeFromConfig = (\<lambda>_. ret ()),
     ctor_NewRuntime = (\<lambda>_. ret ()), ctor_HasImageRuntime = True, ctor_LibpodVersion = ''2.1.1'', ctor_GOOS = ''linux'',
     ctor_Arch = ''amd64''\<rparr>"

definition exampleConfig :: runtimeConfig where
  "exampleConfig = FlagsForRuntime_defaults \<lparr>rc_DataDir = [], rc_ManagementNamespace = [], rc_PauseImage = [],
     rc_PauseCommand = [], rc_ImageActionTimeout = 0, rc_PodActionTimeout = 0, rc_AbbotRequestSubCmd = []\<rparr>"

definition exampleNew :: libpodRuntime where
  "exampleNew = (case fst (NewPodmanRuntime exampleCtors exampleConfig emptyStore) of Ok r \<Rightarrow> r | _ \<Rightarrow> exampleRuntime)"

theorem abbot_sub_command_ignored_witness:
  "rc_AbbotRequestSubCmd exampleConfig = ''process'' \<and> rt_abbotSubCmd exampleNew = []"
proof -
  have "NewPodmanRuntime exampleCtors exampleConfig emptyStore = (Ok exampleNew, emptyStore)" by code_simp
  with abbot_sub_command_ignored [where ctors = exampleCtors and config = exampleConfig] show ?thesis
    by (auto simp: exampleConfig_def FlagsForRuntime_defaults_def)
qed

end
