(* ===== verification/Conf.thy ===== *)
theory Conf
  imports Flags Drivers Runtime
begin

text \<open>
  \<^verbatim>\<open>pkg/conf\<close>, \<^verbatim>\<open>pkg/constant\<close> and \<^verbatim>\<open>pkg/version\<close>: the configuration, the flags bound to it, reading it
  (\<^verbatim>\<open>ReadConfig\<close>), the signal loop, and the version command. The YAML decoder, the number, duration and
  CSV parsers, the logger, the file system and the environment are parameters. A pointer into the
  configuration is the function that updates its target.
\<close>

section \<open>Constants\<close>

definition ContextKeyConfig :: string where
  "ContextKeyConfig = ''config''"
definition DefaultAppConfigFile :: string where
  "DefaultAppConfigFile = ''/etc/arhat/runtime-podman.yaml''"
definition DefaultExtensionHubURL :: string where
  "DefaultExtensionHubURL = ''unix:///var/run/arhat.sock''"
definition DefaultPodActionTimeout :: int where
  "DefaultPodActionTimeout = 10 * time_Minute"
definition DefaultImageActionTimeout :: int where
  "DefaultImageActionTimeout = 15 * time_Minute"
definition DefaultPodDataDir :: string where
  "DefaultPodDataDir = ''/var/lib/arhat/podman/data''"
definition DefaultPauseImage :: string where
  "DefaultPauseImage = ''k8s.gcr.io/pause:3.3''"

section \<open>The configuration\<close>

record logConfig =
  lg_Level :: string
  lg_Format :: string
  lg_KubeLog :: bool
  lg_File :: string

record tlsConfig =
  tls_Enabled :: bool
  tls_CaCert :: string
  tls_Cert :: string
  tls_Key :: string
  tls_CaCertData :: string
  tls_CertData :: string
  tls_KeyData :: string
  tls_ServerName :: string
  tls_InsecureSkipVerify :: bool
  tls_KeyLogFile :: string
  tls_CipherSuites :: "string list"
  tls_AllowInsecureHashes :: bool
  tls_ServerHintMapping :: "string list"
  tls_IdentityHint :: string

record appConfig =
  ap_Log :: "logConfig list"
  ap_ExtensionHubURL :: string
  ap_MaxDataMessagePayload :: int
  ap_TLS :: tlsConfig

record config =
  cf_App :: appConfig
  cf_Runtime :: runtimeConfig
  cf_Storage :: clientConfig

record versionOptions =
  vo_branch :: bool
  vo_commit :: bool
  vo_tag :: bool
  vo_arch :: bool
  vo_goVersion :: bool
  vo_goCompilerPlatform :: bool

text \<open>All variables the flags of the two commands are bound to.\<close>

record cmdVars =
  cv_configFile :: string
  cv_config :: config
  cv_opt :: versionOptions
  cv_help :: bool

record parsers =
  pa_Int :: "string \<Rightarrow> goerr + int"
  pa_Duration :: "string \<Rightarrow> goerr + int"
  pa_CSV :: "string \<Rightarrow> goerr + string list"

text \<open>Zero values.\<close>

definition zeroLog :: logConfig where
  "zeroLog = \<lparr>lg_Level = [], lg_Format = [], lg_KubeLog = False, lg_File = []\<rparr>"
definition zeroTLS :: tlsConfig where
  "zeroTLS = \<lparr>tls_Enabled = False, tls_CaCert = [], tls_Cert = [], tls_Key = [], tls_CaCertData = [], tls_CertData = [],
     tls_KeyData = [], tls_ServerName = [], tls_InsecureSkipVerify = False, tls_KeyLogFile = [], tls_CipherSuites = [],
     tls_AllowInsecureHashes = False, tls_ServerHintMapping = [], tls_IdentityHint = []\<rparr>"
definition zeroConfig :: config where
  "zeroConfig =
     \<lparr>cf_App = \<lparr>ap_Log = [], ap_ExtensionHubURL = [], ap_MaxDataMessagePayload = 0, ap_TLS = zeroTLS\<rparr>,
      cf_Runtime = \<lparr>rc_DataDir = [], rc_ManagementNamespace = [], rc_PauseImage = [], rc_PauseCommand = [],
        rc_ImageActionTimeout = 0, rc_PodActionTimeout = 0, rc_AbbotRequestSubCmd = []\<rparr>,
      cf_Storage = \<lparr>cl_Driver = \<lparr>dc_Driver = [], dc_Config = CfgNil\<rparr>, cl_StdoutFile = [], cl_StderrFile = [],
        cl_SuccessTimeWait = 0, cl_ExtraLookupPaths = []\<rparr>\<rparr>"
definition zeroVars :: cmdVars where
  "zeroVars = \<lparr>cv_configFile = [], cv_config = zeroConfig,
     cv_opt = \<lparr>vo_branch = False, vo_commit = False, vo_tag = False, vo_arch = False, vo_goVersion = False,
       vo_goCompilerPlatform = False\<rparr>, cv_help = False\<rparr>"

section \<open>Flags\<close>

definition FlagsForTLSConfig ::
  "parsers \<Rightarrow> string \<Rightarrow> ((tlsConfig \<Rightarrow> tlsConfig) \<Rightarrow> 'c \<Rightarrow> 'c) \<Rightarrow> 'c flagDef list" where
  "FlagsForTLSConfig pa prefix config =
     [BoolVar (\<lambda>v. config (tls_Enabled_update (\<lambda>_. v))) (prefix @ ''enabled'') False,
      BoolVar (\<lambda>v. config (tls_InsecureSkipVerify_update (\<lambda>_. v))) (prefix @ ''insecureSkipVerify'') False,
      StringVar (\<lambda>v. config (tls_CaCert_update (\<lambda>_. v))) (prefix @ ''caCert'') [],
      StringVar (\<lambda>v. config (tls_Cert_update (\<lambda>_. v))) (prefix @ ''cert'') [],
      StringVar (\<lambda>v. config (tls_Key_update (\<lambda>_. v))) (prefix @ ''key'') [],
      StringVar (\<lambda>v. config (tls_ServerName_update (\<lambda>_. v))) (prefix @ ''serverName'') [],
      StringVar (\<lambda>v. config (tls_KeyLogFile_update (\<lambda>_. v))) (prefix @ ''keyLogFile'') [],
      StringSliceVar (pa_CSV pa) (\<lambda>u. config (tls_CipherSuites_update u)) (prefix @ ''cipherSuites'') [],
      BoolVar (\<lambda>v. config (tls_AllowInsecureHashes_update (\<lambda>_. v))) (prefix @ ''allowInsecureHashes'') False,
      StringVar (\<lambda>v. config (tls_IdentityHint_update (\<lambda>_. v))) (prefix @ ''preSharedKey.identityHint'') [],
      StringSliceVar (pa_CSV pa) (\<lambda>u. config (tls_ServerHintMapping_update u))
        (prefix @ ''preSharedKey.serverHintMapping'') []]"

definition FlagsForApp ::
  "parsers \<Rightarrow> string \<Rightarrow> ((appConfig \<Rightarrow> appConfig) \<Rightarrow> 'c \<Rightarrow> 'c) \<Rightarrow> 'c flagDef list" where
  "FlagsForApp pa prefix config =
     [StringVar (\<lambda>v. config (ap_ExtensionHubURL_update (\<lambda>_. v))) (prefix @ ''extensionHubURL'') DefaultExtensionHubURL,
      NumVar (pa_Int pa) (\<lambda>v. config (ap_MaxDataMessagePayload_update (\<lambda>_. v))) (prefix @ ''maxDataMessagePayload'') 65535]
     @ FlagsForTLSConfig pa (prefix @ ''tls.'') (\<lambda>f. config (ap_TLS_update f))"

definition FlagsForRuntime ::
  "parsers \<Rightarrow> string \<Rightarrow> ((runtimeConfig \<Rightarrow> runtimeConfig) \<Rightarrow> 'c \<Rightarrow> 'c) \<Rightarrow> 'c flagDef list" where
  "FlagsForRuntime pa prefix config =
     [StringVar (\<lambda>v. config (rc_DataDir_update (\<lambda>_. v))) (prefix @ ''dataDir'') DefaultPodDataDir,
      StringVar (\<lambda>v. config (rc_PauseImage_update (\<lambda>_. v))) (prefix @ ''pauseImage'') DefaultPauseImage,
      StringSliceVar (pa_CSV pa) (\<lambda>u. config (rc_PauseCommand_update u)) (prefix @ ''pauseCommand'') [DefaultPauseCommand],
      NumVar (pa_Duration pa) (\<lambda>v. config (rc_ImageActionTimeout_update (\<lambda>_. v))) (prefix @ ''imageActionTimeout'')
        DefaultImageActionTimeout,
      NumVar (pa_Duration pa) (\<lambda>v. config (rc_PodActionTimeout_update (\<lambda>_. v))) (prefix @ ''podActionTimeout'')
        DefaultPodActionTimeout,
      StringVar (\<lambda>v. config (rc_AbbotRequestSubCmd_update (\<lambda>_. v))) (prefix @ ''abbotRequestSubCmd'') ''process'']"

definition FlagsForClient ::
  "parsers \<Rightarrow> string \<Rightarrow> ((clientConfig \<Rightarrow> clientConfig) \<Rightarrow> 'c \<Rightarrow> 'c) \<Rightarrow> 'c flagDef list" where
  "FlagsForClient pa prefix config =
     [StringVar (\<lambda>v. config (cl_Driver_update (dc_Driver_update (\<lambda>_. v)))) (prefix @ ''driver'') [],
      StringVar (\<lambda>v. config (cl_StdoutFile_update (\<lambda>_. v))) (prefix @ ''stdoutFile'') ''stdout'',
      StringVar (\<lambda>v. config (cl_StderrFile_update (\<lambda>_. v))) (prefix @ ''stderrFile'') ''stderr'',
      NumVar (pa_Duration pa) (\<lambda>v. config (cl_SuccessTimeWait_update (\<lambda>_. v))) (prefix @ ''successTimeWait'')
        (5 * 1000000000),
      StringSliceVar (pa_CSV pa) (\<lambda>u. config (cl_ExtraLookupPaths_update u)) (prefix @ ''extraLookupPaths'') []]"

text \<open>The persistent flags of the root command, as \<^verbatim>\<open>NewRuntimePodmanCmd\<close> registers them.\<close>

definition rootFlags :: "parsers \<Rightarrow> cmdVars flagDef list" where
  "rootFlags pa =
     [StringVarP (\<lambda>v. cv_configFile_update (\<lambda>_. v)) ''config'' (Some (CHR ''c'')) DefaultAppConfigFile]
     @ FlagsForApp pa [] (\<lambda>f. cv_config_update (cf_App_update f))
     @ FlagsForRuntime pa ''runtime.'' (\<lambda>f. cv_config_update (cf_Runtime_update f))
     @ FlagsForClient pa ''storage.'' (\<lambda>f. cv_config_update (cf_Storage_update f))"

definition versionFlags :: "cmdVars flagDef list" where
  "versionFlags =
     [BoolVar (\<lambda>v. cv_opt_update (vo_branch_update (\<lambda>_. v))) ''branch'' False,
      BoolVar (\<lambda>v. cv_opt_update (vo_commit_update (\<lambda>_. v))) ''commit'' False,
      BoolVar (\<lambda>v. cv_opt_update (vo_tag_update (\<lambda>_. v))) ''tag'' False,
      BoolVar (\<lambda>v. cv_opt_update (vo_arch_update (\<lambda>_. v))) ''arch'' False,
      BoolVar (\<lambda>v. cv_opt_update (vo_goVersion_update (\<lambda>_. v))) ''go.version'' False,
      BoolVar (\<lambda>v. cv_opt_update (vo_goCompilerPlatform_update (\<lambda>_. v))) ''go.compilerPlatform'' False]"

text \<open>The help flag every command gets.\<close>

definition helpFlag :: "cmdVars flagDef" where
  "helpFlag = BoolVarP (\<lambda>v. cv_help_update (\<lambda>_. v)) ''help'' (Some (CHR ''h'')) False"

datatype appCmd = RootCmd | VersionCmd

definition cmdFlags :: "parsers \<Rightarrow> appCmd \<Rightarrow> cmdVars flagSet" where
  "cmdFlags pa cmd =
     AddFlagSet [helpFlag] (AddFlagSet (rootFlags pa)
       (AddFlagSet (if cmd = VersionCmd then versionFlags else []) (NewFlagSet zeroVars)))"

section \<open>Reading the configuration\<close>

text \<open>
  The process: the flags of the command that runs, whether the default logger has been made, and
  what was written to standard output.
\<close>

record proc =
  pr_flags :: "cmdVars flagSet"
  pr_loggerMade :: bool
  pr_notified :: bool
  pr_stdout :: string

text \<open>
  Files (the bytes read, also together with an error), the environment, the decoder (which changes
  the configuration it is given), the arguments of the process and the construction of a logger.
\<close>

record osProcess =
  op_ReadFile :: "string \<Rightarrow> string \<times> goerr option"
  op_LookupEnv :: "string \<Rightarrow> string option"
  op_Unmarshal :: "string \<Rightarrow> config \<Rightarrow> goerr + config"
  op_Args :: "string list"
  op_LogNew :: "logConfig list \<Rightarrow> goerr option"

record appContext =
  cx_Key :: string
  cx_Value :: config

definition getVars :: "proc \<Rightarrow> cmdVars" where
  "getVars p = fs_vars (pr_flags p)"

definition setConfig :: "config \<Rightarrow> (proc, unit) act" where
  "setConfig c p = (Ok (), p\<lparr>pr_flags := (pr_flags p)\<lparr>fs_vars := (getVars p)\<lparr>cv_config := c\<rparr>\<rparr>\<rparr>)"

definition ParseFlags :: "string list \<Rightarrow> (proc, unit) act" where
  "ParseFlags args p =
     (case fs_Parse args (pr_flags p) of Inl e \<Rightarrow> (Err e, p) | Inr f \<Rightarrow> (Ok (), p\<lparr>pr_flags := f\<rparr>))"

definition expandEnv :: "osProcess \<Rightarrow> string \<Rightarrow> string" where
  "expandEnv env s = Expand (\<lambda>s origin. case op_LookupEnv env s of Some v \<Rightarrow> v | None \<Rightarrow> origin) s"

definition unmarshalConfig :: "osProcess \<Rightarrow> string \<Rightarrow> string \<Rightarrow> (proc, unit) act" where
  "unmarshalConfig env configFile configBytes p =
     (if length configBytes > 0 then
        (case op_Unmarshal env (expandEnv env configBytes) (cv_config (getVars p)) of
           Inl e \<Rightarrow> (Err (ErrWrap (''failed to unmarshal config file '' @ configFile) e), p)
         | Inr c \<Rightarrow> setConfig c p)
      else (Ok (), p))"

definition readConfigFile :: "osProcess \<Rightarrow> (proc, unit) act" where
  "readConfigFile env p =
     (let configFile = cv_configFile (getVars p); (configBytes, err) = op_ReadFile env configFile in
      case err of
        Some e \<Rightarrow>
          if fs_Changed (pr_flags p) ''config''
          then (Err (ErrWrap (''failed to read config file '' @ configFile) e), p)
          else unmarshalConfig env configFile configBytes p
      | None \<Rightarrow> unmarshalConfig env configFile configBytes p)"

definition overrideLog :: "logConfig \<Rightarrow> (proc, unit) act" where
  "overrideLog cliLogConfig p =
     (let c = cv_config (getVars p); flags = pr_flags p in
      case ap_Log (cf_App c) of
        l # ls \<Rightarrow>
          (let l = (if fs_Changed flags ''log.format'' then l\<lparr>lg_Format := lg_Format cliLogConfig\<rparr> else l);
               l = (if fs_Changed flags ''log.level'' then l\<lparr>lg_Level := lg_Level cliLogConfig\<rparr> else l);
               l = (if fs_Changed flags ''log.file'' then l\<lparr>lg_File := lg_File cliLogConfig\<rparr> else l) in
           setConfig (cf_App_update (ap_Log_update (\<lambda>_. l # ls)) c) p)
      | [] \<Rightarrow> setConfig (cf_App_update (ap_Log_update (\<lambda>_. [cliLogConfig])) c) p)"

text \<open>\<^verbatim>\<open>log.SetDefaultLogger\<close>: the first call makes the logger and panics when that fails.\<close>

definition SetDefaultLogger :: "osProcess \<Rightarrow> logConfig list \<Rightarrow> (proc, unit) act" where
  "SetDefaultLogger env cs p =
     (if pr_loggerMade p then (Ok (), p)
      else case op_LogNew env cs of
             Some e \<Rightarrow> (Panic (err_Error e), p\<lparr>pr_loggerMade := True\<rparr>)
           | None \<Rightarrow> (Ok (), p\<lparr>pr_loggerMade := True\<rparr>))"

definition ReadConfig :: "osProcess \<Rightarrow> logConfig \<Rightarrow> (proc, appContext) act" where
  "ReadConfig env cliLogConfig =
     andThen (readConfigFile env) (\<lambda>_.
     andThen (overrideLog cliLogConfig) (\<lambda>_.
     andThen (ParseFlags (op_Args env)) (\<lambda>_.
     andThen (wrapErr ''failed to set default logger''
       (\<lambda>p. SetDefaultLogger env (ap_Log (cf_App (cv_config (getVars p)))) p)) (\<lambda>_ p.
     (Ok \<lparr>cx_Key = ContextKeyConfig, cx_Value = cv_config (getVars p)\<rparr>, p\<lparr>pr_notified := True\<rparr>)))))"

text \<open>
  The goroutine of \<^verbatim>\<open>ReadConfig\<close>: what it does for the signals it receives, until the process ends.
\<close>

datatype signal = Interrupt | SIGTERM | OtherSignal int
datatype sigEffect = CancelContext | OsExit int

fun signalLoop :: "nat \<Rightarrow> signal list \<Rightarrow> sigEffect list" where
  "signalLoop exitCount [] = []"
| "signalLoop exitCount (sig # sigs) =
     (if sig = Interrupt \<or> sig = SIGTERM then
        (let exitCount = exitCount + 1 in
         if exitCount = 1 then CancelContext # signalLoop exitCount sigs else [OsExit 1])
      else signalLoop exitCount sigs)"

section \<open>Version\<close>

text \<open>The variables set by the linker, and \<^verbatim>\<open>runtime.Version()\<close>.\<close>

record buildInfo =
  bi_branch :: string
  bi_commit :: string
  bi_tag :: string
  bi_arch :: string
  bi_goVersion :: string
  bi_goCompilerPlatform :: string

definition newline :: char where
  "newline = CHR 0x0A"

definition Branch :: "buildInfo \<Rightarrow> string" where "Branch b = bi_branch b"
definition Commit :: "buildInfo \<Rightarrow> string" where "Commit b = bi_commit b"
definition Tag :: "buildInfo \<Rightarrow> string" where "Tag b = bi_tag b"
definition Arch :: "buildInfo \<Rightarrow> string" where "Arch b = bi_arch b"
definition GoVersion :: "buildInfo \<Rightarrow> string" where "GoVersion b = bi_goVersion b"
definition GoCompilerPlatform :: "buildInfo \<Rightarrow> string" where "GoCompilerPlatform b = bi_goCompilerPlatform b"

definition Version :: "buildInfo \<Rightarrow> string" where
  "Version b =
     ''branch: '' @ Branch b @ [newline] @
     ''commit: '' @ Commit b @ [newline] @
     ''tag: '' @ Tag b @ [newline] @
     ''arch: '' @ Arch b @ [newline] @
     ''goVersion: '' @ GoVersion b @ [newline] @
     ''goCompilerPlatform: '' @ GoCompilerPlatform b @ [newline]"

definition versionText :: "buildInfo \<Rightarrow> versionOptions \<Rightarrow> string" where
  "versionText b opt =
     (if vo_branch opt then Branch b
      else if vo_commit opt then Commit b
      else if vo_tag opt then Tag b
      else if vo_arch opt then Arch b
      else if vo_goVersion opt then GoVersion b
      else if vo_goCompilerPlatform opt then GoCompilerPlatform b
      else Version b)"

definition versionRun :: "buildInfo \<Rightarrow> (proc, unit) act" where
  "versionRun b p = (Ok (), p\<lparr>pr_stdout := pr_stdout p @ versionText b (cv_opt (getVars p))\<rparr>)"

section \<open>Where a value of the configuration comes from\<close>

lemmas flag_kinds = StringVar_def StringVarP_def BoolVar_def BoolVarP_def NumVar_def StringSliceVar_def
lemmas flag_lists = rootFlags_def FlagsForApp_def FlagsForTLSConfig_def FlagsForRuntime_def FlagsForClient_def
  versionFlags_def helpFlag_def

text \<open>No two flags of a command share a name, so none is dropped when the sets are merged.\<close>

lemma rootFlags_names:
  "map fl_Name (rootFlags pa) =
     [''config'', ''extensionHubURL'', ''maxDataMessagePayload'', ''tls.enabled'', ''tls.insecureSkipVerify'',
      ''tls.caCert'', ''tls.cert'', ''tls.key'', ''tls.serverName'', ''tls.keyLogFile'', ''tls.cipherSuites'',
      ''tls.allowInsecureHashes'', ''tls.preSharedKey.identityHint'', ''tls.preSharedKey.serverHintMapping'',
      ''runtime.dataDir'', ''runtime.pauseImage'', ''runtime.pauseCommand'', ''runtime.imageActionTimeout'',
      ''runtime.podActionTimeout'', ''runtime.abbotRequestSubCmd'', ''storage.driver'', ''storage.stdoutFile'',
      ''storage.stderrFile'', ''storage.successTimeWait'', ''storage.extraLookupPaths'']"
  by (simp add: flag_lists flag_kinds)

lemma versionFlags_names:
  "map fl_Name versionFlags = [''branch'', ''commit'', ''tag'', ''arch'', ''go.version'', ''go.compilerPlatform'']"
  by (simp add: flag_lists flag_kinds)

lemma helpFlag_name: "fl_Name helpFlag = ''help''"
  by (simp add: flag_lists flag_kinds)

lemma lookup_None: "fs_Lookup f n = None \<longleftrightarrow> n \<notin> set (map fl_Name (fs_formal f))"
  by (auto simp: fs_Lookup_def find_None_iff)

lemma AddFlagSet_disjoint:
  "set (map fl_Name new) \<inter> set (map fl_Name (fs_formal f)) = {} \<Longrightarrow>
   fs_formal (AddFlagSet new f) = fs_formal f @ new"
  by (auto simp: AddFlagSet_def lookup_None filter_id_conv disjoint_iff)

lemma cmdFlags_formal:
  "fs_formal (cmdFlags pa cmd) = (if cmd = VersionCmd then versionFlags else []) @ rootFlags pa @ [helpFlag]"
proof -
  have v: "fs_formal (AddFlagSet (if cmd = VersionCmd then versionFlags else []) (NewFlagSet zeroVars))
      = (if cmd = VersionCmd then versionFlags else [])"
    by (subst AddFlagSet_disjoint) (simp_all add: NewFlagSet_def)
  have r: "fs_formal (AddFlagSet (rootFlags pa) (AddFlagSet (if cmd = VersionCmd then versionFlags else []) (NewFlagSet zeroVars)))
      = (if cmd = VersionCmd then versionFlags else []) @ rootFlags pa"
    by (subst AddFlagSet_disjoint) (simp_all only: v rootFlags_names versionFlags_names split: if_split, simp_all)
  show ?thesis
    unfolding cmdFlags_def
    by (subst AddFlagSet_disjoint) (simp_all only: r map_append rootFlags_names versionFlags_names
          helpFlag_name list.map split: if_split, simp_all)
qed

lemma cmdFlags_unique: "uniqueNames (cmdFlags pa cmd)"
  unfolding uniqueNames_def cmdFlags_formal
  by (simp only: map_append rootFlags_names versionFlags_names helpFlag_name list.map split: if_split) simp

text \<open>The variables of the hub address and of the pause command.\<close>

abbreviation hubURL :: "cmdVars \<Rightarrow> string" where
  "hubURL v \<equiv> ap_ExtensionHubURL (cf_App (cv_config v))"
abbreviation pauseCommand :: "cmdVars \<Rightarrow> string list" where
  "pauseCommand v \<equiv> rc_PauseCommand (cf_Runtime (cv_config v))"

lemma cmdFlags_cases:
  "fl \<in> set (fs_formal (cmdFlags pa cmd)) \<Longrightarrow>
   fl \<in> set versionFlags \<or> fl \<in> set (rootFlags pa) \<or> fl = helpFlag"
  by (auto simp: cmdFlags_formal split: if_splits)

interpretation hub: string_flag "fs_formal (cmdFlags pa cmd)" "''extensionHubURL''" hubURL for pa cmd
proof
  fix fl ch v c c'
  assume "fl \<in> set (fs_formal (cmdFlags pa cmd))"
  note fl = cmdFlags_cases [OF this]
  show "fl_Name fl \<noteq> ''extensionHubURL'' \<Longrightarrow> fl_Value_Set fl ch v c = Inr c' \<Longrightarrow> hubURL c' = hubURL c"
    using fl by (auto simp: flag_lists flag_kinds split: sum.splits)
  show "fl_Name fl = ''extensionHubURL'' \<Longrightarrow> fl_Value_Set fl ch v c = Inr c' \<Longrightarrow> hubURL c' = v"
    using fl by (auto simp: flag_lists flag_kinds split: sum.splits)
qed

interpretation pause: slice_flag "fs_formal (cmdFlags pa cmd)" "''runtime.pauseCommand''" pauseCommand "pa_CSV pa" for pa cmd
proof
  fix fl ch v c c'
  assume "fl \<in> set (fs_formal (cmdFlags pa cmd))"
  note fl = cmdFlags_cases [OF this]
  show "fl_Name fl \<noteq> ''runtime.pauseCommand'' \<Longrightarrow> fl_Value_Set fl ch v c = Inr c' \<Longrightarrow> pauseCommand c' = pauseCommand c"
    using fl by (auto simp: flag_lists flag_kinds split: sum.splits)
  show "fl_Name fl = ''runtime.pauseCommand'' \<Longrightarrow> fl_Value_Set fl ch v c = Inr c' \<Longrightarrow>
      pauseCommand c' = (if ch then pauseCommand c else []) @ csvValues (pa_CSV pa) [v]"
    using fl by (auto simp: flag_lists flag_kinds csvValues_def split: sum.splits)
qed

text \<open>The configuration a file leaves, and the section on logging after the override.\<close>

definition fileConfig :: "osProcess \<Rightarrow> cmdVars \<Rightarrow> config" where
  "fileConfig env v =
     (let bytes = fst (op_ReadFile env (cv_configFile v)) in
      if bytes = [] then cv_config v
      else case op_Unmarshal env (expandEnv env bytes) (cv_config v) of Inl _ \<Rightarrow> cv_config v | Inr c \<Rightarrow> c)"

lemma readConfigFile_Ok:
  assumes "readConfigFile env p = (Ok u, p')"
  shows "p' = p\<lparr>pr_flags := (pr_flags p)\<lparr>fs_vars := (getVars p)\<lparr>cv_config := fileConfig env (getVars p)\<rparr>\<rparr>\<rparr>"
  using assms
  by (auto simp: readConfigFile_def unmarshalConfig_def fileConfig_def setConfig_def getVars_def Let_def
      split: prod.splits option.splits if_splits sum.splits)

text \<open>A state of the process whose flags are those of a command.\<close>

lemma overrideLog_Ok:
  assumes "overrideLog cli p = (Ok u, p')"
  shows "\<exists>ls. p' = p\<lparr>pr_flags := (pr_flags p)\<lparr>fs_vars :=
      (getVars p)\<lparr>cv_config := cf_App_update (ap_Log_update (\<lambda>_. ls)) (cv_config (getVars p))\<rparr>\<rparr>\<rparr>
    \<and> (ap_Log (cf_App (cv_config (getVars p))) = [] \<longrightarrow> ls = [cli])
    \<and> (set (fs_changed (pr_flags p)) \<inter> {''log.format'', ''log.level'', ''log.file''} = {} \<longrightarrow>
         ap_Log (cf_App (cv_config (getVars p))) \<noteq> [] \<longrightarrow> ls = ap_Log (cf_App (cv_config (getVars p))))"
  using assms
  by (auto simp: overrideLog_def setConfig_def getVars_def fs_Changed_def Let_def split: list.splits)

lemma ReadConfig_Ok:
  assumes "ReadConfig env cli p = (Ok ctx, p')"
  obtains ls f where "fs_Parse (op_Args env) ((pr_flags p)\<lparr>fs_vars := (getVars p)\<lparr>cv_config :=
      cf_App_update (ap_Log_update (\<lambda>_. ls)) (fileConfig env (getVars p))\<rparr>\<rparr>) = Inr f"
    and "cx_Value ctx = cv_config (fs_vars f)" and "pr_flags p' = f"
proof -
  from assms obtain p1 p2 p3 where 1: "readConfigFile env p = (Ok (), p1)" and 2: "overrideLog cli p1 = (Ok (), p2)"
    and 3: "ParseFlags (op_Args env) p2 = (Ok (), p3)"
    and 4: "cx_Value ctx = cv_config (getVars p3)" "pr_flags p' = pr_flags p3"
    by (auto simp: ReadConfig_def SetDefaultLogger_def getVars_def elim!: andThen_OkE dest!: wrapErr_OkD
        split: if_splits option.splits)
  from overrideLog_Ok [OF 2] obtain ls where p2: "p2 = p1\<lparr>pr_flags := (pr_flags p1)\<lparr>fs_vars :=
      (getVars p1)\<lparr>cv_config := cf_App_update (ap_Log_update (\<lambda>_. ls)) (cv_config (getVars p1))\<rparr>\<rparr>\<rparr>" by blast
  from 3 obtain f where f: "fs_Parse (op_Args env) (pr_flags p2) = Inr f" "p3 = p2\<lparr>pr_flags := f\<rparr>"
    by (auto simp: ParseFlags_def split: sum.splits)
  show thesis
    using f 4 readConfigFile_Ok [OF 1] p2 by (intro that [of ls f]) (simp_all add: getVars_def)
qed

lemma parsedAs_setAll: "parsedAs f f' l \<Longrightarrow> setAll l (f\<lparr>fs_args := fs_args f'\<rparr>) = Inr f'"
  by (simp add: parsedAs_def)

text \<open>What the two parses of a command line do: both make the settings the arguments give.\<close>

lemma ReadConfig_parses:
  assumes first: "fs_Parse args (cmdFlags pa RootCmd) = Inr (pr_flags p)"
    and args: "op_Args env = prog # args" and prog: "prog = [] \<or> hd prog \<noteq> CHR ''-''"
    and run: "ReadConfig env cli p = (Ok ctx, p')"
  obtains g f a where "fs_formal g = fs_formal (cmdFlags pa RootCmd)" and "fs_changed g = fs_changed (pr_flags p)"
    and "\<exists>ls. cv_config (fs_vars g) = cf_App_update (ap_Log_update (\<lambda>_. ls)) (fileConfig env (getVars p))"
    and "setAll (givenFlags (fs_formal (cmdFlags pa RootCmd)) args) g = Inr f"
    and "cx_Value ctx = cv_config (fs_vars f)"
    and "setAll (givenFlags (fs_formal (cmdFlags pa RootCmd)) args) ((cmdFlags pa RootCmd)\<lparr>fs_args := a\<rparr>) = Inr (pr_flags p)"
proof -
  let ?given = "givenFlags (fs_formal (cmdFlags pa RootCmd)) args"
  note one = fs_Parse_given [OF cmdFlags_unique first]
  from run obtain ls f where f: "fs_Parse (op_Args env) ((pr_flags p)\<lparr>fs_vars := (getVars p)\<lparr>cv_config :=
      cf_App_update (ap_Log_update (\<lambda>_. ls)) (fileConfig env (getVars p))\<rparr>\<rparr>) = Inr f"
    and ctx: "cx_Value ctx = cv_config (fs_vars f)" by (rule ReadConfig_Ok)
  let ?g = "(pr_flags p)\<lparr>fs_vars := (getVars p)\<lparr>cv_config :=
      cf_App_update (ap_Log_update (\<lambda>_. ls)) (fileConfig env (getVars p))\<rparr>\<rparr>"
  have formal: "fs_formal (pr_flags p) = fs_formal (cmdFlags pa RootCmd)" by (rule parsedAs_formal [OF one(1)])
  have u: "uniqueNames ?g" using cmdFlags_unique by (simp add: uniqueNames_def formal)
  from fs_Parse_given(1) [OF u f] have "parsedAs ?g f ?given"
    using one(2) [OF prog] by (simp add: formal args)
  then have "setAll ?given (?g\<lparr>fs_args := fs_args f\<rparr>) = Inr f" by (rule parsedAs_setAll)
  then show thesis
    using one(1) ctx by (intro that [of "?g\<lparr>fs_args := fs_args f\<rparr>" f]) (auto simp: formal parsedAs_def)
qed

text \<open>C34: After reading the configuration the hub address is the last one given on the command line, or
  else the one the configuration file leaves (which is the default when the file does not set it):
  whatever the arguments, the environment and the file are.\<close>

theorem flags_override_config_file:
  assumes "fs_Parse args (cmdFlags pa RootCmd) = Inr (pr_flags p)"
    and "op_Args env = prog # args" and "prog = [] \<or> hd prog \<noteq> CHR ''-''"
    and "ReadConfig env cli p = (Ok ctx, p')"
  shows "ap_ExtensionHubURL (cf_App (cx_Value ctx)) =
    last (ap_ExtensionHubURL (cf_App (fileConfig env (getVars p)))
          # valuesOf ''extensionHubURL'' (givenFlags (fs_formal (cmdFlags pa RootCmd)) args))"
  using assms
proof (rule ReadConfig_parses)
  fix g f a
  assume g: "fs_formal g = fs_formal (cmdFlags pa RootCmd)"
    and c: "\<exists>ls. cv_config (fs_vars g) = cf_App_update (ap_Log_update (\<lambda>_. ls)) (fileConfig env (getVars p))"
    and s: "setAll (givenFlags (fs_formal (cmdFlags pa RootCmd)) args) g = Inr f"
    and ctx: "cx_Value ctx = cv_config (fs_vars f)"
  from hub.last_wins [OF s g] c ctx show ?thesis by auto
qed

text \<open>The command line is parsed twice and a list flag appends the second time, so the pause command is
  what the file leaves followed by the values given on the command line; without a file the values
  appear twice.\<close>

theorem pause_command_flag_twice:
  assumes "fs_Parse args (cmdFlags pa RootCmd) = Inr (pr_flags p)"
    and "op_Args env = prog # args" and "prog = [] \<or> hd prog \<noteq> CHR ''-''"
    and "ReadConfig env cli p = (Ok ctx, p')"
    and "given = csvValues (pa_CSV pa)
           (valuesOf ''runtime.pauseCommand'' (givenFlags (fs_formal (cmdFlags pa RootCmd)) args))"
  shows "rc_PauseCommand (cf_Runtime (cx_Value ctx)) = rc_PauseCommand (cf_Runtime (fileConfig env (getVars p))) @ given
    \<and> (fst (op_ReadFile env (cv_configFile (getVars p))) = [] \<and> given \<noteq> [] \<longrightarrow>
         rc_PauseCommand (cf_Runtime (cx_Value ctx)) = given @ given)"
proof -
  let ?vs = "valuesOf ''runtime.pauseCommand'' (givenFlags (fs_formal (cmdFlags pa RootCmd)) args)"
  from assms(1-4) obtain g f a where g: "fs_formal g = fs_formal (cmdFlags pa RootCmd)"
      "fs_changed g = fs_changed (pr_flags p)"
    and c: "\<exists>ls. cv_config (fs_vars g) = cf_App_update (ap_Log_update (\<lambda>_. ls)) (fileConfig env (getVars p))"
    and s: "setAll (givenFlags (fs_formal (cmdFlags pa RootCmd)) args) g = Inr f"
    and ctx: "cx_Value ctx = cv_config (fs_vars f)"
    and s0: "setAll (givenFlags (fs_formal (cmdFlags pa RootCmd)) args) ((cmdFlags pa RootCmd)\<lparr>fs_args := a\<rparr>)
        = Inr (pr_flags p)"
    by (rule ReadConfig_parses)
  have "fs_Changed ((cmdFlags pa RootCmd)\<lparr>fs_args := a\<rparr>) n = False" for n
    by (simp add: fs_Changed_def cmdFlags_def AddFlagSet_def NewFlagSet_def)
  with pause.appended [OF s0] have 1: "fs_Changed (pr_flags p) ''runtime.pauseCommand'' \<longleftrightarrow> ?vs \<noteq> []"
    and 2: "?vs \<noteq> [] \<Longrightarrow> pauseCommand (getVars p) = given" using assms(5) by (simp_all add: getVars_def)
  have "fs_Changed g ''runtime.pauseCommand'' \<longleftrightarrow> ?vs \<noteq> []" using 1 g(2) by (simp add: fs_Changed_def)
  with pause.appended [OF s g(1)] c ctx assms(5)
  have "rc_PauseCommand (cf_Runtime (cx_Value ctx)) = rc_PauseCommand (cf_Runtime (fileConfig env (getVars p))) @ given"
    by auto
  moreover have "?vs \<noteq> []" if "given \<noteq> []" using that assms(5) by (auto simp: csvValues_def)
  ultimately show ?thesis using 2 by (auto simp: fileConfig_def)
qed

text \<open>Example process: no configuration file, arguments that set the hub address twice and the pause
  command once.\<close>

definition exampleParsers :: parsers where
  "exampleParsers = \<lparr>pa_Int = (\<lambda>s. Inr (int (parse_nat 0 s))), pa_Duration = (\<lambda>s. Inr (int (parse_nat 0 s))),
     pa_CSV = (\<lambda>s. Inr (split_on (CHR '','') s))\<rparr>"

definition exampleArgs :: "string list" where
  "exampleArgs = [''--extensionHubURL'', ''tcp://a'', ''--runtime.pauseCommand=/p,-v'', ''--extensionHubURL=tcp://b'']"

definition exampleProcess :: osProcess where
  "exampleProcess = \<lparr>op_ReadFile = (\<lambda>_. ([], Some (ErrExt ''no such file''))), op_LookupEnv = (\<lambda>_. None),
     op_Unmarshal = (\<lambda>_ c. Inr c), op_Args = ''runtime-podman'' # exampleArgs, op_LogNew = (\<lambda>_. None)\<rparr>"

definition exampleProc :: proc where
  "exampleProc =
     (case fs_Parse exampleArgs (cmdFlags exampleParsers RootCmd) of
        Inr f \<Rightarrow> \<lparr>pr_flags = f, pr_loggerMade = False, pr_notified = False, pr_stdout = []\<rparr>
      | Inl _ \<Rightarrow> \<lparr>pr_flags = cmdFlags exampleParsers RootCmd, pr_loggerMade = False, pr_notified = False, pr_stdout = []\<rparr>)"

definition exampleRead :: "appContext \<times> proc" where
  "exampleRead =
     (case ReadConfig exampleProcess zeroLog exampleProc of
        (Ok ctx, p) \<Rightarrow> (ctx, p)
      | (_, p) \<Rightarrow> (\<lparr>cx_Key = [], cx_Value = zeroConfig\<rparr>, p))"

lemma exampleProc_parsed: "fs_Parse exampleArgs (cmdFlags exampleParsers RootCmd) = Inr (pr_flags exampleProc)"
proof -
  have "case fs_Parse exampleArgs (cmdFlags exampleParsers RootCmd) of Inr _ \<Rightarrow> True | Inl _ \<Rightarrow> False" by code_simp
  then show ?thesis by (auto simp: exampleProc_def split: sum.splits)
qed

lemma exampleRead_Ok: "ReadConfig exampleProcess zeroLog exampleProc = (Ok (fst exampleRead), snd exampleRead)"
proof -
  have "case ReadConfig exampleProcess zeroLog exampleProc of (Ok _, _) \<Rightarrow> True | _ \<Rightarrow> False" by code_simp
  then show ?thesis by (auto simp: exampleRead_def split: prod.splits outcome.splits)
qed

lemma exampleArgs_given:
  "givenFlags (fs_formal (cmdFlags exampleParsers RootCmd)) exampleArgs =
     [(''extensionHubURL'', ''tcp://a''), (''runtime.pauseCommand'', ''/p,-v''), (''extensionHubURL'', ''tcp://b'')]"
  by code_simp

lemma exampleProcess_args: "op_Args exampleProcess = ''runtime-podman'' # exampleArgs"
  "''runtime-podman'' = [] \<or> hd ''runtime-podman'' \<noteq> CHR ''-''"
  by (simp_all add: exampleProcess_def)

theorem flags_override_config_file_witness:
  "ap_ExtensionHubURL (cf_App (cx_Value (fst exampleRead))) = ''tcp://b''"
  using flags_override_config_file [OF exampleProc_parsed exampleProcess_args exampleRead_Ok]
  by (simp add: exampleArgs_given)

theorem pause_command_flag_twice_witness:
  "rc_PauseCommand (cf_Runtime (cx_Value (fst exampleRead))) = [''/p'', ''-v'', ''/p'', ''-v'']"
proof -
  have "csvValues (pa_CSV exampleParsers) [''/p,-v''] = [''/p'', ''-v'']" by code_simp
  moreover have "fst (op_ReadFile exampleProcess f) = []" for f by (simp add: exampleProcess_def)
  ultimately show ?thesis
    using pause_command_flag_twice [OF exampleProc_parsed exampleProcess_args exampleRead_Ok refl, THEN conjunct2]
    by (simp add: exampleArgs_given)
qed

section \<open>Signals\<close>

text \<open>The first signal cancels the context, the second one ends the process, and nothing happens later.\<close>

lemma signalLoop_Suc: "signalLoop (Suc n) sigs =
    (if \<exists>s\<in>set sigs. s = Interrupt \<or> s = SIGTERM then [OsExit 1] else [])"
  by (induction sigs) (auto simp: Let_def)

theorem signals_cancel_then_exit:
  "signalLoop 0 sigs =
     take (length (filter (\<lambda>s. s = Interrupt \<or> s = SIGTERM) sigs)) [CancelContext, OsExit 1]"
proof (induction sigs)
  case (Cons s sigs)
  then show ?case by (auto simp: Let_def signalLoop_Suc filter_empty_conv neq_Nil_conv take_Cons' split: nat.splits)
qed simp

end
