(* ===== verification/TimeoutQueue.thy ===== *)
theory TimeoutQueue
  imports Prelude "HOL-Library.Word" "HOL-Library.Multiset"
begin

text \<open>
  \<^verbatim>\<open>arhat.dev/pkg/queue/timeout_queue.go\<close>: the queue behind the success timers of the storage client.
  Entries are kept in a slice with an index from keys to positions; \<^verbatim>\<open>sort.Sort\<close> reorders the slice
  through \<^verbatim>\<open>Swap\<close>, which also maintains the index. The sorting algorithm is a parameter: the swaps it
  makes for a list of times. Times are 64 bit nanoseconds; the current time is an argument. Shown: every
  operation keeps the index exact, and the queue refines a finite map from keys to values with a
  time.
\<close>

section \<open>The queue\<close>

record ('k, 'v) timeoutData =
  td_Key :: 'k
  td_Data :: 'v
  td_expireAt :: "64 word"

record ('k, 'v) timeoutQueue =
  tq_started :: bool
  tq_stopped :: bool
  tq_blackList :: "'k list"
  tq_index :: "('k, nat) gomap"
  tq_data :: "('k, 'v) timeoutData list"
  tq_nextSort :: "64 word"
  tq_resets :: "64 word list"

definition ErrNotStarted :: goerr where "ErrNotStarted = ErrNew ''not started''"
definition ErrStopped :: goerr where "ErrStopped = ErrNew ''stopped''"
definition ErrKeyNotAllowed :: goerr where "ErrKeyNotAllowed = ErrNew ''key not allowed''"

definition NewTimeoutQueue :: "('k, 'v) timeoutQueue" where
  "NewTimeoutQueue = \<lparr>tq_started = False, tq_stopped = False, tq_blackList = [], tq_index = [], tq_data = [],
     tq_nextSort = 0, tq_resets = []\<rparr>"

definition tq_Start :: "('k, 'v) timeoutQueue \<Rightarrow> ('k, 'v) timeoutQueue" where
  "tq_Start q = q\<lparr>tq_started := True\<rparr>"

definition tq_Less :: "('k, 'v) timeoutQueue \<Rightarrow> nat \<Rightarrow> nat \<Rightarrow> bool" where
  "tq_Less q i j \<longleftrightarrow> sint (td_expireAt (tq_data q ! i)) < sint (td_expireAt (tq_data q ! j))"

definition swapList :: "'a list \<Rightarrow> nat \<Rightarrow> nat \<Rightarrow> 'a list" where
  "swapList xs i j = xs[i := xs ! j, j := xs ! i]"

text \<open>\<^verbatim>\<open>q.index[a], q.index[b] = j, i\<close> assigns left to right.\<close>

definition tq_Swap :: "nat \<Rightarrow> nat \<Rightarrow> ('k, 'v) timeoutQueue \<Rightarrow> ('k, 'v) timeoutQueue" where
  "tq_Swap i j q =
     q\<lparr>tq_index := gm_put (td_Key (tq_data q ! j)) i (gm_put (td_Key (tq_data q ! i)) j (tq_index q)),
       tq_data := swapList (tq_data q) i j\<rparr>"

definition sort_Sort :: "(int list \<Rightarrow> (nat \<times> nat) list) \<Rightarrow> ('k, 'v) timeoutQueue \<Rightarrow> ('k, 'v) timeoutQueue" where
  "sort_Sort swaps q =
     fold (\<lambda>(i, j). tq_Swap i j) (swaps (map (\<lambda>d. sint (td_expireAt d)) (tq_data q))) q"

text \<open>An entry counts as expired a millisecond early.\<close>

definition tq_due :: "64 word \<Rightarrow> ('k, 'v) timeoutData \<Rightarrow> bool" where
  "tq_due now c \<longleftrightarrow> sint (td_expireAt c - now) < 1000000"

text \<open>\<^verbatim>\<open>for i, d := range q.data { q.index[d.Key] = i }\<close>, from position \<open>i\<close> on.\<close>

fun rebuildIndex :: "nat \<Rightarrow> ('k, 'v) timeoutData list \<Rightarrow> ('k, nat) gomap \<Rightarrow> ('k, nat) gomap" where
  "rebuildIndex i [] m = m"
| "rebuildIndex i (d # ds) m = rebuildIndex (Suc i) ds (gm_put (td_Key d) i m)"

text \<open>The expired entries and the queue without them.\<close>

definition tq_sort ::
  "(int list \<Rightarrow> (nat \<times> nat) list) \<Rightarrow> 64 word \<Rightarrow> ('k, 'v) timeoutQueue \<Rightarrow>
   ('k, 'v) timeoutData list \<times> ('k, 'v) timeoutQueue" where
  "tq_sort swaps now q =
     (if tq_data q = [] then ([], q)
      else
        (let q = sort_Sort swaps q;
             expired = takeWhile (tq_due now) (tq_data q);
             rest = dropWhile (tq_due now) (tq_data q);
             q = (case rest of
                    [] \<Rightarrow> q
                  | c # _ \<Rightarrow> q\<lparr>tq_nextSort := td_expireAt c, tq_resets := tq_resets q @ [td_expireAt c - now]\<rparr>) in
         if expired \<noteq> [] \<and> \<not> tq_stopped q then
           (expired, q\<lparr>tq_data := rest, tq_index := rebuildIndex 0 rest (fold (\<lambda>d. gm_del (td_Key d)) expired (tq_index q))\<rparr>)
         else ([], q)))"

definition OfferWithTime ::
  "'k \<Rightarrow> 'v \<Rightarrow> 64 word \<Rightarrow> 64 word \<Rightarrow> ('k, 'v) timeoutQueue \<Rightarrow> goerr option \<times> ('k, 'v) timeoutQueue" where
  "OfferWithTime key val expireAt now q =
     (if \<not> tq_started q then (Some ErrNotStarted, q)
      else if tq_stopped q then (Some ErrStopped, q)
      else if key \<in> set (tq_blackList q) then (Some ErrKeyNotAllowed, q)
      else
        (let data = tq_data q @ [\<lparr>td_Key = key, td_Data = val, td_expireAt = expireAt\<rparr>];
             q' = q\<lparr>tq_data := data, tq_index := gm_put key (length data - 1) (tq_index q)\<rparr> in
         if length data = 1 \<or> sint expireAt < sint (tq_nextSort q)
         then (None, q'\<lparr>tq_nextSort := expireAt, tq_resets := tq_resets q @ [expireAt - now]\<rparr>)
         else (None, q')))"

definition OfferWithDelay ::
  "'k \<Rightarrow> 'v \<Rightarrow> 64 word \<Rightarrow> 64 word \<Rightarrow> ('k, 'v) timeoutQueue \<Rightarrow> goerr option \<times> ('k, 'v) timeoutQueue" where
  "OfferWithDelay key val wait now q = OfferWithTime key val (now + wait) now q"

definition tq_Clear :: "('k, 'v) timeoutQueue \<Rightarrow> ('k, 'v) timeoutQueue" where
  "tq_Clear q = q\<lparr>tq_blackList := [], tq_index := [], tq_data := []\<rparr>"

definition tq_Remove :: "'k \<Rightarrow> ('k, 'v) timeoutQueue \<Rightarrow> 'v option \<times> ('k, 'v) timeoutQueue" where
  "tq_Remove key q =
     (case map_of (tq_index q) key of
        None \<Rightarrow> (None, q)
      | Some i \<Rightarrow>
          (let data = take i (tq_data q) @ drop (i + 1) (tq_data q) in
           (Some (td_Data (tq_data q ! i)),
            q\<lparr>tq_data := data, tq_index := rebuildIndex 0 data (gm_del key (tq_index q))\<rparr>)))"

definition tq_Allow :: "'k \<Rightarrow> ('k, 'v) timeoutQueue \<Rightarrow> ('k, 'v) timeoutQueue" where
  "tq_Allow key q = q\<lparr>tq_blackList := removeAll key (tq_blackList q)\<rparr>"

definition tq_Forbid :: "'k \<Rightarrow> ('k, 'v) timeoutQueue \<Rightarrow> ('k, 'v) timeoutQueue" where
  "tq_Forbid key q = q\<lparr>tq_blackList := List.insert key (tq_blackList q)\<rparr>"

definition tq_Find :: "'k \<Rightarrow> ('k, 'v) timeoutQueue \<Rightarrow> ('k, 'v) timeoutData option" where
  "tq_Find key q = map_option (\<lambda>i. tq_data q ! i) (map_of (tq_index q) key)"

definition tq_Remains :: "('k, 'v) timeoutQueue \<Rightarrow> ('k, 'v) timeoutData list" where
  "tq_Remains q = tq_data q"

section \<open>The index is exact\<close>

definition exactIndex :: "('k, nat) gomap \<Rightarrow> ('k, 'v) timeoutData list \<Rightarrow> bool" where
  "exactIndex m data \<longleftrightarrow>
     distinct (map td_Key data) \<and> (\<forall>k i. map_of m k = Some i \<longleftrightarrow> i < length data \<and> td_Key (data ! i) = k)"

definition tq_wf :: "('k, 'v) timeoutQueue \<Rightarrow> bool" where
  "tq_wf q \<longleftrightarrow> exactIndex (tq_index q) (tq_data q)"

lemma nth_key_eq:
  "distinct (map td_Key data) \<Longrightarrow> i < length data \<Longrightarrow> j < length data \<Longrightarrow>
   td_Key (data ! i) = td_Key (data ! j) \<longleftrightarrow> i = j"
  using nth_eq_iff_index_eq [of "map td_Key data" i j] by simp

lemma swapList_length [simp]: "length (swapList xs i j) = length xs"
  by (simp add: swapList_def)

lemma swapList_nth:
  "i < length xs \<Longrightarrow> j < length xs \<Longrightarrow> k < length xs \<Longrightarrow>
   swapList xs i j ! k = (if k = j then xs ! i else if k = i then xs ! j else xs ! k)"
  by (simp add: swapList_def nth_list_update)

lemma mset_swapList: "i < length xs \<Longrightarrow> j < length xs \<Longrightarrow> mset (swapList xs i j) = mset xs"
  by (simp add: swapList_def mset_swap)

lemma map_swapList: "i < length xs \<Longrightarrow> j < length xs \<Longrightarrow> map f (swapList xs i j) = swapList (map f xs) i j"
  by (simp add: swapList_def map_update)

lemma distinct_swapList:
  "i < length xs \<Longrightarrow> j < length xs \<Longrightarrow> distinct (swapList xs i j) \<longleftrightarrow> distinct xs"
  by (metis mset_swapList mset_eq_imp_distinct_iff)

lemma tq_Swap_wf:
  assumes "tq_wf q" and "i < length (tq_data q)" and "j < length (tq_data q)"
  shows "tq_wf (tq_Swap i j q)"
proof -
  let ?d = "tq_data q"
  from assms(1) have d: "distinct (map td_Key ?d)"
    and ix: "\<And>k i. map_of (tq_index q) k = Some i \<longleftrightarrow> i < length ?d \<and> td_Key (?d ! i) = k"
    by (auto simp: tq_wf_def exactIndex_def)
  have "distinct (map td_Key (swapList ?d i j))"
    using d assms(2,3) by (simp add: map_swapList distinct_swapList)
  moreover have "map_of (gm_put (td_Key (?d ! j)) i (gm_put (td_Key (?d ! i)) j (tq_index q))) k = Some n
      \<longleftrightarrow> n < length ?d \<and> td_Key (swapList ?d i j ! n) = k" for k n
    using assms(2,3) d ix [of k n]
    by (auto simp: gm_simps swapList_nth nth_key_eq split: if_splits)
  ultimately show ?thesis by (simp add: tq_wf_def exactIndex_def tq_Swap_def)
qed

section \<open>The sorting algorithm\<close>

definition applySwaps :: "(nat \<times> nat) list \<Rightarrow> 'a list \<Rightarrow> 'a list" where
  "applySwaps sw xs = fold (\<lambda>(i, j) xs. swapList xs i j) sw xs"

text \<open>What \<^verbatim>\<open>sort.Sort\<close> promises: it calls \<^verbatim>\<open>Swap\<close> inside the bounds, and the result is sorted.\<close>

locale sort_algorithm =
  fixes swaps :: "int list \<Rightarrow> (nat \<times> nat) list"
  assumes in_range: "(i, j) \<in> set (swaps ks) \<Longrightarrow> i < length ks \<and> j < length ks"
    and sorts: "sorted (applySwaps (swaps ks) ks)"

text \<open>The insertion sort the Go library uses for short slices.\<close>

fun insertSwaps :: "int list \<Rightarrow> nat \<Rightarrow> (nat \<times> nat) list" where
  "insertSwaps xs 0 = []"
| "insertSwaps xs (Suc j) =
     (if xs ! Suc j < xs ! j then (Suc j, j) # insertSwaps (swapList xs (Suc j) j) j else [])"

fun insertionFrom :: "int list \<Rightarrow> nat \<Rightarrow> nat \<Rightarrow> (nat \<times> nat) list" where
  "insertionFrom xs i 0 = []"
| "insertionFrom xs i (Suc n) = (let s = insertSwaps xs i in s @ insertionFrom (applySwaps s xs) (Suc i) n)"

definition insertionSort :: "int list \<Rightarrow> (nat \<times> nat) list" where
  "insertionSort xs = insertionFrom xs 0 (length xs)"

lemma applySwaps_simps [simp]:
  "applySwaps [] xs = xs"
  "applySwaps ((i, j) # sw) xs = applySwaps sw (swapList xs i j)"
  by (simp_all add: applySwaps_def)

lemma applySwaps_append: "applySwaps (s @ s') xs = applySwaps s' (applySwaps s xs)"
  by (simp add: applySwaps_def)

lemma length_applySwaps [simp]: "length (applySwaps sw xs) = length xs"
  by (induction sw arbitrary: xs) auto

lemma swapList_adjacent: "swapList (as @ a # x # bs) (Suc (length as)) (length as) = as @ x # a # bs"
  by (simp add: swapList_def nth_append list_update_append)

text \<open>Moving one element to its place in a sorted prefix.\<close>

lemma insertSwaps_spec:
  "sorted (as @ bs) \<Longrightarrow> \<forall>b\<in>set bs. x \<le> b \<Longrightarrow>
   \<exists>us. sorted us \<and> length us = Suc (length as + length bs) \<and>
        applySwaps (insertSwaps (as @ x # bs @ cs) (length as)) (as @ x # bs @ cs) = us @ cs \<and>
        (\<forall>(i, j)\<in>set (insertSwaps (as @ x # bs @ cs) (length as)). i \<le> length as \<and> j \<le> length as)"
proof (induction as arbitrary: bs rule: rev_induct)
  case Nil
  then show ?case by (intro exI [of _ "x # bs"]) auto
next
  case (snoc a as)
  have nth: "((as @ [a]) @ x # bs @ cs) ! Suc (length as) = x" "((as @ [a]) @ x # bs @ cs) ! length as = a"
    by (simp_all add: nth_append)
  show ?case
  proof (cases "x < a")
    case True
    have "sorted (as @ (a # bs))" using snoc.prems(1) by simp
    moreover have "\<forall>b\<in>set (a # bs). x \<le> b" using True snoc.prems(2) by simp
    ultimately obtain us where us: "sorted us" "length us = Suc (length as + length (a # bs))"
      "applySwaps (insertSwaps (as @ x # (a # bs) @ cs) (length as)) (as @ x # (a # bs) @ cs) = us @ cs"
      "\<forall>(i, j)\<in>set (insertSwaps (as @ x # (a # bs) @ cs) (length as)). i \<le> length as \<and> j \<le> length as"
      using snoc.IH by blast
    have "swapList ((as @ [a]) @ x # bs @ cs) (Suc (length as)) (length as) = as @ x # (a # bs) @ cs"
      using swapList_adjacent [of as a x "bs @ cs"] by simp
    with us nth True show ?thesis by (intro exI [of _ us]) auto
  next
    case False
    with snoc.prems have "sorted ((as @ [a]) @ x # bs)"
      by (auto simp: sorted_append)
    with False nth show ?thesis by (intro exI [of _ "(as @ [a]) @ x # bs"]) auto
  qed
qed

lemma insertionFrom_spec:
  "sorted (take i xs) \<Longrightarrow> i + n = length xs \<Longrightarrow>
   sorted (applySwaps (insertionFrom xs i n) xs)
   \<and> (\<forall>(a, b)\<in>set (insertionFrom xs i n). a < length xs \<and> b < length xs)"
proof (induction n arbitrary: xs i)
  case 0
  then show ?case by simp
next
  case (Suc n)
  let ?s = "insertSwaps xs i"
  have xs: "xs = take i xs @ xs ! i # [] @ drop (Suc i) xs" using Suc.prems(2) by (simp add: id_take_nth_drop)
  obtain us where us: "sorted us" "length us = Suc i" "applySwaps ?s xs = us @ drop (Suc i) xs"
    "\<forall>(a, b)\<in>set ?s. a \<le> i \<and> b \<le> i"
    using insertSwaps_spec [of "take i xs" "[]" "xs ! i" "drop (Suc i) xs"] Suc.prems xs
    by (simp add: min_absorb2) blast
  have "sorted (take (Suc i) (applySwaps ?s xs))" using us by simp
  moreover have "Suc i + n = length (applySwaps ?s xs)" using Suc.prems(2) by simp
  ultimately have "sorted (applySwaps (insertionFrom (applySwaps ?s xs) (Suc i) n) (applySwaps ?s xs))
      \<and> (\<forall>(a, b)\<in>set (insertionFrom (applySwaps ?s xs) (Suc i) n). a < length xs \<and> b < length xs)"
    using Suc.IH by fastforce
  then show ?case using us(4) Suc.prems(2) by (auto simp: Let_def applySwaps_append)
qed

interpretation insertion: sort_algorithm insertionSort
proof
  fix ks :: "int list"
  have *: "sorted (applySwaps (insertionSort ks) ks)
      \<and> (\<forall>(a, b)\<in>set (insertionSort ks). a < length ks \<and> b < length ks)"
    unfolding insertionSort_def by (rule insertionFrom_spec) simp_all
  show "sorted (applySwaps (insertionSort ks) ks)" using * by simp
  show "(i, j) \<in> set (insertionSort ks) \<Longrightarrow> i < length ks \<and> j < length ks" for i j using * by auto
qed

section \<open>Operations keep the index exact\<close>

lemma rebuildIndex_lookup:
  "distinct (map td_Key ds) \<Longrightarrow>
   map_of (rebuildIndex i ds m) k = Some n \<longleftrightarrow>
     (\<exists>j<length ds. td_Key (ds ! j) = k \<and> n = i + j) \<or> (k \<notin> td_Key ` set ds \<and> map_of m k = Some n)"
proof (induction ds arbitrary: i m)
  case (Cons d ds)
  have "(\<exists>j<length (d # ds). td_Key ((d # ds) ! j) = k \<and> n = i + j) \<longleftrightarrow>
      (td_Key d = k \<and> n = i) \<or> (\<exists>j<length ds. td_Key (ds ! j) = k \<and> n = Suc i + j)"
    by (auto simp: less_Suc_eq_0_disj)
  moreover have "td_Key d = k \<Longrightarrow> j < length ds \<Longrightarrow> td_Key (ds ! j) \<noteq> k" for j
    using Cons.prems by (auto simp: image_iff) (metis nth_mem)
  moreover have "td_Key d = k \<Longrightarrow> k \<notin> td_Key ` set ds" using Cons.prems by auto
  ultimately show ?case using Cons by (auto simp: gm_simps)
qed simp

lemma exactIndex_rebuild:
  assumes "distinct (map td_Key ds)" and "dom (map_of m) \<subseteq> td_Key ` set ds"
  shows "exactIndex (rebuildIndex 0 ds m) ds"
  using assms by (auto simp: exactIndex_def rebuildIndex_lookup)

lemma exactIndex_dom: "exactIndex m ds \<Longrightarrow> dom (map_of m) = td_Key ` set ds"
  by (fastforce simp: exactIndex_def in_set_conv_nth dom_def image_iff)

text \<open>The abstract queue: a finite map from keys to values with their times.\<close>

definition tq_abs :: "('k, 'v) timeoutQueue \<Rightarrow> 'k \<rightharpoonup> 'v \<times> 64 word" where
  "tq_abs q = map_of (map (\<lambda>d. (td_Key d, (td_Data d, td_expireAt d))) (tq_data q))"

lemma dom_tq_abs: "dom (tq_abs q) = td_Key ` set (tq_data q)"
  by (simp add: tq_abs_def dom_map_of_conv_image_fst image_image)

lemma timeoutData_collapse [simp]: "\<lparr>td_Key = td_Key d, td_Data = td_Data d, td_expireAt = td_expireAt d\<rparr> = d"
  by (cases d) simp

lemma tq_abs_Some:
  assumes "distinct (map td_Key (tq_data q))"
  shows "tq_abs q k = Some (v, t) \<longleftrightarrow> \<lparr>td_Key = k, td_Data = v, td_expireAt = t\<rparr> \<in> set (tq_data q)"
proof -
  have *: "\<lparr>td_Key = k, td_Data = v, td_expireAt = t\<rparr> = d \<longleftrightarrow> k = td_Key d \<and> v = td_Data d \<and> t = td_expireAt d" for d
    by (cases d) auto
  have "distinct (map fst (map (\<lambda>d. (td_Key d, (td_Data d, td_expireAt d))) (tq_data q)))"
    using assms by (simp add: comp_def)
  then have "tq_abs q k = Some (v, t) \<longleftrightarrow> (k, v, t) \<in> set (map (\<lambda>d. (td_Key d, (td_Data d, td_expireAt d))) (tq_data q))"
    by (simp add: tq_abs_def)
  also have "\<dots> \<longleftrightarrow> \<lparr>td_Key = k, td_Data = v, td_expireAt = t\<rparr> \<in> set (tq_data q)"
    by (simp add: image_iff * [symmetric])
  finally show ?thesis .
qed

lemma tq_abs_mset:
  assumes "mset (tq_data q') = mset (tq_data q)" and "distinct (map td_Key (tq_data q))"
  shows "tq_abs q' = tq_abs q" and "distinct (map td_Key (tq_data q'))"
proof -
  from assms show d: "distinct (map td_Key (tq_data q'))" by (metis mset_eq_imp_distinct_iff mset_map)
  have "set (tq_data q') = set (tq_data q)" using assms(1) by (metis set_mset_mset)
  with tq_abs_Some [OF d] tq_abs_Some [OF assms(2)] have "tq_abs q' k = Some x \<longleftrightarrow> tq_abs q k = Some x" for k x
    by (cases x) simp
  then show "tq_abs q' = tq_abs q" by (metis ext option.exhaust)
qed

lemma exactIndex_distinct: "exactIndex m ds \<Longrightarrow> distinct (map td_Key ds)"
  by (simp add: exactIndex_def)

lemma tq_wf_distinct: "tq_wf q \<Longrightarrow> distinct (map td_Key (tq_data q))"
  by (simp add: tq_wf_def exactIndex_distinct)

lemma tq_Find_abs:
  assumes "tq_wf q"
  shows "map_option (\<lambda>d. (td_Data d, td_expireAt d)) (tq_Find key q) = tq_abs q key"
proof (cases "map_of (tq_index q) key")
  case None
  then have "key \<notin> dom (tq_abs q)"
    using exactIndex_dom [of "tq_index q" "tq_data q"] assms by (auto simp: dom_tq_abs tq_wf_def)
  then have "tq_abs q key = None" by (metis domIff)
  with None show ?thesis by (simp add: tq_Find_def)
next
  case (Some i)
  with assms have i: "i < length (tq_data q)" "td_Key (tq_data q ! i) = key" by (auto simp: tq_wf_def exactIndex_def)
  let ?d = "tq_data q ! i"
  have "\<lparr>td_Key = key, td_Data = td_Data ?d, td_expireAt = td_expireAt ?d\<rparr> = ?d" using i(2) by (cases ?d) auto
  then have "\<lparr>td_Key = key, td_Data = td_Data ?d, td_expireAt = td_expireAt ?d\<rparr> \<in> set (tq_data q)"
    using nth_mem [OF i(1)] by simp
  then have "tq_abs q key = Some (td_Data ?d, td_expireAt ?d)"
    by (simp add: tq_abs_Some [OF tq_wf_distinct [OF assms]])
  with Some show ?thesis by (simp add: tq_Find_def)
qed

lemma map_of_snoc_new: "k \<notin> fst ` set xs \<Longrightarrow> map_of (xs @ [(k, v)]) = (map_of xs)(k \<mapsto> v)"
  by (induction xs) (auto simp: fun_eq_iff)

lemma OfferWithTime_wf_abs:
  assumes "tq_wf q" and "tq_abs q key = None" and "OfferWithTime key val t now q = (None, q')"
  shows "tq_wf q'" and "tq_abs q' = (tq_abs q)(key \<mapsto> (val, t))"
proof -
  from assms(2) have new: "key \<notin> td_Key ` set (tq_data q)" by (auto simp: dom_tq_abs [symmetric])
  from assms(3) have q': "tq_data q' = tq_data q @ [\<lparr>td_Key = key, td_Data = val, td_expireAt = t\<rparr>]"
    "tq_index q' = gm_put key (length (tq_data q)) (tq_index q)"
    by (auto simp: OfferWithTime_def Let_def split: if_splits)
  have ix: "\<And>k i. map_of (tq_index q) k = Some i \<longleftrightarrow> i < length (tq_data q) \<and> td_Key (tq_data q ! i) = k"
    and d: "distinct (map td_Key (tq_data q))" using assms(1) by (auto simp: tq_wf_def exactIndex_def)
  have "i < length (tq_data q) \<Longrightarrow> td_Key (tq_data q ! i) \<noteq> key" for i using new by (auto simp: image_iff)
  then show "tq_wf q'"
    using ix d new by (auto simp: tq_wf_def exactIndex_def q' gm_simps nth_append less_Suc_eq)
  show "tq_abs q' = (tq_abs q)(key \<mapsto> (val, t))"
    using map_of_snoc_new [of key "map (\<lambda>d. (td_Key d, (td_Data d, td_expireAt d))) (tq_data q)" "(val, t)"] new
    by (simp add: tq_abs_def q' image_image)
qed

lemma OfferWithTime_error: "OfferWithTime key val t now q = (Some e, q') \<Longrightarrow> q' = q"
  by (auto simp: OfferWithTime_def Let_def split: if_splits)

lemma tq_abs_sublist:
  assumes "distinct (map td_Key (as @ d # bs))"
  shows "map_of (map (\<lambda>d. (td_Key d, (td_Data d, td_expireAt d))) (as @ bs)) =
    (map_of (map (\<lambda>d. (td_Key d, (td_Data d, td_expireAt d))) (as @ d # bs)))(td_Key d := None)"
  using assms by (induction as) (auto simp: fun_eq_iff map_of_eq_None_iff image_image)

lemma tq_Remove_wf_abs:
  assumes "tq_wf q" and "tq_Remove key q = (r, q')"
  shows "tq_wf q'" and "tq_abs q' = (tq_abs q)(key := None)" and "r = map_option fst (tq_abs q key)"
proof -
  let ?ds = "tq_data q"
  have "tq_wf q' \<and> tq_abs q' = (tq_abs q)(key := None) \<and> r = map_option fst (tq_abs q key)"
  proof (cases "map_of (tq_index q) key")
    case None
    with assms(2) have "r = None" "q' = q" by (simp_all add: tq_Remove_def)
    moreover have "tq_abs q key = None"
      using tq_Find_abs [OF assms(1), of key] None by (simp add: tq_Find_def)
    ultimately show ?thesis using assms(1) by (simp add: fun_upd_idem)
  next
    case (Some i)
    with assms(1) have i: "i < length ?ds" "td_Key (?ds ! i) = key" by (auto simp: tq_wf_def exactIndex_def)
    have ds: "?ds = take i ?ds @ ?ds ! i # drop (Suc i) ?ds" using i(1) by (rule id_take_nth_drop)
    let ?rest = "take i ?ds @ drop (Suc i) ?ds"
    have d: "distinct (map td_Key (take i ?ds @ ?ds ! i # drop (Suc i) ?ds))"
      using tq_wf_distinct [OF assms(1)] ds by simp
    from assms(2) Some have q': "tq_data q' = ?rest"
      "tq_index q' = rebuildIndex 0 ?rest (gm_del key (tq_index q))" "r = Some (td_Data (?ds ! i))"
      by (auto simp: tq_Remove_def Let_def)
    have "set (take i ?ds @ ?ds ! i # drop (Suc i) ?ds) = insert (?ds ! i) (set ?rest)" by auto
    then have "dom (map_of (tq_index q)) = insert key (td_Key ` set ?rest)"
      unfolding ds [symmetric] using exactIndex_dom [of "tq_index q" ?ds] assms(1) i(2) by (simp add: tq_wf_def)
    then have "dom (map_of (gm_del key (tq_index q))) \<subseteq> td_Key ` set ?rest" by (auto simp: gm_simps)
    then have "tq_wf q'" using exactIndex_rebuild [of ?rest "gm_del key (tq_index q)"] d by (simp add: tq_wf_def q')
    moreover have "tq_abs q' = (tq_abs q)(key := None)"
      using tq_abs_sublist [OF d] unfolding ds [symmetric] tq_abs_def q' i(2) .
    moreover have "r = map_option fst (tq_abs q key)"
      using tq_Find_abs [OF assms(1), of key] Some q'(3) by (cases "tq_abs q key") (auto simp: tq_Find_def)
    ultimately show ?thesis by simp
  qed
  then show "tq_wf q'" "tq_abs q' = (tq_abs q)(key := None)" "r = map_option fst (tq_abs q key)" by simp_all
qed

lemma swaps_fold:
  "\<forall>(i, j)\<in>set sw. i < length (tq_data q) \<and> j < length (tq_data q) \<Longrightarrow> tq_wf q \<Longrightarrow>
   q' = fold (\<lambda>(i, j). tq_Swap i j) sw q \<Longrightarrow>
   tq_wf q' \<and> mset (tq_data q') = mset (tq_data q) \<and> map f (tq_data q') = applySwaps sw (map f (tq_data q))
   \<and> tq_started q' = tq_started q \<and> tq_stopped q' = tq_stopped q \<and> tq_blackList q' = tq_blackList q"
proof (induction sw arbitrary: q)
  case (Cons p sw)
  obtain i j where p: "p = (i, j)" by (cases p)
  with Cons.prems(1) have ij: "i < length (tq_data q)" "j < length (tq_data q)" by auto
  let ?q = "tq_Swap i j q"
  have d: "tq_data ?q = swapList (tq_data q) i j" by (simp add: tq_Swap_def)
  have 1: "\<forall>(a, b)\<in>set sw. a < length (tq_data ?q) \<and> b < length (tq_data ?q)" using Cons.prems(1) d by simp
  have 2: "q' = fold (\<lambda>(i, j). tq_Swap i j) sw ?q" using Cons.prems(3) by (simp add: p)
  from Cons.IH [OF 1 tq_Swap_wf [OF Cons.prems(2) ij] 2] show ?case
    using ij by (simp add: p d mset_swapList map_swapList) (simp add: tq_Swap_def)
qed simp

text \<open>Times after 1970, for which the subtraction of the expiry check does not wrap.\<close>

definition timeOk :: "64 word \<Rightarrow> bool" where
  "timeOk t \<longleftrightarrow> 0 \<le> sint t"

lemma sint_diff_nonneg:
  assumes "timeOk (a :: 64 word)" and "timeOk b"
  shows "sint (a - b) = sint a - sint b"
proof -
  have "- (2 ^ 63) \<le> sint a - sint b" "sint a - sint b < 2 ^ 63"
    using assms sint_lt [of a] sint_lt [of b] by (simp_all add: timeOk_def)
  then show ?thesis by (simp add: sint_word_ariths signed_take_bit_int_eq_self)
qed

lemma tq_due_iff: "timeOk (td_expireAt c) \<Longrightarrow> timeOk now \<Longrightarrow> tq_due now c \<longleftrightarrow> sint (td_expireAt c) < sint now + 1000000"
  by (auto simp: tq_due_def sint_diff_nonneg)

lemma takeWhile_mono_filter:
  "sorted (map f xs) \<Longrightarrow> (\<And>x y. x \<in> set xs \<Longrightarrow> y \<in> set xs \<Longrightarrow> f x \<le> f y \<Longrightarrow> P y \<Longrightarrow> P x) \<Longrightarrow>
   takeWhile P xs = filter P xs \<and> dropWhile P xs = filter (\<lambda>x. \<not> P x) xs"
proof (induction xs)
  case (Cons x xs)
  have "takeWhile P xs = filter P xs \<and> dropWhile P xs = filter (\<lambda>x. \<not> P x) xs"
  proof (rule Cons.IH)
    show "sorted (map f xs)" using Cons.prems(1) by simp
    show "\<And>u v. u \<in> set xs \<Longrightarrow> v \<in> set xs \<Longrightarrow> f u \<le> f v \<Longrightarrow> P v \<Longrightarrow> P u"
      by (rule Cons.prems(2)) simp_all
  qed
  moreover have "\<not> P y" if "\<not> P x" "y \<in> set xs" for y
    using Cons.prems(1) Cons.prems(2) [of x y] that by auto
  then have "\<not> P x \<Longrightarrow> filter P xs = [] \<and> filter (\<lambda>x. \<not> P x) xs = xs"
    by (simp add: filter_empty_conv filter_id_conv)
  ultimately show ?case by auto
qed simp

context sort_algorithm
begin

lemma sort_Sort_spec:
  assumes "tq_wf q"
  shows "tq_wf (sort_Sort swaps q)" and "mset (tq_data (sort_Sort swaps q)) = mset (tq_data q)"
    and "sorted (map (\<lambda>d. sint (td_expireAt d)) (tq_data (sort_Sort swaps q)))"
    and "tq_started (sort_Sort swaps q) = tq_started q" "tq_stopped (sort_Sort swaps q) = tq_stopped q"
    and "tq_blackList (sort_Sort swaps q) = tq_blackList q"
proof -
  let ?ks = "map (\<lambda>d. sint (td_expireAt d)) (tq_data q)"
  have "\<forall>(i, j)\<in>set (swaps ?ks). i < length (tq_data q) \<and> j < length (tq_data q)" using in_range [of _ _ ?ks] by auto
  from swaps_fold [OF this assms sort_Sort_def [of swaps q], of "\<lambda>d. sint (td_expireAt d)"] sorts [of ?ks]
  show "tq_wf (sort_Sort swaps q)" "mset (tq_data (sort_Sort swaps q)) = mset (tq_data q)"
    "sorted (map (\<lambda>d. sint (td_expireAt d)) (tq_data (sort_Sort swaps q)))"
    "tq_started (sort_Sort swaps q) = tq_started q" "tq_stopped (sort_Sort swaps q) = tq_stopped q"
    "tq_blackList (sort_Sort swaps q) = tq_blackList q"
    by simp_all
qed

end

lemma filter_keys_dom:
  assumes "exactIndex m (as @ bs)"
  shows "exactIndex (rebuildIndex 0 bs (fold (\<lambda>d. gm_del (td_Key d)) as m)) bs"
proof (rule exactIndex_rebuild)
  show "distinct (map td_Key bs)" using exactIndex_distinct [OF assms] by simp
  have "dom (map_of (fold (\<lambda>d. gm_del (td_Key d)) as m)) = dom (map_of m) - td_Key ` set as"
    by (induction as arbitrary: m) (auto simp: gm_simps)
  then show "dom (map_of (fold (\<lambda>d. gm_del (td_Key d)) as m)) \<subseteq> td_Key ` set bs"
    using exactIndex_dom [OF assms] by auto
qed

text \<open>The three ways the loop ends: nothing to do, nothing expired (or stopped), entries expired.\<close>

lemma tq_sort_cases:
  assumes "tq_sort swaps now q = (ex, q')"
  obtains (empty) "ex = []" "q' = q" "tq_data q = []"
  | (none) "ex = []" "tq_data q' = tq_data (sort_Sort swaps q)" "tq_index q' = tq_index (sort_Sort swaps q)"
      "takeWhile (tq_due now) (tq_data (sort_Sort swaps q)) = [] \<or> tq_stopped (sort_Sort swaps q)"
  | (some) "ex = takeWhile (tq_due now) (tq_data (sort_Sort swaps q))" "\<not> tq_stopped (sort_Sort swaps q)"
      "tq_data q' = dropWhile (tq_due now) (tq_data (sort_Sort swaps q))"
      "tq_index q' = rebuildIndex 0 (tq_data q') (fold (\<lambda>d. gm_del (td_Key d)) ex (tq_index (sort_Sort swaps q)))"
  using assms unfolding tq_sort_def Let_def
  by (cases "dropWhile (tq_due now) (tq_data (sort_Sort swaps q))")
     (auto simp del: dropWhile_eq_Nil_conv takeWhile_eq_Nil_iff rebuildIndex.simps split: if_splits)

lemma tq_sort_frame:
  "tq_sort swaps now q = (ex, q') \<Longrightarrow> tq_data q \<noteq> [] \<Longrightarrow>
   tq_started q' = tq_started (sort_Sort swaps q) \<and> tq_stopped q' = tq_stopped (sort_Sort swaps q)
   \<and> tq_blackList q' = tq_blackList (sort_Sort swaps q)"
  by (auto simp: tq_sort_def Let_def simp del: rebuildIndex.simps split: if_splits list.splits)

text \<open>The entries of a part of the slice.\<close>

lemma tq_abs_filter:
  assumes "distinct (map td_Key (tq_data q))" and "tq_data q' = filter P (tq_data q)"
  shows "tq_abs q' k = (case tq_abs q k of
      Some (v, t) \<Rightarrow> if P \<lparr>td_Key = k, td_Data = v, td_expireAt = t\<rparr> then Some (v, t) else None | None \<Rightarrow> None)"
proof -
  have d: "distinct (map td_Key (tq_data q'))" using assms by (simp add: distinct_map_filter)
  have *: "tq_abs q' k = Some (v, t) \<longleftrightarrow> tq_abs q k = Some (v, t) \<and> P \<lparr>td_Key = k, td_Data = v, td_expireAt = t\<rparr>" for v t
    using tq_abs_Some [OF d] tq_abs_Some [OF assms(1)] assms(2) by auto
  show ?thesis
  proof (cases "tq_abs q k")
    case None
    then show ?thesis using * by (cases "tq_abs q' k") auto
  next
    case (Some x)
    obtain v t where x: "x = (v, t)" by (cases x)
    show ?thesis
    proof (cases "P \<lparr>td_Key = k, td_Data = v, td_expireAt = t\<rparr>")
      case True
      with * [of v t] Some x show ?thesis by simp
    next
      case False
      then have "tq_abs q' k \<noteq> Some y" for y using * [of "fst y" "snd y"] Some x by auto
      then have "tq_abs q' k = None" by (cases "tq_abs q' k") blast+
      with False Some x show ?thesis by simp
    qed
  qed
qed

context sort_algorithm
begin

text \<open>Whatever the times are, sorting keeps the index exact.\<close>

lemma tq_sort_wf:
  assumes "tq_wf q" and "tq_sort swaps now q = (ex, q')"
  shows "tq_wf q'"
proof -
  let ?q = "sort_Sort swaps q"
  have "exactIndex (tq_index ?q) (takeWhile (tq_due now) (tq_data ?q) @ dropWhile (tq_due now) (tq_data ?q))"
    using sort_Sort_spec(1) [OF assms(1)] by (simp add: tq_wf_def)
  note * = filter_keys_dom [OF this]
  from assms(2) show ?thesis
  proof (cases rule: tq_sort_cases)
    case some
    with * show ?thesis by (simp add: tq_wf_def)
  qed (use assms(1) sort_Sort_spec(1) [OF assms(1)] in \<open>simp_all add: tq_wf_def\<close>)
qed

lemma tq_sort_mset:
  assumes "tq_wf q" and "tq_sort swaps now q = (ex, q')"
  shows "mset (ex @ tq_data q') = mset (tq_data q)"
  using assms(2)
proof (cases rule: tq_sort_cases)
  case some
  then have "ex @ tq_data q' = tq_data (sort_Sort swaps q)" by simp
  then show ?thesis using sort_Sort_spec(2) [OF assms(1)] by metis
qed (use sort_Sort_spec(2) [OF assms(1)] in simp_all)

text \<open>For times after 1970: exactly the due entries are delivered, and the others stay.\<close>

lemma tq_sort_abs:
  assumes wf: "tq_wf q" and run: "tq_sort swaps now q = (ex, q')" and "\<not> tq_stopped q"
    and now: "timeOk now" and times: "\<forall>d\<in>set (tq_data q). timeOk (td_expireAt d)"
  shows "set ex = {d \<in> set (tq_data q). tq_due now d}"
    and "sorted (map (\<lambda>d. sint (td_expireAt d)) ex)"
    and "tq_abs q' k = (case tq_abs q k of
      Some (v, t) \<Rightarrow> if tq_due now \<lparr>td_Key = k, td_Data = v, td_expireAt = t\<rparr> then None else Some (v, t) | None \<Rightarrow> None)"
    and "set (tq_data q') \<subseteq> set (tq_data q)"
proof -
  let ?q = "sort_Sort swaps q"
  note s = sort_Sort_spec [OF wf]
  have set: "set (tq_data ?q) = set (tq_data q)" using s(2) by (metis set_mset_mset)
  have due: "tq_due now d \<longleftrightarrow> sint (td_expireAt d) < sint now + 1000000" if "d \<in> set (tq_data ?q)" for d
    using times now that by (intro tq_due_iff) (simp_all add: set)
  have tw: "takeWhile (tq_due now) (tq_data ?q) = filter (tq_due now) (tq_data ?q)
      \<and> dropWhile (tq_due now) (tq_data ?q) = filter (\<lambda>d. \<not> tq_due now d) (tq_data ?q)"
    using s(3) due by (intro takeWhile_mono_filter) auto
  have abs: "tq_abs ?q = tq_abs q" and dist: "distinct (map td_Key (tq_data ?q))"
    using tq_abs_mset [OF s(2) tq_wf_distinct [OF wf]] by simp_all
  from run have *: "ex = filter (tq_due now) (tq_data ?q) \<and> tq_data q' = filter (\<lambda>d. \<not> tq_due now d) (tq_data ?q)"
  proof (cases rule: tq_sort_cases)
    case empty
    then have "tq_data ?q = []" using s(2) by simp
    with empty show ?thesis by simp
  next
    case none
    then show ?thesis using tw assms(3) s(5) by (metis filter_empty_conv filter_id_conv)
  next
    case some
    with tw show ?thesis by simp
  qed
  then show "set ex = {d \<in> set (tq_data q). tq_due now d}" "set (tq_data q') \<subseteq> set (tq_data q)"
    by (auto simp: set)
  show "sorted (map (\<lambda>d. sint (td_expireAt d)) ex)" using * s(3) by (simp add: sorted_filter)
  show "tq_abs q' k = (case tq_abs q k of
      Some (v, t) \<Rightarrow> if tq_due now \<lparr>td_Key = k, td_Data = v, td_expireAt = t\<rparr> then None else Some (v, t) | None \<Rightarrow> None)"
    using tq_abs_filter [OF dist conjunct2 [OF *], of k] by (simp add: abs split: option.splits)
qed

end

section \<open>Refinement of a finite map\<close>

text \<open>The calls the program makes, the outputs, and the abstract queue.\<close>

datatype ('k, 'v) tqOp = OpOffer 'k 'v "64 word" "64 word" | OpRemove 'k | OpFind 'k | OpExpire "64 word"
datatype ('k, 'v) tqOut = OutErr "goerr option" | OutValue "'v option" | OutExpired "('k \<times> 'v) set"

fun tq_step :: "(int list \<Rightarrow> (nat \<times> nat) list) \<Rightarrow> ('k, 'v) tqOp \<Rightarrow> ('k, 'v) timeoutQueue \<Rightarrow>
    ('k, 'v) tqOut \<times> ('k, 'v) timeoutQueue" where
  "tq_step swaps (OpOffer k v t now) q = apfst OutErr (OfferWithTime k v t now q)"
| "tq_step swaps (OpRemove k) q = apfst OutValue (tq_Remove k q)"
| "tq_step swaps (OpFind k) q = (OutValue (map_option td_Data (tq_Find k q)), q)"
| "tq_step swaps (OpExpire now) q = apfst (\<lambda>ex. OutExpired ((\<lambda>d. (td_Key d, td_Data d)) ` set ex)) (tq_sort swaps now q)"

definition isDue :: "64 word \<Rightarrow> 64 word \<Rightarrow> bool" where
  "isDue now t \<longleftrightarrow> sint t < sint now + 1000000"

fun map_step :: "('k, 'v) tqOp \<Rightarrow> ('k \<rightharpoonup> 'v \<times> 64 word) \<Rightarrow> ('k, 'v) tqOut \<times> ('k \<rightharpoonup> 'v \<times> 64 word)" where
  "map_step (OpOffer k v t now) m = (OutErr None, m(k \<mapsto> (v, t)))"
| "map_step (OpRemove k) m = (OutValue (map_option fst (m k)), m(k := None))"
| "map_step (OpFind k) m = (OutValue (map_option fst (m k)), m)"
| "map_step (OpExpire now) m =
     (OutExpired {(k, v). \<exists>t. m k = Some (v, t) \<and> isDue now t},
      \<lambda>k. case m k of Some (v, t) \<Rightarrow> if isDue now t then None else Some (v, t) | None \<Rightarrow> None)"

text \<open>What the queue asks of its callers: a fresh key, and times after 1970.\<close>

fun map_allowed :: "('k, 'v) tqOp \<Rightarrow> ('k \<rightharpoonup> 'v \<times> 64 word) \<Rightarrow> bool" where
  "map_allowed (OpOffer k v t now) m \<longleftrightarrow> m k = None \<and> timeOk t"
| "map_allowed (OpExpire now) m \<longleftrightarrow> timeOk now"
| "map_allowed _ m \<longleftrightarrow> True"

definition tq_ok :: "('k, 'v) timeoutQueue \<Rightarrow> bool" where
  "tq_ok q \<longleftrightarrow> tq_wf q \<and> tq_started q \<and> \<not> tq_stopped q \<and> tq_blackList q = []
     \<and> (\<forall>d\<in>set (tq_data q). timeOk (td_expireAt d))"

fun tq_run :: "(int list \<Rightarrow> (nat \<times> nat) list) \<Rightarrow> ('k, 'v) tqOp list \<Rightarrow> ('k, 'v) timeoutQueue \<Rightarrow>
    ('k, 'v) tqOut list \<times> ('k, 'v) timeoutQueue" where
  "tq_run swaps [] q = ([], q)"
| "tq_run swaps (op # ops) q =
     (let (out, q') = tq_step swaps op q; (outs, q'') = tq_run swaps ops q' in (out # outs, q''))"

fun map_run :: "('k, 'v) tqOp list \<Rightarrow> ('k \<rightharpoonup> 'v \<times> 64 word) \<Rightarrow>
    (('k, 'v) tqOut list \<times> ('k \<rightharpoonup> 'v \<times> 64 word)) option" where
  "map_run [] m = Some ([], m)"
| "map_run (op # ops) m =
     (if map_allowed op m then
        (let (out, m') = map_step op m in map_option (apfst (Cons out)) (map_run ops m'))
      else None)"

lemma sort_Sort_frame_empty: "tq_data q = [] \<Longrightarrow> tq_sort swaps now q = ([], q)"
  by (simp add: tq_sort_def)

context sort_algorithm
begin

lemma expired_abs:
  assumes "tq_ok q" and "timeOk now" and "set ex = {d \<in> set (tq_data q). tq_due now d}"
  shows "(\<lambda>d. (td_Key d, td_Data d)) ` set ex = {(k, v). \<exists>t. tq_abs q k = Some (v, t) \<and> isDue now t}"
proof -
  have d: "distinct (map td_Key (tq_data q))" and t: "\<forall>d\<in>set (tq_data q). timeOk (td_expireAt d)"
    using assms(1) by (auto simp: tq_ok_def tq_wf_distinct)
  have due: "d \<in> set (tq_data q) \<Longrightarrow> tq_due now d \<longleftrightarrow> isDue now (td_expireAt d)" for d
    using t assms(2) by (simp add: tq_due_iff isDue_def)
  have "(k, v) \<in> (\<lambda>d. (td_Key d, td_Data d)) ` set ex \<longleftrightarrow> (\<exists>t. tq_abs q k = Some (v, t) \<and> isDue now t)" for k v
  proof
    assume "(k, v) \<in> (\<lambda>d. (td_Key d, td_Data d)) ` set ex"
    then obtain d where "d \<in> set (tq_data q)" "tq_due now d" "k = td_Key d" "v = td_Data d" using assms(3) by auto
    moreover from this have "tq_abs q k = Some (v, td_expireAt d)" using tq_abs_Some [of q] assms(1) d by simp
    ultimately show "\<exists>t. tq_abs q k = Some (v, t) \<and> isDue now t" using due by blast
  next
    assume "\<exists>t. tq_abs q k = Some (v, t) \<and> isDue now t"
    then obtain t where "\<lparr>td_Key = k, td_Data = v, td_expireAt = t\<rparr> \<in> set (tq_data q)" "isDue now t"
      using tq_abs_Some [OF d] by blast
    then show "(k, v) \<in> (\<lambda>d. (td_Key d, td_Data d)) ` set ex" using assms(3) due by force
  qed
  then show ?thesis by auto
qed

lemma tq_step_refines:
  assumes ok: "tq_ok q" and "map_allowed op (tq_abs q)" and "tq_step swaps op q = (out, q')"
  shows "tq_ok q' \<and> map_step op (tq_abs q) = (out, tq_abs q')"
proof (cases op)
  case (OpOffer k v t now)
  obtain e where e: "OfferWithTime k v t now q = (e, q')" "out = OutErr e"
    using assms(3) OpOffer by (cases "OfferWithTime k v t now q") auto
  have "e = None" and f: "tq_started q'" "\<not> tq_stopped q'" "tq_blackList q' = []"
      "set (tq_data q') = insert \<lparr>td_Key = k, td_Data = v, td_expireAt = t\<rparr> (set (tq_data q))"
    using e(1) ok by (auto simp: OfferWithTime_def tq_ok_def Let_def split: if_splits)
  with e have "OfferWithTime k v t now q = (None, q')" by simp
  from OfferWithTime_wf_abs [OF _ _ this] show ?thesis
    using ok assms(2) OpOffer f e \<open>e = None\<close> by (auto simp: tq_ok_def)
next
  case (OpRemove k)
  obtain r where r: "tq_Remove k q = (r, q')" "out = OutValue r"
    using assms(3) OpRemove by (cases "tq_Remove k q") auto
  have "tq_started q' = tq_started q" "tq_stopped q' = tq_stopped q" "tq_blackList q' = tq_blackList q"
      "set (tq_data q') \<subseteq> set (tq_data q)"
    using r(1) by (auto simp: tq_Remove_def Let_def dest: in_set_takeD in_set_dropD split: option.splits)
  with tq_Remove_wf_abs [OF _ r(1)] ok OpRemove r(2) show ?thesis by (auto simp: tq_ok_def)
next
  case (OpFind k)
  have "map_option td_Data (tq_Find k q) = map_option fst (tq_abs q k)"
    using ok tq_Find_abs [of q k, symmetric] by (cases "tq_Find k q") (simp_all add: tq_ok_def)
  with OpFind assms(3) ok show ?thesis by auto
next
  case (OpExpire now)
  obtain ex where r: "tq_sort swaps now q = (ex, q')" "out = OutExpired ((\<lambda>d. (td_Key d, td_Data d)) ` set ex)"
    using assms(3) OpExpire by (cases "tq_sort swaps now q") auto
  have now: "timeOk now" using assms(2) OpExpire by simp
  have o: "tq_wf q" "\<not> tq_stopped q" "\<forall>d\<in>set (tq_data q). timeOk (td_expireAt d)" using ok by (auto simp: tq_ok_def)
  note a = tq_sort_abs [OF o(1) r(1) o(2) now o(3)]
  have "tq_started q' \<and> \<not> tq_stopped q' \<and> tq_blackList q' = []"
    using tq_sort_frame [OF r(1)] sort_Sort_spec(4-6) [OF o(1)] r(1) ok sort_Sort_frame_empty [of q swaps now]
    by (cases "tq_data q = []") (auto simp: tq_ok_def)
  with tq_sort_wf [OF o(1) r(1)] a(4) o(3) have "tq_ok q'" by (auto simp: tq_ok_def)
  moreover have "tq_abs q' = (\<lambda>k. case tq_abs q k of Some (v, t) \<Rightarrow> if isDue now t then None else Some (v, t) | None \<Rightarrow> None)"
  proof
    fix k
    have "tq_abs q k = Some (v, t) \<Longrightarrow> tq_due now \<lparr>td_Key = k, td_Data = v, td_expireAt = t\<rparr> \<longleftrightarrow> isDue now t" for v t
      using tq_abs_Some [OF tq_wf_distinct [OF o(1)]] o(3) now by (force simp: tq_due_iff isDue_def)
    with a(3) [of k]
    show "tq_abs q' k = (case tq_abs q k of Some (v, t) \<Rightarrow> if isDue now t then None else Some (v, t) | None \<Rightarrow> None)"
      by (auto split: option.splits)
  qed
  ultimately show ?thesis using OpExpire r(2) expired_abs [OF ok now a(1)] by simp
qed

lemma tq_run_refines:
  "tq_ok q \<Longrightarrow> map_run ops (tq_abs q) = Some (outs, m) \<Longrightarrow>
   fst (tq_run swaps ops q) = outs \<and> tq_abs (snd (tq_run swaps ops q)) = m \<and> tq_ok (snd (tq_run swaps ops q))"
proof (induction ops arbitrary: q outs)
  case (Cons op ops)
  obtain out q1 where s: "tq_step swaps op q = (out, q1)" by (cases "tq_step swaps op q")
  from Cons.prems(2) have al: "map_allowed op (tq_abs q)" by (simp split: if_splits)
  note r = tq_step_refines [OF Cons.prems(1) al s]
  with Cons.prems(2) al obtain outs' where "map_run ops (tq_abs q1) = Some (outs', m)" "outs = out # outs'" by auto
  with Cons.IH [of q1 outs'] r s show ?case by (simp add: split_def Let_def)
qed simp

end

section \<open>Properties\<close>

lemma OfferWithTime_data:
  assumes "tq_wf q" and "tq_Find key q = None"
  shows "tq_wf (snd (OfferWithTime key val t now q))"
    and "tq_data (snd (OfferWithTime key val t now q)) = tq_data q \<or>
         tq_data (snd (OfferWithTime key val t now q)) = tq_data q @ [\<lparr>td_Key = key, td_Data = val, td_expireAt = t\<rparr>]"
proof -
  have "tq_abs q key = None" using tq_Find_abs [OF assms(1), of key] assms(2) by simp
  then show "tq_wf (snd (OfferWithTime key val t now q))"
    using OfferWithTime_wf_abs(1) [OF assms(1), of key val t now "snd (OfferWithTime key val t now q)"]
      OfferWithTime_error [of key val t now q _ "snd (OfferWithTime key val t now q)"] assms(1)
    by (cases "OfferWithTime key val t now q"; cases "fst (OfferWithTime key val t now q)") auto
  show "tq_data (snd (OfferWithTime key val t now q)) = tq_data q \<or>
      tq_data (snd (OfferWithTime key val t now q)) = tq_data q @ [\<lparr>td_Key = key, td_Data = val, td_expireAt = t\<rparr>]"
    by (auto simp: OfferWithTime_def Let_def)
qed

lemma tq_wf_New: "tq_wf NewTimeoutQueue"
  by (simp add: tq_wf_def exactIndex_def NewTimeoutQueue_def)

text \<open>C40: Every operation of the timeout queue keeps its index exact (an index entry for every element, at
  its position, and no other), for whatever times and whatever swaps the sorting algorithm makes;
  \<^verbatim>\<open>Offer\<close> needs a key that is not in the queue, as its documentation asks.\<close>

theorem timeout_queue_index_exact:
  assumes "sort_algorithm swaps" and "tq_wf q"
  shows "tq_wf (snd (tq_sort swaps now q))
    \<and> (tq_Find key q = None \<longrightarrow> tq_wf (snd (OfferWithTime key val t now q)))
    \<and> tq_wf (snd (tq_Remove key q)) \<and> tq_wf (tq_Clear q) \<and> tq_wf (tq_Allow key q) \<and> tq_wf (tq_Forbid key q)"
proof (intro conjI impI)
  show "tq_wf (snd (tq_sort swaps now q))"
    using sort_algorithm.tq_sort_wf [OF assms prod.collapse [symmetric]] .
  show "tq_wf (snd (OfferWithTime key val t now q))" if "tq_Find key q = None"
    using OfferWithTime_data(1) [OF assms(2) that] .
  show "tq_wf (snd (tq_Remove key q))" by (rule tq_Remove_wf_abs(1) [OF assms(2) prod.collapse [symmetric]])
qed (use assms(2) in \<open>simp_all add: tq_wf_def tq_Clear_def tq_Allow_def tq_Forbid_def exactIndex_def\<close>)

text \<open>A queue with an entry that has expired, sorted and offered another one.\<close>

definition exampleQueue :: "(string, nat) timeoutQueue" where
  "exampleQueue = snd (OfferWithTime ''a'' 1 9000000 0 (tq_Start NewTimeoutQueue))"

theorem timeout_queue_index_exact_witness:
  "tq_wf (snd (tq_sort insertionSort 9000000 exampleQueue))
   \<and> tq_wf (snd (OfferWithTime ''b'' 2 5000000 0 exampleQueue))"
proof -
  note exact = timeout_queue_index_exact [OF insertion.sort_algorithm_axioms]
  have "tq_wf (tq_Start NewTimeoutQueue)" using tq_wf_New by (simp add: tq_wf_def tq_Start_def)
  moreover have "tq_Find ''a'' (tq_Start NewTimeoutQueue :: (string, nat) timeoutQueue) = None"
    by (simp add: tq_Find_def tq_Start_def NewTimeoutQueue_def)
  ultimately have "tq_wf exampleQueue"
    unfolding exampleQueue_def by (rule exact [THEN conjunct2, THEN conjunct1, rule_format])
  moreover have "tq_Find ''b'' exampleQueue = None" by code_simp
  ultimately show ?thesis
    by (intro conjI exact [THEN conjunct1] exact [THEN conjunct2, THEN conjunct1, rule_format])
qed

text \<open>C23: The timeout queue refines a finite map from keys to values with expiry times: for every sequence
  of offers of fresh keys, removals, lookups and expiries the queue gives the outputs of the map (an
  expiry delivers exactly the entries that are due), ends in the map's state, and stays
  well-formed.\<close>

theorem timeout_queue_refines_map:
  assumes "sort_algorithm swaps" and "tq_ok q" and "map_run ops (tq_abs q) = Some (outs, m)"
  shows "fst (tq_run swaps ops q) = outs \<and> tq_abs (snd (tq_run swaps ops q)) = m \<and> tq_ok (snd (tq_run swaps ops q))"
  using sort_algorithm.tq_run_refines [OF assms] .

text \<open>Example: two offers, the second one expiring first.\<close>

definition exampleOps :: "(string, nat) tqOp list" where
  "exampleOps = [OpOffer ''a'' 1 9000000 0, OpOffer ''b'' 2 5000000 0, OpFind ''a'', OpExpire 4500000, OpFind ''b'', OpRemove ''a'']"

definition exampleOuts :: "(string, nat) tqOut list" where
  "exampleOuts = [OutErr None, OutErr None, OutValue (Some 1), OutExpired {(''b'', 2)}, OutValue None, OutValue (Some 1)]"

lemma tq_ok_Start: "tq_ok (tq_Start NewTimeoutQueue)"
  by (simp add: tq_ok_def tq_wf_def exactIndex_def tq_Start_def NewTimeoutQueue_def)

lemma example_map_run: "map_run exampleOps (tq_abs (tq_Start NewTimeoutQueue)) = Some (exampleOuts, \<lambda>k. None)"
  by (auto simp: exampleOps_def exampleOuts_def tq_abs_def tq_Start_def NewTimeoutQueue_def isDue_def timeOk_def fun_eq_iff
      split: option.splits if_splits)

theorem timeout_queue_refines_map_witness:
  "fst (tq_run insertionSort exampleOps (tq_Start NewTimeoutQueue)) = exampleOuts"
  using timeout_queue_refines_map [OF insertion.sort_algorithm_axioms tq_ok_Start example_map_run] by simp

end
