(* ===== verification/StorageClient.thy ===== *)
theory StorageClient
  imports Drivers TimeoutQueue Steps
begin

text \<open>
  \<^verbatim>\<open>storageutil/client.go\<close>: the storage client. Its construction is an action; mounting is a state
  machine, since the caller of \<^verbatim>\<open>Mount\<close>, the goroutine that waits for the mount process, the routine
  that closes the channels of expired timers, and the callers of \<^verbatim>\<open>Unmount\<close> run at the same time. A
  step is a maximal piece of code without a blocking operation: the regions protected by \<^verbatim>\<open>c.mu\<close>
  are single steps, which are not enabled while the mutex is held. The result of \<^verbatim>\<open>Unmount\<close> is recorded
  when its region is left, although its command runs afterwards: it touches no shared state.
\<close>

section \<open>Construction\<close>

text \<open>\<^verbatim>\<open>strings.ToLower\<close> on the ASCII letters, the only ones the names compared with have.\<close>

definition toLower_char :: "char \<Rightarrow> char" where
  "toLower_char c = (if 65 \<le> (of_char c :: nat) \<and> (of_char c :: nat) \<le> 90 then char_of ((of_char c :: nat) + 32) else c)"

definition strings_ToLower :: "string \<Rightarrow> string" where
  "strings_ToLower s = map toLower_char s"

text \<open>The default file itself, a wrapper whose \<^verbatim>\<open>Close\<close> does nothing, or a file opened for the client.\<close>

datatype sink = DefaultFile string | NopWriteCloser string | OpenedFile string

record 'w fileOps =
  fo_OpenFile :: "string \<Rightarrow> ('w, unit) act"
  fo_Close :: "string \<Rightarrow> ('w, unit) act"

definition prepareFile :: "'w fileOps \<Rightarrow> string \<Rightarrow> string \<Rightarrow> ('w, sink) act" where
  "prepareFile fo def f =
     (let l = strings_ToLower f in
      if l = [] then ret (DefaultFile def)
      else if l = ''none'' then ret (NopWriteCloser ''discard'')
      else if l = ''stderr'' then ret (NopWriteCloser ''stderr'')
      else if l = ''stdout'' then ret (NopWriteCloser ''stdout'')
      else andThen (fo_OpenFile fo f) (\<lambda>_. ret (OpenedFile f)))"

definition closeSink :: "'w fileOps \<Rightarrow> sink \<Rightarrow> ('w, unit) act" where
  "closeSink fo s =
     (case s of DefaultFile f \<Rightarrow> ignore (fo_Close fo f) | OpenedFile f \<Rightarrow> ignore (fo_Close fo f) | NopWriteCloser _ \<Rightarrow> ret ())"

record storageClient =
  sc_impl :: driver
  sc_successTimeWait :: int
  sc_extraLookupPaths :: "string list"
  sc_stdout :: sink
  sc_stderr :: sink

definition NewClient ::
  "'w fileOps \<Rightarrow> driver \<Rightarrow> int \<Rightarrow> string list \<Rightarrow> string \<Rightarrow> string \<Rightarrow> ('w, storageClient) act" where
  "NewClient fo impl successTimeWait extraLookupPaths stdoutFile stderrFile =
     andThen (wrapErr ''failed to prepare stdout file'' (prepareFile fo ''stdout'' stdoutFile)) (\<lambda>stdout.
     deferErr
       (andThen (wrapErr ''failed to prepare stderr file'' (prepareFile fo ''stderr'' stderrFile)) (\<lambda>stderr.
        ret \<lparr>sc_impl = impl, sc_successTimeWait = successTimeWait, sc_extraLookupPaths = extraLookupPaths,
             sc_stdout = stdout, sc_stderr = stderr\<rparr>))
       (\<lambda>_. closeSink fo stdout))"

definition CreateClient :: "'w fileOps \<Rightarrow> clientConfig \<Rightarrow> ('w, storageClient) act" where
  "CreateClient fo c =
     (case NewDriver (dc_Driver (cl_Driver c)) (dc_Config (cl_Driver c)) of
        Inl e \<Rightarrow> throw e
      | Inr d \<Rightarrow> NewClient fo d (cl_SuccessTimeWait c) (cl_ExtraLookupPaths c) (cl_StdoutFile c) (cl_StderrFile c))"

definition client_Close :: "'w fileOps \<Rightarrow> storageClient \<Rightarrow> ('w, unit) act" where
  "client_Close fo c = andThen (closeSink fo (sc_stdout c)) (\<lambda>_. closeSink fo (sc_stderr c))"

section \<open>The state\<close>

text \<open>
  A session is one call of \<^verbatim>\<open>Mount\<close> that has started a process: the select statement of its caller,
  and the goroutine: waiting for the process, in its select statement, in the deferred function (with
  the error of the process and whether the send panicked), or done.
\<close>

datatype callerState = CallerSelect | CallerDelete goerr | CallerReturned "goerr option"
datatype waiterState = WaiterWait | WaiterSelect "goerr option" | WaiterDelete "goerr option" bool | WaiterDone

record session =
  se_remotePath :: string
  se_mountPoint :: string
  se_chClosed :: bool
  se_ctxDone :: bool
  se_caller :: callerState
  se_waiter :: waiterState

text \<open>Calls that returned without starting a process.\<close>

datatype callResult = MountReturned string string "goerr option" | UnmountReturned string "goerr option"

record storageState =
  ss_locked :: bool
  ss_mounted :: "(string, nat) gomap"
  ss_tq :: "(string, nat) timeoutQueue"
  ss_expired :: "nat list"
  ss_sessions :: "session list"
  ss_results :: "callResult list"
  ss_callbacks :: "(string \<times> string \<times> goerr option) list"

definition initStorage :: storageState where
  "initStorage = \<lparr>ss_locked = False, ss_mounted = [], ss_tq = tq_Start NewTimeoutQueue, ss_expired = [], ss_sessions = [],
     ss_results = [], ss_callbacks = []\<rparr>"

definition addResult :: "callResult \<Rightarrow> storageState \<Rightarrow> storageState" where
  "addResult r st = st\<lparr>ss_results := ss_results st @ [r]\<rparr>"

definition setSession :: "nat \<Rightarrow> session \<Rightarrow> storageState \<Rightarrow> storageState" where
  "setSession s se st = st\<lparr>ss_sessions := (ss_sessions st)[s := se]\<rparr>"

definition forget :: "string \<Rightarrow> storageState \<Rightarrow> storageState" where
  "forget mountPoint st = st\<lparr>ss_mounted := gm_del mountPoint (ss_mounted st)\<rparr>"

section \<open>Steps\<close>

text \<open>The driver, the waiting time and the sorting algorithm of the timer queue.\<close>

record storageParams =
  sp_GetMountCmd :: "string \<Rightarrow> string \<Rightarrow> string list"
  sp_GetUnmountCmd :: "string \<Rightarrow> string list"
  sp_wait :: "64 word"
  sp_swaps :: "int list \<Rightarrow> (nat \<times> nat) list"

text \<open>
  \<^verbatim>\<open>Mount\<close> up to its select statement, for the result of starting the command and the current time. The
  branch for an empty command returns without releasing the mutex.
\<close>

definition Mount_start ::
  "storageParams \<Rightarrow> string \<Rightarrow> string \<Rightarrow> goerr option \<Rightarrow> 64 word \<Rightarrow> storageState \<Rightarrow> storageState option" where
  "Mount_start sp remotePath mountPoint startErr now st =
     (if ss_locked st then None
      else case map_of (ss_mounted st) mountPoint of
        Some _ \<Rightarrow> Some (addResult (MountReturned remotePath mountPoint (Some ErrMountpointInUse)) st)
      | None \<Rightarrow>
          (case tq_Find mountPoint (ss_tq st) of
             Some _ \<Rightarrow> Some (addResult (MountReturned remotePath mountPoint (Some ErrMountpointInProcess)) st)
           | None \<Rightarrow>
               if sp_GetMountCmd sp remotePath mountPoint = []
               then Some (addResult (MountReturned remotePath mountPoint (Some (ErrNew ''invalid empty mount command'')))
                           (st\<lparr>ss_locked := True\<rparr>))
               else
                 (case startErr of
                    Some e \<Rightarrow> Some (addResult (MountReturned remotePath mountPoint (Some e)) st)
                  | None \<Rightarrow>
                      (let s = length (ss_sessions st) in
                       Some (st\<lparr>ss_tq := snd (OfferWithDelay mountPoint s (sp_wait sp) now (ss_tq st)),
                               ss_mounted := gm_put mountPoint s (ss_mounted st),
                               ss_sessions := ss_sessions st @
                                 [\<lparr>se_remotePath = remotePath, se_mountPoint = mountPoint, se_chClosed = False,
                                   se_ctxDone = False, se_caller = CallerSelect, se_waiter = WaiterWait\<rparr>]\<rparr>)))))"

definition Unmount :: "storageParams \<Rightarrow> string \<Rightarrow> goerr option \<Rightarrow> storageState \<Rightarrow> storageState option" where
  "Unmount sp mountPoint runErr st =
     (if ss_locked st then None
      else case map_of (ss_mounted st) mountPoint of
        None \<Rightarrow> Some (addResult (UnmountReturned mountPoint None) st)
      | Some _ \<Rightarrow>
          Some (addResult (UnmountReturned mountPoint
                  (if sp_GetUnmountCmd sp mountPoint = [] then Some (ErrNew ''invalid empty unmount command'') else runErr))
                (forget mountPoint st)))"

datatype storageEvent =
    EvMount string string "goerr option" "64 word"
  | EvUnmount string "goerr option"
  | EvStop
  | EvCancel nat
  | EvExit nat "goerr option"
  | EvExpire "64 word"
  | EvRoutineClose
  | EvHandOver nat
  | EvSendPanic nat
  | EvWaiterCancelled nat
  | EvWaiterDelete nat
  | EvCallerCancelled nat
  | EvCallerClosed nat
  | EvCallerDelete nat

text \<open>The body of \<^verbatim>\<open>routine\<close> for one expired timer.\<close>

definition routineClose :: "storageState \<Rightarrow> storageState option" where
  "routineClose st =
     (case ss_expired st of
        [] \<Rightarrow> None
      | s # rest \<Rightarrow>
          Some ((setSession s ((ss_sessions st ! s)\<lparr>se_chClosed := True\<rparr>) st)\<lparr>ss_expired := rest\<rparr>))"

definition expireTimers :: "storageParams \<Rightarrow> 64 word \<Rightarrow> storageState \<Rightarrow> storageState" where
  "expireTimers sp now st =
     (case tq_sort (sp_swaps sp) now (ss_tq st) of
        (ex, q) \<Rightarrow> st\<lparr>ss_tq := q, ss_expired := ss_expired st @ map td_Data ex\<rparr>)"

text \<open>The goroutine of \<^verbatim>\<open>Mount\<close>; the send on \<^verbatim>\<open>errCh\<close> needs the caller at its select, or panics when closed.\<close>

definition handOver :: "nat \<Rightarrow> session \<Rightarrow> storageState \<Rightarrow> storageState option" where
  "handOver s se st =
     (case (se_waiter se, se_caller se) of
        (WaiterSelect err, CallerSelect) \<Rightarrow>
          if se_chClosed se then None
          else Some (setSession s (se\<lparr>se_waiter := WaiterDelete err False,
                 se_caller := (case err of Some e \<Rightarrow> CallerDelete e | None \<Rightarrow> CallerReturned None)\<rparr>) st)
      | _ \<Rightarrow> None)"

definition sendPanic :: "nat \<Rightarrow> session \<Rightarrow> storageState \<Rightarrow> storageState option" where
  "sendPanic s se st =
     (case se_waiter se of
        WaiterSelect err \<Rightarrow>
          if se_chClosed se then Some (setSession s (se\<lparr>se_waiter := WaiterDelete err True\<rparr>) st) else None
      | _ \<Rightarrow> None)"

definition waiterCancelled :: "nat \<Rightarrow> session \<Rightarrow> storageState \<Rightarrow> storageState option" where
  "waiterCancelled s se st =
     (case se_waiter se of
        WaiterSelect err \<Rightarrow>
          if se_ctxDone se then Some (setSession s (se\<lparr>se_waiter := WaiterDelete err False\<rparr>) st) else None
      | _ \<Rightarrow> None)"

definition waiterDelete :: "nat \<Rightarrow> session \<Rightarrow> storageState \<Rightarrow> storageState option" where
  "waiterDelete s se st =
     (case se_waiter se of
        WaiterDelete err chClosed \<Rightarrow>
          if ss_locked st then None
          else Some ((setSession s (se\<lparr>se_waiter := WaiterDone\<rparr>) (forget (se_mountPoint se) st))
                 \<lparr>ss_callbacks := ss_callbacks st @
                    (if chClosed then [(se_remotePath se, se_mountPoint se, err)] else [])\<rparr>)
      | _ \<Rightarrow> None)"

text \<open>The select statement of \<^verbatim>\<open>Mount\<close> and what follows it.\<close>

definition callerCancelled :: "nat \<Rightarrow> session \<Rightarrow> storageState \<Rightarrow> storageState option" where
  "callerCancelled s se st =
     (if se_caller se = CallerSelect \<and> se_ctxDone se
      then Some (setSession s (se\<lparr>se_caller := CallerReturned (Some CtxErr)\<rparr>) st) else None)"

definition callerClosed :: "nat \<Rightarrow> session \<Rightarrow> storageState \<Rightarrow> storageState option" where
  "callerClosed s se st =
     (if se_caller se = CallerSelect \<and> se_chClosed se
      then Some (setSession s (se\<lparr>se_caller := CallerReturned None\<rparr>) st) else None)"

definition callerDelete :: "nat \<Rightarrow> session \<Rightarrow> storageState \<Rightarrow> storageState option" where
  "callerDelete s se st =
     (case se_caller se of
        CallerDelete e \<Rightarrow>
          if ss_locked st then None
          else Some (setSession s (se\<lparr>se_caller := CallerReturned (Some e)\<rparr>) (forget (se_mountPoint se) st))
      | _ \<Rightarrow> None)"

definition onSession ::
  "(nat \<Rightarrow> session \<Rightarrow> storageState \<Rightarrow> storageState option) \<Rightarrow> nat \<Rightarrow> storageState \<Rightarrow> storageState option" where
  "onSession f s st = (if s < length (ss_sessions st) then f s (ss_sessions st ! s) st else None)"

fun storageStep :: "storageParams \<Rightarrow> storageEvent \<Rightarrow> storageState \<Rightarrow> storageState option" where
  "storageStep sp (EvMount rp mp e now) st = Mount_start sp rp mp e now st"
| "storageStep sp (EvUnmount mp e) st = Unmount sp mp e st"
| "storageStep sp EvStop st = Some (st\<lparr>ss_tq := (ss_tq st)\<lparr>tq_stopped := True\<rparr>\<rparr>)"
| "storageStep sp (EvCancel s) st = onSession (\<lambda>s se st. Some (setSession s (se\<lparr>se_ctxDone := True\<rparr>) st)) s st"
| "storageStep sp (EvExit s e) st =
     onSession (\<lambda>s se st. if se_waiter se = WaiterWait
                           then Some (setSession s (se\<lparr>se_waiter := WaiterSelect e\<rparr>) st) else None) s st"
| "storageStep sp (EvExpire now) st = Some (expireTimers sp now st)"
| "storageStep sp EvRoutineClose st = routineClose st"
| "storageStep sp (EvHandOver s) st = onSession handOver s st"
| "storageStep sp (EvSendPanic s) st = onSession sendPanic s st"
| "storageStep sp (EvWaiterCancelled s) st = onSession waiterCancelled s st"
| "storageStep sp (EvWaiterDelete s) st = onSession waiterDelete s st"
| "storageStep sp (EvCallerCancelled s) st = onSession callerCancelled s st"
| "storageStep sp (EvCallerClosed s) st = onSession callerClosed s st"
| "storageStep sp (EvCallerDelete s) st = onSession callerDelete s st"

text \<open>A run is a list of events, each of them enabled; reachability is its closure.\<close>

abbreviation storageRun :: "storageParams \<Rightarrow> storageEvent list \<Rightarrow> storageState \<Rightarrow> storageState option" where
  "storageRun sp \<equiv> runSteps (storageStep sp)"

abbreviation reaches :: "storageParams \<Rightarrow> storageState \<Rightarrow> storageState \<Rightarrow> bool" where
  "reaches sp \<equiv> stepReaches (storageStep sp)"

section \<open>Invariants\<close>

text \<open>Every entry of the table of mounts is a session at that mount point whose goroutine has not finished.\<close>

definition tableOk :: "storageState \<Rightarrow> bool" where
  "tableOk st \<longleftrightarrow> (\<forall>mp s. map_of (ss_mounted st) mp = Some s \<longrightarrow>
     s < length (ss_sessions st) \<and> se_mountPoint (ss_sessions st ! s) = mp \<and> se_waiter (ss_sessions st ! s) \<noteq> WaiterDone)"

text \<open>Every timer belongs to a session with an open channel, and no session has two.\<close>

definition timersOk :: "storageState \<Rightarrow> bool" where
  "timersOk st \<longleftrightarrow> tq_wf (ss_tq st) \<and> distinct (ss_expired st @ map td_Data (tq_data (ss_tq st)))
     \<and> (\<forall>s\<in>set (ss_expired st). s < length (ss_sessions st) \<and> \<not> se_chClosed (ss_sessions st ! s))
     \<and> (\<forall>d\<in>set (tq_data (ss_tq st)). td_Data d < length (ss_sessions st) \<and> \<not> se_chClosed (ss_sessions st ! td_Data d)
          \<and> se_mountPoint (ss_sessions st ! td_Data d) = td_Key d)"

text \<open>The caller has not been told an error of the process.\<close>

definition callerQuiet :: "session \<Rightarrow> bool" where
  "callerQuiet se \<longleftrightarrow> se_caller se = CallerSelect \<or> (se_caller se = CallerReturned None \<and> se_chClosed se)
     \<or> (se_caller se = CallerReturned (Some CtxErr) \<and> se_ctxDone se)"

definition sessionOk :: "session \<Rightarrow> bool" where
  "sessionOk se \<longleftrightarrow>
     (case se_waiter se of
        WaiterWait \<Rightarrow> callerQuiet se
      | WaiterSelect _ \<Rightarrow> callerQuiet se
      | WaiterDelete _ panicked \<Rightarrow> panicked \<longrightarrow> callerQuiet se \<and> se_chClosed se
      | WaiterDone \<Rightarrow> True)"

definition callbackOk :: "session \<Rightarrow> bool" where
  "callbackOk se \<longleftrightarrow> se_waiter se = WaiterDone \<and> callerQuiet se \<and> se_chClosed se"

definition callbacksOk :: "storageState \<Rightarrow> bool" where
  "callbacksOk st \<longleftrightarrow> (\<forall>(rp, mp, err)\<in>set (ss_callbacks st). \<exists>se\<in>set (ss_sessions st).
     se_remotePath se = rp \<and> se_mountPoint se = mp \<and> callbackOk se)"

definition storageInv :: "storageState \<Rightarrow> bool" where
  "storageInv st \<longleftrightarrow> tableOk st \<and> timersOk st \<and> (\<forall>se\<in>set (ss_sessions st). sessionOk se) \<and> callbacksOk st"

lemma storageInv_init: "storageInv initStorage"
  by (simp add: storageInv_def tableOk_def timersOk_def callbacksOk_def initStorage_def tq_wf_def exactIndex_def
      tq_Start_def NewTimeoutQueue_def)

lemma storageInv_addResult: "storageInv (addResult r st) = storageInv st"
  by (simp add: storageInv_def tableOk_def timersOk_def callbacksOk_def addResult_def)

lemma storageInv_locked: "storageInv (st\<lparr>ss_locked := b\<rparr>) = storageInv st"
  by (simp add: storageInv_def tableOk_def timersOk_def callbacksOk_def)

lemma storageInv_forget: "storageInv st \<Longrightarrow> storageInv (forget mp st)"
  by (auto simp: storageInv_def tableOk_def timersOk_def callbacksOk_def forget_def gm_simps split: if_splits)

text \<open>A session may change when it keeps its paths, opens no channel, and its goroutine does not finish
  while it is in the table.\<close>

definition sessionStep :: "session \<Rightarrow> session \<Rightarrow> bool" where
  "sessionStep se se' \<longleftrightarrow> se_remotePath se' = se_remotePath se \<and> se_mountPoint se' = se_mountPoint se
     \<and> se_chClosed se' = se_chClosed se \<and> (sessionOk se \<longrightarrow> sessionOk se') \<and> (callbackOk se \<longrightarrow> callbackOk se')"

lemma nth_update: "i < length xs \<Longrightarrow> j < length xs \<Longrightarrow> xs[i := x] ! j = (if i = j then x else xs ! j)"
  by (simp add: nth_list_update)

lemma callbacksOk_setSession:
  assumes "callbacksOk st" and "s < length (ss_sessions st)"
    and "se_remotePath se' = se_remotePath (ss_sessions st ! s)" "se_mountPoint se' = se_mountPoint (ss_sessions st ! s)"
    and "callbackOk (ss_sessions st ! s) \<Longrightarrow> callbackOk se'"
  shows "callbacksOk (setSession s se' st)"
proof -
  let ?xs = "ss_sessions st"
  have "\<exists>x\<in>set (?xs[s := se']). se_remotePath x = se_remotePath se \<and> se_mountPoint x = se_mountPoint se \<and> callbackOk x"
    if "se \<in> set ?xs" "callbackOk se" for se
  proof -
    from that obtain i where i: "i < length ?xs" "?xs ! i = se" by (auto simp: in_set_conv_nth)
    then have "?xs[s := se'] ! i \<in> set (?xs[s := se'])" by (intro nth_mem) simp
    with i assms(2-5) that(2) show ?thesis
      by (intro bexI [of _ "?xs[s := se'] ! i"]) (auto simp: nth_update)
  qed
  then show ?thesis using assms(1) by (fastforce simp: callbacksOk_def setSession_def)
qed

lemma sessionsOk_update:
  "\<forall>se\<in>set xs. sessionOk se \<Longrightarrow> s < length xs \<Longrightarrow> (sessionOk (xs ! s) \<Longrightarrow> sessionOk se') \<Longrightarrow>
   \<forall>se\<in>set (xs[s := se']). sessionOk se"
  using set_update_subset_insert [of xs s se'] by auto

lemma storageInv_setSession:
  assumes inv: "storageInv st" and s: "s < length (ss_sessions st)" and step: "sessionStep (ss_sessions st ! s) se'"
    and tab: "se_waiter se' = WaiterDone \<Longrightarrow> map_of (ss_mounted st) (se_mountPoint se') \<noteq> Some s"
  shows "storageInv (setSession s se' st)"
proof -
  let ?xs = "ss_sessions st"
  have 1: "tableOk (setSession s se' st)"
    using inv s step tab
    by (auto simp: storageInv_def tableOk_def setSession_def nth_update sessionStep_def)
  have 2: "timersOk (setSession s se' st)"
    using inv s step
    by (auto simp: storageInv_def timersOk_def setSession_def nth_update sessionStep_def)
  have 3: "\<forall>se\<in>set (?xs[s := se']). sessionOk se"
    using inv s step by (intro sessionsOk_update) (auto simp: storageInv_def sessionStep_def)
  have 4: "callbacksOk (setSession s se' st)"
    using inv step by (intro callbacksOk_setSession [OF _ s]) (auto simp: storageInv_def sessionStep_def)
  from 1 2 3 4 show ?thesis by (simp add: storageInv_def setSession_def)
qed

text \<open>Closing the channel of the first expired timer.\<close>

lemma callerQuiet_close: "callerQuiet se \<Longrightarrow> callerQuiet (se\<lparr>se_chClosed := True\<rparr>)"
  by (auto simp: callerQuiet_def)

lemma sessionOk_close: "sessionOk se \<Longrightarrow> sessionOk (se\<lparr>se_chClosed := True\<rparr>)"
  by (auto simp: sessionOk_def callerQuiet_close split: waiterState.splits)

lemma callbackOk_close: "callbackOk se \<Longrightarrow> callbackOk (se\<lparr>se_chClosed := True\<rparr>)"
  by (simp add: callbackOk_def callerQuiet_close)

lemma storageInv_routineClose:
  assumes inv: "storageInv st" and step: "routineClose st = Some st'"
  shows "storageInv st'"
proof -
  from step obtain s rest where e: "ss_expired st = s # rest"
    and st': "st' = (setSession s ((ss_sessions st ! s)\<lparr>se_chClosed := True\<rparr>) st)\<lparr>ss_expired := rest\<rparr>"
    by (auto simp: routineClose_def split: list.splits)
  from inv e have s: "s < length (ss_sessions st)" by (auto simp: storageInv_def timersOk_def)
  let ?se = "(ss_sessions st ! s)\<lparr>se_chClosed := True\<rparr>"
  have 1: "tableOk st'"
    using inv s by (auto simp: storageInv_def tableOk_def setSession_def st' nth_update)
  have 2: "timersOk st'"
    using inv s e by (auto simp: storageInv_def timersOk_def setSession_def st' nth_update image_iff)
  have 3: "\<forall>se\<in>set ((ss_sessions st)[s := ?se]). sessionOk se"
    using inv s by (intro sessionsOk_update) (auto simp: storageInv_def sessionOk_close)
  have "callbacksOk (setSession s ?se st)"
    using inv by (intro callbacksOk_setSession [OF _ s]) (auto simp: storageInv_def callbackOk_close)
  then have 4: "callbacksOk st'" by (simp add: st' callbacksOk_def)
  from 1 2 3 4 show ?thesis by (simp add: storageInv_def setSession_def st')
qed

lemma storageInv_expire:
  assumes sorter: "sort_algorithm (sp_swaps sp)" and inv: "storageInv st"
  shows "storageInv (expireTimers sp now st)"
proof -
  obtain ex q where r: "tq_sort (sp_swaps sp) now (ss_tq st) = (ex, q)" by (cases "tq_sort (sp_swaps sp) now (ss_tq st)")
  have wf: "tq_wf (ss_tq st)" using inv by (simp add: storageInv_def timersOk_def)
  have m: "mset (ex @ tq_data q) = mset (tq_data (ss_tq st))" by (rule sort_algorithm.tq_sort_mset [OF sorter wf r])
  then have "set (ex @ tq_data q) = set (tq_data (ss_tq st))" by (metis set_mset_mset)
  moreover have "mset (ss_expired st @ map td_Data ex @ map td_Data (tq_data q)) =
      mset (ss_expired st @ map td_Data (tq_data (ss_tq st)))"
    using m by (metis map_append mset_append mset_map)
  then have "distinct (ss_expired st @ map td_Data ex @ map td_Data (tq_data q))"
    using inv by (metis mset_eq_imp_distinct_iff storageInv_def timersOk_def)
  ultimately have "timersOk (expireTimers sp now st)"
    using inv sort_algorithm.tq_sort_wf [OF sorter wf r]
    by (auto simp: expireTimers_def r storageInv_def timersOk_def)
  then show ?thesis using inv by (simp add: storageInv_def expireTimers_def r tableOk_def callbacksOk_def)
qed

definition newSession :: "string \<Rightarrow> string \<Rightarrow> session" where
  "newSession rp mp = \<lparr>se_remotePath = rp, se_mountPoint = mp, se_chClosed = False, se_ctxDone = False,
     se_caller = CallerSelect, se_waiter = WaiterWait\<rparr>"

text \<open>The ways \<^verbatim>\<open>Mount\<close> leaves its critical region.\<close>

lemma Mount_start_cases:
  assumes "Mount_start sp rp mp e now st = Some st'"
  obtains (returned) r where "st' = addResult r st" "\<not> ss_locked st"
  | (empty) r where "st' = addResult r (st\<lparr>ss_locked := True\<rparr>)" "sp_GetMountCmd sp rp mp = []" "\<not> ss_locked st"
  | (started) "tq_Find mp (ss_tq st) = None" "map_of (ss_mounted st) mp = None" "sp_GetMountCmd sp rp mp \<noteq> []"
      "\<not> ss_locked st"
      "st' = st\<lparr>ss_tq := snd (OfferWithDelay mp (length (ss_sessions st)) (sp_wait sp) now (ss_tq st)),
       ss_mounted := gm_put mp (length (ss_sessions st)) (ss_mounted st), ss_sessions := ss_sessions st @ [newSession rp mp]\<rparr>"
  using assms
  by (auto simp: Mount_start_def Let_def newSession_def split: if_splits option.splits)

lemma storageInv_mount:
  assumes inv: "storageInv st" and step: "Mount_start sp rp mp e now st = Some st'"
  shows "storageInv st'"
  using step
proof (cases rule: Mount_start_cases)
  case started
  note st' = started(5)
  have wf: "tq_wf (ss_tq st)" using inv by (simp add: storageInv_def timersOk_def)
  note o = OfferWithTime_data [OF wf started(1), of "length (ss_sessions st)" "now + sp_wait sp" now]
  have 1: "tableOk st'"
    using inv by (auto simp: storageInv_def tableOk_def st' gm_simps nth_append newSession_def less_Suc_eq split: if_splits)
  have 2: "timersOk st'"
    using inv o by (fastforce simp: storageInv_def timersOk_def st' OfferWithDelay_def nth_append newSession_def)
  have 3: "\<forall>se\<in>set (ss_sessions st'). sessionOk se"
    using inv by (auto simp: storageInv_def st' sessionOk_def callerQuiet_def newSession_def)
  have 4: "callbacksOk st'" using inv by (fastforce simp: storageInv_def callbacksOk_def st')
  from 1 2 3 4 show ?thesis by (simp add: storageInv_def)
qed (use inv in \<open>simp_all add: storageInv_addResult storageInv_locked\<close>)

lemma onSessionE:
  assumes "onSession f s st = Some st'"
  obtains "s < length (ss_sessions st)" "f s (ss_sessions st ! s) st = Some st'"
  using assms by (auto simp: onSession_def split: if_splits)

lemma storageInv_waiterDelete:
  assumes inv: "storageInv st" and "onSession waiterDelete s st = Some st'"
  shows "storageInv st'"
  using assms(2)
proof (rule onSessionE)
  let ?se = "ss_sessions st ! s"
  assume s: "s < length (ss_sessions st)" and "waiterDelete s ?se st = Some st'"
  then obtain err b where w: "se_waiter ?se = WaiterDelete err b"
    and st': "st' = (setSession s (?se\<lparr>se_waiter := WaiterDone\<rparr>) (forget (se_mountPoint ?se) st))
      \<lparr>ss_callbacks := ss_callbacks st @ (if b then [(se_remotePath ?se, se_mountPoint ?se, err)] else [])\<rparr>"
    by (auto simp: waiterDelete_def split: waiterState.splits if_splits)
  let ?st = "setSession s (?se\<lparr>se_waiter := WaiterDone\<rparr>) (forget (se_mountPoint ?se) st)"
  have "storageInv ?st"
    using s w by (intro storageInv_setSession storageInv_forget inv)
      (auto simp: forget_def sessionStep_def sessionOk_def callbackOk_def gm_simps)
  moreover have "callbackOk (?se\<lparr>se_waiter := WaiterDone\<rparr>)" if b
    using inv w that nth_mem [OF s] by (auto simp: storageInv_def sessionOk_def callbackOk_def callerQuiet_def)
  moreover have "?se\<lparr>se_waiter := WaiterDone\<rparr> \<in> set (ss_sessions ?st)"
    using s by (simp add: setSession_def forget_def set_update_memI)
  moreover have "ss_callbacks ?st = ss_callbacks st" by (simp add: setSession_def forget_def)
  ultimately show ?thesis
    unfolding st' by (auto simp: storageInv_def tableOk_def timersOk_def callbacksOk_def)
qed

text \<open>All other steps of a session.\<close>

lemma storageInv_running_step:
  assumes inv: "storageInv st" and s: "s < length (ss_sessions st)" and "sessionStep (ss_sessions st ! s) se'"
    and "se_waiter se' = WaiterDone \<Longrightarrow> se_waiter (ss_sessions st ! s) = WaiterDone"
  shows "storageInv (setSession s se' st)"
proof (rule storageInv_setSession [OF inv s assms(3)])
  assume "se_waiter se' = WaiterDone"
  then have "se_waiter (ss_sessions st ! s) = WaiterDone" by (rule assms(4))
  then show "map_of (ss_mounted st) (se_mountPoint se') \<noteq> Some s" using inv by (auto simp: storageInv_def tableOk_def)
qed

lemma storageInv_session_step:
  assumes inv: "storageInv st" and "onSession f s st = Some st'"
    and "f \<in> {handOver, sendPanic, waiterCancelled, callerCancelled, callerClosed}"
  shows "storageInv st'"
  using assms(2)
proof (rule onSessionE)
  let ?se = "ss_sessions st ! s"
  assume s: "s < length (ss_sessions st)" and f: "f s ?se st = Some st'"
  have ok: "sessionOk ?se" using inv nth_mem [OF s] by (auto simp: storageInv_def)
  from f assms(3) obtain se' where "st' = setSession s se' st" "sessionStep ?se se'" "se_waiter se' = WaiterDone \<longleftrightarrow> se_waiter ?se = WaiterDone"
    using ok
    by (auto simp: handOver_def sendPanic_def waiterCancelled_def callerCancelled_def callerClosed_def sessionStep_def
        sessionOk_def callbackOk_def callerQuiet_def
        split: waiterState.splits callerState.splits if_splits option.splits)
  then show ?thesis by (auto intro: storageInv_running_step [OF inv s])
qed

lemma storageInv_callerDelete:
  assumes inv: "storageInv st" and "onSession callerDelete s st = Some st'"
  shows "storageInv st'"
  using assms(2)
proof (rule onSessionE)
  let ?se = "ss_sessions st ! s"
  assume s: "s < length (ss_sessions st)" and "callerDelete s ?se st = Some st'"
  then obtain e where c: "se_caller ?se = CallerDelete e"
    and st': "st' = setSession s (?se\<lparr>se_caller := CallerReturned (Some e)\<rparr>) (forget (se_mountPoint ?se) st)"
    by (auto simp: callerDelete_def split: callerState.splits if_splits)
  have ok: "sessionOk ?se" using inv nth_mem [OF s] by (auto simp: storageInv_def)
  then have "sessionStep ?se (?se\<lparr>se_caller := CallerReturned (Some e)\<rparr>)"
    using c by (auto simp: sessionStep_def sessionOk_def callbackOk_def callerQuiet_def split: waiterState.splits)
  then show ?thesis
    unfolding st' using s by (intro storageInv_setSession storageInv_forget inv) (auto simp: forget_def gm_simps)
qed

lemma storageInv_step:
  assumes sorter: "sort_algorithm (sp_swaps sp)" and inv: "storageInv st" and step: "storageStep sp ev st = Some st'"
  shows "storageInv st'"
proof (cases ev)
  case (EvUnmount mp e)
  with step inv show ?thesis
    by (auto simp: Unmount_def storageInv_addResult storageInv_forget split: if_splits option.splits)
next
  case EvStop
  with step inv show ?thesis by (auto simp: storageInv_def tableOk_def timersOk_def callbacksOk_def tq_wf_def)
next
  case (EvCancel s)
  have "sessionStep se (se\<lparr>se_ctxDone := True\<rparr>)" for se
    by (auto simp: sessionStep_def sessionOk_def callbackOk_def callerQuiet_def split: waiterState.splits)
  then show ?thesis using step unfolding EvCancel storageStep.simps
    by (auto elim!: onSessionE intro!: storageInv_running_step [OF inv])
next
  case (EvExit s e)
  have "se_waiter se = WaiterWait \<Longrightarrow> sessionStep se (se\<lparr>se_waiter := WaiterSelect e\<rparr>)" for se
    by (simp add: sessionStep_def sessionOk_def callbackOk_def callerQuiet_def)
  then show ?thesis using step unfolding EvExit storageStep.simps
    by (auto elim!: onSessionE intro!: storageInv_running_step [OF inv] split: if_splits)
qed (use step inv in \<open>auto intro: storageInv_mount storageInv_expire [OF sorter] storageInv_routineClose storageInv_waiterDelete
      storageInv_callerDelete storageInv_session_step\<close>)

lemma reaches_inv:
  "reaches sp st st' \<Longrightarrow> sort_algorithm (sp_swaps sp) \<Longrightarrow> storageInv st \<Longrightarrow> storageInv st'"
  by (induction rule: stepReaches.induct) (auto intro: storageInv_step)

section \<open>The mutex\<close>

lemma step_keeps_lock: "storageStep sp ev st = Some st' \<Longrightarrow> ss_locked st \<Longrightarrow> ss_locked st'"
  by (cases ev)
     (auto simp: Mount_start_def Unmount_def routineClose_def expireTimers_def onSession_def setSession_def handOver_def
       sendPanic_def waiterCancelled_def waiterDelete_def callerCancelled_def callerClosed_def callerDelete_def
       split: if_splits list.splits prod.splits waiterState.splits callerState.splits)

lemma reaches_keeps_lock: "reaches sp st st' \<Longrightarrow> ss_locked st \<Longrightarrow> ss_locked st'"
  by (induction rule: stepReaches.induct) (auto intro: step_keeps_lock)

lemma locked_addResult: "ss_locked (addResult r st) = ss_locked st"
  by (simp add: addResult_def)

text \<open>Only the branch for an empty command keeps the mutex.\<close>

lemma step_unlocked:
  assumes "\<And>rp mp. sp_GetMountCmd sp rp mp \<noteq> []" and "storageStep sp ev st = Some st'" and "\<not> ss_locked st"
  shows "\<not> ss_locked st'"
proof (cases ev)
  case (EvMount rp mp e now)
  with assms(2) have "Mount_start sp rp mp e now st = Some st'" by simp
  then show ?thesis
  proof (rule Mount_start_cases)
    assume "sp_GetMountCmd sp rp mp = []"
    with assms(1) show ?thesis by blast
  qed (use assms(3) in \<open>simp_all add: locked_addResult\<close>)
qed (use assms(2,3) in \<open>auto simp: Unmount_def routineClose_def expireTimers_def onSession_def setSession_def handOver_def
       sendPanic_def waiterCancelled_def waiterDelete_def callerCancelled_def callerClosed_def callerDelete_def
       addResult_def forget_def
       split: if_splits list.splits prod.splits option.splits waiterState.splits callerState.splits\<close>)

lemma reaches_unlocked:
  assumes "reaches sp st st'" and "\<And>rp mp. sp_GetMountCmd sp rp mp \<noteq> []" and "\<not> ss_locked st"
  shows "\<not> ss_locked st'"
  using assms(1,3) by (induction rule: stepReaches.induct) (auto dest: step_unlocked [OF assms(2)])

section \<open>Timers\<close>

text \<open>A session whose channel is open has a timer, as long as the queue has not been stopped.\<close>

definition timerPending :: "storageState \<Rightarrow> bool" where
  "timerPending st \<longleftrightarrow> tq_started (ss_tq st) \<and> tq_blackList (ss_tq st) = [] \<and>
     (\<forall>s<length (ss_sessions st). se_chClosed (ss_sessions st ! s) \<or> s \<in> set (ss_expired st)
        \<or> s \<in> td_Data ` set (tq_data (ss_tq st)) \<or> tq_stopped (ss_tq st))"

lemma timerPending_init: "timerPending initStorage"
  by (simp add: timerPending_def initStorage_def tq_Start_def NewTimeoutQueue_def)

lemma timerPending_mount:
  assumes inv: "timerPending st" and step: "Mount_start sp rp mp e now st = Some st'"
  shows "timerPending st'"
  using step
proof (cases rule: Mount_start_cases)
  case started
  then show ?thesis
    using inv by (auto simp: timerPending_def newSession_def OfferWithDelay_def OfferWithTime_def Let_def nth_append less_Suc_eq)
qed (use inv in \<open>simp_all add: timerPending_def addResult_def\<close>)

lemma timerPending_expire:
  assumes sorter: "sort_algorithm (sp_swaps sp)" and wf: "tq_wf (ss_tq st)" and inv: "timerPending st"
  shows "timerPending (expireTimers sp now st)"
proof -
  obtain ex q where r: "tq_sort (sp_swaps sp) now (ss_tq st) = (ex, q)" by (cases "tq_sort (sp_swaps sp) now (ss_tq st)")
  have "mset (ex @ tq_data q) = mset (tq_data (ss_tq st))" by (rule sort_algorithm.tq_sort_mset [OF sorter wf r])
  then have set: "set (tq_data (ss_tq st)) = set ex \<union> set (tq_data q)" by (metis set_append set_mset_mset)
  have "tq_started q = tq_started (ss_tq st) \<and> tq_stopped q = tq_stopped (ss_tq st) \<and> tq_blackList q = tq_blackList (ss_tq st)"
    using tq_sort_frame [OF r] sort_algorithm.sort_Sort_spec(4-6) [OF sorter wf] r sort_Sort_frame_empty [of "ss_tq st" "sp_swaps sp" now]
    by (cases "tq_data (ss_tq st) = []") auto
  then show ?thesis using inv by (auto simp: timerPending_def expireTimers_def r set)
qed

lemma timerPending_setSession:
  "timerPending st \<Longrightarrow> s < length (ss_sessions st) \<Longrightarrow> se_chClosed se' = se_chClosed (ss_sessions st ! s) \<Longrightarrow>
   timerPending (setSession s se' st)"
  by (auto simp: timerPending_def setSession_def nth_update)

text \<open>What the steps of a session leave alone.\<close>

lemma session_step_frame:
  assumes "onSession f s st = Some st'"
    and "f \<in> {handOver, sendPanic, waiterCancelled, waiterDelete, callerCancelled, callerClosed, callerDelete}"
  shows "s < length (ss_sessions st) \<and> ss_sessions st' = (ss_sessions st)[s := ss_sessions st' ! s]
    \<and> se_chClosed (ss_sessions st' ! s) = se_chClosed (ss_sessions st ! s) \<and> ss_tq st' = ss_tq st
    \<and> ss_expired st' = ss_expired st"
  using assms
  by (auto elim!: onSessionE simp: handOver_def sendPanic_def waiterCancelled_def waiterDelete_def callerCancelled_def
      callerClosed_def callerDelete_def setSession_def forget_def
      split: waiterState.splits callerState.splits if_splits)

lemma timerPending_session_step:
  assumes "timerPending st" and "onSession f s st = Some st'"
    and "f \<in> {handOver, sendPanic, waiterCancelled, waiterDelete, callerCancelled, callerClosed, callerDelete}"
  shows "timerPending st'"
proof -
  note f = session_step_frame [OF assms(2,3)]
  then have "length (ss_sessions st') = length (ss_sessions st)" by (metis length_list_update)
  moreover have "se_chClosed (ss_sessions st' ! i) = se_chClosed (ss_sessions st ! i)" for i
    using f by (metis nth_list_update_neq)
  ultimately show ?thesis using f assms(1) by (simp add: timerPending_def)
qed

lemma timerPending_step:
  assumes sorter: "sort_algorithm (sp_swaps sp)" and inv: "storageInv st" "timerPending st"
    and step: "storageStep sp ev st = Some st'"
  shows "timerPending st'"
proof (cases ev)
  case (EvUnmount mp e)
  with step inv show ?thesis
    by (auto simp: Unmount_def timerPending_def addResult_def forget_def split: if_splits option.splits)
next
  case EvStop
  with step inv show ?thesis by (auto simp: timerPending_def)
next
  case EvRoutineClose
  have "set (ss_expired st) \<subseteq> {..<length (ss_sessions st)}" using inv(1) by (auto simp: storageInv_def timersOk_def)
  with EvRoutineClose step inv(2) show ?thesis
    by (auto simp: routineClose_def timerPending_def setSession_def nth_update split: list.splits if_splits)
next
  case (EvCancel s)
  with step inv show ?thesis by (auto elim!: onSessionE intro!: timerPending_setSession)
next
  case (EvExit s e)
  with step inv show ?thesis by (auto elim!: onSessionE intro!: timerPending_setSession split: if_splits)
next
  case (EvExpire now)
  with step inv timerPending_expire [OF sorter] show ?thesis by (auto simp: storageInv_def timersOk_def)
qed (use step inv in \<open>auto intro: timerPending_mount timerPending_session_step\<close>)

lemma reaches_timers:
  assumes "reaches sp st st'" and "sort_algorithm (sp_swaps sp)" and "storageInv st" and "timerPending st"
  shows "timerPending st'"
  using assms
proof (induction rule: stepReaches.induct)
  case (reaches_step st st' ev st'')
  then show ?case using timerPending_step [OF _ reaches_inv] by blast
qed

text \<open>The routine gets to every expired timer.\<close>

lemma close_expired:
  "s \<in> set (ss_expired st) \<Longrightarrow> set (ss_expired st) \<subseteq> {..<length (ss_sessions st)} \<Longrightarrow>
   \<exists>n st'. storageRun sp (replicate n EvRoutineClose) st = Some st' \<and> se_chClosed (ss_sessions st' ! s)
     \<and> se_caller (ss_sessions st' ! s) = se_caller (ss_sessions st ! s) \<and> length (ss_sessions st') = length (ss_sessions st)"
proof (induction "ss_expired st" arbitrary: st)
  case (Cons x rest)
  let ?st = "(setSession x ((ss_sessions st ! x)\<lparr>se_chClosed := True\<rparr>) st)\<lparr>ss_expired := rest\<rparr>"
  have step: "storageStep sp EvRoutineClose st = Some ?st" using Cons.hyps(2) [symmetric] by (simp add: routineClose_def)
  have x: "x < length (ss_sessions st)" using Cons.prems(2) Cons.hyps(2) [symmetric] by simp
  show ?case
  proof (cases "s = x")
    case True
    with step x show ?thesis by (intro exI [of _ 1] exI [of _ ?st]) (simp add: setSession_def)
  next
    case False
    then have s: "s \<in> set (ss_expired ?st)" "set (ss_expired ?st) \<subseteq> {..<length (ss_sessions ?st)}"
      using Cons.prems Cons.hyps(2) [symmetric] by (auto simp: setSession_def)
    obtain n st' where "storageRun sp (replicate n EvRoutineClose) ?st = Some st'" "se_chClosed (ss_sessions st' ! s)"
      "se_caller (ss_sessions st' ! s) = se_caller (ss_sessions ?st ! s)" "length (ss_sessions st') = length (ss_sessions ?st)"
      using Cons.hyps(1) [OF _ s] by auto
    with step False show ?thesis by (intro exI [of _ "Suc n"] exI [of _ st']) (simp add: setSession_def)
  qed
qed simp

text \<open>The events that need nothing from outside: time, the routine and the caller itself.\<close>

fun internalEvent :: "storageEvent \<Rightarrow> bool" where
  "internalEvent (EvExpire _) = True"
| "internalEvent EvRoutineClose = True"
| "internalEvent (EvCallerClosed _) = True"
| "internalEvent (EvCallerDelete _) = True"
| "internalEvent _ = False"

lemma return_when_closed:
  assumes "se_chClosed (ss_sessions st ! s)" and "s < length (ss_sessions st)" and "se_caller (ss_sessions st ! s) = CallerSelect"
  shows "\<exists>st'. storageStep sp (EvCallerClosed s) st = Some st' \<and> se_caller (ss_sessions st' ! s) = CallerReturned None"
  using assms by (simp add: onSession_def callerClosed_def setSession_def)

lemma return_when_expired:
  assumes "s \<in> set (ss_expired st)" and "set (ss_expired st) \<subseteq> {..<length (ss_sessions st)}"
    and "se_caller (ss_sessions st ! s) = CallerSelect"
  shows "\<exists>evs st'. storageRun sp evs st = Some st' \<and> list_all internalEvent evs
    \<and> se_caller (ss_sessions st' ! s) = CallerReturned None"
proof -
  from close_expired [OF assms(1,2), of sp] obtain n st1 where
    st1: "storageRun sp (replicate n EvRoutineClose) st = Some st1" "se_chClosed (ss_sessions st1 ! s)"
      "se_caller (ss_sessions st1 ! s) = CallerSelect" "length (ss_sessions st1) = length (ss_sessions st)"
    using assms(3) by auto
  have "s < length (ss_sessions st1)" using assms(1,2) st1(4) by auto
  from return_when_closed [OF st1(2) this st1(3), of sp] obtain st2
    where "storageStep sp (EvCallerClosed s) st1 = Some st2" "se_caller (ss_sessions st2 ! s) = CallerReturned None" by blast
  with st1(1) show ?thesis
    by (intro exI [of _ "replicate n EvRoutineClose @ [EvCallerClosed s]"] exI [of _ st2])
       (simp add: runSteps_append list_all_iff)
qed

lemma expire_reaches:
  assumes sorter: "sort_algorithm (sp_swaps sp)" and inv: "storageInv st" and "\<not> tq_stopped (ss_tq st)"
    and times: "\<forall>d\<in>set (tq_data (ss_tq st)). timeOk (td_expireAt d)" and d: "d \<in> set (tq_data (ss_tq st))"
  shows "td_Data d \<in> set (ss_expired (expireTimers sp (td_expireAt d) st))"
proof -
  obtain ex q where r: "tq_sort (sp_swaps sp) (td_expireAt d) (ss_tq st) = (ex, q)"
    by (cases "tq_sort (sp_swaps sp) (td_expireAt d) (ss_tq st)")
  have wf: "tq_wf (ss_tq st)" using inv by (simp add: storageInv_def timersOk_def)
  have "set ex = {e \<in> set (tq_data (ss_tq st)). tq_due (td_expireAt d) e}"
    using sort_algorithm.tq_sort_abs(1) [OF sorter wf r assms(3) _ times] times d by blast
  moreover have "tq_due (td_expireAt d) d" by (simp add: tq_due_def)
  ultimately have "d \<in> set ex" using d by simp
  then show ?thesis by (simp add: expireTimers_def r)
qed

lemma mount_can_return:
  assumes sorter: "sort_algorithm (sp_swaps sp)" and inv: "storageInv st" "timerPending st"
    and "\<not> ss_locked st" and run: "\<not> tq_stopped (ss_tq st)"
    and times: "\<forall>d\<in>set (tq_data (ss_tq st)). timeOk (td_expireAt d)" and s: "s < length (ss_sessions st)"
  shows "\<exists>evs st' r. storageRun sp evs st = Some st' \<and> list_all internalEvent evs
    \<and> se_caller (ss_sessions st' ! s) = CallerReturned r"
proof (cases "se_caller (ss_sessions st ! s)")
  case CallerSelect
  consider "se_chClosed (ss_sessions st ! s)" | "s \<in> set (ss_expired st)"
    | d where "d \<in> set (tq_data (ss_tq st))" "s = td_Data d"
    using inv(2) s run by (auto simp: timerPending_def)
  then show ?thesis
  proof cases
    case 1
    from return_when_closed [OF 1 s CallerSelect, of sp] obtain st'
      where "storageStep sp (EvCallerClosed s) st = Some st'" "se_caller (ss_sessions st' ! s) = CallerReturned None" by blast
    then show ?thesis by (intro exI [of _ "[EvCallerClosed s]"]) auto
  next
    case 2
    have "set (ss_expired st) \<subseteq> {..<length (ss_sessions st)}" using inv(1) by (auto simp: storageInv_def timersOk_def)
    from return_when_expired [OF 2 this CallerSelect] show ?thesis by blast
  next
    case 3
    let ?st = "expireTimers sp (td_expireAt d) st"
    have sess: "ss_sessions ?st = ss_sessions st" by (simp add: expireTimers_def split: prod.splits)
    have "storageInv ?st" by (rule storageInv_expire [OF sorter inv(1)])
    then have "set (ss_expired ?st) \<subseteq> {..<length (ss_sessions ?st)}" by (auto simp: storageInv_def timersOk_def)
    moreover have "s \<in> set (ss_expired ?st)" using expire_reaches [OF sorter inv(1) run times] 3 by blast
    ultimately obtain evs st' where "storageRun sp evs ?st = Some st'" "list_all internalEvent evs"
      "se_caller (ss_sessions st' ! s) = CallerReturned None"
      using return_when_expired [of s ?st sp] CallerSelect sess by auto
    then show ?thesis by (intro exI [of _ "EvExpire (td_expireAt d) # evs"]) auto
  qed
next
  case (CallerDelete e)
  then have "\<exists>st'. storageStep sp (EvCallerDelete s) st = Some st' \<and> se_caller (ss_sessions st' ! s) = CallerReturned (Some e)"
    using s assms(4) by (simp add: onSession_def callerDelete_def setSession_def forget_def)
  then obtain st' where "storageStep sp (EvCallerDelete s) st = Some st'"
    "se_caller (ss_sessions st' ! s) = CallerReturned (Some e)" by blast
  then show ?thesis by (intro exI [of _ "[EvCallerDelete s]"]) auto
next
  case (CallerReturned r)
  then show ?thesis by (intro exI [of _ "[]"]) auto
qed

section \<open>Properties\<close>

text \<open>Example: the general driver on Linux, with a waiting time of five seconds.\<close>

definition exampleDriver :: driver where
  "exampleDriver = GeneralDriver \<lparr>gc_Command = ''mount.nfs'',
     gc_Args = [''$ARHAT_STORAGE_REMOTE_PATH'', ''$ARHAT_STORAGE_MOUNTPOINT''], gc_Fuse = False\<rparr>"

definition exampleOs :: osEnv where
  "exampleOs = \<lparr>oe_GOOS = ''linux'', oe_Lookup = (\<lambda>bin _. Inr (''/bin/'' @ bin))\<rparr>"

definition storageParamsOf :: "osEnv \<Rightarrow> driver \<Rightarrow> 64 word \<Rightarrow> storageParams" where
  "storageParamsOf oe d wait = \<lparr>sp_GetMountCmd = GetMountCmd d, sp_GetUnmountCmd = GetUnmountCmd oe d, sp_wait = wait,
     sp_swaps = insertionSort\<rparr>"

definition exampleParams :: storageParams where
  "exampleParams = storageParamsOf exampleOs exampleDriver 5000000000"

lemma storageParamsOf_sel [simp]:
  "sp_swaps (storageParamsOf oe d w) = insertionSort" "sp_GetMountCmd (storageParamsOf oe d w) = GetMountCmd d"
  "sp_GetUnmountCmd (storageParamsOf oe d w) = GetUnmountCmd oe d"
  by (simp_all add: storageParamsOf_def)

lemma exampleParams_swaps: "sp_swaps exampleParams = insertionSort"
  by (simp add: exampleParams_def)

lemma exampleParams_sorter: "sort_algorithm (sp_swaps exampleParams)"
  unfolding exampleParams_swaps by (rule insertion.sort_algorithm_axioms)

text \<open>A mount that succeeds, and whose process ends later.\<close>

definition exampleEvents :: "storageEvent list" where
  "exampleEvents = [EvMount ''host:/x'' ''/mnt'' None 0, EvExpire 5000000000, EvRoutineClose, EvCallerClosed 0,
     EvExit 0 (Some (ErrExt ''exit status 1'')), EvSendPanic 0, EvWaiterDelete 0]"

definition exampleAfter :: "nat \<Rightarrow> storageState" where
  "exampleAfter n = (case storageRun exampleParams (take n exampleEvents) initStorage of Some st \<Rightarrow> st | None \<Rightarrow> initStorage)"

lemma exampleAfter_run: "storageRun exampleParams (take 1 exampleEvents) initStorage = Some (exampleAfter 1)"
    "storageRun exampleParams (take 7 exampleEvents) initStorage = Some (exampleAfter 7)"
  unfolding exampleAfter_def
proof -
  have "storageRun exampleParams (take 1 exampleEvents) initStorage \<noteq> None"
    "storageRun exampleParams (take 7 exampleEvents) initStorage \<noteq> None" by code_simp+
  then show "storageRun exampleParams (take 1 exampleEvents) initStorage =
      Some (case storageRun exampleParams (take 1 exampleEvents) initStorage of Some st \<Rightarrow> st | None \<Rightarrow> initStorage)"
    "storageRun exampleParams (take 7 exampleEvents) initStorage =
      Some (case storageRun exampleParams (take 7 exampleEvents) initStorage of Some st \<Rightarrow> st | None \<Rightarrow> initStorage)"
    by (auto split: option.splits)
qed

text \<open>C22: In every reachable state of the storage client, whatever the interleaving of callers, goroutines and
  timers, an entry of the table of mounts belongs to a started command at exactly that mount point whose
  goroutine has not finished, and the timer queue's index is exact with at most one timer per command.\<close>

theorem storage_table_sound:
  assumes "sort_algorithm (sp_swaps sp)" and "reaches sp initStorage st" and "map_of (ss_mounted st) mp = Some s"
  shows "s < length (ss_sessions st) \<and> se_mountPoint (ss_sessions st ! s) = mp
    \<and> se_waiter (ss_sessions st ! s) \<noteq> WaiterDone \<and> tq_wf (ss_tq st) \<and> distinct (map td_Data (tq_data (ss_tq st)))"
  using reaches_inv [OF assms(2,1) storageInv_init] assms(3)
  by (auto simp: storageInv_def tableOk_def timersOk_def)

theorem storage_table_sound_witness:
  "map_of (ss_mounted (exampleAfter 1)) ''/mnt'' = Some 0
   \<and> se_mountPoint (ss_sessions (exampleAfter 1) ! 0) = ''/mnt''"
proof -
  have m: "map_of (ss_mounted (exampleAfter 1)) ''/mnt'' = Some 0" by code_simp
  with storage_table_sound [OF exampleParams_sorter runSteps_reaches [OF exampleAfter_run(1)]] show ?thesis by blast
qed

text \<open>The exit callback is called for a mount only when its success channel had been closed, its goroutine
  is past the deletion of the table entry, and the caller of \<^verbatim>\<open>Mount\<close> was not given an error of the mount
  process: it is still waiting, was told success, or its context was cancelled.\<close>

theorem exit_callback_only_after_success:
  assumes "sort_algorithm (sp_swaps sp)" and "reaches sp initStorage st" and "(rp, mp, err) \<in> set (ss_callbacks st)"
  shows "\<exists>se\<in>set (ss_sessions st). se_remotePath se = rp \<and> se_mountPoint se = mp \<and> se_waiter se = WaiterDone
    \<and> se_chClosed se \<and> (se_caller se = CallerSelect \<or> se_caller se = CallerReturned None
         \<or> se_caller se = CallerReturned (Some CtxErr) \<and> se_ctxDone se)"
proof -
  have "callbacksOk st" using reaches_inv [OF assms(2,1) storageInv_init] by (simp add: storageInv_def)
  with assms(3) obtain se where "se \<in> set (ss_sessions st)" "se_remotePath se = rp" "se_mountPoint se = mp" "callbackOk se"
    unfolding callbacksOk_def by blast
  then show ?thesis by (intro bexI [of _ se]) (auto simp: callbackOk_def callerQuiet_def)
qed

theorem exit_callback_only_after_success_witness:
  "ss_callbacks (exampleAfter 7) = [(''host:/x'', ''/mnt'', Some (ErrExt ''exit status 1''))]
   \<and> (\<exists>se\<in>set (ss_sessions (exampleAfter 7)). se_mountPoint se = ''/mnt'' \<and> se_chClosed se)"
proof -
  have c: "ss_callbacks (exampleAfter 7) = [(''host:/x'', ''/mnt'', Some (ErrExt ''exit status 1''))]" by code_simp
  then have "(''host:/x'', ''/mnt'', Some (ErrExt ''exit status 1'')) \<in> set (ss_callbacks (exampleAfter 7))" by simp
  from exit_callback_only_after_success [OF exampleParams_sorter runSteps_reaches [OF exampleAfter_run(2)] this] c
  show ?thesis by blast
qed



text \<open>With an empty mount command no process is ever started.\<close>

lemma empty_command_step:
  assumes "\<And>rp mp. sp_GetMountCmd sp rp mp = []" and "storageStep sp ev st = Some st'"
    and "ss_sessions st = []" "ss_mounted st = []" "tq_data (ss_tq st) = []" "tq_index (ss_tq st) = []" "ss_expired st = []"
  shows "ss_sessions st' = [] \<and> ss_mounted st' = [] \<and> tq_data (ss_tq st') = [] \<and> tq_index (ss_tq st') = [] \<and> ss_expired st' = []"
proof (cases ev)
  case (EvMount rp mp e now)
  then show ?thesis using assms by (auto simp: Mount_start_def addResult_def tq_Find_def split: if_splits)
qed (use assms(2-) in \<open>auto simp: Unmount_def addResult_def routineClose_def expireTimers_def tq_sort_def onSession_def
    split: if_splits\<close>)

lemma empty_command_reaches:
  assumes "reaches sp initStorage st" and "\<And>rp mp. sp_GetMountCmd sp rp mp = []"
  shows "ss_sessions st = [] \<and> ss_mounted st = [] \<and> tq_data (ss_tq st) = [] \<and> tq_index (ss_tq st) = [] \<and> ss_expired st = []"
  using assms(1)
proof (induction initStorage st rule: stepReaches.induct)
  case reaches_refl
  show ?case by (simp add: initStorage_def tq_Start_def NewTimeoutQueue_def)
next
  case (reaches_step st' ev st'')
  from empty_command_step [OF assms(2) reaches_step(3)] reaches_step(2) show ?case by blast
qed

text \<open>With the driver that does nothing, the first call of \<^verbatim>\<open>Mount\<close> returns an error without releasing the
  mutex: from then on no call of \<^verbatim>\<open>Mount\<close> or \<^verbatim>\<open>Unmount\<close> can ever enter its critical region again, in any state
  that can be reached.\<close>

theorem nop_driver_blocks_client:
  assumes "sp_GetMountCmd sp = GetMountCmd NopDriver" and "reaches sp initStorage st"
    and "Mount_start sp rp mp e now st = Some st'" and "reaches sp st' st''"
  shows "ss_results st' = ss_results st @ [MountReturned rp mp (Some (ErrNew ''invalid empty mount command''))]
    \<and> ss_locked st'' \<and> Mount_start sp rp' mp' e' now' st'' = None \<and> Unmount sp mp' e' st'' = None"
proof -
  have empty: "sp_GetMountCmd sp rp mp = []" for rp mp by (simp add: assms(1) GetMountCmd_def)
  from empty_command_reaches [OF assms(2) empty] assms(3) empty
  have "ss_locked st'" "ss_results st' = ss_results st @ [MountReturned rp mp (Some (ErrNew ''invalid empty mount command''))]"
    by (auto simp: Mount_start_def tq_Find_def addResult_def split: if_splits)
  moreover from this(1) have "ss_locked st''" by (rule reaches_keeps_lock [OF assms(4)])
  ultimately show ?thesis by (simp add: Mount_start_def Unmount_def)
qed

definition nopParams :: storageParams where
  "nopParams = storageParamsOf exampleOs NopDriver 5000000000"

definition nopAfter :: storageState where
  "nopAfter = (case Mount_start nopParams ''host:/x'' ''/mnt'' None 0 initStorage of Some st \<Rightarrow> st | None \<Rightarrow> initStorage)"

theorem nop_driver_blocks_client_witness:
  "Unmount nopParams ''/other'' None nopAfter = None"
proof -
  have "Mount_start nopParams ''host:/x'' ''/mnt'' None 0 initStorage \<noteq> None" by code_simp
  then have "Mount_start nopParams ''host:/x'' ''/mnt'' None 0 initStorage = Some nopAfter"
    by (auto simp: nopAfter_def)
  from nop_driver_blocks_client [OF _ reaches_refl this reaches_refl] show ?thesis by (simp add: nopParams_def)
qed

text \<open>A mount process that ends without an error before the waiting time (a mount helper that detaches, for
  one) makes \<^verbatim>\<open>Mount\<close> report success, but its goroutine removes the table entry: no callback is made, and
  \<^verbatim>\<open>Unmount\<close> of that mount point then does nothing and reports success.\<close>

theorem clean_exit_forgets_mount:
  assumes "s < length (ss_sessions st)" and "se_waiter (ss_sessions st ! s) = WaiterWait"
    and "se_caller (ss_sessions st ! s) = CallerSelect" and "\<not> se_chClosed (ss_sessions st ! s)" and "\<not> ss_locked st"
    and "mp = se_mountPoint (ss_sessions st ! s)"
  shows "\<exists>st'. storageRun sp [EvExit s None, EvHandOver s, EvWaiterDelete s] st = Some st'
    \<and> se_caller (ss_sessions st' ! s) = CallerReturned None \<and> ss_callbacks st' = ss_callbacks st
    \<and> Unmount sp mp e st' = Some (addResult (UnmountReturned mp None) st')"
  using assms by (auto simp: onSession_def handOver_def waiterDelete_def setSession_def forget_def Unmount_def gm_simps)

theorem clean_exit_forgets_mount_witness:
  "\<exists>st'. storageRun exampleParams [EvExit 0 None, EvHandOver 0, EvWaiterDelete 0] (exampleAfter 1) = Some st'
    \<and> se_caller (ss_sessions st' ! 0) = CallerReturned None"
proof -
  have "0 < length (ss_sessions (exampleAfter 1))" "se_waiter (ss_sessions (exampleAfter 1) ! 0) = WaiterWait"
    "se_caller (ss_sessions (exampleAfter 1) ! 0) = CallerSelect" "\<not> se_chClosed (ss_sessions (exampleAfter 1) ! 0)"
    "\<not> ss_locked (exampleAfter 1)" by code_simp+
  from clean_exit_forgets_mount [OF this refl, of exampleParams None] show ?thesis by blast
qed

text \<open>Mounting, unmounting and mounting again, with the end of the first process after that.\<close>

definition remountEvents :: "storageEvent list" where
  "remountEvents =
     [EvMount ''host:/x'' ''/mnt'' None 0, EvExpire 5000000000, EvRoutineClose, EvCallerClosed 0, EvUnmount ''/mnt'' None,
      EvMount ''host:/x'' ''/mnt'' None 6000000000, EvExpire 11000000000, EvRoutineClose, EvCallerClosed 1,
      EvExit 0 None, EvSendPanic 0, EvWaiterDelete 0, EvMount ''host:/x'' ''/mnt'' None 12000000000]"

text \<open>The goroutine of an old mount removes the entry of a newer one: after mounting, unmounting and mounting
  the same place again, the end of the first process leaves the second one running and reported as
  successful, but absent from the table, so that a third \<^verbatim>\<open>Mount\<close> starts another process beside it.\<close>

theorem old_goroutine_forgets_new_mount:
  "\<exists>st. storageRun exampleParams remountEvents initStorage = Some st
     \<and> map se_waiter (ss_sessions st) = [WaiterDone, WaiterWait, WaiterWait]
     \<and> se_caller (ss_sessions st ! 1) = CallerReturned None
     \<and> map_of (ss_mounted st) ''/mnt'' = Some 2"
proof -
  have "case storageRun exampleParams remountEvents initStorage of None \<Rightarrow> False
    | Some st \<Rightarrow> map se_waiter (ss_sessions st) = [WaiterDone, WaiterWait, WaiterWait]
       \<and> se_caller (ss_sessions st ! 1) = CallerReturned None \<and> map_of (ss_mounted st) ''/mnt'' = Some 2"
    by code_simp
  then show ?thesis by (auto split: option.splits)
qed

end
