(* ===== verification/App.thy ===== *)
theory App
  imports Conf StorageClient
begin

text \<open>
  \<^verbatim>\<open>pkg/cmd/runtime-podman.go\<close> and \<^verbatim>\<open>cmd/runtime-podman/main.go\<close>: the root command, the set up of the
  extension, its loop and the exit status of the process, with the part of \<^verbatim>\<open>cobra\<close> that runs a
  command. A run of the loop that does not end is the value \<open>None\<close>.
\<close>

section \<open>Running the extension\<close>

text \<open>
  The construction of the TLS configuration, whether the protobuf codec is registered, the
  extension client, files, the constructors of libpod, one connection to the hub, and the context.
\<close>

record 'w runEnv =
  re_GetTLSConfig :: "tlsConfig \<Rightarrow> ('w, unit) act"
  re_hasCodec :: bool
  re_NewExtClient :: "string \<Rightarrow> ('w, unit) act"
  re_files :: "'w fileOps"
  re_ctors :: "'w libpodCtors"
  re_ProcessNewStream :: "('w, unit) act"
  re_ctxDone :: "'w \<Rightarrow> bool"

text \<open>\<^verbatim>\<open>run\<close> up to its loop. \<^verbatim>\<open>NewController\<close> and \<^verbatim>\<open>Start\<close> do not fail; wrapping a nil error prints it so.\<close>

definition runSetup :: "'w runEnv \<Rightarrow> config \<Rightarrow> ('w, libpodRuntime \<times> storageClient) act" where
  "runSetup env config =
     andThen (wrapErr ''failed to create tls config'' (re_GetTLSConfig env (ap_TLS (cf_App config)))) (\<lambda>_.
     if \<not> re_hasCodec env then throw (ErrNew ''protobuf codec not found: %!w(<nil>)'')
     else
       andThen (wrapErr ''failed to create extension client'' (re_NewExtClient env (ap_ExtensionHubURL (cf_App config)))) (\<lambda>_.
       andThen (CreateClient (re_files env) (cf_Storage config)) (\<lambda>storageClient.
       andThen (NewPodmanRuntime (re_ctors env) (cf_Runtime config)) (\<lambda>rt.
       ret (rt, storageClient)))))"

partial_function (option) runLoop :: "'w runEnv \<Rightarrow> 'w \<Rightarrow> (unit outcome \<times> 'w) option" where
  "runLoop env w =
     (if re_ctxDone env w then Some (Ok (), w)
      else case re_ProcessNewStream env w of (r, w') \<Rightarrow>
             (case r of Panic s \<Rightarrow> Some (Panic s, w') | _ \<Rightarrow> runLoop env w'))"

definition run :: "'w runEnv \<Rightarrow> config \<Rightarrow> 'w \<Rightarrow> (unit outcome \<times> 'w) option" where
  "run env config w =
     (case runSetup env config w of
        (Ok _, w') \<Rightarrow> runLoop env w'
      | (Err e, w') \<Rightarrow> Some (Err e, w')
      | (Panic s, w') \<Rightarrow> Some (Panic s, w'))"

section \<open>The commands\<close>

text \<open>The resolution of the command line to a command and its arguments is a parameter (\<^verbatim>\<open>cobra\<close>).\<close>

record 'w appEnv =
  ae_parsers :: parsers
  ae_os :: osProcess
  ae_build :: buildInfo
  ae_Find :: "string list \<Rightarrow> goerr + appCmd \<times> string list"
  ae_reexec :: bool
  ae_helpText :: "appCmd \<Rightarrow> string"
  ae_run :: "'w runEnv"

text \<open>\<^verbatim>\<open>PersistentPreRunE\<close>: nothing for the version command.\<close>

definition persistentPreRun :: "'w appEnv \<Rightarrow> appCmd \<Rightarrow> (proc, appContext option) act" where
  "persistentPreRun ae cmd =
     (if cmd = VersionCmd then ret None
      else andThen (ReadConfig (ae_os ae) zeroLog) (\<lambda>ctx. ret (Some ctx)))"

text \<open>\<^verbatim>\<open>Command.execute\<close>: flags, help, the pre-run hook, and the command itself.\<close>

definition executeCmd :: "'w appEnv \<Rightarrow> appCmd \<Rightarrow> string list \<Rightarrow> proc \<times> 'w \<Rightarrow> (unit outcome \<times> proc \<times> 'w) option" where
  "executeCmd ae cmd flags = (\<lambda>(p, w).
     (case ParseFlags flags (p\<lparr>pr_flags := cmdFlags (ae_parsers ae) cmd\<rparr>) of
        (Ok _, p1) \<Rightarrow>
          if cv_help (getVars p1) then Some (Err ErrHelp, p1, w)
          else
            (case persistentPreRun ae cmd p1 of
               (Ok _, p2) \<Rightarrow>
                 (case cmd of
                    VersionCmd \<Rightarrow> (case versionRun (ae_build ae) p2 of (r, p3) \<Rightarrow> Some (r, p3, w))
                  | RootCmd \<Rightarrow>
                      (case run (ae_run ae) (cv_config (getVars p2)) w of
                         None \<Rightarrow> None
                       | Some (r, w') \<Rightarrow> Some (r, p2, w')))
             | (Err e, p2) \<Rightarrow> Some (Err e, p2, w)
             | (Panic s, p2) \<Rightarrow> Some (Panic s, p2, w))
      | (Err e, p1) \<Rightarrow> Some (Err e, p1, w)
      | (Panic s, p1) \<Rightarrow> Some (Panic s, p1, w)))"

definition Execute :: "'w appEnv \<Rightarrow> proc \<times> 'w \<Rightarrow> (unit outcome \<times> proc \<times> 'w) option" where
  "Execute ae = (\<lambda>(p, w).
     (case ae_Find ae (tl (op_Args (ae_os ae))) of
        Inl e \<Rightarrow> Some (Err e, p, w)
      | Inr (cmd, flags) \<Rightarrow>
          (case executeCmd ae cmd flags (p, w) of
             Some (Err e, p', w') \<Rightarrow>
               if e = ErrHelp then Some (Ok (), p'\<lparr>pr_stdout := pr_stdout p' @ ae_helpText ae cmd\<rparr>, w')
               else Some (Err e, p', w')
           | r \<Rightarrow> r)))"

text \<open>The exit status of \<^verbatim>\<open>main\<close> (a panic ends a Go program with status 2).\<close>

definition main :: "'w appEnv \<Rightarrow> proc \<times> 'w \<Rightarrow> (int \<times> proc \<times> 'w) option" where
  "main ae = (\<lambda>(p, w).
     (if ae_reexec ae then Some (0, p, w)
      else case Execute ae (p, w) of
             None \<Rightarrow> None
           | Some (Ok _, s) \<Rightarrow> Some (0, s)
           | Some (Err _, s) \<Rightarrow> Some (1, s)
           | Some (Panic _, s) \<Rightarrow> Some (2, s)))"

section \<open>The loop\<close>

definition streamStep :: "'w runEnv \<Rightarrow> 'w \<Rightarrow> 'w" where
  "streamStep env w = snd (re_ProcessNewStream env w)"

lemma runLoop_done: "re_ctxDone env w \<Longrightarrow> runLoop env w = Some (Ok (), w)"
  by (subst runLoop.simps) simp

definition noPanic :: "'w runEnv \<Rightarrow> bool" where
  "noPanic env \<longleftrightarrow> (\<forall>w. \<not> (\<exists>s. fst (re_ProcessNewStream env w) = Panic s))"

lemma runLoop_step:
  assumes "\<not> re_ctxDone env w" and "noPanic env"
  shows "runLoop env w = runLoop env (streamStep env w)"
proof -
  obtain o' w' where p: "re_ProcessNewStream env w = (o', w')" by (cases "re_ProcessNewStream env w")
  have "o' \<noteq> Panic s" for s using assms(2) p by (metis fst_conv noPanic_def)
  then have "(case o' of Panic s \<Rightarrow> Some (Panic s, w') | _ \<Rightarrow> runLoop env w') = runLoop env w'" by (cases o') auto
  with assms(1) p show ?thesis by (subst runLoop.simps) (simp add: streamStep_def)
qed

lemma runLoop_returns:
  assumes "noPanic env" and "re_ctxDone env ((streamStep env ^^ n) w)"
  shows "\<exists>w'. runLoop env w = Some (Ok (), w') \<and> re_ctxDone env w'"
  using assms(2)
proof (induction n arbitrary: w)
  case 0
  then show ?case by (simp add: runLoop_done)
next
  case (Suc n)
  show ?case
  proof (cases "re_ctxDone env w")
    case True
    then show ?thesis by (simp add: runLoop_done)
  next
    case False
    with Suc show ?thesis by (simp add: runLoop_step [OF False assms(1)] funpow_Suc_right del: funpow.simps)
  qed
qed

definition loopResult :: "'w runEnv \<Rightarrow> 'w \<Rightarrow> unit outcome \<times> 'w \<Rightarrow> bool" where
  "loopResult env w r \<longleftrightarrow> fst r = Ok () \<and> (\<exists>n. snd r = (streamStep env ^^ n) w) \<and> re_ctxDone env (snd r)"

lemma runLoop_result:
  assumes "runLoop env w = Some r" and "noPanic env"
  shows "loopResult env w r"
proof -
  have "noPanic env \<longrightarrow> loopResult env w r"
  proof (rule runLoop.raw_induct [where P = "\<lambda>env w r. noPanic env \<longrightarrow> loopResult env w r", OF _ assms(1)], rule impI)
    fix rec env w r
    assume IH: "\<And>env w r. rec env w = Some r \<Longrightarrow> noPanic env \<longrightarrow> loopResult env w r"
      and body: "(if re_ctxDone env w then Some (Ok (), w)
        else case re_ProcessNewStream env w of (r, w') \<Rightarrow> (case r of Panic s \<Rightarrow> Some (Panic s, w') | _ \<Rightarrow> rec env w')) = Some r"
      and np: "noPanic env"
    show "loopResult env w r"
    proof (cases "re_ctxDone env w")
      case True
      with body show ?thesis by (auto simp: loopResult_def intro: exI [of _ 0])
    next
      case False
      obtain o' w' where p: "re_ProcessNewStream env w = (o', w')" by (cases "re_ProcessNewStream env w")
      have "o' \<noteq> Panic s" for s using np p by (metis fst_conv noPanic_def)
      with p body False have "rec env w' = Some r" by (cases o') auto
      with IH np have "loopResult env w' r" by blast
      moreover have "w' = streamStep env w" by (simp add: streamStep_def p)
      ultimately show ?thesis by (auto simp: loopResult_def funpow_swap1 intro: exI [of _ "Suc n" for n])
    qed
  qed
  with assms(2) show ?thesis by simp
qed


text \<open>Example: a context that is done after three connections, each of which fails.\<close>

definition exampleRunEnv :: "nat runEnv" where
  "exampleRunEnv = \<lparr>re_GetTLSConfig = (\<lambda>_. ret ()), re_hasCodec = True, re_NewExtClient = (\<lambda>_. ret ()),
     re_files = \<lparr>fo_OpenFile = (\<lambda>_. ret ()), fo_Close = (\<lambda>_. ret ())\<rparr>,
     re_ctors = \<lparr>ctor_LookupEnv = (\<lambda>_. None), ctor_NewConfig = (\<lambda>_. ret ()), ctor_NewRuntimeFromConfig = (\<lambda>_. ret ()),
       ctor_NewRuntime = (\<lambda>_. ret ()), ctor_HasImageRuntime = True, ctor_LibpodVersion = ''2.1.1'', ctor_GOOS = ''linux'',
       ctor_Arch = ''amd64''\<rparr>,
     re_ProcessNewStream = (\<lambda>n. (Err (ErrExt ''connection refused''), Suc n)), re_ctxDone = (\<lambda>n. n \<ge> 3)\<rparr>"


section \<open>Commands\<close>

text \<open>The version command prints exactly one piece of build information, chosen by its flags (the whole
  text without a flag), and exits with status 0; it reads no configuration file, starts nothing and
  leaves the rest of the world as it was.\<close>

theorem version_command_prints:
  assumes "\<not> ae_reexec ae" and "ae_Find ae (tl (op_Args (ae_os ae))) = Inr (VersionCmd, flags)"
    and "fs_Parse flags (cmdFlags (ae_parsers ae) VersionCmd) = Inr f" and "\<not> cv_help (fs_vars f)"
  shows "main ae (p, w) =
    Some (0, p\<lparr>pr_flags := f, pr_stdout := pr_stdout p @ versionText (ae_build ae) (cv_opt (fs_vars f))\<rparr>, w)"
  using assms
  by (simp add: main_def Execute_def executeCmd_def ParseFlags_def persistentPreRun_def versionRun_def getVars_def)

definition exampleBuild :: buildInfo where
  "exampleBuild = \<lparr>bi_branch = ''master'', bi_commit = ''abc'', bi_tag = ''v0'', bi_arch = ''amd64'', bi_goVersion = ''go1.15'',
     bi_goCompilerPlatform = ''linux/amd64''\<rparr>"

definition exampleApp :: "nat appEnv" where
  "exampleApp = \<lparr>ae_parsers = exampleParsers, ae_os = exampleProcess\<lparr>op_Args := [''runtime-podman'', ''version'', ''--tag'']\<rparr>,
     ae_build = exampleBuild, ae_Find = (\<lambda>args. Inr (VersionCmd, tl args)), ae_reexec = False, ae_helpText = (\<lambda>_. []),
     ae_run = exampleRunEnv\<rparr>"

definition exampleVersionFlags :: "cmdVars flagSet" where
  "exampleVersionFlags = (case fs_Parse [''--tag''] (cmdFlags exampleParsers VersionCmd) of Inr f \<Rightarrow> f | Inl _ \<Rightarrow> NewFlagSet zeroVars)"

theorem version_command_prints_witness:
  "map_option (\<lambda>(status, p, w). (status, pr_stdout p, w)) (main exampleApp (exampleProc, 7)) = Some (0, ''v0'', 7)"
proof -
  have "case fs_Parse [''--tag''] (cmdFlags exampleParsers VersionCmd) of Inr _ \<Rightarrow> True | Inl _ \<Rightarrow> False" by code_simp
  then have "fs_Parse [''--tag''] (cmdFlags (ae_parsers exampleApp) VersionCmd) = Inr exampleVersionFlags"
    by (auto simp: exampleVersionFlags_def exampleApp_def split: sum.splits)
  moreover have "\<not> cv_help (fs_vars exampleVersionFlags)" by code_simp
  moreover have "ae_Find exampleApp (tl (op_Args (ae_os exampleApp))) = Inr (VersionCmd, [''--tag''])" "\<not> ae_reexec exampleApp"
    by (simp_all add: exampleApp_def)
  moreover have "versionText (ae_build exampleApp) (cv_opt (fs_vars exampleVersionFlags)) = ''v0''" by code_simp
  moreover have "pr_stdout exampleProc = []" by code_simp
  ultimately show ?thesis using version_command_prints [of exampleApp "[''--tag'']" exampleVersionFlags exampleProc 7] by simp
qed

text \<open>A configuration file that cannot be read is an error, and reading stops before anything changes, exactly
  when it was named on the command line; otherwise the defaults and flags are used, and any bytes that
  were read before the error are still decoded.\<close>

theorem unreadable_config_file:
  assumes "op_ReadFile env (cv_configFile (getVars p)) = (bytes, Some e)"
  shows "ReadConfig env cli p =
    (if fs_Changed (pr_flags p) ''config''
     then (Err (ErrWrap (''failed to read config file '' @ cv_configFile (getVars p)) e), p)
     else ReadConfig (env\<lparr>op_ReadFile := (\<lambda>_. (bytes, None))\<rparr>) cli p)"
proof -
  have "readConfigFile env p =
    (if fs_Changed (pr_flags p) ''config''
     then (Err (ErrWrap (''failed to read config file '' @ cv_configFile (getVars p)) e), p)
     else readConfigFile (env\<lparr>op_ReadFile := (\<lambda>_. (bytes, None))\<rparr>) p)"
    using assms by (simp add: readConfigFile_def unmarshalConfig_def expandEnv_def)
  moreover have "SetDefaultLogger (env\<lparr>op_ReadFile := r\<rparr>) = SetDefaultLogger env" for r
    by (rule ext) (simp add: SetDefaultLogger_def fun_eq_iff)
  ultimately show ?thesis by (simp add: ReadConfig_def andThen_def)
qed

theorem unreadable_config_file_witness:
  "op_ReadFile exampleProcess (cv_configFile (getVars exampleProc)) = ([], Some (ErrExt ''no such file''))
   \<and> \<not> fs_Changed (pr_flags exampleProc) ''config''
   \<and> ReadConfig exampleProcess zeroLog exampleProc
     = ReadConfig (exampleProcess\<lparr>op_ReadFile := (\<lambda>_. ([], None))\<rparr>) zeroLog exampleProc"
proof -
  have r: "op_ReadFile exampleProcess (cv_configFile (getVars exampleProc)) = ([], Some (ErrExt ''no such file''))"
    by (simp add: exampleProcess_def)
  moreover have "\<not> fs_Changed (pr_flags exampleProc) ''config''" by code_simp
  ultimately show ?thesis using unreadable_config_file [OF r, of zeroLog] by simp
qed

section \<open>The storage client of a configured program\<close>

text \<open>The type of the driver configuration decides which drivers accept it.\<close>

abbreviation driverCfgOf :: "config \<Rightarrow> driverCfg" where
  "driverCfgOf c \<equiv> dc_Config (cl_Driver (cf_Storage c))"

text \<open>A decoder that knows nothing of the types of the drivers: it leaves the field of type
  \<^verbatim>\<open>interface{}\<close> alone or stores a generic value in it.\<close>

definition genericDecoder :: "osProcess \<Rightarrow> bool" where
  "genericDecoder env \<longleftrightarrow> (\<forall>s c c'. op_Unmarshal env s c = Inr c' \<longrightarrow> driverCfgOf c' \<in> {driverCfgOf c, CfgOther})"

interpretation driver: flag_var "fs_formal (cmdFlags pa cmd)" "[]" "\<lambda>v. driverCfgOf (cv_config v)" for pa cmd
proof
  fix fl ch v c c'
  assume "fl \<in> set (fs_formal (cmdFlags pa cmd))"
  note fl = cmdFlags_cases [OF this]
  show "fl_Value_Set fl ch v c = Inr c' \<Longrightarrow> driverCfgOf (cv_config c') = driverCfgOf (cv_config c)"
    using fl by (auto simp: flag_lists flag_kinds split: sum.splits)
qed

lemma NewDriver_generic: "NewDriver name cfg = Inr d \<Longrightarrow> cfg \<in> {CfgNil, CfgOther} \<Longrightarrow> d = NopDriver"
  by (auto simp: NewDriver_def supportedDrivers_def Register_def gm_put_def nopBundle_def general_New_def sshfs_New_def
      split: option.splits if_splits)

lemma no_empty_flag_name: "[] \<notin> fl_Name ` set (fs_formal (cmdFlags pa cmd))"
proof -
  have "[] \<notin> set (map fl_Name (fs_formal (cmdFlags pa cmd)))"
    unfolding cmdFlags_formal
    by (simp only: map_append rootFlags_names versionFlags_names helpFlag_name list.map split: if_split) simp
  then show ?thesis by simp
qed

lemma cmdFlags_driverCfg: "driverCfgOf (cv_config (fs_vars (cmdFlags pa cmd))) = CfgNil"
  by (simp add: cmdFlags_def AddFlagSet_def NewFlagSet_def flag_lists flag_kinds zeroVars_def zeroConfig_def)

lemma ReadConfig_driverCfg:
  assumes dec: "genericDecoder env" and first: "fs_Parse args (cmdFlags pa RootCmd) = Inr (pr_flags p)"
    and args: "op_Args env = prog # args" and prog: "prog = [] \<or> hd prog \<noteq> CHR ''-''"
    and run: "ReadConfig env cli p = (Ok ctx, p')"
  shows "driverCfgOf (cx_Value ctx) \<in> {CfgNil, CfgOther}"
proof -
  from first args prog run obtain g f a where g: "fs_formal g = fs_formal (cmdFlags pa RootCmd)"
    and c: "\<exists>ls. cv_config (fs_vars g) = cf_App_update (ap_Log_update (\<lambda>_. ls)) (fileConfig env (getVars p))"
    and s: "setAll (givenFlags (fs_formal (cmdFlags pa RootCmd)) args) g = Inr f"
    and ctx: "cx_Value ctx = cv_config (fs_vars f)"
    and s0: "setAll (givenFlags (fs_formal (cmdFlags pa RootCmd)) args) ((cmdFlags pa RootCmd)\<lparr>fs_args := a\<rparr>)
        = Inr (pr_flags p)"
    by (rule ReadConfig_parses)
  have "driverCfgOf (cv_config (getVars p)) = CfgNil"
    using driver.untouched [OF s0 _ no_empty_flag_name] by (simp add: getVars_def cmdFlags_driverCfg)
  then have "driverCfgOf (fileConfig env (getVars p)) \<in> {CfgNil, CfgOther}"
    using dec unfolding genericDecoder_def fileConfig_def Let_def by (force split: sum.splits)
  with driver.untouched [OF s g no_empty_flag_name] c ctx show ?thesis by auto
qed

lemma NewClient_impl: "NewClient fo d t ps out err w = (Ok sc, w') \<Longrightarrow> sc_impl sc = d"
  by (auto simp: NewClient_def elim!: andThen_OkE dest!: deferErr_OkD)

text \<open>Whatever the configuration file, the environment and the command line are, as long as the decoder of
  the file does not know the types of the storage drivers, a program that starts has the driver that does
  nothing, whose mount command is empty: the drivers it was built with cannot be configured.\<close>

theorem configured_client_is_nop:
  assumes "genericDecoder env" and "fs_Parse args (cmdFlags pa RootCmd) = Inr (pr_flags p)"
    and "op_Args env = prog # args" and "prog = [] \<or> hd prog \<noteq> CHR ''-''"
    and "ReadConfig env cli p = (Ok ctx, p')" and "runSetup re (cx_Value ctx) w = (Ok (rt, sc), w')"
  shows "sc_impl sc = NopDriver \<and> GetMountCmd (sc_impl sc) rp mp = []"
proof -
  from assms(6) obtain w1 w2 where "CreateClient (re_files re) (cf_Storage (cx_Value ctx)) w1 = (Ok sc, w2)"
    by (auto simp: runSetup_def elim!: andThen_OkE split: if_splits)
  then obtain d where d: "NewDriver (dc_Driver (cl_Driver (cf_Storage (cx_Value ctx)))) (driverCfgOf (cx_Value ctx)) = Inr d"
    and "sc_impl sc = d"
    by (auto simp: CreateClient_def dest: NewClient_impl split: sum.splits)
  with NewDriver_generic [OF d ReadConfig_driverCfg [OF assms(1-5)]] show ?thesis by (simp add: GetMountCmd_def)
qed

definition exampleSetup :: "(libpodRuntime \<times> storageClient) \<times> nat" where
  "exampleSetup =
     (case runSetup exampleRunEnv (cx_Value (fst exampleRead)) 0 of
        (Ok r, w) \<Rightarrow> (r, w)
      | _ \<Rightarrow> ((exampleRuntime, \<lparr>sc_impl = exampleDriver, sc_successTimeWait = 0, sc_extraLookupPaths = [],
           sc_stdout = DefaultFile [], sc_stderr = DefaultFile []\<rparr>), 0))"

theorem configured_client_is_nop_witness:
  "sc_impl (snd (fst exampleSetup)) = NopDriver"
proof -
  have d: "genericDecoder exampleProcess" by (simp add: genericDecoder_def exampleProcess_def)
  have "case runSetup exampleRunEnv (cx_Value (fst exampleRead)) 0 of (Ok _, _) \<Rightarrow> True | _ \<Rightarrow> False" by code_simp
  then have r: "runSetup exampleRunEnv (cx_Value (fst exampleRead)) 0 =
      (Ok (fst (fst exampleSetup), snd (fst exampleSetup)), snd exampleSetup)"
    by (auto simp: exampleSetup_def split: prod.splits outcome.splits)
  from configured_client_is_nop [OF d exampleProc_parsed exampleProcess_args exampleRead_Ok r] show ?thesis by simp
qed

end
