(* ===== verification/Controller.thy ===== *)
theory Controller
  imports Prelude Steps
begin

text \<open>
  The connection to the hub: the loop of \<^verbatim>\<open>run\<close> (\<^verbatim>\<open>pkg/cmd/runtime-podman.go\<close>),
  \<^verbatim>\<open>ProcessNewStream\<close> (\<^verbatim>\<open>libext/client.go\<close>) and the controller (\<^verbatim>\<open>libext/controller.go\<close>,
  \<^verbatim>\<open>channel_bundle.go\<close>) as one state machine. The main goroutine asks the controller for a pair of
  channels, dials, and feeds the commands it receives into the command channel until the connection ends;
  the controller's goroutine takes the pairs one after the other and handles their commands. Channels have
  the capacities of the code: one command, one message, one pair. The contents of messages are not
  modelled.
\<close>

section \<open>State\<close>

record 'c channelBundle =
  cb_queue :: "'c list"
  cb_cmdClosed :: bool
  cb_closed :: bool

text \<open>Where the main goroutine is: at the head of its loop, in \<^verbatim>\<open>RefreshChannels\<close>, dialing for a pair of
  channels (or for nil channels), processing the stream of a pair, or returned.\<close>

datatype mainState = MHead | MRefresh | MDial nat | MDialNil | MStream nat | MReturned

datatype handlerState = HWait | HSession nat | HStopped

record 'c ctrlState =
  ct_ctxDone :: bool
  ct_bundles :: "'c channelBundle list"
  ct_chRefreshed :: "nat option"
  ct_currentCB :: "nat option"
  ct_main :: mainState
  ct_handler :: handlerState
  ct_sendMsg :: "nat option"
  ct_handled :: "(nat \<times> 'c) list"
  ct_panicked :: bool

definition initCtrl :: "'c ctrlState" where
  "initCtrl = \<lparr>ct_ctxDone = False, ct_bundles = [], ct_chRefreshed = None, ct_currentCB = None, ct_main = MHead,
     ct_handler = HWait, ct_sendMsg = None, ct_handled = [], ct_panicked = False\<rparr>"

definition newChannelBundle :: "'c channelBundle" where
  "newChannelBundle = \<lparr>cb_queue = [], cb_cmdClosed = False, cb_closed = False\<rparr>"

definition updBundle :: "nat \<Rightarrow> ('c channelBundle \<Rightarrow> 'c channelBundle) \<Rightarrow> 'c ctrlState \<Rightarrow> 'c ctrlState" where
  "updBundle n f st = st\<lparr>ct_bundles := (ct_bundles st)[n := f (ct_bundles st ! n)]\<rparr>"

text \<open>\<^verbatim>\<open>channelBundle.Close\<close>: the command channel is not closed by it.\<close>

definition bundle_Close :: "nat \<Rightarrow> 'c ctrlState \<Rightarrow> 'c ctrlState" where
  "bundle_Close n st = updBundle n (cb_closed_update (\<lambda>_. True)) st"

section \<open>Steps\<close>

text \<open>
  A failed dial (or a failed registration) returns from \<^verbatim>\<open>ProcessNewStream\<close> before the goroutine that
  closes the command channel exists; dialing for nil channels fails, since the context is done.
\<close>

text \<open>
  \<^verbatim>\<open>RefreshChannels\<close> when the new pair can be sent: the pair before it is closed. When the context is done it
  may return nil channels instead; while the buffer is full and the context is not done, it waits.
\<close>

definition RefreshChannels :: "'c ctrlState \<Rightarrow> 'c ctrlState option" where
  "RefreshChannels st =
     (if ct_main st = MRefresh \<and> ct_chRefreshed st = None then
        (let n = length (ct_bundles st);
             st = (case ct_currentCB st of Some m \<Rightarrow> bundle_Close m st | None \<Rightarrow> st) in
         Some (st\<lparr>ct_bundles := ct_bundles st @ [newChannelBundle], ct_chRefreshed := Some n, ct_currentCB := Some n,
                   ct_main := MDial n\<rparr>))
      else None)"

datatype 'c ctrlEvent =
    EvCtxDone | EvLoop | EvRefresh | EvRefreshNil | EvDialFail | EvDialNil | EvDialOk | EvReceive 'c | EvStreamEnd
  | EvTake | EvStopHandler | EvHandle | EvSessionEnd | EvSend | EvSendClosed

fun ctrlStep :: "'c ctrlEvent \<Rightarrow> 'c ctrlState \<Rightarrow> 'c ctrlState option" where
  "ctrlStep EvCtxDone st = Some (st\<lparr>ct_ctxDone := True\<rparr>)"
| "ctrlStep EvLoop st =
     (if ct_main st = MHead then Some (st\<lparr>ct_main := if ct_ctxDone st then MReturned else MRefresh\<rparr>) else None)"
| "ctrlStep EvRefresh st = RefreshChannels st"
| "ctrlStep EvRefreshNil st =
     (if ct_main st = MRefresh \<and> ct_ctxDone st then Some (st\<lparr>ct_main := MDialNil\<rparr>) else None)"
| "ctrlStep EvDialFail st =
     (case ct_main st of MDial _ \<Rightarrow> Some (st\<lparr>ct_main := MHead\<rparr>) | _ \<Rightarrow> None)"
| "ctrlStep EvDialNil st = (if ct_main st = MDialNil then Some (st\<lparr>ct_main := MHead\<rparr>) else None)"
| "ctrlStep EvDialOk st = (case ct_main st of MDial n \<Rightarrow> Some (st\<lparr>ct_main := MStream n\<rparr>) | _ \<Rightarrow> None)"
| "ctrlStep (EvReceive c) st =
     (case ct_main st of
        MStream n \<Rightarrow>
          if cb_queue (ct_bundles st ! n) = [] then Some (updBundle n (cb_queue_update (\<lambda>q. q @ [c])) st) else None
      | _ \<Rightarrow> None)"
| "ctrlStep EvStreamEnd st =
     (case ct_main st of
        MStream n \<Rightarrow> Some ((updBundle n (cb_cmdClosed_update (\<lambda>_. True)) st)\<lparr>ct_main := MHead\<rparr>)
      | _ \<Rightarrow> None)"
| "ctrlStep EvTake st =
     (case (ct_handler st, ct_chRefreshed st) of
        (HWait, Some n) \<Rightarrow> Some (st\<lparr>ct_handler := HSession n, ct_chRefreshed := None, ct_sendMsg := Some n\<rparr>)
      | _ \<Rightarrow> None)"
| "ctrlStep EvStopHandler st =
     (if ct_handler st = HWait \<and> ct_ctxDone st then Some (st\<lparr>ct_handler := HStopped\<rparr>) else None)"
| "ctrlStep EvHandle st =
     (case ct_handler st of
        HSession n \<Rightarrow>
          (case cb_queue (ct_bundles st ! n) of
             c # q \<Rightarrow> Some ((updBundle n (cb_queue_update (\<lambda>_. q)) st)\<lparr>ct_handled := ct_handled st @ [(n, c)]\<rparr>)
           | [] \<Rightarrow> None)
      | _ \<Rightarrow> None)"
| "ctrlStep EvSessionEnd st =
     (case ct_handler st of
        HSession n \<Rightarrow>
          if cb_queue (ct_bundles st ! n) = [] \<and> cb_cmdClosed (ct_bundles st ! n)
          then Some (st\<lparr>ct_handler := HWait\<rparr>) else None
      | _ \<Rightarrow> None)"
| "ctrlStep EvSend st = (case ct_sendMsg st of Some _ \<Rightarrow> Some st | None \<Rightarrow> None)"
| "ctrlStep EvSendClosed st =
     (case ct_sendMsg st of
        Some n \<Rightarrow> if cb_closed (ct_bundles st ! n) then Some (st\<lparr>ct_panicked := True\<rparr>) else None
      | None \<Rightarrow> None)"

abbreviation ctrlRun :: "'c ctrlEvent list \<Rightarrow> 'c ctrlState \<Rightarrow> 'c ctrlState option" where
  "ctrlRun \<equiv> runSteps ctrlStep"

abbreviation ctrlReaches :: "'c ctrlState \<Rightarrow> 'c ctrlState \<Rightarrow> bool" where
  "ctrlReaches \<equiv> stepReaches ctrlStep"

section \<open>A pair of channels that nobody closes\<close>

text \<open>Closing a pair changes neither the queue nor the state of any command channel.\<close>

definition sameCommands :: "'c channelBundle list \<Rightarrow> 'c channelBundle list \<Rightarrow> bool" where
  "sameCommands bs bs' \<longleftrightarrow> length bs' = length bs \<and>
     (\<forall>i<length bs. cb_queue (bs' ! i) = cb_queue (bs ! i) \<and> cb_cmdClosed (bs' ! i) = cb_cmdClosed (bs ! i))"

lemma RefreshChannels_cases:
  assumes "RefreshChannels st = Some st'"
  obtains bs where "ct_main st = MRefresh" "ct_chRefreshed st = None" "sameCommands (ct_bundles st) bs"
    "st' = st\<lparr>ct_bundles := bs @ [newChannelBundle], ct_chRefreshed := Some (length bs),
       ct_currentCB := Some (length bs), ct_main := MDial (length bs)\<rparr>"
proof -
  let ?st = "case ct_currentCB st of Some m \<Rightarrow> bundle_Close m st | None \<Rightarrow> st"
  have c: "sameCommands (ct_bundles st) (ct_bundles ?st)"
    by (auto simp: sameCommands_def bundle_Close_def updBundle_def nth_upd split: option.splits)
  from assms have m: "ct_main st = MRefresh" "ct_chRefreshed st = None"
    and "st' = ?st\<lparr>ct_bundles := ct_bundles ?st @ [newChannelBundle], ct_chRefreshed := Some (length (ct_bundles st)),
      ct_currentCB := Some (length (ct_bundles st)), ct_main := MDial (length (ct_bundles st))\<rparr>"
    by (auto simp: RefreshChannels_def Let_def split: if_splits)
  then have "st' = st\<lparr>ct_bundles := ct_bundles ?st @ [newChannelBundle], ct_chRefreshed := Some (length (ct_bundles ?st)),
      ct_currentCB := Some (length (ct_bundles ?st)), ct_main := MDial (length (ct_bundles ?st))\<rparr>"
    by (cases "ct_currentCB st") (simp_all add: bundle_Close_def updBundle_def)
  with m c show thesis by (rule that)
qed

text \<open>Where a pair is while the main goroutine dials or streams for it.\<close>

definition pairOk :: "'c ctrlState \<Rightarrow> bool" where
  "pairOk st \<longleftrightarrow> (\<forall>m. ct_handler st = HSession m \<or> ct_chRefreshed st = Some m \<longrightarrow> m < length (ct_bundles st)) \<and>
     (\<forall>n. ct_main st = MDial n \<or> ct_main st = MStream n \<longrightarrow>
     n < length (ct_bundles st) \<and> \<not> cb_cmdClosed (ct_bundles st ! n)
     \<and> (ct_chRefreshed st = Some n \<or> ct_handler st = HSession n)
     \<and> (ct_main st = MDial n \<longrightarrow> cb_queue (ct_bundles st ! n) = []))"

lemma pairOk_step:
  assumes "pairOk st" and "ctrlStep ev st = Some st'"
  shows "pairOk st'"
proof (cases ev)
  case EvRefresh
  with assms(2) have "RefreshChannels st = Some st'" by simp
  then show ?thesis
    by (rule RefreshChannels_cases)
       (use assms(1) in \<open>auto simp: pairOk_def newChannelBundle_def sameCommands_def less_SucI nth_append\<close>)
qed (use assms in \<open>auto simp: pairOk_def updBundle_def nth_upd split: if_splits mainState.splits handlerState.splits
      option.splits list.splits\<close>)

lemma pairOk_reaches: "ctrlReaches st st' \<Longrightarrow> pairOk st \<Longrightarrow> pairOk st'"
  by (induction rule: stepReaches.induct) (auto intro: pairOk_step)

lemma pairOk_init: "pairOk initCtrl"
  by (simp add: pairOk_def initCtrl_def)

text \<open>
  A pair whose dial failed: its command channel is open and empty, and the main goroutine is not at it. The
  handler has it, or it is next and nothing is dialed or streamed until the handler takes it. \<open>Q\<close> bounds
  what is handled: the commands handled so far and those waiting in the handler's current session.
\<close>

definition abandoned :: "(nat \<times> 'c) set \<Rightarrow> nat \<Rightarrow> 'c ctrlState \<Rightarrow> bool" where
  "abandoned Q n st \<longleftrightarrow> n < length (ct_bundles st) \<and> cb_queue (ct_bundles st ! n) = [] \<and> \<not> cb_cmdClosed (ct_bundles st ! n)
     \<and> ct_main st \<noteq> MDial n \<and> ct_main st \<noteq> MStream n \<and> set (ct_handled st) \<subseteq> Q
     \<and> (ct_handler st = HSession n
        \<or> ct_chRefreshed st = Some n \<and> (\<forall>m. ct_main st \<noteq> MDial m \<and> ct_main st \<noteq> MStream m)
          \<and> (\<forall>m. ct_handler st = HSession m \<longrightarrow> Pair m ` set (cb_queue (ct_bundles st ! m)) \<subseteq> Q))"

lemma abandoned_step:
  assumes "abandoned Q n st" and "ctrlStep ev st = Some st'"
  shows "abandoned Q n st'"
proof (cases ev)
  case EvRefresh
  with assms(2) have "RefreshChannels st = Some st'" by simp
  then show ?thesis
  proof (rule RefreshChannels_cases)
    fix bs
    assume "ct_chRefreshed st = None" "sameCommands (ct_bundles st) bs"
      and "st' = st\<lparr>ct_bundles := bs @ [newChannelBundle], ct_chRefreshed := Some (length bs),
       ct_currentCB := Some (length bs), ct_main := MDial (length bs)\<rparr>"
    then show ?thesis using assms(1) by (auto simp: abandoned_def sameCommands_def nth_append)
  qed
next
  case EvHandle
  then show ?thesis
    using assms
    by (auto simp: abandoned_def updBundle_def nth_upd image_subset_iff split: if_splits handlerState.splits list.splits)
next
  case EvTake
  then show ?thesis
    using assms by (auto simp: abandoned_def image_subset_iff split: handlerState.splits option.splits)
next
  case (EvReceive c)
  with assms(2) obtain m where m: "ct_main st = MStream m" "st' = updBundle m (cb_queue_update (\<lambda>q. q @ [c])) st"
    by (auto split: mainState.splits if_splits)
  with assms(1) show ?thesis by (auto simp: abandoned_def updBundle_def nth_upd image_subset_iff)
next
  case EvStreamEnd
  with assms(2) obtain m where m: "ct_main st = MStream m"
    "st' = (updBundle m (cb_cmdClosed_update (\<lambda>_. True)) st)\<lparr>ct_main := MHead\<rparr>"
    by (auto split: mainState.splits)
  with assms(1) show ?thesis by (auto simp: abandoned_def updBundle_def nth_upd image_subset_iff)
next
  case EvSessionEnd
  with assms(2) obtain m where m: "ct_handler st = HSession m" "st' = st\<lparr>ct_handler := HWait\<rparr>"
    "cb_cmdClosed (ct_bundles st ! m)"
    by (auto split: handlerState.splits if_splits)
  with assms(1) show ?thesis by (auto simp: abandoned_def image_subset_iff)
next
  case EvDialOk
  with assms(2) obtain m where m: "ct_main st = MDial m" "st' = st\<lparr>ct_main := MStream m\<rparr>"
    by (auto split: mainState.splits)
  with assms(1) show ?thesis by (auto simp: abandoned_def image_subset_iff)
next
  case EvDialFail
  with assms(2) obtain m where m: "ct_main st = MDial m" "st' = st\<lparr>ct_main := MHead\<rparr>"
    by (auto split: mainState.splits)
  with assms(1) show ?thesis by (auto simp: abandoned_def image_subset_iff)
next
  case EvStopHandler
  with assms show ?thesis by (auto simp: abandoned_def image_subset_iff split: if_splits)
next
  case EvLoop
  with assms show ?thesis by (auto simp: abandoned_def image_subset_iff split: if_splits)
next
  case EvSendClosed
  with assms show ?thesis by (auto simp: abandoned_def image_subset_iff split: option.splits if_splits)
next
  case EvSend
  with assms show ?thesis by (auto split: option.splits)
next
  case EvRefreshNil
  with assms show ?thesis by (auto simp: abandoned_def image_subset_iff split: if_splits)
next
  case EvDialNil
  with assms show ?thesis by (auto simp: abandoned_def image_subset_iff split: if_splits)
next
  case EvCtxDone
  with assms show ?thesis by (auto simp: abandoned_def image_subset_iff)
qed

lemma abandoned_reaches: "ctrlReaches st st' \<Longrightarrow> abandoned Q n st \<Longrightarrow> abandoned Q n st'"
  by (induction rule: stepReaches.induct) (auto intro: abandoned_step)

text \<open>C20: After one failed connection attempt the program never handles a command again: whatever happens
  later, with however many successful connections, the commands handled are those handled before and those
  that were already waiting then.\<close>

theorem failed_dial_stops_handling:
  assumes "ctrlReaches initCtrl st" and "ct_main st = MDial n" and "ctrlStep EvDialFail st = Some st1"
    and "ctrlReaches st1 st2"
  shows "set (ct_handled st2) \<subseteq> set (ct_handled st)
    \<union> (\<Union>m < length (ct_bundles st). Pair m ` set (cb_queue (ct_bundles st ! m)))"
  (is "_ \<subseteq> ?Q")
proof -
  have ok: "pairOk st" by (rule pairOk_reaches [OF assms(1) pairOk_init])
  then have "ct_handler st = HSession m \<Longrightarrow> Pair m ` set (cb_queue (ct_bundles st ! m)) \<subseteq> ?Q" for m
    by (force simp: pairOk_def)
  with ok have "abandoned ?Q n st1" using assms(2,3) unfolding pairOk_def abandoned_def by auto
  from abandoned_reaches [OF assms(4) this] show ?thesis by (simp add: abandoned_def)
qed

text \<open>Example: the first dial fails, the second connection delivers a command.\<close>

definition failEvents :: "string ctrlEvent list" where
  "failEvents = [EvLoop, EvRefresh, EvTake]"

definition laterEvents :: "string ctrlEvent list" where
  "laterEvents = [EvLoop, EvRefresh, EvDialOk, EvReceive ''PodList'']"

definition ctrlAfter :: "string ctrlEvent list \<Rightarrow> string ctrlState" where
  "ctrlAfter evs = (case ctrlRun evs initCtrl of Some st \<Rightarrow> st | None \<Rightarrow> initCtrl)"

lemma ctrlAfter_run: "ctrlRun evs initCtrl \<noteq> None \<Longrightarrow> ctrlRun evs initCtrl = Some (ctrlAfter evs)"
  by (auto simp: ctrlAfter_def)

theorem failed_dial_stops_handling_witness:
  "ct_main (ctrlAfter (failEvents @ [EvDialFail] @ laterEvents)) = MStream 1
   \<and> cb_queue (ct_bundles (ctrlAfter (failEvents @ [EvDialFail] @ laterEvents)) ! 1) = [''PodList'']
   \<and> set (ct_handled (ctrlAfter (failEvents @ [EvDialFail] @ laterEvents))) = {}"
proof -
  let ?st = "ctrlAfter failEvents" and ?st1 = "ctrlAfter (failEvents @ [EvDialFail])"
    and ?st2 = "ctrlAfter (failEvents @ [EvDialFail] @ laterEvents)"
  have "ctrlRun failEvents initCtrl \<noteq> None" "ctrlRun (failEvents @ [EvDialFail]) initCtrl \<noteq> None"
    "ctrlRun (failEvents @ [EvDialFail] @ laterEvents) initCtrl \<noteq> None" by code_simp+
  then have r: "ctrlRun failEvents initCtrl = Some ?st" "ctrlRun (failEvents @ [EvDialFail]) initCtrl = Some ?st1"
    "ctrlRun ((failEvents @ [EvDialFail]) @ laterEvents) initCtrl = Some ?st2" using ctrlAfter_run by fastforce+
  have s: "ctrlStep EvDialFail ?st = Some ?st1"
    using r(2) unfolding runSteps_append r(1) by (simp split: option.splits)
  have l: "ctrlRun laterEvents ?st1 = Some ?st2" using r(3) unfolding runSteps_append [of ctrlStep "failEvents @ [EvDialFail]"] r(2) by simp
  have "ct_main ?st = MDial 0" "ct_handled ?st = []" "map cb_queue (ct_bundles ?st) = [[]]" by code_simp+
  then have "(\<Union>m < length (ct_bundles ?st). Pair m ` set (cb_queue (ct_bundles ?st ! m))) = {}"
    by (auto simp: map_eq_Cons_conv)
  with failed_dial_stops_handling [OF runSteps_reaches [OF r(1)] \<open>ct_main ?st = MDial 0\<close> s runSteps_reaches [OF l]]
    \<open>ct_handled ?st = []\<close>
  have "set (ct_handled ?st2) = {}" by simp
  moreover have "ct_main ?st2 = MStream 1" "cb_queue (ct_bundles ?st2 ! 1) = [''PodList'']" by code_simp+
  ultimately show ?thesis by simp
qed

text \<open>A command is handled, the connection is lost, and the main goroutine asks for a new pair.\<close>

definition lateEvents :: "string ctrlEvent list" where
  "lateEvents = [EvLoop, EvRefresh, EvTake, EvDialOk, EvReceive ''PodEnsure'', EvHandle, EvStreamEnd, EvLoop, EvRefresh,
     EvSendClosed]"

text \<open>A result that is sent after the connection was replaced, but before the handler has taken the new
  pair of channels, may be sent on a closed channel: a state in which the program has panicked is
  reachable by one dropped connection.\<close>

theorem late_result_may_panic:
  "\<exists>st :: string ctrlState. ctrlReaches initCtrl st \<and> ct_panicked st"
proof -
  have "case ctrlRun lateEvents initCtrl of Some st \<Rightarrow> ct_panicked st | None \<Rightarrow> False" by code_simp
  then show ?thesis by (auto intro: runSteps_reaches split: option.splits)
qed

section \<open>Without failed dials\<close>

text \<open>Every pair the handler has or will get is the one being dialed or streamed, or its commands end.\<close>

definition closedOk :: "'c ctrlState \<Rightarrow> bool" where
  "closedOk st \<longleftrightarrow> (\<forall>m. ct_handler st = HSession m \<or> ct_chRefreshed st = Some m \<longrightarrow>
     ct_main st = MDial m \<or> ct_main st = MStream m \<or> cb_cmdClosed (ct_bundles st ! m))"

lemma closedOk_step:
  assumes "pairOk st" and "closedOk st" and "ctrlStep ev st = Some st'" and "ev \<noteq> EvDialFail"
  shows "closedOk st'"
proof (cases ev)
  case EvRefresh
  with assms(3) have "RefreshChannels st = Some st'" by simp
  then show ?thesis
    by (rule RefreshChannels_cases)
       (use assms(1,2) in \<open>auto simp: pairOk_def closedOk_def sameCommands_def nth_append\<close>)
next
  case EvTake
  with assms show ?thesis by (auto simp: closedOk_def split: handlerState.splits option.splits)
next
  case (EvReceive c)
  with assms show ?thesis by (auto simp: closedOk_def updBundle_def nth_upd split: mainState.splits if_splits)
next
  case EvStreamEnd
  with assms show ?thesis
    by (auto simp: pairOk_def closedOk_def updBundle_def nth_upd split: mainState.splits if_splits)
next
  case EvHandle
  with assms show ?thesis
    by (auto simp: closedOk_def updBundle_def nth_upd split: handlerState.splits list.splits if_splits)
qed (use assms in \<open>auto simp: closedOk_def split: if_splits mainState.splits handlerState.splits option.splits\<close>)

lemma closedOk_run:
  "ctrlRun evs st = Some st' \<Longrightarrow> EvDialFail \<notin> set evs \<Longrightarrow> pairOk st \<Longrightarrow> closedOk st \<Longrightarrow> pairOk st' \<and> closedOk st'"
proof (induction evs arbitrary: st)
  case (Cons ev evs)
  then obtain st1 where "ctrlStep ev st = Some st1" "ctrlRun evs st1 = Some st'" by (auto split: option.splits)
  with Cons pairOk_step [of st ev st1] closedOk_step [of st ev st1] show ?case by auto
qed simp

text \<open>The handler works off what is queued in its session.\<close>

lemma drain:
  "ct_handler st = HSession n \<Longrightarrow> n < length (ct_bundles st) \<Longrightarrow> q = cb_queue (ct_bundles st ! n) \<Longrightarrow>
   \<exists>st'. ctrlRun (replicate (length q) EvHandle) st = Some st' \<and> cb_queue (ct_bundles st' ! n) = []
     \<and> ct_handled st' = ct_handled st @ map (Pair n) q \<and> ct_handler st' = HSession n
     \<and> ct_chRefreshed st' = ct_chRefreshed st \<and> length (ct_bundles st') = length (ct_bundles st)
     \<and> cb_cmdClosed (ct_bundles st' ! n) = cb_cmdClosed (ct_bundles st ! n)
     \<and> (\<forall>m. m \<noteq> n \<longrightarrow> ct_bundles st' ! m = ct_bundles st ! m)"
proof (induction q arbitrary: st)
  case Nil
  then show ?case by (intro exI [of _ st]) simp
next
  case (Cons c q)
  let ?st = "(updBundle n (cb_queue_update (\<lambda>_. q)) st)\<lparr>ct_handled := ct_handled st @ [(n, c)]\<rparr>"
  have step: "ctrlStep EvHandle st = Some ?st" using Cons.prems(1) Cons.prems(3) [symmetric] by simp
  have "ct_handler ?st = HSession n" "n < length (ct_bundles ?st)" "q = cb_queue (ct_bundles ?st ! n)"
    using Cons.prems by (simp_all add: updBundle_def)
  from Cons.IH [OF this] obtain st' where "ctrlRun (replicate (length q) EvHandle) ?st = Some st'"
    "cb_queue (ct_bundles st' ! n) = []" "ct_handled st' = ct_handled ?st @ map (Pair n) q" "ct_handler st' = HSession n"
    "ct_chRefreshed st' = ct_chRefreshed ?st" "length (ct_bundles st') = length (ct_bundles ?st)"
    "cb_cmdClosed (ct_bundles st' ! n) = cb_cmdClosed (ct_bundles ?st ! n)"
    "\<forall>m. m \<noteq> n \<longrightarrow> ct_bundles st' ! m = ct_bundles ?st ! m" by blast
  with step Cons.prems(2) show ?case by (intro exI [of _ st']) (simp add: updBundle_def nth_upd)
qed

lemma handle_session:
  assumes "ct_handler st = HSession n" and "n < length (ct_bundles st)"
  shows "\<exists>evs st'. ctrlRun evs st = Some st' \<and> set evs \<subseteq> {EvTake, EvHandle, EvSessionEnd}
    \<and> set (ct_handled st) \<union> Pair n ` set (cb_queue (ct_bundles st ! n)) \<subseteq> set (ct_handled st')"
proof -
  let ?evs = "replicate (length (cb_queue (ct_bundles st ! n))) EvHandle"
  obtain st' where "ctrlRun ?evs st = Some st'"
    "ct_handled st' = ct_handled st @ map (Pair n) (cb_queue (ct_bundles st ! n))"
    using drain [OF assms refl] by blast
  then show ?thesis by (intro exI [of _ ?evs] exI [of _ st']) auto
qed

lemma handle_next:
  assumes "ct_handler st = HWait" and "ct_chRefreshed st = Some n" and "n < length (ct_bundles st)"
  shows "\<exists>evs st'. ctrlRun evs st = Some st' \<and> set evs \<subseteq> {EvTake, EvHandle, EvSessionEnd}
    \<and> set (ct_handled st) \<union> Pair n ` set (cb_queue (ct_bundles st ! n)) \<subseteq> set (ct_handled st')"
proof -
  let ?st = "st\<lparr>ct_handler := HSession n, ct_chRefreshed := None, ct_sendMsg := Some n\<rparr>"
  have "ctrlStep EvTake st = Some ?st" using assms by simp
  moreover obtain evs st' where "ctrlRun evs ?st = Some st'" "set evs \<subseteq> {EvTake, EvHandle, EvSessionEnd}"
    "set (ct_handled st) \<union> Pair n ` set (cb_queue (ct_bundles st ! n)) \<subseteq> set (ct_handled st')"
    using handle_session [of ?st n] assms(3) by auto
  ultimately show ?thesis by (intro exI [of _ "EvTake # evs"] exI [of _ st']) simp
qed

text \<open>As long as no connection attempt has failed and the context is not done, every command that has been
  received can be handled by steps of the controller alone: it finishes the sessions of earlier
  connections and gets to the current one.\<close>

theorem received_commands_can_be_handled:
  assumes "ctrlRun evs initCtrl = Some st" and "EvDialFail \<notin> set evs" and "ct_main st = MStream n"
    and "ct_handler st \<noteq> HStopped" and "c \<in> set (cb_queue (ct_bundles st ! n))"
  shows "\<exists>evs' st'. ctrlRun evs' st = Some st' \<and> set evs' \<subseteq> {EvTake, EvHandle, EvSessionEnd} \<and> (n, c) \<in> set (ct_handled st')"
proof -
  have inv: "pairOk st" "closedOk st"
    using closedOk_run [OF assms(1,2) pairOk_init] by (simp_all add: closedOk_def initCtrl_def)
  have n: "n < length (ct_bundles st)" "ct_chRefreshed st = Some n \<or> ct_handler st = HSession n"
    using inv(1) assms(3) by (auto simp: pairOk_def)
  have "\<exists>evs st'. ctrlRun evs st = Some st' \<and> set evs \<subseteq> {EvTake, EvHandle, EvSessionEnd}
    \<and> Pair n ` set (cb_queue (ct_bundles st ! n)) \<subseteq> set (ct_handled st')"
  proof (cases "ct_handler st")
    case HWait
    with handle_next [OF HWait _ n(1)] n(2) show ?thesis by auto
  next
    case (HSession m)
    show ?thesis
    proof (cases "m = n")
      case True
      with handle_session [of st n] HSession n(1) show ?thesis by auto
    next
      case False
      have m: "m < length (ct_bundles st)" using inv(1) HSession by (auto simp: pairOk_def)
      have closed: "cb_cmdClosed (ct_bundles st ! m)" using inv(2) HSession False assms(3) by (auto simp: closedOk_def)
      from drain [OF HSession m refl] obtain st1 where
        1: "ctrlRun (replicate (length (cb_queue (ct_bundles st ! m))) EvHandle) st = Some st1"
          "cb_queue (ct_bundles st1 ! m) = []" "ct_handler st1 = HSession m" "ct_chRefreshed st1 = ct_chRefreshed st"
          "length (ct_bundles st1) = length (ct_bundles st)" "cb_cmdClosed (ct_bundles st1 ! m)"
          "ct_bundles st1 ! n = ct_bundles st ! n" using closed False by auto
      let ?st2 = "st1\<lparr>ct_handler := HWait\<rparr>"
      have 2: "ctrlStep EvSessionEnd st1 = Some ?st2" using 1 by simp
      obtain evs st' where 3: "ctrlRun evs ?st2 = Some st'" "set evs \<subseteq> {EvTake, EvHandle, EvSessionEnd}"
        "Pair n ` set (cb_queue (ct_bundles st ! n)) \<subseteq> set (ct_handled st')"
        using handle_next [of ?st2 n] 1 n False HSession by auto
      show ?thesis
        using 1(1) 2 3
        by (intro exI [of _ "replicate (length (cb_queue (ct_bundles st ! m))) EvHandle @ EvSessionEnd # evs"] exI [of _ st'])
           (auto simp: runSteps_append)
    qed
  qed (use assms(4) in simp)
  with assms(5) show ?thesis by blast
qed

text \<open>Example: a command of the second connection, while the handler is still in the session of the first.\<close>

definition goodEvents :: "string ctrlEvent list" where
  "goodEvents = [EvLoop, EvRefresh, EvTake, EvDialOk, EvReceive ''a'', EvStreamEnd, EvLoop, EvRefresh, EvDialOk, EvReceive ''b'']"

theorem received_commands_can_be_handled_witness:
  "\<exists>evs' st'. ctrlRun evs' (ctrlAfter goodEvents) = Some st' \<and> (1, ''b'') \<in> set (ct_handled st')"
proof -
  have "ctrlRun goodEvents initCtrl \<noteq> None" by code_simp
  moreover have "EvDialFail \<notin> set goodEvents" by (simp add: goodEvents_def)
  moreover have "ct_main (ctrlAfter goodEvents) = MStream 1" "ct_handler (ctrlAfter goodEvents) = HSession 0"
    "cb_queue (ct_bundles (ctrlAfter goodEvents) ! 1) = [''b'']" by code_simp+
  ultimately show ?thesis
    using received_commands_can_be_handled [of goodEvents "ctrlAfter goodEvents" 1 "''b''"] ctrlAfter_run by fastforce
qed

end
