(* ===== verification/Spec2Isabelle.thy ===== *)
theory Spec2Isabelle
  imports Wire Uploads TimeoutReader Forward RemoveAll App Controller
begin

text \<open>
  A verification library for runtime-podman, the arhat.dev runtime extension that runs pods
  with libpod.

  The program. A hub (arhat) sends commands over a stream; the extension handler of
  \<^verbatim>\<open>arhat.dev/libext\<close> calls the runtime object of \<^verbatim>\<open>src/pkg/runtime\<close>, which drives libpod: a pod is
  a libpod pod with one infrastructure (pause) container and the work containers of the command,
  all of them marked with labels, and labels are the only way the runtime finds them again. Pod
  networks are set up by running a command inside a special container (abbot); remote volumes are
  mounted by the storage client of \<^verbatim>\<open>ext.arhat.dev/runtimeutil/storageutil\<close>; pod data lives in a
  directory per pod.

  How it is modelled. A Go function that may fail, panic or change the outside world is an action
  \<open>('w, 'a) act\<close>, a function from a world to an outcome (\<open>Ok\<close>, \<open>Err\<close>, \<open>Panic\<close>) and the next
  world (theory \<open>Prelude\<close>); errors are values with the wrapping of \<^verbatim>\<open>fmt.Errorf\<close>; deferred functions,
  ignored errors and early returns are combinators. Everything outside the repository (libpod, the
  image library, the operating system, the storage client as the runtime sees it) is the record
  \<open>'w engine\<close> of operations, an argument of every definition that uses it. What is relied on is the
  locale \<open>libpod_api\<close> (which containers and pods are registered, and what listing, creating and
  removing do to that) with its extension \<open>libpod_unique_names\<close>. The theory \<open>Store\<close> gives a concrete
  engine with podman's bookkeeping, in which calls chosen by name fail, and interprets both locales
  on it, so every theorem stated under the contract has a concrete instance, evaluated in its witness.

  The theories and the code.
  \<^item> \<open>Prelude\<close>: errors, actions, world relations kept by actions (locale \<open>world_rel\<close>), Go maps (locale
    \<open>finite_map\<close>). \<open>Steps\<close>: runs and reachable states of a state machine. \<open>GoStd\<close>: the parts of \<^verbatim>\<open>strings\<close>, \<^verbatim>\<open>strconv\<close>,
    \<^verbatim>\<open>fmt\<close> and \<^verbatim>\<open>path/filepath\<close> in use. \<open>Protos\<close>: the messages of \<^verbatim>\<open>aranyagopb/runtimepb\<close>.
  \<^item> \<open>Labels\<close>: \<^verbatim>\<open>containerutil/{constant,labels,names,image}.go\<close> and \<^verbatim>\<open>pkg/runtime/util.go\<close>. Shown: a
    container is found exactly by the UID and name it was created with, whatever labels the user gave.
  \<^item> \<open>BaseRuntime\<close>: \<^verbatim>\<open>containerutil/base_runtime.go\<close>. Shown: where the directories of a pod lie, and that
    they do not collide.
  \<^item> \<open>Network\<close>: \<^verbatim>\<open>networkutil/client.go\<close>. \<open>Engine\<close>: the interface above and the runtime object.
  \<^item> \<open>Volumes\<close>: \<^verbatim>\<open>storageutil/volume.go\<close> and \<^verbatim>\<open>ContainerMountSpec.Ensure\<close>. Shown: what a successful clean
    up means, and that it is tried once only without remote volumes. \<open>RemoveAll\<close>: \<^verbatim>\<open>storageutil/remove.go\<close> on file trees
    with devices: nothing below a mount point is removed, and an error is reported exactly when
    something is left.
  \<^item> \<open>Containers\<close>, \<open>Create\<close>: \<^verbatim>\<open>pkg/runtime/container.go\<close> (with \<^verbatim>\<open>handleAbbotExec\<close> and \<^verbatim>\<open>doHookAction\<close>): lookups,
    exec, deletion, creation. Shown: exact effect of deletion, protection of abbot, created containers
    are found, mount sources stay in the pod's directories, and the branches where the code does
    something else than its comments say.
  \<^item> \<open>Status\<close>, \<open>PodOps\<close>: \<^verbatim>\<open>translate.go\<close> and \<^verbatim>\<open>pod.go\<close>; \<open>Runtime\<close>: \<^verbatim>\<open>runtime.go\<close> and \<^verbatim>\<open>pkg/conf/runtime.go\<close>; \<open>Images\<close>:
    \<^verbatim>\<open>image.go\<close>; \<open>Actions\<close>: \<^verbatim>\<open>action.go\<close>, with the reading of logs of \<open>Logs\<close>.
  \<^item> \<open>Drivers\<close>, \<open>TimeoutQueue\<close>, \<open>StorageClient\<close>: the storage drivers, \<^verbatim>\<open>pkg/queue/timeout_queue.go\<close> and
    \<^verbatim>\<open>storageutil/client.go\<close>. The queue refines a finite map whatever correct algorithm sorts it (locale \<open>sort_algorithm\<close>); the
    client is a state machine of mount processes, timers and callers. Shown: its table is sound, a mount
    always returns, the callback for a lost mount comes only after success, and what the driver that does
    nothing does to the client.
  \<^item> \<open>Flags\<close>, \<open>Conf\<close>, \<open>App\<close>: the flag library in the parts used, \<^verbatim>\<open>pkg/conf\<close>, \<^verbatim>\<open>pkg/version\<close>, \<^verbatim>\<open>pkg/cmd\<close> and \<^verbatim>\<open>main\<close>. Shown: flags override the
    configuration file, the version command prints what its flags ask for, the main loop ends exactly when the
    context ends.
  \<^item> \<open>Controller\<close>: the connection to the hub (\<^verbatim>\<open>libext/{client,controller,channel_bundle}.go\<close>) as a state machine of the main loop
    and the command loop. Shown: received commands can be handled as long as no dial fails, and a failed
    dial stops the command loop.
  \<^item> \<open>SeqQueue\<close>, \<open>Streams\<close>: \<^verbatim>\<open>pkg/queue/seq_queue.go\<close> and \<^verbatim>\<open>libext/extutil/streaming.go\<close>: the input of running commands. The manager
    is a state machine of concurrent calls that relies on the queue through the locale \<open>chunk_queue\<close>. Shown: input arrives in
    order, calls return while no input is closed, and closing one stops the manager.
  \<^item> \<open>Logs\<close>: \<^verbatim>\<open>runtimeutil/actionutil/logs.go\<close>. Shown: the search in blocks finds exactly the last lines, reading and following
    a file shows its lines one by one, the limit of bytes holds, a line in the CRI format is read back.
  \<^item> \<open>Varint\<close>, \<open>Messages\<close>, \<open>Payloads\<close>, \<open>ImageCmds\<close>: the generated protobuf code, of all messages (numbers, fields, unknown fields, messages inside, maps), of
    the flat messages (\<^verbatim>\<open>Packet\<close>, \<^verbatim>\<open>RuntimeInfo\<close>, \<^verbatim>\<open>ErrorMsg\<close>, \<^verbatim>\<open>TerminalResizeCmd\<close>, the \<^verbatim>\<open>Cmd\<close> and \<^verbatim>\<open>Msg\<close> of the hub), each an instance of the
    locale \<open>wire_message\<close>, and of the answers about pods and images and the commands of lists, sessions and images, instances of \<open>encoded_message\<close>, of
    which the former is a sublocale. Shown: marshalling fills its buffer exactly, messages are read back, unknown fields are ignored, reading
    never panics but inside the entries of a map.
  \<^item> \<open>Handler\<close>: \<^verbatim>\<open>libext/extruntime\<close>: dispatch of commands to the runtime engine, of which the libpod runtime is the
    instance, and the answers (locale \<open>answering\<close> for the commands with one answer). \<open>Wire\<close>: the
    handler with the generated encoding; a command and its answer survive the wire, but for the answer about images, which cannot be
    marshalled. \<open>Uploads\<close>: the goroutines that upload the output of a command, as a state machine that refines the sequential upload.
    \<open>TimeoutReader\<close>: \<^verbatim>\<open>pkg/iohelper/timeout_reader.go\<close>, with which they read it; what is uploaded is a prefix of the output, and
    its end may be lost. \<open>Forward\<close>: \<^verbatim>\<open>pkg/nethelper\<close> and the life of a forwarded connection: input arrives in order, and
    the session neither ends by itself nor closes its connection.
  \<^item> This theory: the life of a pod through \<^verbatim>\<open>EnsurePod\<close>, \<^verbatim>\<open>DeletePod\<close> and \<^verbatim>\<open>ListPods\<close>, and a pod command from the hub to libpod.

  Bounds. There is no fuel: loops are recursions over lists or functions with a termination proof (the loops over the
  bytes of a log or a message), with the five rounds of the source in the retry
  loop of \<^verbatim>\<open>CleanupPodData\<close>; the main loop, which may run forever, is a partial function whose value
  \<^term>\<open>None\<close> means that it does not return. Terminal sizes, file modes, times of the timeout queue, sequence
  numbers and the numbers in messages are words of the width of the source.

  Not modelled. Logging, and time but for the expiry of timers as an event. The exec goroutine of the runtime and the goroutines
  of the handler are run to their end, and the environment says which branch of a \<^verbatim>\<open>select\<close> on the context
  is taken; where the interleaving matters (storage client, controller, stream manager, uploads, timeout reader, port forwarding) it is modelled step by step.
  The decoding of the commands \<^verbatim>\<open>PodEnsureCmd\<close> and \<^verbatim>\<open>PodDeleteCmd\<close>, of which the model keeps the fields the runtime reads, the YAML and JSON
  decoders, TLS, sockets and listening on networks are arguments, operations of the environment, or left out.
\<close>

section \<open>Example runs\<close>

text \<open>The example pod created on an empty engine: its status message and the world after it.\<close>

definition ensuredExample :: "podStatusMsg \<times> store" where
  "ensuredExample =
     (case EnsurePod goodEngine exampleRuntime exampleCmd (withCtrs [] []) of
        (Ok m, w) \<Rightarrow> (m, w) | (_, w) \<Rightarrow> (NewPodStatusMsg [] [] [], w))"

lemma ensuredExample_run:
  "EnsurePod goodEngine exampleRuntime exampleCmd (withCtrs [] []) = (Ok (fst ensuredExample), snd ensuredExample)"
  by code_simp

section \<open>Life of a pod: EnsurePod\<close>

text \<open>C1: what a successful \<^verbatim>\<open>EnsurePod\<close> guarantees: the status message carries the pod's UID and reports
  exactly the named containers of the command, libpod has a pod that the UID lookup accepts, and for every container of
  the command libpod has a container in that pod with the labels of the pod and of the container.\<close>

theorem ensure_pod_success:
  assumes "libpod_api lp ctrs pods" and "gm_wf (pe_Labels options)" and "EnsurePod lp r options w = (Ok m, w')"
  shows "ps_Uid m = pe_PodUid options
    \<and> dom (map_of (ps_Containers m)) = cs_Name ` set (pe_Containers options) - {[]}
    \<and> (\<exists>p\<in>pods w'. filterLabels [(ContainerLabelPodUID, pe_PodUid options)] (pod_Labels p)
        \<and> (\<forall>s\<in>set (pe_Containers options). \<exists>c\<in>ctrs w'. ctr_Pod c = pod_ID p
              \<and> ctr_Labels c = ContainerLabels options (cs_Name s)))"
  by (rule libpod_api.EnsurePod_Ok [OF assms(1,3,2)])

text \<open>Witness: the example pod.\<close>

theorem ensure_pod_success_witness:
  "ps_Uid (fst ensuredExample) = ''u1'' \<and> dom (map_of (ps_Containers (fst ensuredExample))) = {''web''}"
  using ensure_pod_success [OF sto.libpod_api_axioms example_labels_wf ensuredExample_run]
  by (simp add: exampleCmd_def exampleSpec_def)

text \<open>C5: The pod command of the hub reaches the runtime: \<^verbatim>\<open>CMD_POD_ENSURE\<close> runs \<^verbatim>\<open>EnsurePod\<close> of the libpod runtime on the decoded command,
  changes the world as it does, and sends its status as a packet, or its error.\<close>

theorem pod_ensure_command:
  assumes "wi_Packet (he_wire env) bytes = Ok (CMD_POD_ENSURE, p)" and "wi_PodEnsureCmd (he_wire env) p = Ok cmd"
    and "he_impl env = libpodEngine lp r errs" and "EnsurePod lp r cmd (hw_w hw) = (res, w')" and "\<And>s. res \<noteq> Panic s"
    and "hw_sendFunc hw = Some f"
    and "\<And>m. wi_encPodStatus (he_wire env) m = Ok (encStatus m)" and "\<And>k d. wi_encPacket (he_wire env) k d = Inr (encPacket k d)"
  shows "\<exists>g. HandleCmd env sid seq CMD_RUNTIME_ARANYA_PROTO (Some bytes) hw = (Ok (Some g), hw)
    \<and> g hw = (Ok (), hw\<lparr>hw_w := w', hw_sent := hw_sent hw @
        [\<lparr>m_Kind = MSG_RUNTIME_ARANYA_PROTO, m_Id = sid, m_Ack = seq,
          m_Payload = (case res of Ok m \<Rightarrow> Some (encPacket MSG_POD_STATUS (encStatus m))
                       | Err e \<Rightarrow> errorPayload (he_wire env) (err_Error e, 0) | Panic _ \<Rightarrow> None)\<rparr>]\<rparr>)"
  by (rule podEnsure_answer [OF assms])

theorem pod_ensure_command_witness:
  "\<exists>g hw'. HandleCmd exampleEnv 5 9 CMD_RUNTIME_ARANYA_PROTO (Some [CHR 0x20]) exampleHw = (Ok (Some g), exampleHw)
    \<and> g exampleHw = (Ok (), hw') \<and> hw_w hw' = snd ensuredExample
    \<and> hw_sent hw' = [\<lparr>m_Kind = MSG_RUNTIME_ARANYA_PROTO, m_Id = 5, m_Ack = 9,
        m_Payload = Some (CHR 0x29 # ps_Uid (fst ensuredExample))\<rparr>]"
proof -
  have p: "wi_Packet (he_wire exampleEnv) [CHR 0x20] = Ok (CMD_POD_ENSURE, [])" by code_simp
  have d: "wi_PodEnsureCmd (he_wire exampleEnv) [] = Ok exampleCmd" by (simp add: exampleEnv_wire exampleWire_def)
  have i: "he_impl exampleEnv = libpodEngine goodEngine exampleRuntime (\<lambda>_. [])" by (simp add: exampleEnv_def)
  have r: "EnsurePod goodEngine exampleRuntime exampleCmd (hw_w exampleHw) = (Ok (fst ensuredExample), snd ensuredExample)"
    by (simp add: exampleHw_def ensuredExample_run)
  have e: "wi_encPodStatus (he_wire exampleEnv) m = Ok (ps_Uid m)"
    "wi_encPacket (he_wire exampleEnv) k b = Inr (char_of (nat k) # b)" for m k b
    by (simp_all add: exampleEnv_wire exampleWire_def)
  have "char_of (nat MSG_POD_STATUS) = CHR 0x29" by code_simp
  with pod_ensure_command [OF p d i r _ exampleHw_send(1) e, of 5 9] show ?thesis
    by (force simp: exampleHw_send)
qed


text \<open>Witness: the container of the example pod cannot be started.\<close>

abbreviation startFails :: "store engine" where
  "startFails \<equiv> store_engine [''Start:ns.pod.web'']"

definition failingSandbox :: "(pod \<times> ctr \<times> string) \<times> store" where
  "failingSandbox =
     (case ensureSandbox startFails exampleRuntime exampleCmd (withCtrs [] []) of
        (Ok x, w) \<Rightarrow> (x, w) | (_, w) \<Rightarrow> ((examplePod, examplePause, []), w))"


text \<open>\<^verbatim>\<open>EnsurePod\<close> is not idempotent: for a pod that exists already, when one of the command's containers is
  registered under its name, the call never succeeds (libpod refuses a container name that is taken).\<close>

theorem ensure_pod_not_idempotent:
  assumes "libpod_unique_names lp ctrs pods" and "findPod lp (pe_PodUid options) w = (Ok p, w1)"
    and "s \<in> set (pe_Containers options)" and "d \<in> ctrs w"
    and "ctr_Name d = GetContainerName (pe_Namespace options) (pe_Name options) (cs_Name s)"
  shows "fst (EnsurePod lp r options w) \<noteq> Ok m"
  using libpod_unique_names.EnsurePod_name_taken [OF assms] by (metis prod.collapse)

text \<open>Witness: asking for the example pod a second time fails, and the running pod is gone afterwards.\<close>

theorem ensure_pod_not_idempotent_witness:
  "(\<nexists>m. fst (EnsurePod goodEngine exampleRuntime exampleCmd (snd ensuredExample)) = Ok m)
   \<and> sto_pods (snd (EnsurePod goodEngine exampleRuntime exampleCmd (snd ensuredExample))) = []"
proof -
  let ?w = "snd ensuredExample"
  let ?p = "hd (sto_pods ?w)" and ?d = "ci_ctr (sto_ctrs ?w ! 1)"
  have "findPod goodEngine (pe_PodUid exampleCmd) ?w = (Ok ?p, ?w)" by code_simp
  moreover have "exampleSpec \<in> set (pe_Containers exampleCmd)" by (simp add: exampleCmd_def)
  moreover have "?d \<in> sto_ctr_set ?w" by code_simp
  moreover have "ctr_Name ?d = GetContainerName (pe_Namespace exampleCmd) (pe_Name exampleCmd) (cs_Name exampleSpec)"
    by code_simp
  ultimately have "fst (EnsurePod goodEngine exampleRuntime exampleCmd ?w) \<noteq> Ok m" for m
    by (rule ensure_pod_not_idempotent [OF stu.libpod_unique_names_axioms])
  moreover have "sto_pods (snd (EnsurePod goodEngine exampleRuntime exampleCmd ?w)) = []" by code_simp
  ultimately show ?thesis by blast
qed

section \<open>Life of a pod: DeletePod\<close>

text \<open>C3: what a successful \<^verbatim>\<open>DeletePod\<close> of a whole pod guarantees: exactly one pod had the UID, it and its
  containers are gone, nothing else is, no pod with the UID is left, and the message is an empty status for the UID.\<close>

theorem delete_whole_pod:
  assumes "libpod_api lp ctrs pods" and "DeletePod lp r options w = (Ok m, w')" and "pd_Containers options = []"
  shows "m = NewPodStatusMsg (pd_PodUid options) [] []
    \<and> (\<exists>p\<in>pods w. filterLabels [(ContainerLabelPodUID, pd_PodUid options)] (pod_Labels p)
         \<and> pods w' = {q \<in> pods w. pod_ID q \<noteq> pod_ID p} \<and> ctrs w' = {c \<in> ctrs w. ctr_Pod c \<noteq> pod_ID p})
    \<and> (\<forall>q\<in>pods w'. \<not> filterLabels [(ContainerLabelPodUID, pd_PodUid options)] (pod_Labels q))"
  by (rule libpod_api.DeletePod_whole_Ok [OF assms])

text \<open>Witness: the example pod, with the other pod left in place.\<close>

theorem delete_whole_pod_witness:
  "\<exists>p\<in>sto_pod_set exampleWorld. filterLabels [(ContainerLabelPodUID, ''u1'')] (pod_Labels p)
     \<and> sto_pod_set (withCtrs [otherPause] [otherPod]) = {q \<in> sto_pod_set exampleWorld. pod_ID q \<noteq> pod_ID p}"
proof -
  have "DeletePod goodEngine exampleRuntime \<lparr>pd_PodUid = ''u1'', pd_Containers = []\<rparr> exampleWorld =
      (Ok (NewPodStatusMsg ''u1'' [] []), withCtrs [otherPause] [otherPod])"
    by code_simp
  from delete_whole_pod [OF sto.libpod_api_axioms this] show ?thesis by auto
qed

text \<open>\<^verbatim>\<open>DeletePod\<close> with a list of containers never removes any: for a non-empty UID and a non-empty list, whatever
  the outcome, the registered pods and containers are the same afterwards.\<close>

theorem delete_named_containers_keeps_all:
  assumes "libpod_api lp ctrs pods" and "pd_PodUid options \<noteq> []" and "pd_Containers options \<noteq> []"
  shows "ctrs (snd (DeletePod lp r options w)) = ctrs w \<and> pods (snd (DeletePod lp r options w)) = pods w"
  using libpod_api.DeletePod_named_keeps [OF assms] by (simp add: keeps_def same_regs_def)

text \<open>Witness: deleting the container \<^verbatim>\<open>web\<close> reports success and leaves it.\<close>

theorem delete_named_containers_keeps_all_witness:
  "sto_ctr_set (snd (DeletePod goodEngine exampleRuntime \<lparr>pd_PodUid = ''u1'', pd_Containers = [''web'']\<rparr> exampleWorld))
   = sto_ctr_set exampleWorld"
  using delete_named_containers_keeps_all
    [OF sto.libpod_api_axioms, where options = "\<lparr>pd_PodUid = ''u1'', pd_Containers = [''web'']\<rparr>"]
  by simp

text \<open>Naming a container that the pod does not have makes \<^verbatim>\<open>deleteContainer\<close> read the labels of a nil container:
  the step of \<^verbatim>\<open>DeletePod\<close> for that name panics instead of reporting not found.\<close>

theorem delete_unknown_container_panics:
  assumes "libpod_api lp ctrs pods" and "lp_AllContainers lp w = (Ok cs, w')"
    and "\<forall>c\<in>ctrs w. \<not> filterLabels [(ContainerLabelPodUID, u), (ContainerLabelPodContainer, n)] (ctr_Labels c)"
  shows "deleteNamedContainer lp u n w = (Panic ''nil pointer dereference'', w')"
  by (rule libpod_api.deleteNamedContainer_unknown [OF assms])

text \<open>Witness: a container \<^verbatim>\<open>db\<close> of the example pod.\<close>

theorem delete_unknown_container_panics_witness:
  "deleteNamedContainer goodEngine ''u1'' ''db'' exampleWorld = (Panic ''nil pointer dereference'', exampleWorld)"
proof (rule delete_unknown_container_panics [OF sto.libpod_api_axioms])
  show "lp_AllContainers goodEngine exampleWorld = (Ok [examplePause, exampleWeb, otherPause], exampleWorld)"
    by code_simp
  show "\<forall>c\<in>sto_ctr_set exampleWorld.
      \<not> filterLabels [(ContainerLabelPodUID, ''u1''), (ContainerLabelPodContainer, ''db'')] (ctr_Labels c)"
    by code_simp
qed

text \<open>The data of a pod is cleaned up on every exit of \<^verbatim>\<open>DeletePod\<close>, also when the pod was not found, when the
  deletion was refused and when only single containers were named: the last thing that happens is \<^verbatim>\<open>CleanupPodData\<close> on the
  directories of the UID.\<close>

theorem delete_pod_always_cleans_data:
  "\<exists>v. snd (DeletePod lp r options w) =
     snd (CleanupPodData lp (PodDir (rt_base r) (pd_PodUid options)) (PodRemoteVolumeDir (rt_base r) (pd_PodUid options) [])
            (PodTmpfsVolumeDir (rt_base r) (pd_PodUid options) []) (sc_Unmount lp) v)"
  unfolding DeletePod_def cleanupPodData_def deferAlways_snd snd_ignore by (rule exI) (rule refl)

text \<open>An empty UID is the directory of all pods: with a plain data directory, the directory that \<^verbatim>\<open>DeletePod\<close>
  removes for the empty UID contains the directory of every pod.\<close>

theorem empty_uid_covers_all_pods:
  assumes "br_dataDir r = CHR ''/'' # d" and "plain_elem uid"
  shows "PodDir r uid = PodDir r [] @ ''/'' @ uid"
  using assms by (simp add: PodDir_eq PodDir_empty)

text \<open>Witness: the directory of the pod \<^verbatim>\<open>u1\<close> of the example runtime.\<close>

theorem empty_uid_covers_all_pods_witness:
  "PodDir (rt_base exampleRuntime) ''u1'' = PodDir (rt_base exampleRuntime) [] @ ''/u1''"
  using empty_uid_covers_all_pods [of "rt_base exampleRuntime" "''data''" "''u1''"]
  by (simp add: exampleRuntime_def NewBaseRuntime_def plain_elem_def)

section \<open>Life of a pod: ListPods\<close>

text \<open>C30: listing is safe for healthy pods: as long as containers can be listed and pod ids are unique, a registered pod
  with a UID label and a registered pause container survives \<^verbatim>\<open>ListPods\<close>, with its pause container, whatever other pods the
  call removes on the way and whatever its outcome.\<close>

theorem list_pods_keeps_healthy:
  assumes "libpod_api lp ctrs pods" and "\<And>w. \<exists>cs w'. lp_AllContainers lp w = (Ok cs, w')"
    and "map_of (pod_Labels p) ContainerLabelPodUID = Some u"
    and "filterLabels [(ContainerLabelPodUID, u), (ContainerLabelPodContainer, ContainerNamePause)] (ctr_Labels c)"
    and "ctr_Pod c = pod_ID p" and "inj_on pod_ID (pods w)" and "p \<in> pods w" and "c \<in> ctrs w"
  shows "p \<in> pods (snd (ListPods lp r options w)) \<and> c \<in> ctrs (snd (ListPods lp r options w))"
  by (rule libpod_api.ListPods_healthy [OF assms])

text \<open>Witness: a healthy pod beside one without containers; the latter is removed.\<close>

theorem list_pods_keeps_healthy_witness:
  "examplePod \<in> sto_pod_set (snd (ListPods goodEngine exampleRuntime \<lparr>pl_All = True, pl_Names = []\<rparr>
     (withCtrs [examplePause] [otherPod, examplePod])))
   \<and> sto_pods (snd (ListPods goodEngine exampleRuntime \<lparr>pl_All = True, pl_Names = []\<rparr>
     (withCtrs [examplePause] [otherPod, examplePod]))) = [examplePod]"
proof
  let ?w = "withCtrs [examplePause] [otherPod, examplePod]"
  have "examplePod \<in> sto_pod_set (snd (ListPods goodEngine exampleRuntime \<lparr>pl_All = True, pl_Names = []\<rparr> ?w))
    \<and> examplePause \<in> sto_ctr_set (snd (ListPods goodEngine exampleRuntime \<lparr>pl_All = True, pl_Names = []\<rparr> ?w))"
  proof (rule list_pods_keeps_healthy [OF sto.libpod_api_axioms])
    show "\<exists>cs w'. lp_AllContainers goodEngine w = (Ok cs, w')" for w
      by (simp add: store_engine_def mayFail_def reading_def)
    show "map_of (pod_Labels examplePod) ContainerLabelPodUID = Some ''u1''" by code_simp
    show "filterLabels [(ContainerLabelPodUID, ''u1''), (ContainerLabelPodContainer, ContainerNamePause)] (ctr_Labels examplePause)"
      by code_simp
    show "inj_on pod_ID (sto_pod_set ?w)"
      by (simp add: withCtrs_def sto_pod_set_def otherPod_def examplePod_def mkPod_def)
  qed (simp_all add: examplePause_def mkCtr_def examplePod_def mkPod_def withCtrs_def sto_pod_set_def sto_ctr_set_def)
  then show "examplePod \<in> sto_pod_set (snd (ListPods goodEngine exampleRuntime \<lparr>pl_All = True, pl_Names = []\<rparr> ?w))" ..
  show "sto_pods (snd (ListPods goodEngine exampleRuntime \<lparr>pl_All = True, pl_Names = []\<rparr> ?w)) = [examplePod]"
    by code_simp
qed

text \<open>C31: what \<^verbatim>\<open>ListPods\<close> reports: every status belongs to a registered pod whose UID label it carries, that pod has a
  registered pause container, every reported container name is that of a registered container of the pod, and a status with
  network data is that of a pod whose pause container is marked host network (abbot is asked for host network pods only).\<close>

theorem list_pods_messages:
  assumes "libpod_api lp ctrs pods" and "ListPods lp r options w = (Ok ms, w')" and "m \<in> set ms"
  shows "\<exists>p\<in>pods w. map_of (pod_Labels p) ContainerLabelPodUID = Some (ps_Uid m)
    \<and> (\<exists>c\<in>ctrs w. filterLabels [(ContainerLabelPodUID, ps_Uid m), (ContainerLabelPodContainer, ContainerNamePause)] (ctr_Labels c)
        \<and> (ps_Network m \<noteq> [] \<longrightarrow> IsHostNetwork (ctr_Labels c)))
    \<and> dom (map_of (ps_Containers m)) \<subseteq> {gm_str (ctr_Labels c) ContainerLabelPodContainer | c.
         c \<in> ctrs w \<and> ctr_Pod c = pod_ID p \<and> gm_str (ctr_Labels c) ContainerLabelPodUID = ps_Uid m}"
  by (rule libpod_api.ListPods_Ok [OF assms])

text \<open>Witness: the status of the example pod.\<close>

theorem list_pods_messages_witness:
  "\<exists>p\<in>sto_pod_set exampleWorld. map_of (pod_Labels p) ContainerLabelPodUID = Some ''u1''"
proof -
  let ?ms = "case fst (ListPods goodEngine exampleRuntime \<lparr>pl_All = True, pl_Names = []\<rparr> exampleWorld) of
      Ok ms \<Rightarrow> ms | _ \<Rightarrow> []"
  have "ListPods goodEngine exampleRuntime \<lparr>pl_All = True, pl_Names = []\<rparr> exampleWorld = (Ok ?ms, exampleWorld)"
    by code_simp
  moreover have "hd ?ms \<in> set ?ms" by code_simp
  ultimately have "\<exists>p\<in>sto_pod_set exampleWorld. map_of (pod_Labels p) ContainerLabelPodUID = Some (ps_Uid (hd ?ms))"
    using list_pods_messages [OF sto.libpod_api_axioms] by blast
  moreover have "ps_Uid (hd ?ms) = ''u1''" by code_simp
  ultimately show ?thesis by simp
qed

text \<open>A failing container listing makes \<^verbatim>\<open>ListPods\<close> destroy every pod: when containers cannot be listed but pods can
  be listed and removed, listing all pods answers with an empty list and no error, and no pod is left.\<close>

theorem list_pods_destroys_on_listing_failure:
  assumes "libpod_api lp ctrs pods" and "\<And>w. \<exists>e w'. lp_AllContainers lp w = (Err e, w')"
    and "\<And>q w. fst (lp_RemovePod lp q True True w) = Ok ()"
    and "lp_AllPods lp w = (Ok ps, w1)" and "\<forall>q\<in>pods w. map_of (pod_Labels q) ContainerLabelPodUID \<noteq> None"
    and "pl_All options"
  shows "\<exists>w'. ListPods lp r options w = (Ok [], w') \<and> pods w' = {}"
  by (rule libpod_api.ListPods_destroys [OF assms])

text \<open>Witness: both pods of the example world.\<close>

theorem list_pods_destroys_on_listing_failure_witness:
  "\<exists>w'. ListPods (store_engine [''AllContainers'']) exampleRuntime \<lparr>pl_All = True, pl_Names = []\<rparr> exampleWorld = (Ok [], w')
     \<and> sto_pod_set w' = {}"
  by (rule list_pods_destroys_on_listing_failure [OF sto.libpod_api_axioms, where ps = "[examplePod, otherPod]"])
     (simp_all add: store_engine_def mayFail_def sto_RemovePod_def reading_def exampleWorld_def withCtrs_def
        sto_pod_set_def examplePod_def otherPod_def mkPod_def)

end
